(* ===== verification/Cloud9_Prelude.thy ===== *)
theory Cloud9_Prelude
  imports Complex_Main "HOL-Library.Word"
begin

text \<open>
  Shared vocabulary of the ToCloud9 development: the machine integer types of the Go
  sources, the Go idioms that occur in every service (cutting the first matching element
  out of a slice, deleting keys from a map, decimal formatting of map keys, IEEE rounding
  of percentages) and the generic lemmas on them that the component theories use.
\<close>

section \<open>Machine integers\<close>

type_synonym u8 = "8 word"
type_synonym u16 = "16 word"
type_synonym u32 = "32 word"
type_synonym u64 = "64 word"

named_theorems go_simps "equations of the Go idioms used by every component"

lemma word_le_unat: "a \<le> b \<longleftrightarrow> unat a \<le> unat b"
  for a b :: "'a::len word"
  by (rule word_le_nat_alt)

lemma unat_add_no_wrap: "unat a + unat b < 2 ^ LENGTH('a) \<Longrightarrow> unat (a + b) = unat a + unat b"
  for a b :: "'a::len word"
  by (simp add: unat_word_ariths)

lemma unat_sub_le: "b \<le> a \<Longrightarrow> unat (a - b) = unat a - unat b"
  for a b :: "'a::len word"
  by (rule unat_sub)

lemma word_less_inc:
  fixes w :: "'a::len word"
  assumes "w \<noteq> - 1"
  shows "w < w + 1"
proof -
  have "w < - 1" using assms by (simp add: word_order.not_eq_extremum)
  then have "unat w < 2 ^ LENGTH('a) - 1"
    by (simp add: word_less_nat_alt unsigned_minus_1_eq_mask mask_eq_exp_minus_1)
  then show ?thesis by (simp add: word_less_nat_alt unat_word_ariths unat_eq_0)
qed

section \<open>Cutting one element out of a slice\<close>

text \<open>
  The Go idiom \<^verbatim>\<open>for i := range xs { if p(xs[i]) { xs = append(xs[:i], xs[i+1:]...); break } }\<close>.
\<close>

fun remove_first :: "('a \<Rightarrow> bool) \<Rightarrow> 'a list \<Rightarrow> 'a list" where
  "remove_first p [] = []"
| "remove_first p (x # xs) = (if p x then xs else x # remove_first p xs)"

lemma set_remove_first_subset: "set (remove_first p xs) \<subseteq> set xs"
  by (induction xs) auto

lemma remove_first_none: "\<forall>x\<in>set xs. \<not> p x \<Longrightarrow> remove_first p xs = xs"
  by (induction xs) auto

lemma length_remove_first:
  "length (remove_first p xs) = (if \<exists>x\<in>set xs. p x then length xs - 1 else length xs)"
  by (induction xs) (auto simp: Suc_diff_le dest: length_pos_if_in_set)

lemma distinct_remove_first: "distinct xs \<Longrightarrow> distinct (remove_first p xs)"
  by (induction xs) (use set_remove_first_subset in fastforce)+

lemma distinct_map_remove_first: "distinct (map f xs) \<Longrightarrow> distinct (map f (remove_first p xs))"
proof (induction xs)
  case (Cons x xs)
  then show ?case using set_remove_first_subset [of p xs] by auto
qed simp

lemma filter_remove_first: "\<forall>x\<in>set xs. p x \<longrightarrow> \<not> q x \<Longrightarrow> filter q (remove_first p xs) = filter q xs"
  by (induction xs) auto

text \<open>Where at most one element matches, cutting the first match removes every match.\<close>

lemma remove_first_unique_key:
  "distinct (map f xs) \<Longrightarrow> remove_first (\<lambda>x. f x = k) xs = filter (\<lambda>x. f x \<noteq> k) xs"
proof (induction xs)
  case (Cons x xs)
  show ?case
  proof (cases "f x = k")
    case True
    with Cons.prems have "\<forall>y\<in>set xs. f y \<noteq> k" by (auto simp: image_iff)
    with True show ?thesis by simp
  qed (use Cons in simp)
qed simp

lemma remove_first_distinct:
  "distinct xs \<Longrightarrow> remove_first (\<lambda>x. x = k) xs = filter (\<lambda>x. x \<noteq> k) xs"
  using remove_first_unique_key [of id] by simp

section \<open>Maps\<close>

text \<open>\<^verbatim>\<open>for _, k := range ks { delete(m, k) }\<close>\<close>

fun delete_all :: "('k \<rightharpoonup> 'v) \<Rightarrow> 'k list \<Rightarrow> ('k \<rightharpoonup> 'v)" where
  "delete_all m [] = m"
| "delete_all m (k # ks) = delete_all (m(k := None)) ks"

lemma delete_all_apply [simp]: "delete_all m ks k = (if k \<in> set ks then None else m k)"
  by (induction ks arbitrary: m) auto

text \<open>\<^verbatim>\<open>for _, k := range ks { m[k] = v }\<close>\<close>

fun put_all :: "('k \<rightharpoonup> 'v) \<Rightarrow> 'k list \<Rightarrow> 'v \<Rightarrow> ('k \<rightharpoonup> 'v)" where
  "put_all m [] v = m"
| "put_all m (k # ks) v = put_all (m(k \<mapsto> v)) ks v"

lemma put_all_apply [simp]: "put_all m ks v k = (if k \<in> set ks then Some v else m k)"
  by (induction ks arbitrary: m) auto

section \<open>Decimal formatting\<close>

text \<open>\<^verbatim>\<open>fmt.Sprintf("%d", n)\<close> for an unsigned \<open>n\<close>.\<close>

definition digit :: "nat \<Rightarrow> char" where
  "digit n = char_of (48 + n)"

fun dec :: "nat \<Rightarrow> string" where
  "dec n = (if n < 10 then [digit n] else dec (n div 10) @ [digit (n mod 10)])"

declare dec.simps [simp del]

definition undec :: "string \<Rightarrow> nat" where
  "undec s = foldl (\<lambda>a c. 10 * a + (of_char c - 48)) 0 s"

lemma of_char_digit [simp]: "n < 10 \<Longrightarrow> of_char (digit n) = (48 + n :: nat)"
  by (simp add: digit_def)

lemma undec_dec [simp]: "undec (dec n) = n"
proof (induction n rule: dec.induct)
  case (1 n)
  then show ?case
    by (subst dec.simps) (auto simp: undec_def)
qed

lemma dec_inject [simp]: "dec m = dec n \<longleftrightarrow> m = n"
  by (metis undec_dec)

lemma dec_no_colon: "c \<in> set (dec n) \<Longrightarrow> c \<noteq> CHR '':''"
proof (induction n rule: dec.induct)
  case (1 n)
  have *: "digit k \<noteq> CHR '':''" if "k < 10" for k
  proof
    assume "digit k = CHR '':''"
    then have "of_char (digit k) = (58 :: nat)" by simp
    with that show False by simp
  qed
  from 1 show ?case
    by (subst (asm) dec.simps) (auto simp: * * [symmetric] split: if_splits)
qed

lemma split_at_sep:
  assumes "x \<notin> set a" "x \<notin> set b"
  shows "a @ x # r = b @ x # s \<longleftrightarrow> a = b \<and> r = s"
  using assms
proof (induction a arbitrary: b)
  case Nil
  then show ?case by (cases b) auto
next
  case (Cons y a)
  then show ?case by (cases b) auto
qed

text \<open>A key formatted as \<^verbatim>\<open>"%d:<rest>"\<close> determines its number and its rest.\<close>

lemma dec_colon_inject [simp]:
  "dec m @ CHR '':'' # r = dec n @ CHR '':'' # s \<longleftrightarrow> m = n \<and> r = s"
proof -
  have "CHR '':'' \<notin> set (dec k)" for k using dec_no_colon by blast
  then show ?thesis by (subst split_at_sep) auto
qed

text \<open>\<^verbatim>\<open>strings.ToLower\<close> on ASCII.\<close>

definition to_lower :: "char \<Rightarrow> char" where
  "to_lower c = (let n = (of_char c :: nat) in if 65 \<le> n \<and> n \<le> 90 then char_of (n + 32) else c)"

definition ToLower :: "string \<Rightarrow> string" where
  "ToLower = map to_lower"

section \<open>IEEE 754 rounding\<close>

text \<open>
  Rounding to nearest, ties to even, with \<open>p\<close> significant bits: \<open>p = 53\<close> is Go's
  \<^verbatim>\<open>float64\<close>, \<open>p = 24\<close> its \<^verbatim>\<open>float32\<close>. The services round quotients
  of 64-bit counts only, so neither the subnormal nor the overflow range is reached.
\<close>

fun bit_length :: "int \<Rightarrow> int" where
  "bit_length n = (if n \<le> 0 then 0 else 1 + bit_length (n div 2))"

declare bit_length.simps [simp del]

text \<open>The exponent \<open>e\<close> with \<open>2^e \<le> x < 2^(e+1)\<close>, for a positive \<open>x\<close>.\<close>

definition pow2 :: "int \<Rightarrow> rat" where
  "pow2 e = (if 0 \<le> e then of_int (2 ^ nat e) else 1 / of_int (2 ^ nat (- e)))"

definition ilog2 :: "rat \<Rightarrow> int" where
  "ilog2 x = (case quotient_of x of (n, d) \<Rightarrow>
     (let e = bit_length n - bit_length d in if pow2 e \<le> x then e else e - 1))"

definition round_even :: "rat \<Rightarrow> int" where
  "round_even x = (let f = \<lfloor>x\<rfloor>; r = x - of_int f in
     if r < 1 / 2 then f else if 1 / 2 < r then f + 1 else if even f then f else f + 1)"

definition ieee_round :: "nat \<Rightarrow> rat \<Rightarrow> rat" where
  "ieee_round p x = (if x = 0 then 0 else
     (let u = pow2 (ilog2 \<bar>x\<bar> - int p + 1) in sgn x * of_int (round_even (\<bar>x\<bar> / u)) * u))"

abbreviation f64 :: "rat \<Rightarrow> rat" where "f64 \<equiv> ieee_round 53"
abbreviation f32 :: "rat \<Rightarrow> rat" where "f32 \<equiv> ieee_round 24"

lemma bit_length_bounds:
  assumes "0 < n"
  shows "0 < bit_length n" "2 ^ nat (bit_length n - 1) \<le> n" "n < 2 ^ nat (bit_length n)"
proof -
  have "0 < bit_length n \<and> 2 ^ nat (bit_length n - 1) \<le> n \<and> n < 2 ^ nat (bit_length n)"
    using assms
  proof (induction n rule: bit_length.induct)
    case (1 n)
    show ?case
    proof (cases "n = 1")
      case True
      then show ?thesis by (simp add: bit_length.simps)
    next
      case False
      define b where "b = bit_length (n div 2)"
      have "0 < b" "2 ^ nat (b - 1) \<le> n div 2" "n div 2 < 2 ^ nat b"
        using "1.IH" "1.prems" False by (auto simp: b_def)
      moreover have "bit_length n = 1 + b" using "1.prems" by (simp add: bit_length.simps b_def)
      moreover have "(2::int) ^ nat b = 2 * 2 ^ nat (b - 1)"
        using \<open>0 < b\<close> by (simp flip: power_Suc add: Suc_nat_eq_nat_zadd1)
      moreover have "(2::int) ^ nat (1 + b) = 2 * 2 ^ nat b"
        using \<open>0 < b\<close> by (simp flip: power_Suc add: Suc_nat_eq_nat_zadd1)
      ultimately show ?thesis by auto
    qed
  qed
  then show "0 < bit_length n" "2 ^ nat (bit_length n - 1) \<le> n" "n < 2 ^ nat (bit_length n)"
    by auto
qed

lemma pow2_powi: "pow2 e = 2 powi e"
  by (simp add: pow2_def power_int_def field_simps)

lemma pow2_ilog2_le:
  assumes "0 < x"
  shows "pow2 (ilog2 x) \<le> x"
proof -
  obtain n d where q: "quotient_of x = (n, d)" by force
  then have x: "x = of_int n / of_int d" "0 < d" by (auto simp: quotient_of_div quotient_of_denom_pos)
  with assms have n: "0 < n" by (simp add: zero_less_divide_iff)
  let ?a = "bit_length n" and ?b = "bit_length d"
  have "(2::rat) powi (?a - 1) = of_int (2 ^ nat (?a - 1))"
    using bit_length_bounds(1) [OF n] by (simp add: power_int_def)
  also have "\<dots> \<le> of_int n" using bit_length_bounds(2) [OF n] by (simp only: of_int_le_iff)
  finally have a: "(2::rat) powi (?a - 1) \<le> of_int n" .
  have "of_int d \<le> (of_int (2 ^ nat ?b) :: rat)"
    using bit_length_bounds(3) [OF x(2)] by (simp only: of_int_le_iff)
  also have "\<dots> = 2 powi ?b"
    using bit_length_bounds(1) [OF x(2)] by (simp add: power_int_def)
  finally have b: "(of_int d :: rat) \<le> 2 powi ?b" .
  have "(2::rat) powi (?a - ?b - 1) = 2 powi (?a - 1) / 2 powi ?b"
    by (simp add: power_int_diff)
  also have "\<dots> \<le> of_int n / of_int d"
    using a b n x(2) by (intro frac_le) auto
  finally have "pow2 (?a - ?b - 1) \<le> x" by (simp add: pow2_powi x)
  then show ?thesis by (simp add: ilog2_def q Let_def)
qed

lemma round_even_error: "\<bar>of_int (round_even x) - x\<bar> \<le> 1 / 2"
  using floor_correct [of x] by (auto simp: round_even_def Let_def abs_le_iff)

lemma ieee_round_error:
  assumes "0 < x"
  shows "\<bar>ieee_round p x - x\<bar> \<le> x / 2 ^ p"
proof -
  define u where "u = pow2 (ilog2 x - int p + 1)"
  have u: "0 < u" by (simp add: u_def pow2_powi)
  have "u = pow2 (ilog2 x) * 2 / 2 ^ p"
    by (simp add: u_def pow2_powi power_int_diff power_int_add)
  with pow2_ilog2_le [OF assms] have ux: "u \<le> x * 2 / 2 ^ p"
    by (simp add: divide_right_mono)
  have "ieee_round p x - x = (of_int (round_even (x / u)) - x / u) * u"
    using assms u unfolding ieee_round_def Let_def by (simp add: u_def [symmetric] left_diff_distrib)
  then have "\<bar>ieee_round p x - x\<bar> = \<bar>of_int (round_even (x / u)) - x / u\<bar> * u"
    using u by (simp add: abs_mult)
  also have "\<dots> \<le> 1 / 2 * u" using round_even_error u by (intro mult_right_mono) auto
  also have "\<dots> \<le> x / 2 ^ p" using ux by (simp add: mult.commute)
  finally show ?thesis .
qed

text \<open>
  \<^verbatim>\<open>math.Ceil(float64(t) / float64(n))\<close> is not below the exact quotient: the rounding
  error of the quotient, times \<open>n\<close>, is less than one.
\<close>

lemma ceiling_f64_ge:
  fixes t n :: nat
  assumes "0 < n" "t < 2 ^ 32"
  shows "int t \<le> \<lceil>f64 (of_nat t / of_nat n)\<rceil> * int n"
proof (cases "t = 0")
  case False
  define x where "x = (of_nat t / of_nat n :: rat)"
  define c where "c = \<lceil>f64 x\<rceil>"
  have x: "0 < x" using False assms(1) by (simp add: x_def)
  have "x * of_nat n = of_nat t" using assms(1) by (simp add: x_def)
  have "x - x / 2 ^ 53 \<le> f64 x" using ieee_round_error [OF x, of 53] by linarith
  also have "f64 x \<le> of_int c" by (simp add: c_def)
  finally have "(x - x / 2 ^ 53) * of_nat n \<le> of_int c * of_nat n" by (intro mult_right_mono) auto
  then have "of_nat t - of_nat t / 2 ^ 53 \<le> (of_int (c * int n) :: rat)"
    using \<open>x * of_nat n = of_nat t\<close> by (simp add: left_diff_distrib)
  moreover have "(of_nat t :: rat) / 2 ^ 53 < 1" using assms(2) by simp
  ultimately have "(of_nat t :: rat) - 1 < of_int (c * int n)" by linarith
  then have "int t - 1 < c * int n"
    by (metis of_int_1 of_int_diff of_int_less_iff of_int_of_nat_eq)
  then show ?thesis by (simp add: c_def x_def)
qed (simp add: ieee_round_def)

end
