(* ===== verification/Guid_Diapasons.thy ===== *)
theory Guid_Diapasons
  imports Cloud9_Prelude
begin

text \<open>
  The local GUID cache of the guid server, \<^verbatim>\<open>apps/guidserver/service/guid-diapasons.go\<close>:
  closed ranges of 64-bit GUIDs, each with the next GUID to hand out, and the operations on
  the list of them. The lemmas describe what \<open>UseGuids\<close> hands out and what it keeps, as
  sets of natural numbers.
\<close>

section \<open>Model\<close>

record GuidDiapason =
  Start :: u64
  End :: u64

record GuidDiapasonWithState = GuidDiapason +
  CurrentGuid :: u64

definition GuidsLeft :: "GuidDiapasonWithState \<Rightarrow> u64" where
  "GuidsLeft d = (if End d < CurrentGuid d then 0 else End d - CurrentGuid d + 1)"

definition TotalCount :: "GuidDiapasonWithState \<Rightarrow> u64" where
  "TotalCount d = End d - Start d + 1"

record AvailableDiapasons =
  Diapasons :: "GuidDiapasonWithState list"

text \<open>
  \<open>None\<close> is a result that is not a finite number (the counts add up to \<open>0\<close> modulo
  \<open>2^64\<close>): every comparison of the caller with it is false.
\<close>

definition PctUsage :: "AvailableDiapasons \<Rightarrow> rat option" where
  "PctUsage a = (if Diapasons a = [] then Some 100 else
     (let totalCount = sum_list (map TotalCount (Diapasons a));
          totalLeft = sum_list (map GuidsLeft (Diapasons a))
      in if totalCount = 0 then None
         else Some (f32 (100 - f32 (f64 (f64 (of_int (uint totalLeft)) /
                                        f64 (f64 (of_int (uint totalCount)) / 100)))))))"

text \<open>
  The loop of \<open>UseGuids\<close>. The branch that drains a diapason assigns \<open>CurrentGuid\<close> of the
  loop variable, a copy of the slice's element: the element itself keeps its value.
\<close>

fun UseGuids_loop ::
  "GuidDiapasonWithState list \<Rightarrow> u64 \<Rightarrow> GuidDiapason list \<times> GuidDiapasonWithState list" where
  "UseGuids_loop [] remaining = ([], [])"
| "UseGuids_loop (d # ds) remaining =
     (let left = GuidsLeft d in
      if remaining \<le> left
      then ([\<lparr>Start = CurrentGuid d, End = CurrentGuid d - 1 + remaining\<rparr>],
            d\<lparr>CurrentGuid := CurrentGuid d + remaining\<rparr> # ds)
      else (let (rs, ds') = UseGuids_loop ds (remaining - left)
            in (\<lparr>Start = CurrentGuid d, End = End d\<rparr> # rs, d # ds')))"

fun CleanupEmpty_loop :: "GuidDiapasonWithState list \<Rightarrow> GuidDiapasonWithState list" where
  "CleanupEmpty_loop [] = []"
| "CleanupEmpty_loop (d # ds) = (if GuidsLeft d \<noteq> 0 then d # ds else CleanupEmpty_loop ds)"

definition CleanupEmpty :: "AvailableDiapasons \<Rightarrow> AvailableDiapasons" where
  "CleanupEmpty a = a\<lparr>Diapasons := CleanupEmpty_loop (Diapasons a)\<rparr>"

definition UseGuids :: "AvailableDiapasons \<Rightarrow> u64 \<Rightarrow> GuidDiapason list \<times> AvailableDiapasons" where
  "UseGuids a guidsAmount =
     (let (rs, ds) = UseGuids_loop (Diapasons a) guidsAmount
      in (rs, CleanupEmpty (a\<lparr>Diapasons := ds\<rparr>)))"

definition AddDiapason :: "AvailableDiapasons \<Rightarrow> GuidDiapason \<Rightarrow> AvailableDiapasons" where
  "AddDiapason a d =
     (let ds = Diapasons a in
      if ds \<noteq> [] \<and> End (last ds) = Start d - 1
      then a\<lparr>Diapasons := butlast ds @ [(last ds)\<lparr>End := End d\<rparr>]\<rparr>
      else a\<lparr>Diapasons := ds @ [\<lparr>Start = Start d, End = End d, CurrentGuid = Start d\<rparr>]\<rparr>)"

section \<open>The GUIDs a range holds\<close>

definition range_guids :: "GuidDiapason \<Rightarrow> nat set" where
  "range_guids d = {unat (Start d)..unat (End d)}"

definition left_guids :: "GuidDiapasonWithState \<Rightarrow> nat set" where
  "left_guids d = {unat (CurrentGuid d)..unat (End d)}"

definition cached :: "AvailableDiapasons \<Rightarrow> nat set" where
  "cached a = (\<Union>d\<in>set (Diapasons a). left_guids d)"

text \<open>
  A well-formed diapason ends below the top of the 64-bit range (so that counting its GUIDs
  does not wrap) and starts above zero.
\<close>

definition wf_diapason :: "GuidDiapasonWithState \<Rightarrow> bool" where
  "wf_diapason d \<longleftrightarrow> 0 < unat (CurrentGuid d) \<and> unat (End d) < 2 ^ 64 - 1
     \<and> unat (CurrentGuid d) \<le> unat (End d) + 1"

definition wf_cache :: "AvailableDiapasons \<Rightarrow> bool" where
  "wf_cache a \<longleftrightarrow> (\<forall>d\<in>set (Diapasons a). wf_diapason d)"

text \<open>Consecutive elements of the cache hold disjoint sets of GUIDs.\<close>

fun disjoint_list :: "'a set list \<Rightarrow> bool" where
  "disjoint_list [] = True"
| "disjoint_list (A # As) = ((\<forall>B\<in>set As. A \<inter> B = {}) \<and> disjoint_list As)"

lemma disjoint_list_append:
  "disjoint_list (As @ Bs) \<longleftrightarrow>
     disjoint_list As \<and> disjoint_list Bs \<and> (\<forall>A\<in>set As. \<forall>B\<in>set Bs. A \<inter> B = {})"
  by (induction As) auto

section \<open>What the operations hand out and keep\<close>

lemma GuidsLeft_card:
  assumes "wf_diapason d"
  shows "unat (GuidsLeft d) = card (left_guids d)"
proof (cases "End d < CurrentGuid d")
  case True
  then show ?thesis by (simp add: GuidsLeft_def left_guids_def word_less_nat_alt)
next
  case False
  then have le: "unat (CurrentGuid d) \<le> unat (End d)" by (simp add: word_le_unat not_less)
  then have sub: "unat (End d - CurrentGuid d) = unat (End d) - unat (CurrentGuid d)"
    by (simp add: unat_sub word_le_unat)
  have "unat (End d - CurrentGuid d + 1) = unat (End d - CurrentGuid d) + unat (1 :: u64)"
    using assms by (intro unat_add_no_wrap) (auto simp: sub wf_diapason_def)
  with False le show ?thesis by (simp add: GuidsLeft_def left_guids_def sub)
qed

lemma GuidsLeft_0: "wf_diapason d \<Longrightarrow> GuidsLeft d = 0 \<longleftrightarrow> left_guids d = {}"
proof -
  assume wf: "wf_diapason d"
  have "GuidsLeft d = 0 \<longleftrightarrow> unat (GuidsLeft d) = 0" by (simp add: unat_eq_zero)
  with GuidsLeft_card [OF wf] show ?thesis by (auto simp: left_guids_def)
qed

text \<open>Handing \<open>n\<close> GUIDs out of a diapason that holds them splits its GUIDs.\<close>

definition head_range :: "GuidDiapasonWithState \<Rightarrow> u64 \<Rightarrow> GuidDiapason" where
  "head_range d n = \<lparr>Start = CurrentGuid d, End = CurrentGuid d - 1 + n\<rparr>"

definition advance :: "GuidDiapasonWithState \<Rightarrow> u64 \<Rightarrow> GuidDiapasonWithState" where
  "advance d n = d\<lparr>CurrentGuid := CurrentGuid d + n\<rparr>"

lemma fit_bound:
  assumes "wf_diapason d" "n \<le> GuidsLeft d"
  shows "unat (CurrentGuid d) + unat n \<le> unat (End d) + 1"
proof -
  have "unat n \<le> card (left_guids d)"
    using assms GuidsLeft_card by (simp add: word_le_unat)
  then show ?thesis using assms(1) by (auto simp: left_guids_def wf_diapason_def)
qed

lemma unat_advance:
  assumes "wf_diapason d" "n \<le> GuidsLeft d"
  shows "unat (CurrentGuid d + n) = unat (CurrentGuid d) + unat n"
    and "unat (CurrentGuid d - 1 + n) = unat (CurrentGuid d) - 1 + unat n"
proof -
  have b: "unat (CurrentGuid d) + unat n < 2 ^ 64" and pos: "0 < unat (CurrentGuid d)"
    using fit_bound [OF assms] assms(1) by (auto simp: wf_diapason_def)
  from b show "unat (CurrentGuid d + n) = unat (CurrentGuid d) + unat n"
    by (intro unat_add_no_wrap) simp
  from pos have "1 \<le> CurrentGuid d" by (simp add: word_le_unat)
  then have "unat (CurrentGuid d - 1) = unat (CurrentGuid d) - 1" by (simp add: unat_sub)
  with b pos show "unat (CurrentGuid d - 1 + n) = unat (CurrentGuid d) - 1 + unat n"
    by (subst unat_add_no_wrap) auto
qed

lemma fit_guids:
  assumes "wf_diapason d" "n \<le> GuidsLeft d"
  shows "range_guids (head_range d n) = {unat (CurrentGuid d)..<unat (CurrentGuid d) + unat n}"
    and "left_guids (advance d n) = {unat (CurrentGuid d) + unat n..unat (End d)}"
    and "wf_diapason (advance d n)"
  using fit_bound [OF assms] unat_advance [OF assms] assms(1)
  by (auto simp: range_guids_def head_range_def left_guids_def advance_def wf_diapason_def)

lemma fit_split:
  assumes "wf_diapason d" "n \<le> GuidsLeft d"
  shows "range_guids (head_range d n) \<union> left_guids (advance d n) = left_guids d"
    and "range_guids (head_range d n) \<inter> left_guids (advance d n) = {}"
    and "card (range_guids (head_range d n)) = unat n"
proof -
  let ?c = "unat (CurrentGuid d)"
  have b: "?c + unat n \<le> unat (End d) + 1" by (rule fit_bound [OF assms])
  show "range_guids (head_range d n) \<union> left_guids (advance d n) = left_guids d"
    unfolding fit_guids [OF assms] using b by (auto simp: left_guids_def)
  show "range_guids (head_range d n) \<inter> left_guids (advance d n) = {}"
    unfolding fit_guids [OF assms] by auto
  show "card (range_guids (head_range d n)) = unat n"
    unfolding fit_guids [OF assms] by simp
qed

lemma UseGuids_loop_fit:
  "n \<le> GuidsLeft d \<Longrightarrow> UseGuids_loop (d # ds) n = ([head_range d n], advance d n # ds)"
  by (simp add: head_range_def advance_def)

lemma UseGuids_loop_drain:
  "\<not> n \<le> GuidsLeft d \<Longrightarrow> UseGuids_loop (d # ds) n =
     (\<lparr>Start = CurrentGuid d, End = End d\<rparr> # fst (UseGuids_loop ds (n - GuidsLeft d)),
      d # snd (UseGuids_loop ds (n - GuidsLeft d)))"
  by (simp add: split_beta Let_def)

declare UseGuids_loop.simps(2) [simp del]

lemma cached_CleanupEmpty_loop:
  "\<forall>d\<in>set ds. wf_diapason d \<Longrightarrow>
     (\<Union>d\<in>set (CleanupEmpty_loop ds). left_guids d) = (\<Union>d\<in>set ds. left_guids d)"
  by (induction ds) (auto simp: GuidsLeft_0)

lemma set_CleanupEmpty_loop: "set (CleanupEmpty_loop ds) \<subseteq> set ds"
  by (induction ds) auto

lemma disjoint_CleanupEmpty_loop:
  "disjoint_list (map f ds) \<Longrightarrow> disjoint_list (map f (CleanupEmpty_loop ds))"
  by (induction ds) auto

lemma cached_CleanupEmpty: "wf_cache a \<Longrightarrow> cached (CleanupEmpty a) = cached a"
  by (simp add: cached_def wf_cache_def CleanupEmpty_def cached_CleanupEmpty_loop)

lemma wf_CleanupEmpty: "wf_cache a \<Longrightarrow> wf_cache (CleanupEmpty a)"
  using set_CleanupEmpty_loop by (fastforce simp: wf_cache_def CleanupEmpty_def)

definition issued :: "GuidDiapason list \<Rightarrow> nat set" where
  "issued rs = (\<Union>r\<in>set rs. range_guids r)"

definition total_left :: "AvailableDiapasons \<Rightarrow> nat" where
  "total_left a = (\<Sum>d\<leftarrow>Diapasons a. card (left_guids d))"

definition disjoint_cache :: "AvailableDiapasons \<Rightarrow> bool" where
  "disjoint_cache a \<longleftrightarrow> disjoint_list (map left_guids (Diapasons a))"

lemma UseGuids_fit:
  assumes "Diapasons a = d # ds" "n \<le> GuidsLeft d"
  shows "UseGuids a n = ([head_range d n], CleanupEmpty (a\<lparr>Diapasons := advance d n # ds\<rparr>))"
  using assms by (simp add: UseGuids_def UseGuids_loop_fit)

lemma UseGuids_loop_all:
  assumes "\<forall>d\<in>set ds. wf_diapason d"
    and "(\<Sum>d\<leftarrow>ds. card (left_guids d)) < unat n"
  shows "UseGuids_loop ds n = (map (\<lambda>d. \<lparr>Start = CurrentGuid d, End = End d\<rparr>) ds, ds)"
  using assms
proof (induction ds arbitrary: n)
  case (Cons d ds)
  then have left: "unat (GuidsLeft d) = card (left_guids d)" by (simp add: GuidsLeft_card)
  with Cons.prems have lt: "GuidsLeft d < n" by (simp add: word_less_nat_alt)
  then have "unat (n - GuidsLeft d) = unat n - card (left_guids d)"
    by (simp add: unat_sub left)
  with Cons.prems have "(\<Sum>d\<leftarrow>ds. card (left_guids d)) < unat (n - GuidsLeft d)" by simp
  with Cons lt show ?case by (simp add: UseGuids_loop_drain not_le)
qed simp

lemma UseGuids_loop_count:
  assumes "\<forall>d\<in>set ds. wf_diapason d"
  shows "(\<Sum>r\<leftarrow>fst (UseGuids_loop ds n). card (range_guids r))
           = min (unat n) ((\<Sum>d\<leftarrow>ds. card (left_guids d)))
         \<and> issued (fst (UseGuids_loop ds n)) \<subseteq> (\<Union>d\<in>set ds. left_guids d)"
  using assms
proof (induction ds arbitrary: n)
  case Nil
  then show ?case by (simp add: issued_def)
next
  case (Cons d ds)
  then have wf: "wf_diapason d" by simp
  note left = GuidsLeft_card [OF wf]
  show ?case
  proof (cases "n \<le> GuidsLeft d")
    case True
    have "unat n \<le> card (left_guids d)" using True left by (simp add: word_le_unat)
    with True fit_split [OF wf True] show ?thesis by (auto simp: UseGuids_loop_fit issued_def)
  next
    case False
    then have gt: "card (left_guids d) < unat n" by (simp add: left word_less_nat_alt not_le)
    from False have sub: "unat (n - GuidsLeft d) = unat n - card (left_guids d)"
      by (simp add: unat_sub left)
    have r: "range_guids \<lparr>Start = CurrentGuid d, End = End d\<rparr> = left_guids d"
      by (simp add: range_guids_def left_guids_def)
    from Cons.IH [of "n - GuidsLeft d"] Cons.prems sub gt False r show ?thesis
      by (auto simp: UseGuids_loop_drain issued_def)
  qed
qed

lemma issued_UseGuids_all:
  assumes "wf_cache a" "total_left a < unat n"
  shows "issued (fst (UseGuids a n)) = cached a"
    and "snd (UseGuids a n) = CleanupEmpty a"
proof -
  have *: "UseGuids_loop (Diapasons a) n =
      (map (\<lambda>d. \<lparr>Start = CurrentGuid d, End = End d\<rparr>) (Diapasons a), Diapasons a)"
    using assms by (intro UseGuids_loop_all) (auto simp: wf_cache_def total_left_def)
  show "issued (fst (UseGuids a n)) = cached a"
    by (simp add: UseGuids_def * issued_def cached_def range_guids_def left_guids_def)
  show "snd (UseGuids a n) = CleanupEmpty a"
    by (simp add: UseGuids_def * CleanupEmpty_def)
qed

lemma total_left_CleanupEmpty: "wf_cache a \<Longrightarrow> total_left (CleanupEmpty a) = total_left a"
proof -
  have "\<forall>d\<in>set ds. wf_diapason d \<Longrightarrow> (\<Sum>d\<leftarrow>CleanupEmpty_loop ds. card (left_guids d))
      = (\<Sum>d\<leftarrow>ds. card (left_guids d))" for ds
    by (induction ds) (auto simp: GuidsLeft_0)
  then show "wf_cache a \<Longrightarrow> total_left (CleanupEmpty a) = total_left a"
    by (simp add: total_left_def CleanupEmpty_def wf_cache_def)
qed

text \<open>The cache after a request that its first diapason fulfils, as the server invariant needs it.\<close>

lemma UseGuids_fit_invariant:
  assumes "wf_cache a" "disjoint_cache a" "Diapasons a = d # ds" "n \<le> GuidsLeft d"
  shows "wf_cache (snd (UseGuids a n))" and "disjoint_cache (snd (UseGuids a n))"
    and "range_guids (head_range d n) \<union> cached (snd (UseGuids a n)) = cached a"
    and "range_guids (head_range d n) \<inter> cached (snd (UseGuids a n)) = {}"
proof -
  let ?b = "a\<lparr>Diapasons := advance d n # ds\<rparr>"
  have wf: "wf_diapason d" using assms by (simp add: wf_cache_def)
  note sp = fit_split [OF wf assms(4)]
  have wfb: "wf_cache ?b" using assms fit_guids(3) [OF wf assms(4)] by (simp add: wf_cache_def)
  have eq: "snd (UseGuids a n) = CleanupEmpty ?b" using UseGuids_fit [OF assms(3,4)] by simp
  have dis: "\<forall>e\<in>set ds. left_guids d \<inter> left_guids e = {}"
    using assms by (auto simp: disjoint_cache_def)
  show "wf_cache (snd (UseGuids a n))" using wfb by (simp add: eq wf_CleanupEmpty)
  have sub: "left_guids (advance d n) \<subseteq> left_guids d" using sp by blast
  have "disjoint_cache ?b" using assms dis sub by (fastforce simp: disjoint_cache_def)
  then show "disjoint_cache (snd (UseGuids a n))"
    by (simp add: eq disjoint_cache_def CleanupEmpty_def disjoint_CleanupEmpty_loop)
  have c: "cached (CleanupEmpty ?b) = left_guids (advance d n) \<union> (\<Union>e\<in>set ds. left_guids e)"
    using wfb by (simp add: cached_CleanupEmpty) (simp add: cached_def)
  have ca: "cached a = left_guids d \<union> (\<Union>e\<in>set ds. left_guids e)"
    using assms by (simp add: cached_def)
  show "range_guids (head_range d n) \<union> cached (snd (UseGuids a n)) = cached a"
    unfolding eq c ca using sp by blast
  show "range_guids (head_range d n) \<inter> cached (snd (UseGuids a n)) = {}"
    unfolding eq c using sp dis by blast
qed

lemma AddDiapason_invariant:
  assumes "wf_cache a" "disjoint_cache a" "0 < unat (Start d)" "unat (Start d) \<le> unat (End d) + 1"
    "unat (End d) < 2 ^ 64 - 1" "range_guids d \<inter> cached a = {}"
  shows "wf_cache (AddDiapason a d)" and "disjoint_cache (AddDiapason a d)"
    and "cached (AddDiapason a d) = cached a \<union> range_guids d"
proof -
  have "wf_cache (AddDiapason a d) \<and> disjoint_cache (AddDiapason a d)
      \<and> cached (AddDiapason a d) = cached a \<union> range_guids d"
  proof (cases "Diapasons a \<noteq> [] \<and> End (last (Diapasons a)) = Start d - 1")
    case True
    then obtain es l where ds: "Diapasons a = es @ [l]" and el: "End l = Start d - 1"
      by (metis append_butlast_last_id)
    let ?l = "l\<lparr>End := End d\<rparr>"
    have "1 \<le> Start d" using assms(3) by (simp add: word_le_unat)
    then have "unat (End l) = unat (Start d) - 1" by (simp add: el unat_sub)
    with assms ds have "left_guids ?l = left_guids l \<union> range_guids d" and "wf_diapason ?l"
      by (auto simp: left_guids_def range_guids_def wf_cache_def wf_diapason_def)
    moreover have "AddDiapason a d = a\<lparr>Diapasons := es @ [?l]\<rparr>"
      using ds el by (simp add: AddDiapason_def)
    ultimately show ?thesis
      using assms ds by (auto simp: wf_cache_def disjoint_cache_def cached_def disjoint_list_append)
  next
    case False
    let ?l = "\<lparr>Start = Start d, End = End d, CurrentGuid = Start d\<rparr>"
    have "AddDiapason a d = a\<lparr>Diapasons := Diapasons a @ [?l]\<rparr>"
      using False by (auto simp: AddDiapason_def Let_def)
    moreover have "left_guids ?l = range_guids d" "wf_diapason ?l"
      using assms by (auto simp: left_guids_def range_guids_def wf_diapason_def)
    ultimately show ?thesis
      using assms by (auto simp: wf_cache_def disjoint_cache_def cached_def disjoint_list_append)
  qed
  then show "wf_cache (AddDiapason a d)" and "disjoint_cache (AddDiapason a d)"
    and "cached (AddDiapason a d) = cached a \<union> range_guids d" by auto
qed

section \<open>Properties\<close>

definition example_cache :: AvailableDiapasons where
  "example_cache = \<lparr>Diapasons = [\<lparr>Start = 1, End = 10, CurrentGuid = 4\<rparr>,
                                 \<lparr>Start = 21, End = 30, CurrentGuid = 21\<rparr>]\<rparr>"

lemma example_cache_ok:
  "wf_cache example_cache" "disjoint_cache example_cache" "total_left example_cache = 17"
  by (simp_all add: example_cache_def wf_cache_def wf_diapason_def disjoint_cache_def
      left_guids_def total_left_def)

text \<open>
  A request that the first cached diapason can fulfil is answered by one range of exactly
  the requested number of GUIDs; the GUIDs handed out and the GUIDs still cached partition the
  GUIDs cached before, and the cache stays well-formed and free of overlaps.
\<close>

lemma UseGuids_head_conserves:
  assumes "wf_cache a" "disjoint_cache a" "Diapasons a = d # ds" "n \<le> GuidsLeft d"
  shows "\<exists>r. fst (UseGuids a n) = [r] \<and> card (range_guids r) = unat n
    \<and> range_guids r \<union> cached (snd (UseGuids a n)) = cached a
    \<and> range_guids r \<inter> cached (snd (UseGuids a n)) = {}
    \<and> wf_cache (snd (UseGuids a n)) \<and> disjoint_cache (snd (UseGuids a n))"
proof (intro exI conjI)
  have wf: "wf_diapason d" using assms by (simp add: wf_cache_def)
  show "fst (UseGuids a n) = [head_range d n]" using UseGuids_fit [OF assms(3,4)] by simp
  show "card (range_guids (head_range d n)) = unat n" by (rule fit_split(3) [OF wf assms(4)])
qed (rule UseGuids_fit_invariant [OF assms])+

theorem UseGuids_head_conserves_witness:
  "\<exists>r. fst (UseGuids example_cache 5) = [r] \<and> card (range_guids r) = unat (5 :: u64)
    \<and> range_guids r \<union> cached (snd (UseGuids example_cache 5)) = cached example_cache
    \<and> range_guids r \<inter> cached (snd (UseGuids example_cache 5)) = {}
    \<and> wf_cache (snd (UseGuids example_cache 5)) \<and> disjoint_cache (snd (UseGuids example_cache 5))"
  by (rule UseGuids_head_conserves
      [OF example_cache_ok(1,2), of "hd (Diapasons example_cache)" "tl (Diapasons example_cache)"])
    (simp_all add: example_cache_def GuidsLeft_def)

text \<open>
  Whatever the cache holds, \<open>UseGuids\<close> hands out cached GUIDs only, and as many as were
  asked for, or all that are left if these are fewer.
\<close>

lemma UseGuids_amount:
  assumes "wf_cache a"
  shows "(\<Sum>r\<leftarrow>fst (UseGuids a n). card (range_guids r)) = min (unat n) (total_left a)
    \<and> issued (fst (UseGuids a n)) \<subseteq> cached a"
  using UseGuids_loop_count [of "Diapasons a" n] assms
  by (simp add: UseGuids_def wf_cache_def total_left_def cached_def split_beta)

theorem UseGuids_amount_witness:
  "(\<Sum>r\<leftarrow>fst (UseGuids example_cache 40). card (range_guids r)) = 17"
  using UseGuids_amount [OF example_cache_ok(1), of 40] by (simp add: example_cache_ok(3))

text \<open>
  The draining branch of \<open>UseGuids\<close> updates a copy of the slice's element. A request for
  more GUIDs than are cached is answered with all cached GUIDs but leaves every one of them in
  the cache, and the same request is answered with the same GUIDs again.
\<close>

lemma UseGuids_drain_reissues:
  assumes "wf_cache a" "total_left a < unat n"
  shows "issued (fst (UseGuids a n)) = cached a
    \<and> cached (snd (UseGuids a n)) = cached a
    \<and> issued (fst (UseGuids (snd (UseGuids a n)) n)) = cached a"
  using issued_UseGuids_all [OF assms] issued_UseGuids_all [of "CleanupEmpty a" n] assms
  by (simp add: cached_CleanupEmpty wf_CleanupEmpty total_left_CleanupEmpty)

theorem UseGuids_drain_reissues_witness:
  "issued (fst (UseGuids (snd (UseGuids example_cache 40)) 40))
     = issued (fst (UseGuids example_cache 40)) \<and> cached example_cache \<noteq> {}"
  using UseGuids_drain_reissues [OF example_cache_ok(1), of 40]
  by (simp add: example_cache_ok(3)) (simp add: cached_def example_cache_def left_guids_def)

end
