(* ===== verification/Guid_Storage.thy ===== *)
theory Guid_Storage
  imports Guid_Diapasons
begin

text \<open>
  The shared maximum of the GUIDs in use, \<^verbatim>\<open>apps/guidserver/repo/redis-max-guid-storage.go\<close>.
  Redis is not part of the repository. Its database is a map from keys to numbers, and what a
  \<^verbatim>\<open>WATCH\<close> transaction meets is a parameter: the writes other clients perform between
  the read and the commit, and whether a command fails. The documented behaviour used is that a
  transaction commits if and only if no other client wrote the watched key in between.
\<close>

section \<open>Model\<close>

type_synonym redis = "string \<rightharpoonup> u64"

datatype storage_error = RedisError | MaxRetriesReached

record attempt =
  getFails :: bool
  otherWrites :: "(string \<times> u64) list"
  execFails :: bool

definition characterKey :: "u32 \<Rightarrow> string" where
  "characterKey realmID = ''realm:'' @ dec (unat realmID) @ '':maxChar''"

definition itemKey :: "u32 \<Rightarrow> string" where
  "itemKey realmID = ''realm:'' @ dec (unat realmID) @ '':maxItem''"

definition instanceKey :: "u32 \<Rightarrow> string" where
  "instanceKey realmID = ''realm:'' @ dec (unat realmID) @ '':maxInstance''"

fun other_clients :: "redis \<Rightarrow> (string \<times> u64) list \<Rightarrow> redis" where
  "other_clients kv [] = kv"
| "other_clients kv ((k, v) # ws) = other_clients (kv(k \<mapsto> v)) ws"

text \<open>\<^verbatim>\<open>Get(key).Uint64()\<close>, with \<^verbatim>\<open>redis.Nil\<close> (no such key) read as 0.\<close>

definition get0 :: "redis \<Rightarrow> string \<Rightarrow> u64" where
  "get0 kv key = (case kv key of None \<Rightarrow> 0 | Some v \<Rightarrow> v)"

text \<open>One run of \<^verbatim>\<open>rdb.Watch(ctx, txf, key)\<close>.\<close>

datatype tx_result = TxCommitted u64 | TxFailedErr | TxOtherErr

definition watch_txf :: "attempt \<Rightarrow> string \<Rightarrow> u64 \<Rightarrow> redis \<Rightarrow> redis \<times> tx_result" where
  "watch_txf e key increaseAmount kv =
     (if getFails e then (other_clients kv (otherWrites e), TxOtherErr)
      else let newMaxAmount = get0 kv key + increaseAmount;
               kv' = other_clients kv (otherWrites e)
           in if execFails e then (kv', TxOtherErr)
              else if key \<in> fst ` set (otherWrites e) then (kv', TxFailedErr)
              else (kv'(key \<mapsto> newMaxAmount), TxCommitted newMaxAmount))"

text \<open>The retry loop of \<open>increaseKey\<close>: \<open>env i\<close> is what attempt \<open>i\<close> meets.\<close>

fun increaseKey_from ::
  "nat \<Rightarrow> nat \<Rightarrow> (nat \<Rightarrow> attempt) \<Rightarrow> string \<Rightarrow> u64 \<Rightarrow> redis \<Rightarrow> redis \<times> (storage_error + u64)" where
  "increaseKey_from 0 i env key increaseAmount kv = (kv, Inl MaxRetriesReached)"
| "increaseKey_from (Suc k) i env key increaseAmount kv =
     (case watch_txf (env i) key increaseAmount kv of
        (kv', TxCommitted m) \<Rightarrow> (kv', Inr m)
      | (kv', TxFailedErr) \<Rightarrow> increaseKey_from k (Suc i) env key increaseAmount kv'
      | (kv', TxOtherErr) \<Rightarrow> (kv', Inl RedisError))"

definition increaseKey ::
  "nat \<Rightarrow> (nat \<Rightarrow> attempt) \<Rightarrow> string \<Rightarrow> u64 \<Rightarrow> redis \<Rightarrow> redis \<times> (storage_error + u64)" where
  "increaseKey retriesCount env = increaseKey_from retriesCount 0 env"

definition IncreaseMaxGuidForCharacters where
  "IncreaseMaxGuidForCharacters retriesCount env realmID n =
     increaseKey retriesCount env (characterKey realmID) n"

definition IncreaseMaxGuidForItems where
  "IncreaseMaxGuidForItems retriesCount env realmID n =
     increaseKey retriesCount env (itemKey realmID) n"

definition IncreaseMaxGuidForInstances where
  "IncreaseMaxGuidForInstances retriesCount env realmID n =
     increaseKey retriesCount env (instanceKey realmID) n"

text \<open>Reads and initial writes; the flag says whether the command fails.\<close>

definition redis_get :: "bool \<Rightarrow> redis \<Rightarrow> string \<Rightarrow> storage_error + u64" where
  "redis_get fails kv key = (if fails then Inl RedisError else Inr (get0 kv key))"

definition redis_set :: "bool \<Rightarrow> redis \<Rightarrow> string \<Rightarrow> u64 \<Rightarrow> storage_error + redis" where
  "redis_set fails kv key v = (if fails then Inl RedisError else Inr (kv(key \<mapsto> v)))"

definition MaxGuidForCharacters where
  "MaxGuidForCharacters fails kv realmID = redis_get fails kv (characterKey realmID)"

definition MaxGuidForItems where
  "MaxGuidForItems fails kv realmID = redis_get fails kv (itemKey realmID)"

definition MaxGuidForInstances where
  "MaxGuidForInstances fails kv realmID = redis_get fails kv (instanceKey realmID)"

definition SetMaxGuidForCharacters where
  "SetMaxGuidForCharacters fails kv realmID v = redis_set fails kv (characterKey realmID) v"

definition SetMaxGuidForItems where
  "SetMaxGuidForItems fails kv realmID v = redis_set fails kv (itemKey realmID) v"

definition SetMaxGuidForInstances where
  "SetMaxGuidForInstances fails kv realmID v = redis_set fails kv (instanceKey realmID) v"

section \<open>Keys\<close>

lemma realm_key_inject:
  "''realm:'' @ dec m @ CHR '':'' # r = ''realm:'' @ dec n @ CHR '':'' # s \<longleftrightarrow> m = n \<and> r = s"
  by simp

lemma storage_keys_distinct [simp]:
  "characterKey r = characterKey r' \<longleftrightarrow> r = r'"
  "itemKey r = itemKey r' \<longleftrightarrow> r = r'"
  "instanceKey r = instanceKey r' \<longleftrightarrow> r = r'"
  "characterKey r \<noteq> itemKey r'" "itemKey r \<noteq> characterKey r'"
  "characterKey r \<noteq> instanceKey r'" "instanceKey r \<noteq> characterKey r'"
  "itemKey r \<noteq> instanceKey r'" "instanceKey r \<noteq> itemKey r'"
  by (simp_all add: characterKey_def itemKey_def instanceKey_def flip: word_unat_eq_iff)

section \<open>The retry loop\<close>

lemma other_clients_untouched: "key \<notin> fst ` set ws \<Longrightarrow> other_clients kv ws key = kv key"
  by (induction kv ws rule: other_clients.induct) auto

text \<open>The writes the environment performs during the first \<open>n\<close> attempts from attempt \<open>i\<close>.\<close>

fun env_writes :: "(nat \<Rightarrow> attempt) \<Rightarrow> nat \<Rightarrow> nat \<Rightarrow> (string \<times> u64) list" where
  "env_writes env i 0 = []"
| "env_writes env i (Suc n) = otherWrites (env i) @ env_writes env (Suc i) n"

lemma other_clients_append: "other_clients kv (ws @ vs) = other_clients (other_clients kv ws) vs"
  by (induction ws arbitrary: kv) auto

lemma increaseKey_from_spec:
  assumes "increaseKey_from k i env key n kv = (kv', res)"
  shows "\<exists>j. j \<le> k \<and> (let before = other_clients kv (env_writes env i j) in
      (case res of
         Inr m \<Rightarrow> m = get0 before key + n \<and> kv' = before(key \<mapsto> m)
       | Inl e \<Rightarrow> kv' = before))"
  using assms
proof (induction k arbitrary: i kv)
  case 0
  then show ?case by auto
next
  case (Suc k)
  obtain kv1 r where w: "watch_txf (env i) key n kv = (kv1, r)" by fastforce
  show ?case
  proof (cases r)
    case (TxCommitted m)
    with w have "kv1 = (other_clients kv (otherWrites (env i)))(key \<mapsto> m)" "m = get0 kv key + n"
        "key \<notin> fst ` set (otherWrites (env i))"
      by (auto simp: watch_txf_def Let_def split: if_splits)
    then show ?thesis using Suc.prems w TxCommitted
      by (intro exI [of _ 1]) (auto simp: get0_def other_clients_untouched)
  next
    case TxFailedErr
    with w have kv1: "kv1 = other_clients kv (otherWrites (env i))"
      by (auto simp: watch_txf_def Let_def split: if_splits)
    from Suc.prems w TxFailedErr have "increaseKey_from k (Suc i) env key n kv1 = (kv', res)"
      by simp
    from Suc.IH [OF this] obtain j where "j \<le> k" and
      j: "let before = other_clients kv1 (env_writes env (Suc i) j) in
        (case res of Inr m \<Rightarrow> m = get0 before key + n \<and> kv' = before(key \<mapsto> m)
         | Inl e \<Rightarrow> kv' = before)" by blast
    then show ?thesis
      by (intro exI [of _ "Suc j"]) (simp add: kv1 other_clients_append)
  next
    case TxOtherErr
    with w have "kv1 = other_clients kv (otherWrites (env i))"
      by (auto simp: watch_txf_def Let_def split: if_splits)
    then show ?thesis using Suc.prems w TxOtherErr by (intro exI [of _ 1]) auto
  qed
qed

section \<open>The interface the guid server relies on\<close>

text \<open>
  What a client of the storage needs: a successful increase returns the maximum before it plus
  the amount and stores it, a failed one changes nothing, and counters of other keys stay.
\<close>

locale max_guid_storage =
  fixes max_of :: "'s \<Rightarrow> 'k \<Rightarrow> nat"
    and increase :: "'s \<Rightarrow> 'k \<Rightarrow> u64 \<Rightarrow> 's \<times> (storage_error + u64)"
  assumes increase_ok: "increase s k n = (s', Inr m) \<Longrightarrow> max_of s k + unat n < 2 ^ 64 \<Longrightarrow>
      unat m = max_of s k + unat n \<and> max_of s' k = unat m"
    and increase_err: "increase s k n = (s', Inl e) \<Longrightarrow> max_of s' k = max_of s k"
    and increase_other: "increase s k n = (s', res) \<Longrightarrow> k' \<noteq> k \<Longrightarrow> max_of s' k' = max_of s k'"
begin

text \<open>The range a successful increase allocates lies above everything allocated before.\<close>

lemma increase_fresh:
  assumes "increase s k n = (s', Inr m)" "max_of s k + unat n < 2 ^ 64 - 1"
  shows "unat (m - n + 1) = max_of s k + 1" and "unat m = max_of s k + unat n"
    and "max_of s' k = max_of s k + unat n"
proof -
  from assms have m: "unat m = max_of s k + unat n" and s': "max_of s' k = unat m"
    using increase_ok [of s k n s' m] by auto
  then have "n \<le> m" by (simp add: word_le_unat)
  then have sub: "unat (m - n) = max_of s k" by (simp add: unat_sub m)
  then have "unat (m - n + 1) = unat (m - n) + unat (1 :: u64)"
    using assms(2) by (intro unat_add_no_wrap) auto
  then show "unat (m - n + 1) = max_of s k + 1" by (simp add: sub)
  show "unat m = max_of s k + unat n" by (rule m)
  show "max_of s' k = max_of s k + unat n" using m s' by simp
qed

lemma increase_mono:
  assumes "increase s k n = (s', res)" "max_of s k + unat n < 2 ^ 64"
  shows "max_of s k' \<le> max_of s' k'"
proof (cases "k' = k")
  case True
  with assms show ?thesis
    by (cases res) (auto dest: increase_ok increase_err)
qed (use increase_other [OF assms(1)] in simp)

end

text \<open>
  The redis storage provides the interface: the increase of one client with the commits of the
  others before or after it. \<open>increaseKey_from_spec\<close> is what allows this view: whatever the
  other clients write, a call changes the database in one step, at its commit.
\<close>

definition alone :: "bool \<Rightarrow> bool \<Rightarrow> nat \<Rightarrow> attempt" where
  "alone g x i = \<lparr>getFails = g, otherWrites = [], execFails = x\<rparr>"

definition redis_max :: "redis \<Rightarrow> string \<Rightarrow> nat" where
  "redis_max kv key = unat (get0 kv key)"

definition redis_increase ::
  "nat \<Rightarrow> bool \<Rightarrow> bool \<Rightarrow> redis \<Rightarrow> string \<Rightarrow> u64 \<Rightarrow> redis \<times> (storage_error + u64)" where
  "redis_increase retries g x kv key n = increaseKey retries (alone g x) key n kv"

lemma env_writes_alone: "env_writes (alone g x) i j = []"
  by (induction j arbitrary: i) (simp_all add: alone_def)

lemma redis_increase_spec:
  assumes "redis_increase retries g x kv key n = (kv', res)"
  shows "case res of Inr m \<Rightarrow> m = get0 kv key + n \<and> kv' = kv(key \<mapsto> m) | Inl e \<Rightarrow> kv' = kv"
  using increaseKey_from_spec [of retries 0 "alone g x" key n kv kv' res] assms
  by (simp add: redis_increase_def increaseKey_def env_writes_alone)

interpretation redis_storage: max_guid_storage redis_max "redis_increase retries g x"
  for retries g x
proof unfold_locales
  fix s k n s' m
  assume "redis_increase retries g x s k n = (s', Inr m)" "redis_max s k + unat n < 2 ^ 64"
  then show "unat m = redis_max s k + unat n \<and> redis_max s' k = unat m"
    using redis_increase_spec [of retries g x s k n s' "Inr m"]
    by (auto simp: redis_max_def get0_def unat_word_ariths)
next
  fix s k n s' e
  assume "redis_increase retries g x s k n = (s', Inl e)"
  then show "redis_max s' k = redis_max s k"
    using redis_increase_spec [of retries g x s k n s' "Inl e"] by simp
next
  fix s k n s' res k'
  assume "redis_increase retries g x s k n = (s', res)" "k' \<noteq> (k :: string)"
  then show "redis_max s' k' = redis_max s k'"
    using redis_increase_spec [of retries g x s k n s' res]
    by (auto simp: redis_max_def get0_def split: sum.splits)
qed

section \<open>Properties\<close>

text \<open>
  C16: whatever the other clients of redis write during the attempts, a successful
  \<open>increaseKey\<close> adds the amount to the value the key has at its commit (the state reached by
  the others' writes alone), stores and returns the sum, and touches no other key; a call that
  fails or runs out of retries leaves exactly the others' writes.
\<close>

theorem increaseKey_atomic:
  "\<exists>j\<le>retries. (let before = other_clients kv (env_writes env 0 j) in
     case increaseKey retries env key n kv of
       (kv', Inr m) \<Rightarrow> m = get0 before key + n \<and> kv' = before(key \<mapsto> m)
     | (kv', Inl e) \<Rightarrow> kv' = before)"
proof -
  obtain kv' res where r: "increaseKey_from retries 0 env key n kv = (kv', res)" by fastforce
  from increaseKey_from_spec [OF this] show ?thesis
    by (auto simp: increaseKey_def r Let_def split: sum.splits)
qed

end
