(* ===== verification/Guid_Service.thy ===== *)
theory Guid_Service
  imports Guid_Storage
begin

text \<open>
  The guid server, \<^verbatim>\<open>apps/guidserver/service/guid.go\<close>: start-up, \<open>GetGuids\<close>, the
  goroutine that joins equal requests and the workers that reserve new ranges in redis, and a
  cluster of any number of such servers on one database as a step relation. The invariant shows
  that no GUID is handed out twice as long as no request has to drain a cached range.
\<close>

section \<open>Data\<close>

type_synonym GuidType = u8

abbreviation GuidTypeCharacter :: GuidType where "GuidTypeCharacter \<equiv> 0"
abbreviation GuidTypeItem :: GuidType where "GuidTypeItem \<equiv> 1"
abbreviation GuidTypeInstance :: GuidType where "GuidTypeInstance \<equiv> 2"
abbreviation GuidTypeMax :: nat where "GuidTypeMax \<equiv> 3"

definition RequestGuidsBufferMultiplayer :: u64 where
  "RequestGuidsBufferMultiplayer = 5"

record guidsRequest =
  req_realmID :: u32
  req_guidType :: GuidType
  desiredAmount :: u64
  callback :: "nat option"

record guidsResponse =
  request :: guidsRequest
  newGuids :: GuidDiapason

definition request_key :: "guidsRequest \<Rightarrow> string" where
  "request_key r = dec (unat (req_realmID r)) @ '':'' @ dec (unat (req_guidType r)) @ '':''
     @ dec (unat (desiredAmount r))"

text \<open>
  \<open>requestChan\<close> feeds the joining goroutine, \<open>requestsChan\<close> the workers. A callback channel
  is named by the client waiting on it; \<open>signalled\<close> are the channels that hold a value.
\<close>

record guidServiceImpl =
  localCache :: "u32 \<rightharpoonup> AvailableDiapasons list"
  requestChan :: "guidsRequest list"
  requestsChan :: "guidsRequest list"
  responseChan :: "guidsResponse list"
  requestsWithRespInProcess :: "string \<rightharpoonup> guidsRequest"
  callbacksQueue :: "string \<Rightarrow> nat list"
  signalled :: "nat list"

datatype service_error = RealmNotFound u32 | StorageError storage_error | MysqlError

section \<open>Start-up\<close>

text \<open>
  Which redis commands fail during start-up, and what the characters database answers, are
  parameters. \<open>init_max\<close> is one of the three identical blocks of the loop body.
\<close>

record startup_env =
  getFailsAt :: "string \<Rightarrow> bool"
  setFailsAt :: "string \<Rightarrow> bool"
  mysqlMax :: "string \<Rightarrow> u64 option"

definition init_max :: "startup_env \<Rightarrow> string \<Rightarrow> redis \<Rightarrow> service_error + redis" where
  "init_max e key kv =
     (case redis_get (getFailsAt e key) kv key of
        Inl err \<Rightarrow> Inl (StorageError err)
      | Inr m \<Rightarrow>
          if m = 0 then
            (case mysqlMax e key of
               None \<Rightarrow> Inl MysqlError
             | Some m' \<Rightarrow>
                 (case redis_set (setFailsAt e key) kv key m' of
                    Inl err \<Rightarrow> Inl (StorageError err)
                  | Inr kv' \<Rightarrow> Inr kv'))
          else Inr kv)"

fun init_realms :: "startup_env \<Rightarrow> u32 list \<Rightarrow> redis \<Rightarrow> (u32 \<rightharpoonup> AvailableDiapasons list) \<Rightarrow>
    service_error + redis \<times> (u32 \<rightharpoonup> AvailableDiapasons list)" where
  "init_realms e [] kv cache = Inr (kv, cache)"
| "init_realms e (realmID # realmIDs) kv cache =
     (case init_max e (characterKey realmID) kv of Inl err \<Rightarrow> Inl err
      | Inr kv1 \<Rightarrow>
     (case init_max e (itemKey realmID) kv1 of Inl err \<Rightarrow> Inl err
      | Inr kv2 \<Rightarrow>
     (case init_max e (instanceKey realmID) kv2 of Inl err \<Rightarrow> Inl err
      | Inr kv3 \<Rightarrow>
          init_realms e realmIDs kv3
            (cache(realmID \<mapsto> replicate GuidTypeMax \<lparr>Diapasons = []\<rparr>)))))"

definition NewGuidService ::
  "startup_env \<Rightarrow> u32 list \<Rightarrow> redis \<Rightarrow> service_error + redis \<times> guidServiceImpl" where
  "NewGuidService e realmIDs kv =
     (case init_realms e realmIDs kv Map.empty of
        Inl err \<Rightarrow> Inl err
      | Inr (kv', cache) \<Rightarrow>
          Inr (kv', \<lparr>localCache = cache, requestChan = [], requestsChan = [], responseChan = [],
                     requestsWithRespInProcess = Map.empty, callbacksQueue = (\<lambda>_. []),
                     signalled = []\<rparr>))"

section \<open>GetGuids\<close>

text \<open>
  \<open>GetGuids\<close> takes the lock of the cache twice: to read the usage and to use GUIDs. Other
  goroutines run in between, so the two halves are two operations. \<open>None\<close> as a percentage
  compares false with every threshold.
\<close>

datatype check_outcome =
    CheckFailed service_error
  | CheckPanics
  | CheckWaits
  | CheckUses

definition pct_at_least :: "rat option \<Rightarrow> rat \<Rightarrow> bool" where
  "pct_at_least p t = (case p of None \<Rightarrow> False | Some x \<Rightarrow> t \<le> x)"

definition GetGuids_check ::
  "guidServiceImpl \<Rightarrow> nat \<Rightarrow> u32 \<Rightarrow> GuidType \<Rightarrow> u64 \<Rightarrow> guidServiceImpl \<times> check_outcome" where
  "GetGuids_check g client realmID guidType desiredSize =
     (case localCache g realmID of
        None \<Rightarrow> (g, CheckFailed (RealmNotFound realmID))
      | Some availableGuidsWithTypes \<Rightarrow>
          if length availableGuidsWithTypes \<le> unat guidType then (g, CheckPanics)
          else
            (let pctUsed = PctUsage (availableGuidsWithTypes ! unat guidType);
                 r = \<lparr>req_realmID = realmID, req_guidType = guidType,
                      desiredAmount = desiredSize * RequestGuidsBufferMultiplayer,
                      callback = None\<rparr>
             in if pct_at_least pctUsed 99
                then (g\<lparr>requestChan := requestChan g @ [r\<lparr>callback := Some client\<rparr>]\<rparr>, CheckWaits)
                else if pct_at_least pctUsed 70
                then (g\<lparr>requestChan := requestChan g @ [r]\<rparr>, CheckUses)
                else (g, CheckUses)))"

definition set_cache :: "guidServiceImpl \<Rightarrow> u32 \<Rightarrow> GuidType \<Rightarrow> AvailableDiapasons \<Rightarrow> guidServiceImpl" where
  "set_cache g realmID guidType a =
     g\<lparr>localCache := (case localCache g realmID of None \<Rightarrow> localCache g
        | Some cs \<Rightarrow> (localCache g)(realmID \<mapsto> cs[unat guidType := a]))\<rparr>"

definition cache_of :: "guidServiceImpl \<Rightarrow> u32 \<Rightarrow> GuidType \<Rightarrow> AvailableDiapasons option" where
  "cache_of g realmID guidType =
     (case localCache g realmID of None \<Rightarrow> None
      | Some cs \<Rightarrow> if unat guidType < length cs then Some (cs ! unat guidType) else None)"

text \<open>The empty result makes \<open>GetGuids\<close> start again.\<close>

definition GetGuids_use ::
  "guidServiceImpl \<Rightarrow> u32 \<Rightarrow> GuidType \<Rightarrow> u64 \<Rightarrow> (guidServiceImpl \<times> GuidDiapason list) option" where
  "GetGuids_use g realmID guidType desiredSize =
     (case cache_of g realmID guidType of None \<Rightarrow> None
      | Some a \<Rightarrow> (let (rs, a') = UseGuids a desiredSize
                   in Some (set_cache g realmID guidType a', rs)))"

section \<open>The joining goroutine and the workers\<close>

definition handle_request :: "guidServiceImpl \<Rightarrow> guidsRequest \<Rightarrow> guidServiceImpl" where
  "handle_request g r =
     (let key = request_key r in
      case requestsWithRespInProcess g key of
        Some _ \<Rightarrow>
          (case callback r of None \<Rightarrow> g
           | Some c \<Rightarrow> g\<lparr>callbacksQueue := (callbacksQueue g)(key := callbacksQueue g key @ [c])\<rparr>)
      | None \<Rightarrow>
          g\<lparr>requestsWithRespInProcess := (requestsWithRespInProcess g)(key \<mapsto> r),
            requestsChan := requestsChan g @ [r]\<rparr>)"

text \<open>\<open>None\<close>: the nil cache of a realm or type that the server does not know panics.\<close>

definition handle_response :: "guidServiceImpl \<Rightarrow> guidsResponse \<Rightarrow> guidServiceImpl option" where
  "handle_response g r =
     (let key = request_key (request r);
          realmID = req_realmID (request r); guidType = req_guidType (request r)
      in case cache_of g realmID guidType of None \<Rightarrow> None
         | Some a \<Rightarrow>
             (let g1 = set_cache g realmID guidType (AddDiapason a (newGuids r));
                  woken = (case callback (request r) of None \<Rightarrow> [] | Some c \<Rightarrow> [c])
                    @ callbacksQueue g key
              in Some (g1\<lparr>signalled := signalled g @ woken,
                         callbacksQueue := (callbacksQueue g)(key := []),
                         requestsWithRespInProcess := (requestsWithRespInProcess g)(key := None)\<rparr>)))"

text \<open>
  One round of \<open>requestProcessor\<close>: the switch over the GUID type, the answer with the zero
  range where the storage fails, no answer at all for an unknown type. The storage is met alone,
  with \<open>gf\<close> and \<open>xf\<close> saying whether its commands fail.
\<close>

definition increase_for_type ::
  "nat \<Rightarrow> (nat \<Rightarrow> attempt) \<Rightarrow> GuidType \<Rightarrow> u32 \<Rightarrow> u64 \<Rightarrow> redis \<Rightarrow> (redis \<times> (storage_error + u64)) option" where
  "increase_for_type retries env guidType realmID n kv =
     (if guidType = GuidTypeCharacter then Some (IncreaseMaxGuidForCharacters retries env realmID n kv)
      else if guidType = GuidTypeItem then Some (IncreaseMaxGuidForItems retries env realmID n kv)
      else if guidType = GuidTypeInstance then Some (IncreaseMaxGuidForInstances retries env realmID n kv)
      else None)"

definition requestProcessor ::
  "nat \<Rightarrow> (nat \<Rightarrow> attempt) \<Rightarrow> redis \<Rightarrow> guidsRequest \<Rightarrow> redis \<times> guidsResponse option" where
  "requestProcessor retries env kv r =
     (case increase_for_type retries env (req_guidType r) (req_realmID r) (desiredAmount r) kv of
        None \<Rightarrow> (kv, None)
      | Some (kv', Inl e) \<Rightarrow> (kv', Some \<lparr>request = r, newGuids = \<lparr>Start = 0, End = 0\<rparr>\<rparr>)
      | Some (kv', Inr newMax) \<Rightarrow>
          (kv', Some \<lparr>request = r,
                     newGuids = \<lparr>Start = newMax - desiredAmount r + 1, End = newMax\<rparr>\<rparr>))"

section \<open>A cluster of guid servers\<close>

datatype client_pc =
    Idle
  | Checking u32 GuidType u64
  | Waiting u32 GuidType u64
  | Using u32 GuidType u64

text \<open>
  \<open>clean\<close> records that so far every request was fulfilled by the first cached range, the
  storage never failed and the counters stayed within 64 bits. \<open>handedOut\<close> are the ranges
  returned to clients.
\<close>

record cluster =
  redisDB :: redis
  servers :: "nat \<Rightarrow> guidServiceImpl"
  pcs :: "nat \<Rightarrow> nat \<Rightarrow> client_pc"
  handedOut :: "(u32 \<times> GuidType \<times> GuidDiapason) list"
  clean :: bool

definition type_key :: "GuidType \<Rightarrow> u32 \<Rightarrow> string" where
  "type_key t r = (if t = GuidTypeCharacter then characterKey r
     else if t = GuidTypeItem then itemKey r else instanceKey r)"

definition fits_head :: "guidServiceImpl \<Rightarrow> u32 \<Rightarrow> GuidType \<Rightarrow> u64 \<Rightarrow> bool" where
  "fits_head g r t n = (case cache_of g r t of None \<Rightarrow> True
     | Some a \<Rightarrow> (case Diapasons a of [] \<Rightarrow> True | d # _ \<Rightarrow> n \<le> GuidsLeft d))"

inductive cluster_step :: "cluster \<Rightarrow> cluster \<Rightarrow> bool" where
  call: "pcs c s k = Idle \<Longrightarrow>
    cluster_step c (c\<lparr>pcs := (pcs c)(s := (pcs c s)(k := Checking r t n))\<rparr>)"
| check: "pcs c s k = Checking r t n \<Longrightarrow> GetGuids_check (servers c s) k r t n = (g, out) \<Longrightarrow>
    pc = (case out of CheckWaits \<Rightarrow> Waiting r t n | CheckUses \<Rightarrow> Using r t n | _ \<Rightarrow> Idle) \<Longrightarrow>
    cluster_step c (c\<lparr>servers := (servers c)(s := g), pcs := (pcs c)(s := (pcs c s)(k := pc))\<rparr>)"
| wake: "pcs c s k = Waiting r t n \<Longrightarrow> k \<in> set (signalled (servers c s)) \<Longrightarrow>
    g = servers c s \<Longrightarrow>
    cluster_step c (c\<lparr>servers := (servers c)(s := g\<lparr>signalled := remove1 k (signalled g)\<rparr>),
                     pcs := (pcs c)(s := (pcs c s)(k := Checking r t n))\<rparr>)"
| use_guids: "pcs c s k = Using r t n \<Longrightarrow> GetGuids_use (servers c s) r t n = Some (g, rs) \<Longrightarrow>
    cluster_step c (c\<lparr>servers := (servers c)(s := g),
      pcs := (pcs c)(s := (pcs c s)(k := (if rs = [] then Checking r t n else Idle))),
      handedOut := handedOut c @ map (\<lambda>d. (r, t, d)) rs,
      clean := (clean c \<and> fits_head (servers c s) r t n)\<rparr>)"
| join: "requestChan (servers c s) = r # rs \<Longrightarrow>
    g = handle_request ((servers c s)\<lparr>requestChan := rs\<rparr>) r \<Longrightarrow>
    cluster_step c (c\<lparr>servers := (servers c)(s := g)\<rparr>)"
| work: "r \<in> set (requestsChan (servers c s)) \<Longrightarrow>
    requestProcessor retries (alone gf xf) (redisDB c) r = (kv, resp) \<Longrightarrow> g = servers c s \<Longrightarrow>
    cluster_step c (c\<lparr>redisDB := kv,
      servers := (servers c)(s := g\<lparr>requestsChan := remove1 r (requestsChan g),
        responseChan := responseChan g @ (case resp of None \<Rightarrow> [] | Some x \<Rightarrow> [x])\<rparr>),
      clean := (clean c \<and> \<not> gf \<and> \<not> xf \<and> 0 < retries
        \<and> redis_max (redisDB c) (type_key (req_guidType r) (req_realmID r))
            + unat (desiredAmount r) < 2 ^ 64 - 1)\<rparr>)"
| respond: "x \<in> set (responseChan (servers c s)) \<Longrightarrow>
    handle_response ((servers c s)\<lparr>responseChan := remove1 x (responseChan (servers c s))\<rparr>) x = Some g \<Longrightarrow>
    cluster_step c (c\<lparr>servers := (servers c)(s := g)\<rparr>)"

section \<open>What one server holds\<close>

definition responses :: "guidServiceImpl \<Rightarrow> u32 \<Rightarrow> GuidType \<Rightarrow> guidsResponse list" where
  "responses g r t = filter (\<lambda>x. req_realmID (request x) = r \<and> req_guidType (request x) = t) (responseChan g)"

definition response_guids :: "guidServiceImpl \<Rightarrow> u32 \<Rightarrow> GuidType \<Rightarrow> nat set list" where
  "response_guids g r t = map (\<lambda>x. range_guids (newGuids x)) (responses g r t)"

definition cached_guids :: "guidServiceImpl \<Rightarrow> u32 \<Rightarrow> GuidType \<Rightarrow> nat set" where
  "cached_guids g r t = (case cache_of g r t of None \<Rightarrow> {} | Some a \<Rightarrow> cached a)"

definition pool :: "guidServiceImpl \<Rightarrow> u32 \<Rightarrow> GuidType \<Rightarrow> nat set" where
  "pool g r t = cached_guids g r t \<union> \<Union>(set (response_guids g r t))"

definition response_ok :: "guidsResponse \<Rightarrow> bool" where
  "response_ok x \<longleftrightarrow> 0 < unat (Start (newGuids x))
     \<and> unat (Start (newGuids x)) \<le> unat (End (newGuids x)) + 1 \<and> unat (End (newGuids x)) < 2 ^ 64 - 1"

definition server_ok :: "guidServiceImpl \<Rightarrow> bool" where
  "server_ok g \<longleftrightarrow> (\<forall>r t a. cache_of g r t = Some a \<longrightarrow> wf_cache a \<and> disjoint_cache a)
     \<and> (\<forall>r t. disjoint_list (response_guids g r t)
           \<and> cached_guids g r t \<inter> \<Union>(set (response_guids g r t)) = {})
     \<and> (\<forall>x\<in>set (responseChan g). response_ok x)"

lemma cache_of_set_cache:
  "cache_of g r t = Some a \<Longrightarrow>
     cache_of (set_cache g r t b) r' t' = (if r' = r \<and> t' = t then Some b else cache_of g r' t')"
  by (auto simp: cache_of_def set_cache_def word_unat_eq_iff [of t'] nth_list_update
      split: option.splits if_splits)

lemma responseChan_set_cache [simp]: "responseChan (set_cache g r t a) = responseChan g"
  by (simp add: set_cache_def)

lemmas server_defs = server_ok_def pool_def cached_guids_def response_guids_def responses_def cache_of_def

lemma server_frame:
  assumes "localCache g' = localCache g" "responseChan g' = responseChan g"
  shows "server_ok g' = server_ok g" and "pool g' = pool g"
  using assms by (simp_all add: server_defs fun_eq_iff)

lemma set_remove1_insert: "x \<in> set xs \<Longrightarrow> insert x (set (remove1 x xs)) = set xs"
  by (induction xs) auto

lemma disjoint_list_remove1:
  "x \<in> set xs \<Longrightarrow> disjoint_list (map f xs) \<longleftrightarrow>
     (\<forall>y\<in>set (remove1 x xs). f x \<inter> f y = {}) \<and> disjoint_list (map f (remove1 x xs))"
proof (induction xs)
  case (Cons z xs)
  show ?case
  proof (cases "x = z")
    case False
    with Cons.prems have xs: "set xs = insert x (set (remove1 x xs))" by (simp add: set_remove1_insert)
    have iff: "(\<forall>B\<in>set xs. f z \<inter> f B = {}) \<longleftrightarrow>
        f x \<inter> f z = {} \<and> (\<forall>B\<in>set (remove1 x xs). f z \<inter> f B = {})"
      unfolding xs by blast
    from False Cons have ih: "disjoint_list (map f xs) \<longleftrightarrow>
        (\<forall>y\<in>set (remove1 x xs). f x \<inter> f y = {}) \<and> disjoint_list (map f (remove1 x xs))" by simp
    have "disjoint_list (map f (z # xs)) \<longleftrightarrow> (\<forall>B\<in>set xs. f z \<inter> f B = {}) \<and> disjoint_list (map f xs)"
      by simp
    also have "\<dots> \<longleftrightarrow> (\<forall>y\<in>set (remove1 x (z # xs)). f x \<inter> f y = {})
        \<and> disjoint_list (map f (remove1 x (z # xs)))"
      unfolding iff ih using False by simp blast
    finally show ?thesis .
  qed simp
qed simp

lemma server_ok_cached_responses:
  "server_ok g \<Longrightarrow> cache_of g r t = Some a \<Longrightarrow> cached a \<inter> \<Union>(set (response_guids g r t)) = {}"
proof -
  assume "server_ok g" and a: "cache_of g r t = Some a"
  then have "cached_guids g r t \<inter> \<Union>(set (response_guids g r t)) = {}"
    unfolding server_ok_def by blast
  with a show ?thesis by (simp add: cached_guids_def)
qed

text \<open>Using GUIDs that the first range of the cache holds moves them out of the pool.\<close>

lemma server_use:
  assumes ok: "server_ok g" and use: "GetGuids_use g r t n = Some (g', rs)" and fit: "fits_head g r t n"
  shows "server_ok g'" and "disjoint_list (map range_guids rs)"
    and "pool g r t = pool g' r t \<union> issued rs" and "pool g' r t \<inter> issued rs = {}"
    and "(r', t') \<noteq> (r, t) \<Longrightarrow> pool g' r' t' = pool g r' t'"
proof -
  from use obtain a where a: "cache_of g r t = Some a" and g': "g' = set_cache g r t (snd (UseGuids a n))"
    and rs: "rs = fst (UseGuids a n)"
    by (auto simp: GetGuids_use_def split_beta split: option.splits)
  have aok: "wf_cache a" "disjoint_cache a" using ok a by (auto simp: server_ok_def)
  have step: "wf_cache (snd (UseGuids a n)) \<and> disjoint_cache (snd (UseGuids a n))
      \<and> disjoint_list (map range_guids rs) \<and> cached a = cached (snd (UseGuids a n)) \<union> issued rs
      \<and> cached (snd (UseGuids a n)) \<inter> issued rs = {}"
  proof (cases "Diapasons a")
    case Nil
    then show ?thesis
      using aok by (simp add: rs UseGuids_def issued_def cached_def CleanupEmpty_def wf_cache_def disjoint_cache_def)
  next
    case (Cons d ds)
    with fit a have le: "n \<le> GuidsLeft d" by (simp add: fits_head_def)
    have rs1: "rs = [head_range d n]" using UseGuids_fit [OF Cons le] by (simp add: rs)
    show ?thesis
      using UseGuids_fit_invariant [OF aok Cons le] by (auto simp: rs1 issued_def)
  qed
  have c: "cache_of g' r' t' = (if r' = r \<and> t' = t then Some (snd (UseGuids a n)) else cache_of g r' t')" for r' t'
    unfolding g' using a by (rule cache_of_set_cache)
  have resp: "response_guids g' = response_guids g" "responseChan g' = responseChan g"
    by (simp_all add: g' response_guids_def responses_def fun_eq_iff)
  have sub: "cached (snd (UseGuids a n)) \<subseteq> cached a" using step by blast
  have dis: "cached a \<inter> \<Union>(set (response_guids g r t)) = {}"
    by (rule server_ok_cached_responses [OF ok a])
  show "server_ok g'"
    using ok step sub dis unfolding server_ok_def resp cached_guids_def c by (auto split: if_splits)
  show "disjoint_list (map range_guids rs)" using step by simp
  show "pool g r t = pool g' r t \<union> issued rs"
    using step by (auto simp: pool_def cached_guids_def c a resp)
  show "pool g' r t \<inter> issued rs = {}"
    using step dis by (auto simp: pool_def cached_guids_def c resp)
  show "(r', t') \<noteq> (r, t) \<Longrightarrow> pool g' r' t' = pool g r' t'"
    by (auto simp: pool_def cached_guids_def c resp)
qed

text \<open>Filing a response moves its range from the response channel into the cache.\<close>

lemma server_respond:
  assumes ok: "server_ok g" and x: "x \<in> set (responseChan g)"
    and h: "handle_response (g\<lparr>responseChan := remove1 x (responseChan g)\<rparr>) x = Some g'"
  shows "server_ok g'" and "pool g' = pool g"
proof -
  define g0 where "g0 = g\<lparr>responseChan := remove1 x (responseChan g)\<rparr>"
  define r where "r = req_realmID (request x)"
  define t where "t = req_guidType (request x)"
  have c0: "cache_of g0 = cache_of g" by (simp add: g0_def cache_of_def fun_eq_iff)
  from h obtain a where a: "cache_of g r t = Some a"
    and lc: "localCache g' = localCache (set_cache g0 r t (AddDiapason a (newGuids x)))"
    and rc: "responseChan g' = remove1 x (responseChan g)"
    unfolding g0_def [symmetric] r_def t_def c0 [symmetric]
    by (auto simp: handle_response_def Let_def g0_def split: option.splits)
  have cg: "cache_of g' = cache_of (set_cache g0 r t (AddDiapason a (newGuids x)))"
    by (simp add: cache_of_def lc fun_eq_iff)
  have c: "cache_of g' r' t' = (if r' = r \<and> t' = t then Some (AddDiapason a (newGuids x)) else cache_of g r' t')" for r' t'
    using cache_of_set_cache [of g0 r t a "AddDiapason a (newGuids x)" r' t'] a
    by (simp add: c0 cg)
  have resp: "responses g' r' t' = (if r' = r \<and> t' = t then remove1 x (responses g r t) else responses g r' t')" for r' t'
    by (auto simp: responses_def rc filter_remove1 r_def t_def remove1_idem)
  have xin: "x \<in> set (responses g r t)" using x by (simp add: responses_def r_def t_def)
  have dl: "disjoint_list (map (\<lambda>x. range_guids (newGuids x)) (responses g r t))"
    using ok by (auto simp: server_ok_def response_guids_def)
  have aok: "wf_cache a" "disjoint_cache a" using ok a by (auto simp: server_ok_def)
  have xok: "response_ok x" using ok x by (auto simp: server_ok_def)
  have cd: "cached a \<inter> \<Union>(set (response_guids g r t)) = {}"
    by (rule server_ok_cached_responses [OF ok a])
  then have "range_guids (newGuids x) \<inter> cached a = {}" using xin by (auto simp: response_guids_def)
  note add = AddDiapason_invariant [OF aok _ _ _ this] xok [unfolded response_ok_def]
  have rest: "\<forall>y\<in>set (remove1 x (responses g r t)). range_guids (newGuids x) \<inter> range_guids (newGuids y) = {}"
    and dl': "disjoint_list (map (\<lambda>x. range_guids (newGuids x)) (remove1 x (responses g r t)))"
    using dl disjoint_list_remove1 [OF xin, of "\<lambda>x. range_guids (newGuids x)"] by auto
  have un: "\<Union>(set (response_guids g r t)) =
      range_guids (newGuids x) \<union> (\<Union>y\<in>set (remove1 x (responses g r t)). range_guids (newGuids y))"
    using set_remove1_insert [OF xin] by (auto simp: response_guids_def)
  show "server_ok g'"
    unfolding server_ok_def
  proof (intro conjI allI impI ballI)
    fix r' t' b assume "cache_of g' r' t' = Some b"
    then show "wf_cache b" "disjoint_cache b"
      using ok add by (auto simp: c server_ok_def split: if_splits)
  next
    fix r' t'
    show "disjoint_list (response_guids g' r' t')"
      using ok dl' by (auto simp: response_guids_def resp server_ok_def)
    show "cached_guids g' r' t' \<inter> \<Union>(set (response_guids g' r' t')) = {}"
    proof (cases "r' = r \<and> t' = t")
      case True
      then show ?thesis
        using cd rest un add by (auto simp: cached_guids_def c response_guids_def resp)
    next
      case False
      then show ?thesis using ok by (auto simp: server_ok_def cached_guids_def c response_guids_def resp)
    qed
  next
    fix y assume "y \<in> set (responseChan g')"
    then show "response_ok y" using ok by (auto simp: rc server_ok_def dest: notin_set_remove1)
  qed
  show "pool g' = pool g"
    using un add a by (auto simp: fun_eq_iff pool_def cached_guids_def c response_guids_def resp)
qed

lemma server_work:
  assumes ok: "server_ok g" and new: "response_ok x"
    and fresh: "range_guids (newGuids x) \<inter> pool g (req_realmID (request x)) (req_guidType (request x)) = {}"
    and g': "localCache g' = localCache g" "responseChan g' = responseChan g @ [x]"
  shows "server_ok g'"
    and "pool g' r t = (if req_realmID (request x) = r \<and> req_guidType (request x) = t
      then pool g r t \<union> range_guids (newGuids x) else pool g r t)"
proof -
  have c: "cache_of g' = cache_of g" using g' by (simp add: cache_of_def fun_eq_iff)
  have resp: "response_guids g' r t = response_guids g r t @
      (if req_realmID (request x) = r \<and> req_guidType (request x) = t then [range_guids (newGuids x)] else [])" for r t
    using g' by (simp add: response_guids_def responses_def)
  show "server_ok g'"
    unfolding server_ok_def
  proof (intro conjI allI impI)
    fix r t a assume "cache_of g' r t = Some a"
    then show "wf_cache a" "disjoint_cache a" using ok by (auto simp: c server_ok_def)
  next
    fix r t
    have old: "disjoint_list (response_guids g r t)"
        "cached_guids g r t \<inter> \<Union>(set (response_guids g r t)) = {}"
      using ok unfolding server_ok_def by blast+
    show "disjoint_list (response_guids g' r t)"
      using old fresh by (auto simp: resp disjoint_list_append pool_def)
    show "cached_guids g' r t \<inter> \<Union>(set (response_guids g' r t)) = {}"
      using old fresh by (auto simp: resp cached_guids_def c pool_def)
  qed (use ok new g'(2) in \<open>auto simp: server_ok_def\<close>)
  show "pool g' r t = (if req_realmID (request x) = r \<and> req_guidType (request x) = t
      then pool g r t \<union> range_guids (newGuids x) else pool g r t)"
    by (auto simp: pool_def cached_guids_def c resp)
qed

section \<open>The cluster invariant\<close>

definition handed :: "cluster \<Rightarrow> u32 \<Rightarrow> GuidType \<Rightarrow> GuidDiapason list" where
  "handed c r t = map (snd \<circ> snd) (filter (\<lambda>h. fst h = r \<and> fst (snd h) = t) (handedOut c))"

definition maxg :: "cluster \<Rightarrow> u32 \<Rightarrow> GuidType \<Rightarrow> nat" where
  "maxg c r t = redis_max (redisDB c) (type_key t r)"

definition cluster_inv :: "cluster \<Rightarrow> bool" where
  "cluster_inv c \<longleftrightarrow> (\<forall>s. server_ok (servers c s))
     \<and> (\<forall>s r t. pool (servers c s) r t \<subseteq> {1..maxg c r t})
     \<and> (\<forall>s s' r t. s \<noteq> s' \<longrightarrow> pool (servers c s) r t \<inter> pool (servers c s') r t = {})
     \<and> (\<forall>r t. disjoint_list (map range_guids (handed c r t)))
     \<and> (\<forall>r t. issued (handed c r t) \<subseteq> {1..maxg c r t})
     \<and> (\<forall>s r t. pool (servers c s) r t \<inter> issued (handed c r t) = {})"

lemma cluster_invD:
  assumes "cluster_inv c"
  shows "server_ok (servers c s)" "pool (servers c s) r t \<subseteq> {1..maxg c r t}"
    "issued (handed c r t) \<subseteq> {1..maxg c r t}"
    "pool (servers c s) r t \<inter> issued (handed c r t) = {}"
    "s \<noteq> s' \<Longrightarrow> pool (servers c s) r t \<inter> pool (servers c s') r t = {}"
    "disjoint_list (map range_guids (handed c r t))"
  using assms unfolding cluster_inv_def by blast+

lemma cluster_inv_frame:
  assumes "cluster_inv c" "\<And>s. server_ok (servers c' s) = server_ok (servers c s)"
    "\<And>s. pool (servers c' s) = pool (servers c s)" "redisDB c' = redisDB c" "handedOut c' = handedOut c"
  shows "cluster_inv c'"
  using assms by (simp add: cluster_inv_def maxg_def handed_def)

lemma GetGuids_check_frame:
  "GetGuids_check g k r t n = (g', out) \<Longrightarrow> localCache g' = localCache g \<and> responseChan g' = responseChan g"
  by (auto simp: GetGuids_check_def Let_def split: option.splits if_splits)

lemma handle_request_frame:
  "localCache (handle_request g r) = localCache g" "responseChan (handle_request g r) = responseChan g"
  by (simp_all add: handle_request_def Let_def split: option.splits)

lemma cluster_inv_server:
  assumes "cluster_inv c" "localCache g = localCache (servers c s)"
    "responseChan g = responseChan (servers c s)"
    "servers c' = (servers c)(s := g)" "redisDB c' = redisDB c" "handedOut c' = handedOut c"
  shows "cluster_inv c'"
  by (rule cluster_inv_frame [OF assms(1) _ _ assms(5,6)])
    (use server_frame [OF assms(2,3)] in \<open>simp_all add: assms(4)\<close>)

lemma redis_increase_alone:
  "0 < retries \<Longrightarrow> redis_increase retries False False kv key n =
     (kv(key \<mapsto> get0 kv key + n), Inr (get0 kv key + n))"
  by (cases retries)
    (simp_all add: redis_increase_def increaseKey_def alone_def watch_txf_def Let_def)

lemma increase_for_type_alone:
  "unat t < GuidTypeMax \<Longrightarrow> increase_for_type retries (alone gf xf) t r n kv =
     Some (redis_increase retries gf xf kv (type_key t r) n)"
  "GuidTypeMax \<le> unat t \<Longrightarrow> increase_for_type retries (alone gf xf) t r n kv = None"
proof -
  have "t = GuidTypeCharacter \<or> t = GuidTypeItem \<or> t = GuidTypeInstance" if "unat t < GuidTypeMax"
  proof -
    from that have "unat t = unat (0::u8) \<or> unat t = unat (1::u8) \<or> unat t = unat (2::u8)" by auto
    then show ?thesis by (simp only: word_unat_eq_iff)
  qed
  then show "unat t < GuidTypeMax \<Longrightarrow> increase_for_type retries (alone gf xf) t r n kv =
      Some (redis_increase retries gf xf kv (type_key t r) n)"
    by (auto simp: increase_for_type_def type_key_def redis_increase_def IncreaseMaxGuidForCharacters_def
        IncreaseMaxGuidForItems_def IncreaseMaxGuidForInstances_def)
  show "GuidTypeMax \<le> unat t \<Longrightarrow> increase_for_type retries (alone gf xf) t r n kv = None"
    by (auto simp: increase_for_type_def)
qed

text \<open>A successful round of a worker reserves the GUIDs right above the maximum.\<close>

lemma requestProcessor_fresh:
  assumes "0 < retries" "requestProcessor retries (alone False False) kv r = (kv', Some x)"
    and m: "redis_max kv (type_key (req_guidType r) (req_realmID r)) + unat (desiredAmount r) < 2 ^ 64 - 1"
      (is "?m + _ < _")
  shows "response_ok x" and "request x = r"
    and "range_guids (newGuids x) = {?m + 1..?m + unat (desiredAmount r)}"
    and "redis_max kv' (type_key (req_guidType r) (req_realmID r)) = ?m + unat (desiredAmount r)"
    and "redis_max kv key \<le> redis_max kv' key"
proof -
  let ?key = "type_key (req_guidType r) (req_realmID r)" and ?n = "desiredAmount r"
  have t: "unat (req_guidType r) < GuidTypeMax"
  proof (rule ccontr)
    assume "\<not> unat (req_guidType r) < GuidTypeMax"
    then have "GuidTypeMax \<le> unat (req_guidType r)" by simp
    from increase_for_type_alone(2) [OF this] assms(2) show False by (simp add: requestProcessor_def)
  qed
  define v where "v = get0 kv ?key + ?n"
  have inc: "redis_increase retries False False kv ?key ?n = (kv(?key \<mapsto> v), Inr v)"
    using redis_increase_alone [OF assms(1)] by (simp add: v_def)
  from assms(2) have x: "x = \<lparr>request = r, newGuids = \<lparr>Start = v - ?n + 1, End = v\<rparr>\<rparr>" and kv': "kv' = kv(?key \<mapsto> v)"
    by (auto simp: requestProcessor_def increase_for_type_alone(1) [OF t] inc)
  note f = redis_storage.increase_fresh [OF inc m]
  show "response_ok x" using f m by (simp add: response_ok_def x)
  show "request x = r" by (simp add: x)
  show "range_guids (newGuids x) = {?m + 1..?m + unat (desiredAmount r)}"
    using f by (simp add: x range_guids_def)
  show "redis_max kv' ?key = ?m + unat (desiredAmount r)" using f by (simp add: kv')
  show "redis_max kv key \<le> redis_max kv' key"
    using redis_storage.increase_mono [OF inc, of key] m by (simp add: kv')
qed

lemma cluster_inv_work:
  assumes inv: "cluster_inv c" and "0 < retries"
    and rp: "requestProcessor retries (alone False False) (redisDB c) r = (kv, Some x)"
    and m: "redis_max (redisDB c) (type_key (req_guidType r) (req_realmID r)) + unat (desiredAmount r) < 2 ^ 64 - 1"
    and c': "servers c' = (servers c)(s := g)" "redisDB c' = kv" "handedOut c' = handedOut c"
    and g: "localCache g = localCache (servers c s)" "responseChan g = responseChan (servers c s) @ [x]"
  shows "cluster_inv c'"
proof -
  let ?r = "req_realmID r" and ?t = "req_guidType r"
  note f = requestProcessor_fresh [OF assms(2) rp m]
  have mono: "maxg c r t \<le> maxg c' r t" for r t using f(5) by (simp add: maxg_def c')
  have new: "range_guids (newGuids x) \<subseteq> {maxg c ?r ?t + 1..maxg c' ?r ?t}"
    using f(3,4) by (simp add: maxg_def c')
  note old = cluster_invD(2,3) [OF inv]
  have fresh: "range_guids (newGuids x) \<inter> pool (servers c s') ?r ?t = {}"
    and freshH: "range_guids (newGuids x) \<inter> issued (handed c ?r ?t) = {}" for s'
    using new old(1) [of s' ?r ?t] old(2) [of ?r ?t] by fastforce+
  have ok: "server_ok (servers c s)" using inv by (auto simp: cluster_inv_def)
  note w = server_work [OF ok f(1), unfolded f(2), OF fresh g]
  have pool: "pool (servers c' s') q t = pool (servers c s') q t \<union>
      (if s' = s \<and> ?r = q \<and> ?t = t then range_guids (newGuids x) else {})" for s' q t
    using w(2) by (auto simp: c')
  have hd: "handed c' = handed c" by (simp add: handed_def c' fun_eq_iff)
  show ?thesis
    unfolding cluster_inv_def
  proof (intro conjI allI impI)
    show "server_ok (servers c' s')" for s' using inv w(1) by (auto simp: cluster_inv_def c')
    show "pool (servers c' s') q t \<subseteq> {1..maxg c' q t}" for s' q t
    proof -
      have "pool (servers c s') q t \<subseteq> {1..maxg c' q t}"
        using old(1) [of s' q t] mono [of q t] by fastforce
      moreover have "range_guids (newGuids x) \<subseteq> {1..maxg c' ?r ?t}" using new by auto
      ultimately show ?thesis by (auto simp: pool)
    qed
    show "pool (servers c' s1) q t \<inter> pool (servers c' s2) q t = {}" if "s1 \<noteq> s2" for s1 s2 q t
      using cluster_invD(5) [OF inv that, of q t] fresh that by (auto simp: pool)
    show "disjoint_list (map range_guids (handed c' r t))" for r t
      using inv by (simp add: cluster_inv_def hd)
    show "issued (handed c' r t) \<subseteq> {1..maxg c' r t}" for r t
      using subset_trans [OF old(2) [of r t]] mono [of r t] by (simp add: hd)
    show "pool (servers c' s') q t \<inter> issued (handed c' q t) = {}" for s' q t
      using cluster_invD(4) [OF inv, of s' q t] freshH by (auto simp: pool hd)
  qed
qed

lemma handed_append:
  "handedOut c' = handedOut c @ map (\<lambda>d. (r, t, d)) rs \<Longrightarrow>
     handed c' r' t' = handed c r' t' @ (if r' = r \<and> t' = t then rs else [])"
  by (auto simp: handed_def comp_def)

lemma issued_disjoint:
  "issued xs \<inter> issued ys = {} \<longleftrightarrow>
     (\<forall>A\<in>set (map range_guids xs). \<forall>B\<in>set (map range_guids ys). A \<inter> B = {})"
  by (auto simp: issued_def)

lemma cluster_inv_use:
  assumes inv: "cluster_inv c" and use: "GetGuids_use (servers c s) r t n = Some (g, rs)"
    and fit: "fits_head (servers c s) r t n"
    and c': "servers c' = (servers c)(s := g)" "redisDB c' = redisDB c"
      "handedOut c' = handedOut c @ map (\<lambda>d. (r, t, d)) rs"
  shows "cluster_inv c'"
proof -
  have ok: "server_ok (servers c s)" using inv by (auto simp: cluster_inv_def)
  note u = server_use [OF ok use fit]
  have mx: "maxg c' = maxg c" by (simp add: maxg_def c' fun_eq_iff)
  have sub: "pool (servers c' s') q u \<subseteq> pool (servers c s') q u" for s' q u
    using u(3,5) by (cases "(q, u) = (r, t)") (auto simp: c')
  have isub: "issued rs \<subseteq> pool (servers c s) r t" using u(3) by blast
  note old = cluster_invD(2,3,4,5,6) [OF inv]
  have hd: "handed c' q u = handed c q u @ (if q = r \<and> u = t then rs else [])" for q u
    by (rule handed_append [OF c'(3)])
  have ish: "issued (handed c' q u) = issued (handed c q u) \<union> (if q = r \<and> u = t then issued rs else {})" for q u
    by (auto simp: hd issued_def)
  show ?thesis
    unfolding cluster_inv_def mx
  proof (intro conjI allI impI)
    show "server_ok (servers c' s')" for s' using inv u(1) by (auto simp: cluster_inv_def c')
    show "pool (servers c' s') q u \<subseteq> {1..maxg c q u}" for s' q u
      using sub old(1) by blast
    show "pool (servers c' s1) q u \<inter> pool (servers c' s2) q u = {}" if "s1 \<noteq> s2" for s1 s2 q u
      using old(4) [OF that, of q u] sub by blast
    show "disjoint_list (map range_guids (handed c' q u))" for q u
    proof (cases "q = r \<and> u = t")
      case True
      have "issued (handed c r t) \<inter> issued rs = {}" using old(3) [of s r t] isub by blast
      then show ?thesis
        using True u(2) old(5) [of r t] unfolding issued_disjoint by (simp add: hd disjoint_list_append)
    next
      case False
      then show ?thesis using old(5) [of q u] by (auto simp: hd)
    qed
    show "issued (handed c' q u) \<subseteq> {1..maxg c q u}" for q u
      using subset_trans [OF isub old(1) [of s r t]] old(2) [of q u] by (simp add: ish)
    show "pool (servers c' s') q u \<inter> issued (handed c' q u) = {}" for s' q u
    proof (cases "q = r \<and> u = t")
      case True
      then have "pool (servers c' s') q u \<inter> issued rs = {}"
        using u(4) isub old(4) [of s s' r t] sub [of s' r t] by (cases "s' = s") (auto simp: c')
      with True old(3) [of s' q u] sub [of s' q u] show ?thesis by (auto simp: ish)
    next
      case False
      then show ?thesis using old(3) [of s' q u] sub [of s' q u] by (auto simp: ish)
    qed
  qed
qed

lemma cluster_inv_respond:
  assumes inv: "cluster_inv c" and x: "x \<in> set (responseChan (servers c s))"
    and h: "handle_response ((servers c s)\<lparr>responseChan := remove1 x (responseChan (servers c s))\<rparr>) x = Some g"
  shows "cluster_inv (c\<lparr>servers := (servers c)(s := g)\<rparr>)"
proof -
  have ok: "\<forall>s. server_ok (servers c s)" using inv by (simp add: cluster_inv_def)
  note r = server_respond [OF ok [rule_format] x h]
  show ?thesis by (rule cluster_inv_frame [OF inv]) (use r ok in auto)
qed

lemma cluster_step_clean: "cluster_step c c' \<Longrightarrow> clean c' \<Longrightarrow> clean c"
  by (erule cluster_step.cases) simp_all

lemma cluster_step_inv:
  assumes "cluster_step c c'" "clean c'" "cluster_inv c"
  shows "cluster_inv c'"
  using assms
proof (induction rule: cluster_step.induct)
  case (check c s k r t n g out pc)
  show ?case
    by (rule cluster_inv_server [OF check.prems(2), of g s])
      (use GetGuids_check_frame [OF check.hyps(2)] in simp_all)
next
  case (use_guids c s k r t n g rs)
  show ?case
    by (rule cluster_inv_use [OF use_guids.prems(2) use_guids.hyps(2)]) (use use_guids.prems in simp_all)
next
  case (join c s r rs g)
  show ?case
    by (rule cluster_inv_server [OF join.prems(2), of g s])
      (use join.hyps in \<open>simp_all add: handle_request_frame\<close>)
next
  case (work r c s retries gf xf kv resp g)
  then show ?case
  proof (cases resp)
    case None
    with work have "kv = redisDB c"
      by (auto simp: requestProcessor_def split: option.splits sum.splits)
    with work None show ?thesis
      by (intro cluster_inv_server [OF work.prems(2), of "g\<lparr>requestsChan := remove1 r (requestsChan g)\<rparr>" s])
        simp_all
  next
    case (Some x)
    from work.prems(1) have "\<not> gf" "\<not> xf" "0 < retries"
      "redis_max (redisDB c) (type_key (req_guidType r) (req_realmID r)) + unat (desiredAmount r) < 2 ^ 64 - 1"
      by simp_all
    with work.hyps Some show ?thesis
      by (intro cluster_inv_work [OF work.prems(2), of retries r kv x _ s
          "g\<lparr>requestsChan := remove1 r (requestsChan g), responseChan := responseChan g @ [x]\<rparr>"])
        simp_all
  qed
next
  case (call c s k r t n)
  show ?case by (rule cluster_inv_frame [OF call.prems(2)]) simp_all
next
  case (wake c s k r t n g)
  show ?case
    by (rule cluster_inv_server [OF wake.prems(2), of "g\<lparr>signalled := remove1 k (signalled g)\<rparr>" s])
      (use wake.hyps in simp_all)
next
  case (respond x c s g)
  then show ?case by (intro cluster_inv_respond)
qed

section \<open>Start-up and reachable clusters\<close>

inductive reachable :: "cluster \<Rightarrow> bool" where
  start: "(\<And>s. \<exists>e realmIDs kv kv'. NewGuidService e realmIDs kv = Inr (kv', servers c s)) \<Longrightarrow>
    pcs c = (\<lambda>_ _. Idle) \<Longrightarrow> handedOut c = [] \<Longrightarrow> clean c \<Longrightarrow> reachable c"
| step: "reachable c \<Longrightarrow> cluster_step c c' \<Longrightarrow> reachable c'"

lemma init_realms_empty:
  "init_realms e realmIDs kv cache = Inr (kv', cache') \<Longrightarrow>
     \<forall>cs\<in>ran cache. \<forall>a\<in>set cs. Diapasons a = [] \<Longrightarrow> \<forall>cs\<in>ran cache'. \<forall>a\<in>set cs. Diapasons a = []"
proof (induction e realmIDs kv cache rule: init_realms.induct)
  case (2 e realmID realmIDs kv cache)
  have "ran (cache(realmID \<mapsto> replicate GuidTypeMax \<lparr>Diapasons = []\<rparr>))
      \<subseteq> insert (replicate GuidTypeMax \<lparr>Diapasons = []\<rparr>) (ran cache)"
    by (auto simp: ran_def split: if_splits)
  with 2 show ?case by (fastforce split: sum.splits)
qed simp

lemma NewGuidService_pool:
  assumes "NewGuidService e realmIDs kv = Inr (kv', g)"
  shows "server_ok g" and "pool g = (\<lambda>_ _. {})"
proof -
  from assms obtain cache where i: "init_realms e realmIDs kv Map.empty = Inr (kv', cache)"
    and g: "localCache g = cache" "responseChan g = []"
    by (auto simp: NewGuidService_def split: sum.splits)
  have e: "Diapasons a = []" if "cache_of g r t = Some a" for r t a
    using init_realms_empty [OF i] that
    by (auto simp: cache_of_def g ran_def split: option.splits if_splits)
  have c: "cached_guids g r t = {}" for r t
    using e by (auto simp: cached_guids_def cached_def split: option.splits)
  show "server_ok g"
    unfolding server_ok_def using e c
    by (auto simp: g response_guids_def responses_def wf_cache_def disjoint_cache_def)
  show "pool g = (\<lambda>_ _. {})"
    by (simp add: fun_eq_iff pool_def c g response_guids_def responses_def)
qed

lemma reachable_clean_inv: "reachable c \<Longrightarrow> clean c \<Longrightarrow> cluster_inv c"
proof (induction rule: reachable.induct)
  case (start c)
  then have "server_ok (servers c s)" "pool (servers c s) = (\<lambda>_ _. {})" for s
    using NewGuidService_pool by blast+
  with start show ?case by (simp add: cluster_inv_def handed_def issued_def)
next
  case (step c c')
  then show ?case using cluster_step_clean cluster_step_inv by blast
qed

section \<open>An example run\<close>

text \<open>
  One server for realm 1, one client. The client asks for two characters' GUIDs twice: the first
  call waits for a range of ten, both calls are answered from it.
\<close>

definition ex_req :: guidsRequest where
  "ex_req = \<lparr>req_realmID = 1, req_guidType = 0, desiredAmount = 10, callback = Some 0\<rparr>"

definition ex_server :: "GuidDiapasonWithState list \<Rightarrow> guidServiceImpl" where
  "ex_server ds = \<lparr>localCache = [1 \<mapsto> [\<lparr>Diapasons = ds\<rparr>, \<lparr>Diapasons = []\<rparr>, \<lparr>Diapasons = []\<rparr>]],
     requestChan = [], requestsChan = [], responseChan = [],
     requestsWithRespInProcess = Map.empty, callbacksQueue = (\<lambda>_. []), signalled = []\<rparr>"

definition ex_cluster :: "redis \<Rightarrow> guidServiceImpl \<Rightarrow> client_pc \<Rightarrow> GuidDiapason list \<Rightarrow> cluster" where
  "ex_cluster kv g pc rs = \<lparr>redisDB = kv, servers = (\<lambda>_. ex_server [])(0 := g),
     pcs = (\<lambda>_ _. Idle)(0 := (\<lambda>_. Idle)(0 := pc)), handedOut = map (\<lambda>d. (1, 0, d)) rs, clean = True\<rparr>"

abbreviation ex_range :: "u64 \<Rightarrow> GuidDiapasonWithState list" where
  "ex_range cur \<equiv> [\<lparr>Start = 1, End = 10, CurrentGuid = cur\<rparr>]"

abbreviation ex_kv :: redis where "ex_kv \<equiv> [characterKey 1 \<mapsto> 10]"

lemma ex_pct:
  "PctUsage \<lparr>Diapasons = ex_range 1\<rparr> = Some 0" "PctUsage \<lparr>Diapasons = ex_range 3\<rparr> = Some 20"
  by code_simp+

lemmas ex_defs = ex_cluster_def ex_server_def ex_req_def GetGuids_check_def GetGuids_use_def
  RequestGuidsBufferMultiplayer_def handle_request_def handle_response_def Let_def cache_of_def
  set_cache_def AddDiapason_def UseGuids_def CleanupEmpty_def GuidsLeft_def fits_head_def
  requestProcessor_def increase_for_type_def IncreaseMaxGuidForCharacters_def increaseKey_def
  alone_def watch_txf_def get0_def redis_max_def type_key_def UseGuids_loop.simps

lemma ex_start: "reachable (ex_cluster Map.empty (ex_server []) Idle [])"
proof (rule reachable.start)
  fix s
  have "NewGuidService \<lparr>getFailsAt = (\<lambda>_. False), setFailsAt = (\<lambda>_. False), mysqlMax = (\<lambda>_. Some 0)\<rparr>
      [1] Map.empty = Inr ([characterKey 1 \<mapsto> 0, itemKey 1 \<mapsto> 0, instanceKey 1 \<mapsto> 0], ex_server [])"
    by (simp add: NewGuidService_def init_max_def redis_get_def redis_set_def get0_def ex_server_def
        numeral_3_eq_3)
  then show "\<exists>e realmIDs kv kv'. NewGuidService e realmIDs kv
      = Inr (kv', servers (ex_cluster Map.empty (ex_server []) Idle []) s)"
    by (auto simp: ex_cluster_def)
qed (auto simp: ex_cluster_def fun_eq_iff)

lemma ex_wait: "reachable (ex_cluster Map.empty ((ex_server [])\<lparr>requestChan := [ex_req]\<rparr>) (Waiting 1 0 2) [])"
proof -
  have "cluster_step (ex_cluster Map.empty (ex_server []) Idle []) (ex_cluster Map.empty (ex_server []) (Checking 1 0 2) [])"
    using cluster_step.call [of "ex_cluster Map.empty (ex_server []) Idle []" 0 0 1 0 2]
    by (simp add: ex_cluster_def)
  moreover have "cluster_step (ex_cluster Map.empty (ex_server []) (Checking 1 0 2) [])
      (ex_cluster Map.empty ((ex_server [])\<lparr>requestChan := [ex_req]\<rparr>) (Waiting 1 0 2) [])"
    using cluster_step.check [of "ex_cluster Map.empty (ex_server []) (Checking 1 0 2) []" 0 0 1 0 2
        "(ex_server [])\<lparr>requestChan := [ex_req]\<rparr>" CheckWaits]
    by (simp add: ex_defs PctUsage_def pct_at_least_def)
  ultimately show ?thesis using ex_start reachable.step by blast
qed

lemma ex_refilled: "reachable (ex_cluster ex_kv ((ex_server (ex_range 1))\<lparr>signalled := [0]\<rparr>) (Waiting 1 0 2) [])"
proof -
  let ?g1 = "(ex_server [])\<lparr>requestsChan := [ex_req], requestsWithRespInProcess := [request_key ex_req \<mapsto> ex_req]\<rparr>"
  let ?x = "\<lparr>request = ex_req, newGuids = \<lparr>Start = 1, End = 10\<rparr>\<rparr>"
  let ?g2 = "(ex_server [])\<lparr>responseChan := [?x], requestsWithRespInProcess := [request_key ex_req \<mapsto> ex_req]\<rparr>"
  have "cluster_step (ex_cluster Map.empty ((ex_server [])\<lparr>requestChan := [ex_req]\<rparr>) (Waiting 1 0 2) [])
      (ex_cluster Map.empty ?g1 (Waiting 1 0 2) [])"
    using cluster_step.join [of "ex_cluster Map.empty ((ex_server [])\<lparr>requestChan := [ex_req]\<rparr>) (Waiting 1 0 2) []"
        0 ex_req "[]" ?g1]
    by (simp add: ex_defs)
  moreover have "cluster_step (ex_cluster Map.empty ?g1 (Waiting 1 0 2) []) (ex_cluster ex_kv ?g2 (Waiting 1 0 2) [])"
    using cluster_step.work [of ex_req "ex_cluster Map.empty ?g1 (Waiting 1 0 2) []" 0 1 False False ex_kv "Some ?x" ?g1]
    by (simp add: ex_defs)
  moreover have "cluster_step (ex_cluster ex_kv ?g2 (Waiting 1 0 2) [])
      (ex_cluster ex_kv ((ex_server (ex_range 1))\<lparr>signalled := [0]\<rparr>) (Waiting 1 0 2) [])"
    using cluster_step.respond [of ?x "ex_cluster ex_kv ?g2 (Waiting 1 0 2) []" 0 "(ex_server (ex_range 1))\<lparr>signalled := [0]\<rparr>"]
    by (simp add: ex_defs fun_upd_idem)
  ultimately show ?thesis using ex_wait reachable.step by blast
qed

lemma ex_first: "reachable (ex_cluster ex_kv (ex_server (ex_range 3)) Idle [\<lparr>Start = 1, End = 2\<rparr>])"
proof -
  let ?g = "ex_server (ex_range 1)"
  have "cluster_step (ex_cluster ex_kv (?g\<lparr>signalled := [0]\<rparr>) (Waiting 1 0 2) []) (ex_cluster ex_kv ?g (Checking 1 0 2) [])"
    using cluster_step.wake [of "ex_cluster ex_kv (?g\<lparr>signalled := [0]\<rparr>) (Waiting 1 0 2) []" 0 0 1 0 2 "?g\<lparr>signalled := [0]\<rparr>"]
    by (simp add: ex_defs)
  moreover have "cluster_step (ex_cluster ex_kv ?g (Checking 1 0 2) []) (ex_cluster ex_kv ?g (Using 1 0 2) [])"
    using cluster_step.check [of "ex_cluster ex_kv ?g (Checking 1 0 2) []" 0 0 1 0 2 ?g CheckUses]
    by (simp add: ex_defs ex_pct pct_at_least_def)
  moreover have "cluster_step (ex_cluster ex_kv ?g (Using 1 0 2) [])
      (ex_cluster ex_kv (ex_server (ex_range 3)) Idle [\<lparr>Start = 1, End = 2\<rparr>])"
    using cluster_step.use_guids [of "ex_cluster ex_kv ?g (Using 1 0 2) []" 0 0 1 0 2 "ex_server (ex_range 3)" "[\<lparr>Start = 1, End = 2\<rparr>]"]
    by (simp add: ex_defs)
  ultimately show ?thesis using ex_refilled reachable.step by blast
qed

lemma ex_second: "reachable (ex_cluster ex_kv (ex_server (ex_range 5)) Idle [\<lparr>Start = 1, End = 2\<rparr>, \<lparr>Start = 3, End = 4\<rparr>])"
proof -
  let ?g = "ex_server (ex_range 3)" and ?h = "[\<lparr>Start = 1, End = 2\<rparr>]"
  have "cluster_step (ex_cluster ex_kv ?g Idle ?h) (ex_cluster ex_kv ?g (Checking 1 0 2) ?h)"
    using cluster_step.call [of "ex_cluster ex_kv ?g Idle ?h" 0 0 1 0 2]
    by (simp add: ex_cluster_def)
  moreover have "cluster_step (ex_cluster ex_kv ?g (Checking 1 0 2) ?h) (ex_cluster ex_kv ?g (Using 1 0 2) ?h)"
    using cluster_step.check [of "ex_cluster ex_kv ?g (Checking 1 0 2) ?h" 0 0 1 0 2 ?g CheckUses]
    by (simp add: ex_defs ex_pct pct_at_least_def)
  moreover have "cluster_step (ex_cluster ex_kv ?g (Using 1 0 2) ?h)
      (ex_cluster ex_kv (ex_server (ex_range 5)) Idle (?h @ [\<lparr>Start = 3, End = 4\<rparr>]))"
    using cluster_step.use_guids [of "ex_cluster ex_kv ?g (Using 1 0 2) ?h" 0 0 1 0 2 "ex_server (ex_range 5)" "[\<lparr>Start = 3, End = 4\<rparr>]"]
    by (simp add: ex_defs)
  ultimately show ?thesis using ex_first reachable.step by (metis append_Cons append_Nil)
qed

section \<open>What start-up leaves in redis\<close>

definition start_value :: "startup_env \<Rightarrow> redis \<Rightarrow> string \<Rightarrow> u64" where
  "start_value e kv key = (if get0 kv key \<noteq> 0 then get0 kv key else the (mysqlMax e key))"

definition realm_keys :: "u32 \<Rightarrow> string set" where
  "realm_keys r = {characterKey r, itemKey r, instanceKey r}"

lemma init_max_get0:
  "init_max e key kv = Inr kv' \<Longrightarrow>
     get0 kv' k = (if k = key then start_value e kv key else get0 kv k)"
  by (auto simp: init_max_def redis_get_def redis_set_def get0_def start_value_def
      split: sum.splits if_splits option.splits)

lemma init_realms_get0:
  assumes "init_realms e realmIDs kv cache = Inr (kv', cache')"
  shows "get0 kv' k = (if \<exists>r\<in>set realmIDs. k \<in> realm_keys r then start_value e kv k else get0 kv k)"
    and "dom cache' = dom cache \<union> set realmIDs"
  using assms
proof (induction e realmIDs kv cache rule: init_realms.induct)
  case (2 e r rs kv cache)
  {
    case 1
    then obtain kv1 kv2 kv3 where i: "init_max e (characterKey r) kv = Inr kv1"
      "init_max e (itemKey r) kv1 = Inr kv2" "init_max e (instanceKey r) kv2 = Inr kv3"
      and rest: "init_realms e rs kv3 (cache(r \<mapsto> replicate GuidTypeMax \<lparr>Diapasons = []\<rparr>)) = Inr (kv', cache')"
      by (auto split: sum.splits)
    have "get0 kv3 k' = (if k' \<in> realm_keys r then start_value e kv k' else get0 kv k')" for k'
      using init_max_get0 [OF i(1)] init_max_get0 [OF i(2)] init_max_get0 [OF i(3)]
      by (auto simp: realm_keys_def start_value_def)
    with "2.IH"(1) [OF i rest] show ?case by (auto simp: start_value_def)
  next
    case 2
    with "2.IH"(2) show ?case by (fastforce split: sum.splits)
  }
qed simp_all

section \<open>Properties\<close>

text \<open>
  C1: in every reachable state of a cluster of guid servers that share one redis database, as
  long as no request had to drain a cached range and no redis command failed or overflowed, the
  ranges handed out for one realm and GUID type, by all servers and to all clients, are pairwise
  disjoint, start above 0 and lie at or below the maximum stored in redis.
\<close>

theorem guids_handed_out_once:
  assumes "reachable c" "clean c"
  shows "disjoint_list (map range_guids (handed c r t)) \<and> issued (handed c r t) \<subseteq> {1..maxg c r t}"
  using cluster_invD(3,6) [OF reachable_clean_inv [OF assms]] by blast

theorem guids_handed_out_once_witness:
  "\<exists>c. reachable c \<and> clean c \<and> handed c 1 0 = [\<lparr>Start = 1, End = 2\<rparr>, \<lparr>Start = 3, End = 4\<rparr>]
     \<and> disjoint_list (map range_guids (handed c 1 0)) \<and> issued (handed c 1 0) \<subseteq> {1..maxg c 1 0}"
proof -
  let ?c = "ex_cluster ex_kv (ex_server (ex_range 5)) Idle [\<lparr>Start = 1, End = 2\<rparr>, \<lparr>Start = 3, End = 4\<rparr>]"
  have "clean ?c" "handed ?c 1 0 = [\<lparr>Start = 1, End = 2\<rparr>, \<lparr>Start = 3, End = 4\<rparr>]"
    by (simp_all add: ex_cluster_def handed_def)
  with ex_second guids_handed_out_once [OF ex_second, of 1 0] show ?thesis by blast
qed

text \<open>
  C32: where redis fails, the worker still answers, with the zero range; the joining goroutine
  files it in the cache, and an empty cache then hands out GUID 0 to the next caller.
\<close>

theorem storage_failure_hands_out_zero:
  assumes "requestProcessor retries (alone True xf) kv q = (kv', Some x)"
    and "cache_of g (req_realmID q) (req_guidType q) = Some a" "Diapasons a = []"
  shows "\<exists>g' g''. handle_response g x = Some g'
    \<and> GetGuids_use g' (req_realmID q) (req_guidType q) 1 = Some (g'', [\<lparr>Start = 0, End = 0\<rparr>])"
proof -
  let ?r = "req_realmID q" and ?t = "req_guidType q"
  have inl: "\<exists>kv'' e. increaseKey retries (alone True xf) key n kv = (kv'', Inl e)" for key n
    by (cases retries) (simp_all add: increaseKey_def alone_def watch_txf_def)
  have x: "x = \<lparr>request = q, newGuids = \<lparr>Start = 0, End = 0\<rparr>\<rparr>"
    using assms(1) inl [of "characterKey ?r" "desiredAmount q"] inl [of "itemKey ?r" "desiredAmount q"]
      inl [of "instanceKey ?r" "desiredAmount q"]
    by (auto simp: requestProcessor_def increase_for_type_def IncreaseMaxGuidForCharacters_def
        IncreaseMaxGuidForItems_def IncreaseMaxGuidForInstances_def split: if_splits)
  let ?b = "AddDiapason a \<lparr>Start = 0, End = 0\<rparr>"
  have b: "Diapasons ?b = [\<lparr>Start = 0, End = 0, CurrentGuid = 0\<rparr>]"
    using assms(3) by (simp add: AddDiapason_def)
  obtain g' where g': "handle_response g x = Some g'"
      and lc: "localCache g' = localCache (set_cache g ?r ?t ?b)"
    using assms(2) by (simp add: handle_response_def Let_def x)
  have "cache_of g' ?r ?t = Some ?b"
    using cache_of_set_cache [OF assms(2), of ?b ?r ?t] lc by (simp add: cache_of_def)
  then have "\<exists>g''. GetGuids_use g' ?r ?t 1 = Some (g'', [\<lparr>Start = 0, End = 0\<rparr>])"
    by (simp add: GetGuids_use_def UseGuids_def b UseGuids_loop.simps GuidsLeft_def)
  with g' show ?thesis by blast
qed

theorem storage_failure_hands_out_zero_witness:
  "\<exists>kv' x g' g''. requestProcessor 3 (alone True False) Map.empty ex_req = (kv', Some x)
    \<and> handle_response (ex_server []) x = Some g'
    \<and> GetGuids_use g' 1 0 1 = Some (g'', [\<lparr>Start = 0, End = 0\<rparr>])"
proof -
  have p: "requestProcessor 3 (alone True False) Map.empty ex_req
      = (Map.empty, Some \<lparr>request = ex_req, newGuids = \<lparr>Start = 0, End = 0\<rparr>\<rparr>)"
    by (simp add: ex_defs numeral_3_eq_3)
  show ?thesis
    using storage_failure_hands_out_zero [OF p, of "ex_server []" "\<lparr>Diapasons = []\<rparr>"] p
    by (simp add: ex_req_def ex_server_def cache_of_def)
qed

text \<open>
  A successful start-up leaves, for every configured realm and each of the three GUID types,
  the maximum redis had, or the database's maximum where redis had none; it changes no other key
  and knows exactly the configured realms.
\<close>

lemma NewGuidService_initialises:
  assumes "NewGuidService e realmIDs kv = Inr (kv', g)"
  shows "(\<forall>k. get0 kv' k = (if \<exists>r\<in>set realmIDs. k \<in> realm_keys r then start_value e kv k else get0 kv k))
    \<and> dom (localCache g) = set realmIDs"
proof -
  from assms obtain cache where i: "init_realms e realmIDs kv Map.empty = Inr (kv', cache)"
    and "localCache g = cache"
    by (auto simp: NewGuidService_def split: sum.splits)
  with init_realms_get0 [OF i] show ?thesis by simp
qed

theorem NewGuidService_initialises_witness:
  "\<exists>kv' g. get0 kv' (itemKey 1) = 42 \<and> get0 kv' (characterKey 1) = 7 \<and> dom (localCache g) = {1}
     \<and> NewGuidService \<lparr>getFailsAt = (\<lambda>_. False), setFailsAt = (\<lambda>_. False), mysqlMax = (\<lambda>_. Some 42)\<rparr>
         [1] [characterKey 1 \<mapsto> 7] = Inr (kv', g)"
proof -
  let ?e = "\<lparr>getFailsAt = (\<lambda>_. False), setFailsAt = (\<lambda>_. False), mysqlMax = (\<lambda>_. Some 42)\<rparr>"
  obtain kv' g where p: "NewGuidService ?e [1] [characterKey 1 \<mapsto> 7] = Inr (kv', g)"
    by (simp add: NewGuidService_def init_max_def redis_get_def redis_set_def get0_def)
  show ?thesis
    using NewGuidService_initialises [OF p] p
    by (intro exI [of _ kv'] exI [of _ g]) (simp add: realm_keys_def start_value_def get0_def)
qed

end
