(* ===== verification/Guid_Provider.thy ===== *)
theory Guid_Provider
  imports Guid_Diapasons
begin

text \<open>
  The consumer side of the GUID pool, \<^verbatim>\<open>game-server/libsidecar/guids/guids.go\<close>: a game
  server's provider that walks over the ranges it got from the guid server and asks for more
  when it reaches a trigger value. The guid server itself is a parameter: what its requests
  return is an argument of the operations.
\<close>

section \<open>Model\<close>

text \<open>
  \<open>diapasonsChan\<close> holds the replies whose sender goroutine is blocked on the unbuffered
  channel; \<open>pendingRequests\<close> counts the request goroutines that are still running.
\<close>

record threadUnsafeGuidProvider =
  iterator :: u64
  iteratorMax :: u64
  iteratorValueToTriggerUpdate :: u64
  pctUsedToTriggerUpdate :: rat
  diapasonsChan :: "GuidDiapason list list"
  nextDiapasons :: "GuidDiapason list"
  pendingRequests :: nat

datatype provider_error = EmptyDiapasons | ProviderError | IndexPanic | FatalExit

definition diapason_count :: "GuidDiapason \<Rightarrow> u64" where
  "diapason_count d = End d - Start d + 1"

text \<open>\<^verbatim>\<open>uint64(x)\<close> for a float \<open>x\<close>: the fraction is cut off.\<close>

definition u64_of_float :: "rat \<Rightarrow> u64" where
  "u64_of_float x = word_of_int \<lfloor>x\<rfloor>"

fun trigger_in :: "GuidDiapason list \<Rightarrow> u64 \<Rightarrow> provider_error + u64" where
  "trigger_in [] v = Inl FatalExit"
| "trigger_in (d # ds) v =
     (if v \<le> diapason_count d then Inr (Start d + v) else trigger_in ds (v - diapason_count d))"

definition calculateIteratorValueToTriggerUpdate :: "rat \<Rightarrow> GuidDiapason list \<Rightarrow> provider_error + u64" where
  "calculateIteratorValueToTriggerUpdate pct diapasons =
     (let totalGuids = sum_list (map diapason_count diapasons);
          pctValueToTrigger = u64_of_float (f64 (f64 (f64 (of_int (uint totalGuids)) / 100) * pct))
      in case diapasons of
           [] \<Rightarrow> Inl IndexPanic
         | d # _ \<Rightarrow>
             if pctValueToTrigger \<le> Start d
             then if Start d = End d then Inr (End d) else Inr (Start d + 1)
             else trigger_in diapasons pctValueToTrigger)"

definition NewThreadUnsafeGuidProvider ::
  "GuidDiapason list option \<Rightarrow> rat \<Rightarrow> provider_error + threadUnsafeGuidProvider" where
  "NewThreadUnsafeGuidProvider reply pct =
     (case reply of
        None \<Rightarrow> Inl ProviderError
      | Some [] \<Rightarrow> Inl EmptyDiapasons
      | Some (d # ds) \<Rightarrow>
          (case calculateIteratorValueToTriggerUpdate pct (d # ds) of
             Inl e \<Rightarrow> Inl e
           | Inr v \<Rightarrow> Inr \<lparr>iterator = Start d, iteratorMax = End d, iteratorValueToTriggerUpdate = v,
                          pctUsedToTriggerUpdate = pct, diapasonsChan = [], nextDiapasons = ds,
                          pendingRequests = 0\<rparr>))"

text \<open>
  Reading from a channel nobody sends on blocks: \<open>Blocks\<close>. A reply is never empty, since the
  request goroutine sends non-empty replies only.
\<close>

datatype 'a blocking = Blocks | Fails provider_error | Returns 'a

definition reloadNextDiapasons :: "threadUnsafeGuidProvider \<Rightarrow> threadUnsafeGuidProvider blocking" where
  "reloadNextDiapasons p =
     (case diapasonsChan p of
        [] \<Rightarrow> Blocks
      | ds # rest \<Rightarrow>
          (case calculateIteratorValueToTriggerUpdate (pctUsedToTriggerUpdate p) ds of
             Inl e \<Rightarrow> Fails e
           | Inr v \<Rightarrow> Returns (p\<lparr>nextDiapasons := ds, diapasonsChan := rest,
                                iteratorValueToTriggerUpdate := v\<rparr>)))"

definition take_next :: "threadUnsafeGuidProvider \<Rightarrow> threadUnsafeGuidProvider blocking" where
  "take_next p =
     (case nextDiapasons p of
        [] \<Rightarrow> Fails IndexPanic
      | d # ds \<Rightarrow> Returns (p\<lparr>iterator := Start d, iteratorMax := End d, nextDiapasons := ds\<rparr>))"

definition reloadIterator :: "threadUnsafeGuidProvider \<Rightarrow> threadUnsafeGuidProvider blocking" where
  "reloadIterator p =
     (if nextDiapasons p = []
      then (case reloadNextDiapasons p of
              Blocks \<Rightarrow> Blocks | Fails e \<Rightarrow> Fails e | Returns p' \<Rightarrow> take_next p')
      else take_next p)"

definition triggerDiapasonsRequest :: "threadUnsafeGuidProvider \<Rightarrow> threadUnsafeGuidProvider" where
  "triggerDiapasonsRequest p = p\<lparr>pendingRequests := Suc (pendingRequests p)\<rparr>"

text \<open>\<open>Next\<close>, cut at the blocking read.\<close>

definition Next_guid :: "threadUnsafeGuidProvider \<Rightarrow> (u64 \<times> threadUnsafeGuidProvider) blocking" where
  "Next_guid p =
     (case (if iteratorMax p < iterator p then reloadIterator p else Returns p) of
        Blocks \<Rightarrow> Blocks
      | Fails e \<Rightarrow> Fails e
      | Returns q \<Rightarrow>
          (let q' = (if iterator q = iteratorValueToTriggerUpdate q then triggerDiapasonsRequest q else q)
           in Returns (iterator q', q'\<lparr>iterator := iterator q' + 1\<rparr>)))"

text \<open>
  The request goroutine: up to five attempts, the first non-empty reply is sent, five failures
  end the process. \<open>reply i\<close> is what attempt \<open>i\<close> gets.
\<close>

fun request_attempts :: "nat \<Rightarrow> nat \<Rightarrow> (nat \<Rightarrow> GuidDiapason list option) \<Rightarrow> GuidDiapason list option" where
  "request_attempts 0 i reply = None"
| "request_attempts (Suc k) i reply =
     (case reply i of
        None \<Rightarrow> request_attempts k (Suc i) reply
      | Some ds \<Rightarrow> if ds \<noteq> [] then Some ds else request_attempts k (Suc i) reply)"

definition request_goroutine ::
  "(nat \<Rightarrow> GuidDiapason list option) \<Rightarrow> threadUnsafeGuidProvider \<Rightarrow> threadUnsafeGuidProvider blocking" where
  "request_goroutine reply p =
     (case request_attempts 5 0 reply of
        None \<Rightarrow> Fails FatalExit
      | Some ds \<Rightarrow> Returns (p\<lparr>diapasonsChan := diapasonsChan p @ [ds],
                             pendingRequests := pendingRequests p - 1\<rparr>))"

section \<open>The GUIDs a provider still has\<close>

definition range_list :: "GuidDiapason \<Rightarrow> nat list" where
  "range_list d = [unat (Start d)..<Suc (unat (End d))]"

definition stream :: "threadUnsafeGuidProvider \<Rightarrow> nat list" where
  "stream p = [unat (iterator p)..<Suc (unat (iteratorMax p))]
     @ concat (map range_list (nextDiapasons p)) @ concat (map range_list (concat (diapasonsChan p)))"

definition range_ok :: "GuidDiapason \<Rightarrow> bool" where
  "range_ok d \<longleftrightarrow> unat (Start d) \<le> unat (End d) \<and> unat (End d) < 2 ^ 64 - 1"

definition provider_ok :: "threadUnsafeGuidProvider \<Rightarrow> bool" where
  "provider_ok p \<longleftrightarrow> unat (iteratorMax p) < 2 ^ 64 - 1 \<and> unat (iterator p) \<le> Suc (unat (iteratorMax p))
     \<and> (\<forall>d\<in>set (nextDiapasons p). range_ok d)
     \<and> (\<forall>ds\<in>set (diapasonsChan p). ds \<noteq> [] \<and> (\<forall>d\<in>set ds. range_ok d))"

lemma reloadIterator_stream:
  assumes "provider_ok p" "iteratorMax p < iterator p" "reloadIterator p = Returns q"
  shows "stream q = stream p" "provider_ok q" "iterator q \<le> iteratorMax q"
proof -
  have e: "[unat (iterator p)..<Suc (unat (iteratorMax p))] = []"
    using assms(2) by (simp add: word_less_nat_alt)
  consider d ds where "nextDiapasons p = d # ds"
      "q = p\<lparr>iterator := Start d, iteratorMax := End d, nextDiapasons := ds\<rparr>"
    | d ds rest v where "nextDiapasons p = []" "diapasonsChan p = (d # ds) # rest"
      "q = p\<lparr>diapasonsChan := rest, iteratorValueToTriggerUpdate := v, iterator := Start d,
             iteratorMax := End d, nextDiapasons := ds\<rparr>"
    using assms(3)
    by (auto simp: reloadIterator_def reloadNextDiapasons_def take_next_def
        split: list.splits sum.splits if_splits blocking.splits)
  then show "stream q = stream p" "provider_ok q" "iterator q \<le> iteratorMax q"
    using e assms(1)
    by (cases; auto simp: stream_def range_list_def provider_ok_def range_ok_def word_le_unat)+
qed

lemma Next_guid_current:
  assumes "provider_ok q" "iterator q \<le> iteratorMax q"
  shows "stream q = unat (iterator q) # stream (q\<lparr>iterator := iterator q + 1\<rparr>)"
    and "provider_ok (q\<lparr>iterator := iterator q + 1\<rparr>)"
proof -
  have lt: "unat (iterator q) < 2 ^ 64 - 1" and le: "unat (iterator q) \<le> unat (iteratorMax q)"
    using assms by (auto simp: provider_ok_def word_le_unat)
  have s: "unat (iterator q + 1) = Suc (unat (iterator q))"
    using lt by (subst unat_add_no_wrap) auto
  show "stream q = unat (iterator q) # stream (q\<lparr>iterator := iterator q + 1\<rparr>)"
    using le by (simp add: stream_def s upt_conv_Cons)
  show "provider_ok (q\<lparr>iterator := iterator q + 1\<rparr>)"
    using assms(1) le by (simp add: provider_ok_def s)
qed

lemma stream_trigger [simp]:
  "stream (triggerDiapasonsRequest q) = stream q" "provider_ok (triggerDiapasonsRequest q) = provider_ok q"
  "iterator (triggerDiapasonsRequest q) = iterator q" "iteratorMax (triggerDiapasonsRequest q) = iteratorMax q"
  by (simp_all add: triggerDiapasonsRequest_def stream_def provider_ok_def)

lemma Next_guid_step:
  assumes "provider_ok p" "Next_guid p = Returns (g, p')"
  shows "stream p = unat g # stream p'" "provider_ok p'"
proof -
  obtain q where q: "stream q = stream p" "provider_ok q" "iterator q \<le> iteratorMax q"
    and r: "g = iterator q" "p' = (if iterator q = iteratorValueToTriggerUpdate q
      then triggerDiapasonsRequest q else q)\<lparr>iterator := iterator q + 1\<rparr>"
    using assms reloadIterator_stream [OF assms(1)]
    by (fastforce simp: Next_guid_def Let_def split: blocking.splits if_splits)
  define u where "u = (if iterator q = iteratorValueToTriggerUpdate q then triggerDiapasonsRequest q else q)"
  have "stream u = stream q" "provider_ok u" "iterator u = iterator q" "iteratorMax u = iteratorMax q"
    using q by (simp_all add: u_def)
  with Next_guid_current [of u] q r show "stream p = unat g # stream p'" "provider_ok p'"
    by (simp_all add: u_def [symmetric])
qed

fun next_guids :: "nat \<Rightarrow> threadUnsafeGuidProvider \<Rightarrow> (u64 list \<times> threadUnsafeGuidProvider) blocking" where
  "next_guids 0 p = Returns ([], p)"
| "next_guids (Suc k) p =
     (case Next_guid p of
        Blocks \<Rightarrow> Blocks | Fails e \<Rightarrow> Fails e
      | Returns (g, p') \<Rightarrow>
          (case next_guids k p' of
             Blocks \<Rightarrow> Blocks | Fails e \<Rightarrow> Fails e
           | Returns (gs, p'') \<Rightarrow> Returns (g # gs, p'')))"

section \<open>Properties\<close>

text \<open>
  Successive calls of \<open>Next\<close> return exactly the GUIDs of the ranges the provider was given,
  in the order of the ranges and each exactly as often as they hold it: what was returned
  followed by what is left is what there was.
\<close>

lemma Next_walks_the_ranges:
  assumes "provider_ok p" "next_guids k p = Returns (gs, p')"
  shows "stream p = map unat gs @ stream p'"
  using assms
proof (induction k arbitrary: p gs)
  case (Suc k)
  then obtain g q gs' where "Next_guid p = Returns (g, q)" "next_guids k q = Returns (gs', p')" "gs = g # gs'"
    by (auto split: blocking.splits)
  with Suc show ?case using Next_guid_step [of p g q] by simp
qed simp

definition example_provider :: threadUnsafeGuidProvider where
  "example_provider = \<lparr>iterator = 1, iteratorMax = 2, iteratorValueToTriggerUpdate = 3,
     pctUsedToTriggerUpdate = 50, diapasonsChan = [], nextDiapasons = [\<lparr>Start = 11, End = 12\<rparr>],
     pendingRequests = 0\<rparr>"

lemma example_provider_run:
  "NewThreadUnsafeGuidProvider (Some [\<lparr>Start = 1, End = 2\<rparr>, \<lparr>Start = 11, End = 12\<rparr>]) 50 = Inr example_provider"
  "next_guids 4 example_provider = Returns ([1, 2, 11, 12],
     example_provider\<lparr>iterator := 13, iteratorMax := 12, nextDiapasons := []\<rparr>)"
  by code_simp+

theorem Next_walks_the_ranges_witness:
  "stream example_provider = map unat [1, 2, 11, 12 :: u64]
     @ stream (example_provider\<lparr>iterator := 13, iteratorMax := 12, nextDiapasons := []\<rparr>)"
  by (rule Next_walks_the_ranges [OF _ example_provider_run(2)])
    (simp add: example_provider_def provider_ok_def range_ok_def)


end
