(* ===== verification/Game_Server_Repo.thy ===== *)
theory Game_Server_Repo
  imports Cloud9_Prelude "HOL-Library.Multiset"
begin

unbundle bit_operations_syntax

text \<open>
  Game servers and their repository, \<^verbatim>\<open>apps/servers-registry/repo/game-server.go\<close> and
  \<^verbatim>\<open>game-server_redis.go\<close>: the record, the binary search behind \<open>CanHandleMap\<close>, and the
  redis repository as an index of keys per realm over a map of values. Redis commands that fail
  are parameters; a stored value is the server itself, since JSON is written and read by the same
  struct.
\<close>

section \<open>Game servers\<close>

record DiffData =
  Mean :: u32
  Median :: u32
  Percentile95 :: u32
  Percentile99 :: u32
  Max_diff :: u32

record GameServer =
  ID :: string
  Address :: string
  HealthCheckAddr :: string
  GRPCAddress :: string
  Alias :: string
  RealmID :: u32
  IsCrossRealm :: bool
  AvailableMaps :: "u32 list"
  ActiveConnections :: u32
  Diff :: DiffData
  AssignedMapsToHandle :: "u32 list"
  AssignedButPendingMaps :: "u32 list"

text \<open>\<^verbatim>\<open>sort.Search\<close>: the least index in \<open>[i, j)\<close> whose predicate holds, by bisection.\<close>

function sort_Search :: "nat \<Rightarrow> nat \<Rightarrow> (nat \<Rightarrow> bool) \<Rightarrow> nat" where
  "sort_Search i j f =
     (if i < j
      then let h = (i + j) div 2 in if \<not> f h then sort_Search (h + 1) j f else sort_Search i h f
      else i)"
  by pat_completeness auto
termination
  by (relation "measure (\<lambda>(i, j, f). j - i)") auto

declare sort_Search.simps [simp del]

definition CanHandleMap :: "GameServer \<Rightarrow> u32 \<Rightarrow> bool" where
  "CanHandleMap g mapID =
     (let ms = AssignedMapsToHandle g; i = sort_Search 0 (length ms) (\<lambda>i. mapID \<le> ms ! i)
      in if i < length ms \<and> ms ! i = mapID
         then \<not> (\<exists>p\<in>set (AssignedButPendingMaps g). p = mapID) else False)"

definition IsAllMapsAvailable :: "GameServer \<Rightarrow> bool" where
  "IsAllMapsAvailable g \<longleftrightarrow> length (AvailableMaps g) = 0"

section \<open>The redis repository\<close>

text \<open>FNV-1a, 32 bit, of \<^verbatim>\<open>hash/fnv\<close>.\<close>

definition fnv32a :: "string \<Rightarrow> u32" where
  "fnv32a s = foldl (\<lambda>h c. (h XOR of_char c) * 16777619) 2166136261 s"

definition generateID :: "string \<Rightarrow> string" where
  "generateID address = dec (unat (fnv32a address))"

definition realmIndexKey :: "u32 \<Rightarrow> bool \<Rightarrow> string" where
  "realmIndexKey realmID isCrossRealm =
     (if isCrossRealm then ''crossrealm:wss'' else ''realm:'' @ dec (unat realmID) @ '':wss'')"

definition ws_key :: "string \<Rightarrow> string" where
  "ws_key serverID = ''ws:'' @ serverID"

text \<open>\<open>wsIndex s k\<close> lists the members of the redis set \<open>k\<close> in the order redis reports them.\<close>

record gs_redis =
  wsValues :: "string \<rightharpoonup> GameServer"
  wsIndex :: "string \<Rightarrow> string list"

datatype repo_error = RedisErr | RedisNil | TxFailed

definition default_ids :: "(string \<Rightarrow> string) \<Rightarrow> GameServer \<Rightarrow> GameServer" where
  "default_ids generateAlias server =
     (let s1 = server\<lparr>Address := ToLower (Address server)\<rparr>;
          s2 = (if ID s1 = [] then s1\<lparr>ID := generateID (Address s1)\<rparr> else s1)
      in if Alias s2 = [] then s2\<lparr>Alias := generateAlias (Address s2)\<rparr> else s2)"

text \<open>
  The server is passed by pointer: \<open>Upsert\<close> also fills in its missing id and alias, which
  \<open>default_ids\<close> returns. The display alias generator is an argument.
\<close>

definition repo_Upsert ::
  "(string \<Rightarrow> string) \<Rightarrow> bool \<Rightarrow> bool \<Rightarrow> GameServer \<Rightarrow> gs_redis \<Rightarrow> gs_redis \<times> repo_error option" where
  "repo_Upsert generateAlias setFails saddFails server0 s =
     (let server = default_ids generateAlias server0;
          key = ws_key (ID server); ikey = realmIndexKey (RealmID server) (IsCrossRealm server)
      in if setFails then (s, Some RedisErr)
         else if saddFails then (s\<lparr>wsValues := (wsValues s)(key := None)\<rparr>, Some RedisErr)
         else (s\<lparr>wsValues := (wsValues s)(key \<mapsto> server),
                 wsIndex := (wsIndex s)(ikey := (if key \<in> set (wsIndex s ikey) then wsIndex s ikey
                                                else wsIndex s ikey @ [key]))\<rparr>, None))"

text \<open>
  \<open>losses\<close> is the number of attempts another client's write makes fail; the fifth loss ends the
  loop. An update of a server that is not stored returns redis' nil error.
\<close>

definition repo_Update ::
  "nat \<Rightarrow> bool \<Rightarrow> string \<Rightarrow> (GameServer \<Rightarrow> GameServer) \<Rightarrow> gs_redis \<Rightarrow> gs_redis \<times> repo_error option" where
  "repo_Update losses fails serverID f s =
     (case wsValues s (ws_key serverID) of
        None \<Rightarrow> (s, Some RedisNil)
      | Some server \<Rightarrow>
          if fails then (s, Some RedisErr)
          else if 5 \<le> losses then (s, Some TxFailed)
          else (s\<lparr>wsValues := (wsValues s)(ws_key (ID (f server)) \<mapsto> f server)\<rparr>, None))"

definition repo_Remove :: "bool \<Rightarrow> bool \<Rightarrow> bool \<Rightarrow> string \<Rightarrow> gs_redis \<Rightarrow> gs_redis \<times> repo_error option" where
  "repo_Remove getFails sremFails delFails serverID s =
     (let key = ws_key serverID in
      if getFails then (s, Some RedisErr)
      else case wsValues s key of
        None \<Rightarrow> (s, None)
      | Some v \<Rightarrow>
          (let ikey = realmIndexKey (RealmID v) (IsCrossRealm v) in
           if sremFails then (s, Some RedisErr)
           else let s1 = s\<lparr>wsIndex := (wsIndex s)(ikey := filter (\<lambda>k. k \<noteq> key) (wsIndex s ikey))\<rparr>
                in if delFails then (s1, Some RedisErr)
                   else (s1\<lparr>wsValues := (wsValues s1)(key := None)\<rparr>, None)))"

definition listForRealmOrCrossRealm :: "bool \<Rightarrow> u32 \<Rightarrow> bool \<Rightarrow> gs_redis \<Rightarrow> repo_error + GameServer list" where
  "listForRealmOrCrossRealm fails realmID isCrossRealm s =
     (if fails then Inl RedisErr
      else Inr (List.map_filter (wsValues s) (wsIndex s (realmIndexKey realmID isCrossRealm))))"

definition repo_ListByRealm :: "bool \<Rightarrow> u32 \<Rightarrow> gs_redis \<Rightarrow> repo_error + GameServer list" where
  "repo_ListByRealm fails realmID s = listForRealmOrCrossRealm fails realmID False s"

definition repo_ListOfCrossRealms :: "bool \<Rightarrow> gs_redis \<Rightarrow> repo_error + GameServer list" where
  "repo_ListOfCrossRealms fails s = listForRealmOrCrossRealm fails 0 True s"

definition repo_One :: "bool \<Rightarrow> string \<Rightarrow> gs_redis \<Rightarrow> repo_error + GameServer option" where
  "repo_One fails serverID s = (if fails then Inl RedisErr else Inr (wsValues s (ws_key serverID)))"

text \<open>\<open>ListAll\<close> reads the keys that the \<^verbatim>\<open>SCAN\<close> of the key space reported.\<close>

definition repo_ListAll :: "bool \<Rightarrow> string list \<Rightarrow> gs_redis \<Rightarrow> repo_error + GameServer list" where
  "repo_ListAll scanFails scanned s =
     (if scanFails then Inl RedisErr else Inr (List.map_filter (wsValues s) scanned))"

section \<open>Binary search\<close>

lemma sort_Search_first:
  assumes mono: "\<And>a b. f a \<Longrightarrow> a \<le> b \<Longrightarrow> b < n \<Longrightarrow> f b"
    and "i \<le> j" "j \<le> n" "\<forall>k<i. \<not> f k" "\<forall>k. j \<le> k \<and> k < n \<longrightarrow> f k"
  shows "(\<forall>k < sort_Search i j f. \<not> f k) \<and> (\<forall>k. sort_Search i j f \<le> k \<and> k < n \<longrightarrow> f k)
    \<and> sort_Search i j f \<le> n"
  using assms(2-)
proof (induction "j - i" arbitrary: i j rule: less_induct)
  case less
  define h where "h = (i + j) div 2"
  show ?case
  proof (cases "i < j")
    case True
    then have h: "i \<le> h" "h < j" "h < n" using less.prems(2) by (auto simp: h_def)
    have step: "sort_Search i j f = (if f h then sort_Search i h f else sort_Search (h + 1) j f)"
      using True by (subst sort_Search.simps) (simp add: Let_def h_def)
    show ?thesis
    proof (cases "f h")
      case True
      then have "\<forall>k. h \<le> k \<and> k < n \<longrightarrow> f k" using mono by blast
      with less.hyps [of h i] h less.prems(3) have
        "(\<forall>k < sort_Search i h f. \<not> f k) \<and> (\<forall>k. sort_Search i h f \<le> k \<and> k < n \<longrightarrow> f k)
          \<and> sort_Search i h f \<le> n" by simp
      with step True show ?thesis by simp
    next
      case False
      then have "\<forall>k<h + 1. \<not> f k" using mono [of _ h] h(3) by (auto simp: less_Suc_eq_le)
      with less.hyps [of j "h + 1"] h less.prems have
        "(\<forall>k < sort_Search (h + 1) j f. \<not> f k) \<and> (\<forall>k. sort_Search (h + 1) j f \<le> k \<and> k < n \<longrightarrow> f k)
          \<and> sort_Search (h + 1) j f \<le> n" by simp
      with step False show ?thesis by simp
    qed
  next
    case False
    then have "sort_Search i j f = i" by (subst sort_Search.simps) simp
    with False less.prems show ?thesis by simp
  qed
qed

lemma CanHandleMap_sorted:
  assumes "sorted (AssignedMapsToHandle g)"
  shows "CanHandleMap g m \<longleftrightarrow> m \<in> set (AssignedMapsToHandle g) \<and> m \<notin> set (AssignedButPendingMaps g)"
proof -
  let ?ms = "AssignedMapsToHandle g"
  define i where "i = sort_Search 0 (length ?ms) (\<lambda>i. m \<le> ?ms ! i)"
  have "m \<le> ?ms ! a \<Longrightarrow> a \<le> b \<Longrightarrow> b < length ?ms \<Longrightarrow> m \<le> ?ms ! b" for a b
    using assms by (meson order_trans sorted_nth_mono)
  then have "(\<forall>k<i. \<not> m \<le> ?ms ! k) \<and> (\<forall>k. i \<le> k \<and> k < length ?ms \<longrightarrow> m \<le> ?ms ! k) \<and> i \<le> length ?ms"
    unfolding i_def
    by (rule sort_Search_first [of "\<lambda>i. m \<le> ?ms ! i" "length ?ms" 0 "length ?ms"]) auto
  then have i: "\<forall>k<i. \<not> m \<le> ?ms ! k" "\<forall>k. i \<le> k \<and> k < length ?ms \<longrightarrow> m \<le> ?ms ! k" by blast+
  have "m \<in> set ?ms \<longleftrightarrow> i < length ?ms \<and> ?ms ! i = m"
  proof
    assume "m \<in> set ?ms"
    then obtain k where k: "k < length ?ms" "?ms ! k = m" by (auto simp: in_set_conv_nth)
    then have "i \<le> k" using i(1) by (metis le_less_linear order_refl)
    moreover have "?ms ! i \<le> m" using sorted_nth_mono [OF assms \<open>i \<le> k\<close>] k by simp
    ultimately show "i < length ?ms \<and> ?ms ! i = m" using k(1) i(2) by (auto intro: antisym)
  qed auto
  then show ?thesis by (auto simp: CanHandleMap_def Let_def i_def)
qed

section \<open>The repository keeps its index\<close>

lemma ws_key_inject [simp]: "ws_key i = ws_key j \<longleftrightarrow> i = j"
  by (simp add: ws_key_def)

lemma realmIndexKey_inject:
  "realmIndexKey r x = realmIndexKey r' x' \<longleftrightarrow> x = x' \<and> (x \<or> r = r')"
proof -
  have "dec (unat r) @ '':wss'' = dec (unat r') @ '':wss'' \<longleftrightarrow> r = r'"
    by (simp add: word_unat_eq_iff)
  then show ?thesis by (auto simp: realmIndexKey_def)
qed

abbreviation server_index :: "GameServer \<Rightarrow> string" where
  "server_index v \<equiv> realmIndexKey (RealmID v) (IsCrossRealm v)"

text \<open>
  Every value is stored under its own id and listed in the index of its own realm, and in no other
  index; no index lists a key twice.
\<close>

definition wf_repo :: "gs_redis \<Rightarrow> bool" where
  "wf_repo s \<longleftrightarrow>
     (\<forall>k v. wsValues s k = Some v \<longrightarrow> k = ws_key (ID v) \<and> k \<in> set (wsIndex s (server_index v))) \<and>
     (\<forall>ik k v. k \<in> set (wsIndex s ik) \<and> wsValues s k = Some v \<longrightarrow> ik = server_index v) \<and>
     (\<forall>ik. distinct (wsIndex s ik))"

abbreviation keeps_identity :: "(GameServer \<Rightarrow> GameServer) \<Rightarrow> bool" where
  "keeps_identity f \<equiv> \<forall>v. ID (f v) = ID v \<and> RealmID (f v) = RealmID v \<and> IsCrossRealm (f v) = IsCrossRealm v"

lemma wf_value:
  "wf_repo s \<Longrightarrow> wsValues s k = Some v \<Longrightarrow> k = ws_key (ID v)"
  "wf_repo s \<Longrightarrow> wsValues s k = Some v \<Longrightarrow> ik = server_index v \<Longrightarrow> k \<in> set (wsIndex s ik)"
  by (auto simp: wf_repo_def)

lemma wf_index:
  "wf_repo s \<Longrightarrow> wsValues s k = Some v \<Longrightarrow> k \<in> set (wsIndex s ik) \<Longrightarrow> ik = server_index v"
  "wf_repo s \<Longrightarrow> distinct (wsIndex s ik)"
  by (auto simp: wf_repo_def)

lemma wf_repoI:
  assumes "\<And>k v. wsValues s k = Some v \<Longrightarrow> k = ws_key (ID v)"
    and "\<And>k v. wsValues s k = Some v \<Longrightarrow> k \<in> set (wsIndex s (server_index v))"
    and "\<And>ik k v. wsValues s k = Some v \<Longrightarrow> k \<in> set (wsIndex s ik) \<Longrightarrow> ik = server_index v"
    and "\<And>ik. distinct (wsIndex s ik)"
  shows "wf_repo s"
  using assms by (auto simp: wf_repo_def)

lemma Upsert_wf:
  assumes wf: "wf_repo s" and server: "server = default_ids generateAlias server0"
    and same: "\<And>v. wsValues s (ws_key (ID server)) = Some v \<Longrightarrow> server_index v = server_index server"
    and stale: "\<And>ik. ws_key (ID server) \<in> set (wsIndex s ik) \<Longrightarrow> ik = server_index server"
  shows "wf_repo (fst (repo_Upsert generateAlias False False server0 s))"
  by (rule wf_repoI)
    (auto simp: repo_Upsert_def Let_def server [symmetric] wf_index(2) [OF wf]
      intro: wf_value [OF wf] wf_index(1) [OF wf] stale split: if_splits)

lemma Remove_wf:
  assumes wf: "wf_repo s"
  shows "wf_repo (fst (repo_Remove False False False i s))"
proof (cases "wsValues s (ws_key i)")
  case None
  then show ?thesis using wf by (simp add: repo_Remove_def Let_def)
next
  case (Some v)
  show ?thesis
    by (rule wf_repoI)
      (auto simp: repo_Remove_def Let_def Some wf_index(2) [OF wf]
        intro: wf_value [OF wf] wf_index(1) [OF wf] split: if_splits)
qed

lemma Update_wf:
  assumes wf: "wf_repo s" and f: "keeps_identity f"
  shows "wf_repo (fst (repo_Update losses fails i f s))"
proof (cases "wsValues s (ws_key i)")
  case None
  then show ?thesis using wf by (simp add: repo_Update_def)
next
  case (Some v)
  then have "ws_key i = ws_key (ID v)" by (rule wf_value(1) [OF wf])
  then have i: "ID v = i" by simp
  have "wf_repo (s\<lparr>wsValues := (wsValues s)(ws_key i \<mapsto> f v)\<rparr>)"
    by (rule wf_repoI)
      (auto simp: f i Some wf_index(2) [OF wf]
        intro: wf_value [OF wf] wf_index(1) [OF wf] wf_index(1) [OF wf Some] split: if_splits)
  then show ?thesis using wf by (simp add: repo_Update_def Some f i)
qed

lemma map_filter_set: "set (List.map_filter f xs) = {y. \<exists>x\<in>set xs. f x = Some y}"
  by (auto simp: List.map_filter_def image_iff) force

lemma ListByRealm_set:
  assumes "wf_repo s" "repo_ListByRealm False r s = Inr vs"
  shows "set vs = {v. \<exists>i. wsValues s (ws_key i) = Some v \<and> RealmID v = r \<and> \<not> IsCrossRealm v}"
proof -
  have "vs = List.map_filter (wsValues s) (wsIndex s (realmIndexKey r False))"
    using assms(2) by (simp add: repo_ListByRealm_def listForRealmOrCrossRealm_def)
  then have "set vs = {v. \<exists>k\<in>set (wsIndex s (realmIndexKey r False)). wsValues s k = Some v}"
    by (simp add: map_filter_set)
  then show ?thesis
    using assms(1) unfolding wf_repo_def
    by (auto simp: realmIndexKey_inject) (metis realmIndexKey_inject)+
qed

section \<open>The interface of the repository\<close>

text \<open>
  What the services rely on: \<open>find\<close> is \<open>One\<close>, \<open>listing\<close> is \<open>ListByRealm\<close>, and an \<open>update\<close> that keeps
  the identity of a server changes that server only. The client loop below stores one assignment
  after the other and stops at the first error, the loop of \<open>distributeMapsToServers\<close>.
\<close>

fun store_loop ::
  "(string \<Rightarrow> (GameServer \<Rightarrow> GameServer) \<Rightarrow> 's \<Rightarrow> 's \<times> repo_error option) \<Rightarrow>
   (string \<times> u32 list \<times> u32 list) list \<Rightarrow> 's \<Rightarrow> 's \<times> repo_error option" where
  "store_loop update [] s = (s, None)"
| "store_loop update ((serverID, assigned, pending) # ds) s =
     (case update serverID
        (\<lambda>latest. latest\<lparr>AssignedMapsToHandle := assigned, AssignedButPendingMaps := pending\<rparr>) s of
        (s', Some e) \<Rightarrow> (s', Some e)
      | (s', None) \<Rightarrow> store_loop update ds s')"

locale game_server_repo =
  fixes wf :: "'s \<Rightarrow> bool"
    and find :: "'s \<Rightarrow> string \<Rightarrow> GameServer option"
    and listing :: "'s \<Rightarrow> u32 \<Rightarrow> GameServer list"
    and update :: "string \<Rightarrow> (GameServer \<Rightarrow> GameServer) \<Rightarrow> 's \<Rightarrow> 's \<times> repo_error option"
  assumes update_missing: "find s i = None \<Longrightarrow> update i f s = (s, Some RedisNil)"
    and update_found: "wf s \<Longrightarrow> find s i = Some v \<Longrightarrow> keeps_identity f \<Longrightarrow>
      \<exists>s'. update i f s = (s', None) \<and> wf s' \<and> find s' = (find s)(i \<mapsto> f v)"
    and find_id: "wf s \<Longrightarrow> find s i = Some v \<Longrightarrow> ID v = i"
    and listing_set: "wf s \<Longrightarrow>
      set (listing s r) = {v. \<exists>i. find s i = Some v \<and> RealmID v = r \<and> \<not> IsCrossRealm v}"
begin

lemma store_loop_all:
  assumes "wf s" "distinct (map fst ds)" "\<forall>d\<in>set ds. find s (fst d) \<noteq> None"
  shows "\<exists>s'. store_loop update ds s = (s', None) \<and> wf s' \<and>
    (\<forall>i. find s' i = (case map_of ds i of
        None \<Rightarrow> find s i
      | Some (a, p) \<Rightarrow> map_option (\<lambda>v. v\<lparr>AssignedMapsToHandle := a, AssignedButPendingMaps := p\<rparr>) (find s i)))"
  using assms
proof (induction ds arbitrary: s)
  case (Cons d ds)
  obtain i a p where d: "d = (i, a, p)" by (cases d) auto
  let ?f = "\<lambda>v. v\<lparr>AssignedMapsToHandle := a, AssignedButPendingMaps := p\<rparr> :: GameServer"
  obtain v where v: "find s i = Some v" using Cons.prems(3) d by auto
  have "keeps_identity ?f" by simp
  from update_found [OF Cons.prems(1) v this] obtain s1 where
    s1: "update i ?f s = (s1, None)" "wf s1" "find s1 = (find s)(i \<mapsto> ?f v)" by blast
  have "distinct (map fst ds)" "\<forall>d\<in>set ds. find s1 (fst d) \<noteq> None" "i \<notin> fst ` set ds"
    using Cons.prems d s1(3) by auto
  moreover from this(3) have "map_of ds i = None" by (simp add: map_of_eq_None_iff)
  ultimately show ?case
    using Cons.IH [OF s1(2)] s1 v by (fastforce simp: d split: option.splits)
qed simp

lemma store_loop_missing:
  assumes "find s i = None"
  shows "store_loop update ((i, a, p) # ds) s = (s, Some RedisNil)"
  by (simp add: update_missing [OF assms])

end

definition redis_listing :: "gs_redis \<Rightarrow> u32 \<Rightarrow> GameServer list" where
  "redis_listing s r = (case repo_ListByRealm False r s of Inr vs \<Rightarrow> vs | Inl e \<Rightarrow> [])"

interpretation redis_servers: game_server_repo wf_repo "\<lambda>s i. wsValues s (ws_key i)" redis_listing
  "\<lambda>i f. repo_Update 0 False i f"
proof unfold_locales
  fix s :: gs_redis and i f v
  show "wsValues s (ws_key i) = None \<Longrightarrow> repo_Update 0 False i f s = (s, Some RedisNil)"
    by (simp add: repo_Update_def)
  assume wf: "wf_repo s" and v: "wsValues s (ws_key i) = Some v"
  show i: "ID v = i" using wf_value(1) [OF wf v] by simp
  assume f: "keeps_identity f"
  have "repo_Update 0 False i f s = (s\<lparr>wsValues := (wsValues s)(ws_key i \<mapsto> f v)\<rparr>, None)"
    using f by (simp add: repo_Update_def v i)
  with Update_wf [OF wf f, of 0 False i]
  show "\<exists>s'. repo_Update 0 False i f s = (s', None) \<and> wf_repo s' \<and>
      (\<lambda>i. wsValues s' (ws_key i)) = (\<lambda>i. wsValues s (ws_key i))(i \<mapsto> f v)"
    by (auto simp: fun_eq_iff)
next
  fix s r
  assume "wf_repo s"
  then show "set (redis_listing s r) =
      {v. \<exists>i. wsValues s (ws_key i) = Some v \<and> RealmID v = r \<and> \<not> IsCrossRealm v}"
    by (auto simp: redis_listing_def ListByRealm_set repo_ListByRealm_def listForRealmOrCrossRealm_def
        split: sum.splits dest!: ListByRealm_set [where r = r, rotated])
qed

lemma redis_listing_members:
  assumes "wf_repo s"
  shows "distinct (map ID (redis_listing s r))"
    and "\<forall>v\<in>set (redis_listing s r). wsValues s (ws_key (ID v)) = Some v"
proof -
  let ?ks = "wsIndex s (realmIndexKey r False)"
  have l: "redis_listing s r = List.map_filter (wsValues s) ?ks"
    by (simp add: redis_listing_def repo_ListByRealm_def listForRealmOrCrossRealm_def)
  have "map (\<lambda>v. ws_key (ID v)) (List.map_filter (wsValues s) ks) = filter (\<lambda>k. wsValues s k \<noteq> None) ks" for ks
    by (induction ks) (use wf_value(1) [OF assms] in \<open>auto simp: List.map_filter_def\<close>)
  then have "distinct (map ws_key (map ID (redis_listing s r)))"
    using wf_index(2) [OF assms, of "realmIndexKey r False"] by (simp add: l comp_def)
  then show "distinct (map ID (redis_listing s r))" unfolding distinct_map [of ws_key] ..
  show "\<forall>v\<in>set (redis_listing s r). wsValues s (ws_key (ID v)) = Some v"
    using wf_value(1) [OF assms] by (auto simp: l map_filter_set)
qed

section \<open>Properties\<close>

text \<open>
  C34: A registered server is found under its id and listed in its realm beside the servers listed
  before, and removing it restores the database exactly.
\<close>

theorem Upsert_then_Remove:
  assumes "wf_repo s" "server = default_ids generateAlias server0"
    and new: "wsValues s (ws_key (ID server)) = None" "\<And>ik. ws_key (ID server) \<notin> set (wsIndex s ik)"
    and "\<not> IsCrossRealm server"
    and s1: "s1 = fst (repo_Upsert generateAlias False False server0 s)"
  shows "repo_One False (ID server) s1 = Inr (Some server) \<and>
    set (redis_listing s1 (RealmID server)) = insert server (set (redis_listing s (RealmID server))) \<and>
    repo_Remove False False False (ID server) s1 = (s, None)"
proof -
  have wf1: "wf_repo s1" using Upsert_wf [OF assms(1,2)] new by (simp add: s1)
  have v1: "wsValues s1 = (wsValues s)(ws_key (ID server) \<mapsto> server)"
    using new assms(2) by (simp add: s1 repo_Upsert_def Let_def)
  have "set (redis_listing s1 (RealmID server)) = insert server (set (redis_listing s (RealmID server)))"
    using new(1) assms(5)
    by (auto simp: redis_servers.listing_set [OF wf1] redis_servers.listing_set [OF assms(1)] v1)
      (metis option.distinct(1))
  moreover have "repo_Remove False False False (ID server) s1 = (s, None)"
    using new assms(2)
    by (auto simp: repo_Remove_def Let_def s1 repo_Upsert_def filter_id_conv fun_eq_iff
        intro!: gs_redis.equality)
  ultimately show ?thesis by (simp add: repo_One_def v1)
qed

definition ex_server :: "string \<Rightarrow> GameServer" where
  "ex_server i = \<lparr>ID = i, Address = i @ '':9000'', HealthCheckAddr = i @ '':9001'', GRPCAddress = i @ '':9002'',
     Alias = i, RealmID = 1, IsCrossRealm = False, AvailableMaps = [], ActiveConnections = 0,
     Diff = \<lparr>Mean = 0, Median = 0, Percentile95 = 0, Percentile99 = 0, Max_diff = 0\<rparr>,
     AssignedMapsToHandle = [], AssignedButPendingMaps = []\<rparr>"

definition empty_repo :: gs_redis where
  "empty_repo = \<lparr>wsValues = Map.empty, wsIndex = (\<lambda>k. [])\<rparr>"

lemma wf_empty_repo: "wf_repo empty_repo"
  by (simp add: wf_repo_def empty_repo_def)

lemma default_ids_ex_server: "default_ids g (ex_server ''a'') = ex_server ''a''"
  by (simp add: default_ids_def ex_server_def ToLower_def to_lower_def Let_def)

theorem Upsert_then_Remove_witness:
  "repo_One False ''a'' (fst (repo_Upsert id False False (ex_server ''a'') empty_repo)) =
     Inr (Some (ex_server ''a'')) \<and>
   repo_Remove False False False ''a'' (fst (repo_Upsert id False False (ex_server ''a'') empty_repo)) =
     (empty_repo, None)"
proof -
  have "ID (ex_server ''a'') = ''a''" "\<not> IsCrossRealm (ex_server ''a'')" by (simp_all add: ex_server_def)
  with Upsert_then_Remove [OF wf_empty_repo default_ids_ex_server [symmetric, of id], OF _ _ _ refl]
  show ?thesis by (simp add: empty_repo_def)
qed

section \<open>The binary search\<close>

text \<open>
  C35: Binary search agrees with a linear one. For a server whose assigned maps are sorted, which is how
  the balancer leaves them, \<open>CanHandleMap\<close> answers what scanning the assigned maps from the front and
  then the pending ones would answer, for every map id, those before the first and after the last
  assigned map included.
\<close>

theorem CanHandleMap_equals_linear_scan:
  assumes "sorted (AssignedMapsToHandle g)"
  shows "CanHandleMap g m =
    (list_ex (\<lambda>x. x = m) (AssignedMapsToHandle g) \<and> \<not> list_ex (\<lambda>x. x = m) (AssignedButPendingMaps g))"
  by (auto simp: CanHandleMap_sorted [OF assms] list_ex_iff)

theorem CanHandleMap_equals_linear_scan_witness:
  "(let g = ex_server ''a''\<lparr>AssignedMapsToHandle := [0, 1, 530, 571], AssignedButPendingMaps := [530]\<rparr>
    in sorted (AssignedMapsToHandle g) \<and> CanHandleMap g 571 \<and> \<not> CanHandleMap g 530 \<and> \<not> CanHandleMap g 600)"
  using CanHandleMap_equals_linear_scan [of "ex_server ''a''\<lparr>AssignedMapsToHandle := [0, 1, 530, 571],
    AssignedButPendingMaps := [530]\<rparr>"]
  by (simp add: Let_def)

end
