(* ===== verification/Map_Balancer.thy ===== *)
theory Map_Balancer
  imports Game_Server_Repo
begin

text \<open>
  The distribution of maps over the game servers of a realm,
  \<^verbatim>\<open>apps/servers-registry/mapbalancing/binpack/distributor.go\<close>: servers started for a fixed
  list of maps get that list, the other maps are packed first-fit decreasing into bins of the
  rounded-up average weight, bin \<open>i\<close> going to server \<open>i\<close>.

  A Go map is an association list with distinct keys; \<open>order\<close> is the order in which a
  \<^verbatim>\<open>range\<close> loop visits it, an arbitrary permutation. Sorting by weight is stable here:
  every outcome of Go's unstable sort is the stable sort of some order.
\<close>

section \<open>Model\<close>

type_synonym mapIDWeight = "u32 \<times> u32"
type_synonym MapsWeight = "mapIDWeight list"

fun firstAvailableBin :: "u32 list \<Rightarrow> u32 \<Rightarrow> nat option" where
  "firstAvailableBin [] mapWeight = None"
| "firstAvailableBin (b # bs) mapWeight =
     (if mapWeight \<le> b then Some 0 else map_option Suc (firstAvailableBin bs mapWeight))"

definition pack_step ::
  "u32 \<Rightarrow> u32 list \<times> mapIDWeight list list \<Rightarrow> mapIDWeight \<Rightarrow> u32 list \<times> mapIDWeight list list" where
  "pack_step weightPerServer st mapWeight =
     (case st of (binStates, packing) \<Rightarrow>
        (case firstAvailableBin binStates (snd mapWeight) of
           Some i \<Rightarrow> (binStates[i := binStates ! i - snd mapWeight], packing[i := packing ! i @ [mapWeight]])
         | None \<Rightarrow> (binStates @ [weightPerServer - snd mapWeight], packing @ [[mapWeight]])))"

definition pack :: "u32 \<Rightarrow> mapIDWeight list \<Rightarrow> u32 list \<times> mapIDWeight list list" where
  "pack weightPerServer mw = foldl (pack_step weightPerServer) ([], []) mw"

definition weight_per_server :: "MapsWeight \<Rightarrow> nat \<Rightarrow> u32" where
  "weight_per_server weights n =
     (let totalWeight = sum_list (map snd weights)
      in of_int \<lceil>f64 (of_nat (unat totalWeight) / of_nat n)\<rceil>)"

definition cap_weights :: "u32 \<Rightarrow> MapsWeight \<Rightarrow> MapsWeight" where
  "cap_weights weightPerServer weights =
     map (\<lambda>(mapID, weight). (mapID, if weightPerServer < weight then weightPerServer else weight)) weights"

definition by_weight :: "mapIDWeight list \<Rightarrow> mapIDWeight list" where
  "by_weight mw = sort_key (\<lambda>m. - uint (snd m)) mw"

definition add_maps :: "u32 list \<Rightarrow> GameServer \<Rightarrow> GameServer" where
  "add_maps ms s = s\<lparr>AssignedMapsToHandle := AssignedMapsToHandle s @ ms\<rparr>"

text \<open>The loop for the bins that have no server; its bound is \<^verbatim>\<open>len(servers)-len(packing)\<close>.\<close>

definition spread_bin :: "int \<Rightarrow> mapIDWeight list \<Rightarrow> GameServer list \<Rightarrow> GameServer list" where
  "spread_bin lenDiff bin servers =
     fst (foldl (\<lambda>(ss, itr) j.
                   let itr = (if length ss \<le> itr then 0 else itr)
                   in (ss[itr := add_maps [fst (bin ! nat j)] (ss ! itr)], itr + 1))
            (servers, 0) [0..lenDiff - 1])"

definition spread_overflow :: "mapIDWeight list list \<Rightarrow> GameServer list \<Rightarrow> GameServer list" where
  "spread_overflow packing servers =
     (let lenDiff = int (length servers) - int (length packing)
      in foldl (\<lambda>ss i. spread_bin lenDiff (packing ! nat i) ss) servers [0..lenDiff - 1])"

definition assign_bins :: "mapIDWeight list list \<Rightarrow> GameServer list \<Rightarrow> GameServer list" where
  "assign_bins packing servers =
     foldl (\<lambda>ss i. ss[i := add_maps (map fst (packing ! i)) (ss ! i)]) servers [0..<length packing]"

definition sort_maps :: "GameServer \<Rightarrow> GameServer" where
  "sort_maps s = s\<lparr>AssignedMapsToHandle := sort (AssignedMapsToHandle s)\<rparr>"

definition bins_of :: "(MapsWeight \<Rightarrow> MapsWeight) \<Rightarrow> MapsWeight \<Rightarrow> nat \<Rightarrow> mapIDWeight list list" where
  "bins_of order weights n =
     (let weightPerServer = weight_per_server weights n
      in snd (pack weightPerServer (by_weight (order (cap_weights weightPerServer weights)))))"

definition greedyBinPackBalancer ::
  "(MapsWeight \<Rightarrow> MapsWeight) \<Rightarrow> MapsWeight \<Rightarrow> GameServer list \<Rightarrow> GameServer list" where
  "greedyBinPackBalancer order weights servers =
     (let packing = bins_of order weights (length servers);
          (servers1, packing1) =
            (if length servers < length packing
             then (spread_overflow packing servers, take (length servers) packing)
             else (servers, packing))
      in map sort_maps (assign_bins packing1 servers1))"

definition Distribute ::
  "(MapsWeight \<Rightarrow> MapsWeight) \<Rightarrow> MapsWeight \<Rightarrow> GameServer list \<Rightarrow> GameServer list" where
  "Distribute order weights servers0 =
     (let servers = map (\<lambda>s. s\<lparr>AssignedMapsToHandle := []\<rparr>) servers0;
          serversToBalance = filter IsAllMapsAvailable servers;
          readyServers = map (\<lambda>s. s\<lparr>AssignedMapsToHandle := AvailableMaps s\<rparr>)
                           (filter (\<lambda>s. \<not> IsAllMapsAvailable s) servers);
          weightsCopy = filter (\<lambda>(m, w). \<forall>s\<in>set readyServers. m \<notin> set (AvailableMaps s)) weights
      in case serversToBalance of
           [] \<Rightarrow> readyServers
         | [s] \<Rightarrow> readyServers @ [sort_maps (add_maps (map fst (order weightsCopy)) s)]
         | _ \<Rightarrow> readyServers @ greedyBinPackBalancer order weightsCopy serversToBalance)"

section \<open>First-fit packing\<close>

lemma firstAvailableBin_Some:
  "firstAvailableBin bs w = Some i \<Longrightarrow> i < length bs \<and> w \<le> bs ! i \<and> (\<forall>j<i. bs ! j < w)"
proof (induction bs arbitrary: i)
  case (Cons b bs)
  then show ?case by (auto simp: nth_Cons' not_le split: if_splits)
qed simp

lemma firstAvailableBin_None: "firstAvailableBin bs w = None \<longleftrightarrow> (\<forall>b\<in>set bs. b < w)"
  by (induction bs) (auto simp: not_le)

abbreviation weight_sum :: "mapIDWeight list \<Rightarrow> nat" where
  "weight_sum ms \<equiv> (\<Sum>m\<leftarrow>ms. unat (snd m))"

lemma weight_sum_mset: "mset xs = mset ys \<Longrightarrow> weight_sum xs = weight_sum ys"
  by (simp only: sum_mset_sum_list [symmetric] mset_map)

definition fits :: "u32 \<Rightarrow> u32 list \<Rightarrow> mapIDWeight list list \<Rightarrow> bool" where
  "fits c bs pk \<longleftrightarrow> length bs = length pk \<and>
     (\<forall>i<length pk. unat (bs ! i) + weight_sum (pk ! i) = unat c)"

lemma fits_step:
  assumes "fits c bs pk" "snd m \<le> c" "pack_step c (bs, pk) m = (bs', pk')"
  shows "fits c bs' pk' \<and> mset (concat pk') = add_mset m (mset (concat pk))"
proof (cases "firstAvailableBin bs (snd m)")
  case None
  then have "bs' = bs @ [c - snd m]" "pk' = pk @ [[m]]"
    using assms(3) by (auto simp: pack_step_def)
  with assms(1,2) show ?thesis
    by (auto simp: fits_def nth_append unat_sub_le word_le_unat less_Suc_eq)
next
  case (Some i)
  then have i: "i < length bs" "snd m \<le> bs ! i" by (auto dest: firstAvailableBin_Some)
  have eqs: "bs' = bs[i := bs ! i - snd m]" "pk' = pk[i := pk ! i @ [m]]"
    using assms(3) Some by (auto simp: pack_step_def)
  have len: "length bs = length pk" using assms(1) by (simp add: fits_def)
  have "unat (bs ! i - snd m) + unat (snd m) = unat (bs ! i)"
    using i by (simp add: unat_sub_le word_le_unat)
  with assms(1) i have "fits c bs' pk'"
    by (auto simp: fits_def eqs nth_list_update)
  moreover have "mset (concat pk') = add_mset m (mset (concat pk))"
  proof -
    have "pk = take i pk @ pk ! i # drop (Suc i) pk" using i len by (simp add: id_take_nth_drop)
    moreover have "pk' = take i pk @ (pk ! i @ [m]) # drop (Suc i) pk"
      using i len by (simp add: eqs upd_conv_take_nth_drop)
    moreover have "mset (concat (a @ (r @ [m]) # b)) = add_mset m (mset (concat (a @ r # b)))" for a r b
      by simp
    ultimately show ?thesis by metis
  qed
  ultimately show ?thesis ..
qed

lemma pack_snoc: "pack c (ms @ [m]) = pack_step c (pack c ms) m"
  by (simp add: pack_def)

lemma pack_fits:
  assumes "\<forall>m\<in>set ms. snd m \<le> c"
  shows "fits c (fst (pack c ms)) (snd (pack c ms)) \<and> mset (concat (snd (pack c ms))) = mset ms"
  using assms
proof (induction ms rule: rev_induct)
  case (snoc m ms)
  obtain bs pk where p: "pack c ms = (bs, pk)" by force
  obtain bs' pk' where p': "pack_step c (bs, pk) m = (bs', pk')" by force
  from snoc p have "fits c bs pk" "mset (concat pk) = mset ms" "snd m \<le> c" by auto
  with fits_step [OF _ _ p'] show ?case by (simp add: pack_snoc p p')
qed (simp add: pack_def fits_def)

lemma sum_list_concat_fits:
  assumes "fits c bs pk"
  shows "sum_list (map unat bs) + weight_sum (concat pk) = length pk * unat c"
  using assms
proof (induction pk arbitrary: bs)
  case (Cons r pk)
  then obtain b bs' where bs: "bs = b # bs'" by (cases bs) (auto simp: fits_def)
  with Cons.prems have "fits c bs' pk" "unat b + weight_sum r = unat c"
    by (auto simp: fits_def)
  with Cons.IH [of bs'] bs show ?case by simp
qed (simp add: fits_def)

lemma length_pack_step:
  "length (snd (pack_step c (bs, pk) m)) =
     (if firstAvailableBin bs (snd m) = None then Suc (length pk) else length pk)"
  by (simp add: pack_step_def split: option.split)

text \<open>
  A bin is opened for a map of weight 1 only when every open bin is full. So when at most \<open>n\<close>
  maps weigh more than 1 and \<open>n\<close> bins have room for all the weight, \<open>n\<close> bins are enough.
\<close>

abbreviation heavy :: "mapIDWeight \<Rightarrow> bool" where
  "heavy m \<equiv> 1 < snd m"

lemma light_opens_when_full:
  assumes "\<forall>m\<in>set ms. snd m \<le> c" "pack c ms = (bs, pk)" "\<not> heavy m"
    and "firstAvailableBin bs (snd m) = None"
    and "weight_sum (ms @ [m]) \<le> n * unat c" "0 < n"
  shows "length pk < n"
proof (cases "snd m = 0")
  case True
  with assms(4) have "bs = []" by (cases bs) (auto split: if_splits)
  with pack_fits [OF assms(1)] assms(2,6) show ?thesis by (simp add: fits_def)
next
  case False
  with assms(3) have "unat (snd m) = unat (1 :: u32)"
    by (auto simp: not_less word_le_nat_alt unat_eq_zero le_Suc_eq)
  then have one: "snd m = 1" by (simp only: word_unat_eq_iff)
  with assms(4) have "\<forall>b\<in>set bs. b = 0" by (simp add: firstAvailableBin_None)
  then have "sum_list (map unat bs) = 0" by (induction bs) auto
  moreover have "fits c bs pk" "mset (concat pk) = mset ms" using pack_fits [OF assms(1)] assms(2) by auto
  ultimately have "weight_sum ms = length pk * unat c"
    using sum_list_concat_fits [of c bs pk] weight_sum_mset [of "concat pk" ms] by linarith
  with assms(5) one have "length pk * unat c < n * unat c"
    by (simp del: mult_less_cancel2 add: less_eq_Suc_le)
  then show ?thesis by simp
qed

lemma pack_bins_bounded:
  assumes "\<forall>m\<in>set ms. snd m \<le> c" "sorted_wrt (\<lambda>a b. snd b \<le> snd a) ms"
    and "length (filter heavy ms) \<le> n" "weight_sum ms \<le> n * unat c" "0 < n"
  shows "length (snd (pack c ms)) \<le> n"
proof -
  have "length (snd (pack c ms)) \<le> n \<and>
      ((\<forall>m\<in>set ms. heavy m) \<longrightarrow> length (snd (pack c ms)) \<le> length ms)"
    using assms(1-4)
  proof (induction ms rule: rev_induct)
    case (snoc m ms)
    obtain bs pk where p: "pack c ms = (bs, pk)" by force
    have IH: "length pk \<le> n" "(\<forall>m\<in>set ms. heavy m) \<longrightarrow> length pk \<le> length ms"
      using snoc p by (auto simp: sorted_wrt_append)
    have len: "length (snd (pack c (ms @ [m]))) \<le> Suc (length pk)"
      by (simp add: pack_snoc p length_pack_step)
    show ?case
    proof (cases "heavy m")
      case True
      then have "\<forall>m\<in>set ms. heavy m" using snoc.prems(2) by (auto simp: sorted_wrt_append)
      with IH True snoc.prems(3) len show ?thesis by auto
    next
      case False
      have "length pk < n" if "firstAvailableBin bs (snd m) = None"
        using light_opens_when_full [OF _ p False that _ assms(5)] snoc.prems by auto
      with False IH show ?thesis by (auto simp: pack_snoc p length_pack_step)
    qed
  qed (use assms(5) in \<open>simp add: pack_def\<close>)
  then show ?thesis ..
qed

section \<open>From bins to servers\<close>

lemma spread_overflow_never_runs:
  "length servers < length packing \<Longrightarrow> spread_overflow packing servers = servers"
  by (simp add: spread_overflow_def)

lemma assign_upto:
  assumes "k \<le> length ss"
  shows "foldl (\<lambda>ss i. ss[i := add_maps (f i) (ss ! i)]) ss [0..<k] =
    map (\<lambda>i. if i < k then add_maps (f i) (ss ! i) else ss ! i) [0..<length ss]"
  using assms
proof (induction k)
  case 0
  then show ?case by (simp add: map_nth)
next
  case (Suc k)
  then show ?case
    by (auto intro!: nth_equalityI simp: nth_list_update less_Suc_eq)
qed

lemma assign_bins_eq:
  "length pk \<le> length ss \<Longrightarrow> assign_bins pk ss =
     map (\<lambda>i. if i < length pk then add_maps (map fst (pk ! i)) (ss ! i) else ss ! i) [0..<length ss]"
  by (simp add: assign_bins_def assign_upto)

lemma assigned_assign_bins:
  assumes "length pk \<le> length ss" "\<forall>s\<in>set ss. AssignedMapsToHandle s = []"
  shows "map AssignedMapsToHandle (map sort_maps (assign_bins pk ss)) =
    map (\<lambda>bin. sort (map fst bin)) pk @ replicate (length ss - length pk) []"
  using assms
  by (auto intro!: nth_equalityI
      simp: assign_bins_eq sort_maps_def add_maps_def nth_append)

lemma assigned_greedy:
  assumes "\<forall>s\<in>set ss. AssignedMapsToHandle s = []"
    and pk_def: "pk = bins_of order weights (length ss)"
  shows "map AssignedMapsToHandle (greedyBinPackBalancer order weights ss) =
    map (\<lambda>bin. sort (map fst bin)) (take (length ss) pk) @ replicate (length ss - length pk) []"
  using assms(1) assigned_assign_bins [of "take (length ss) pk" ss] assigned_assign_bins [of pk ss]
  by (simp add: greedyBinPackBalancer_def Let_def pk_def [symmetric] spread_overflow_never_runs
      del: map_map)

text \<open>What the balancer leaves of a server: everything but its assigned maps.\<close>

lemma greedy_keeps:
  assumes "\<And>g x. f (g\<lparr>AssignedMapsToHandle := x\<rparr>) = f g"
  shows "map f (greedyBinPackBalancer order weights ss) = map f ss"
proof -
  have "map f (assign_bins pk ss) = map f ss" if "length pk \<le> length ss" for pk
    using that
    by (auto intro!: nth_equalityI simp: assign_bins_eq add_maps_def assms)
  then have "map f (map sort_maps (assign_bins pk ss)) = map f ss" if "length pk \<le> length ss" for pk
    using that by (simp add: sort_maps_def assms comp_def)
  then show ?thesis
    by (simp add: greedyBinPackBalancer_def Let_def spread_overflow_never_runs del: map_map)
qed

section \<open>The distribution\<close>

abbreviation unrestricted :: "GameServer list \<Rightarrow> GameServer list" where
  "unrestricted \<equiv> filter IsAllMapsAvailable"

definition free_weights :: "MapsWeight \<Rightarrow> GameServer list \<Rightarrow> MapsWeight" where
  "free_weights weights servers =
     filter (\<lambda>(m, w). \<forall>s\<in>set servers. m \<notin> set (AvailableMaps s)) weights"

abbreviation cleared :: "GameServer \<Rightarrow> GameServer" where
  "cleared s \<equiv> s\<lparr>AssignedMapsToHandle := []\<rparr>"

lemma IsAllMapsAvailable_assigned [simp]:
  "IsAllMapsAvailable (s\<lparr>AssignedMapsToHandle := x\<rparr>) = IsAllMapsAvailable s"
  by (simp add: IsAllMapsAvailable_def)

lemma Distribute_eq:
  "Distribute order weights servers =
     map (\<lambda>s. s\<lparr>AssignedMapsToHandle := AvailableMaps s\<rparr>) (filter (\<lambda>s. \<not> IsAllMapsAvailable s) servers) @
     (case unrestricted (map cleared servers) of
        [] \<Rightarrow> []
      | [s] \<Rightarrow> [sort_maps (add_maps (map fst (order (free_weights weights servers))) s)]
      | ss \<Rightarrow> greedyBinPackBalancer order (free_weights weights servers) ss)"
proof -
  have "filter (\<lambda>(m, w). \<forall>s\<in>set (map (\<lambda>s. s\<lparr>AssignedMapsToHandle := AvailableMaps s\<rparr>)
      (filter (\<lambda>s. \<not> IsAllMapsAvailable s) (map cleared servers))). m \<notin> set (AvailableMaps s)) weights
      = free_weights weights servers"
    by (auto simp: free_weights_def IsAllMapsAvailable_def intro!: filter_cong)
  moreover have "map (\<lambda>s. s\<lparr>AssignedMapsToHandle := AvailableMaps s\<rparr>)
      (filter (\<lambda>s. \<not> IsAllMapsAvailable s) (map cleared servers)) =
    map (\<lambda>s. s\<lparr>AssignedMapsToHandle := AvailableMaps s\<rparr>) (filter (\<lambda>s. \<not> IsAllMapsAvailable s) servers)"
    by (simp add: filter_map comp_def)
  ultimately show ?thesis
    by (simp add: Distribute_def Let_def split: list.split)
qed

lemma unrestricted_Distribute:
  "unrestricted (Distribute order weights servers) =
     (case unrestricted (map cleared servers) of
        [] \<Rightarrow> []
      | [s] \<Rightarrow> [sort_maps (add_maps (map fst (order (free_weights weights servers))) s)]
      | ss \<Rightarrow> greedyBinPackBalancer order (free_weights weights servers) ss)"
proof -
  have "\<forall>s\<in>set (greedyBinPackBalancer order w ss). IsAllMapsAvailable s"
    if "\<forall>s\<in>set ss. IsAllMapsAvailable s" for w ss
  proof -
    have "set (map IsAllMapsAvailable (greedyBinPackBalancer order w ss)) = set (map IsAllMapsAvailable ss)"
      by (subst greedy_keeps) simp_all
    with that show ?thesis by auto
  qed
  then have all: "unrestricted (greedyBinPackBalancer order w ss) = greedyBinPackBalancer order w ss"
    if "\<forall>s\<in>set ss. IsAllMapsAvailable s" for w ss
    using that by (simp add: filter_id_conv)
  let ?ss = "unrestricted (map cleared servers)"
  have ss: "\<forall>s\<in>set ?ss. IsAllMapsAvailable s" by simp
  have "unrestricted (Distribute order weights servers) = unrestricted
     (case ?ss of
        [] \<Rightarrow> []
      | [s] \<Rightarrow> [sort_maps (add_maps (map fst (order (free_weights weights servers))) s)]
      | ss \<Rightarrow> greedyBinPackBalancer order (free_weights weights servers) ss)"
    by (simp add: Distribute_eq filter_map comp_def filter_empty_conv)
  also have "\<dots> = (case ?ss of
        [] \<Rightarrow> []
      | [s] \<Rightarrow> [sort_maps (add_maps (map fst (order (free_weights weights servers))) s)]
      | ss \<Rightarrow> greedyBinPackBalancer order (free_weights weights servers) ss)"
  proof (cases ?ss)
    case (Cons a ss')
    show ?thesis
    proof (cases ss')
      case Nil
      have "IsAllMapsAvailable a" using ss unfolding Cons by simp
      then show ?thesis unfolding Cons Nil by (simp add: sort_maps_def add_maps_def)
    next
      case (Cons b cs)
      then show ?thesis using all [of ?ss] ss unfolding \<open>?ss = a # ss'\<close> by simp
    qed
  qed simp
  finally show ?thesis .
qed

lemma unrestricted_servers:
  "unrestricted (map cleared servers) = map cleared (unrestricted servers)"
  by (simp add: filter_map comp_def)

lemma assigned_Distribute:
  assumes "n = length (unrestricted servers)" "2 \<le> n" "bins = bins_of order (free_weights weights servers) n"
  shows "map AssignedMapsToHandle (unrestricted (Distribute order weights servers)) =
    map (\<lambda>bin. sort (map fst bin)) (take n bins) @ replicate (n - length bins) []"
proof -
  let ?ss = "map cleared (unrestricted servers)"
  obtain a b cs where "?ss = a # b # cs"
    using assms(1,2) by (cases "unrestricted servers"; cases "tl (unrestricted servers)") auto
  then have "unrestricted (Distribute order weights servers) =
      greedyBinPackBalancer order (free_weights weights servers) ?ss"
    by (simp add: unrestricted_Distribute unrestricted_servers)
  moreover have "\<forall>s\<in>set ?ss. AssignedMapsToHandle s = []" by simp
  ultimately show ?thesis using assigned_greedy [of ?ss] assms(1,3) by simp
qed

section \<open>Weights\<close>

lemma unat_sum_weights:
  "weight_sum ws < 2 ^ 32 \<Longrightarrow> unat (sum_list (map snd ws)) = weight_sum ws"
proof (induction ws)
  case (Cons w ws)
  then show ?case by (simp add: unat_add_no_wrap)
qed simp

lemma weight_per_server_enough:
  assumes "2 \<le> n" "weight_sum ws < 2 ^ 32"
  shows "weight_sum ws \<le> n * unat (weight_per_server ws n)"
proof -
  let ?t = "weight_sum ws"
  define x where "x = (of_nat ?t / of_nat n :: rat)"
  define c where "c = \<lceil>f64 x\<rceil>"
  have ge: "int ?t \<le> c * int n"
    using ceiling_f64_ge [of n ?t] assms by (simp add: c_def x_def)
  then have c0: "0 \<le> c" using assms(1) mult_neg_pos [of c "int n"] by linarith
  have "x \<le> of_nat ?t / 2" unfolding x_def
    using assms(1) by (intro divide_left_mono) auto
  also have "\<dots> < 2 ^ 31"
  proof -
    have "(of_nat ?t :: rat) < of_nat (2 ^ 32)" using assms(2) by (simp only: of_nat_less_iff)
    then show ?thesis by simp
  qed
  finally have x31: "x < 2 ^ 31" .
  have "f64 x \<le> x + x / 2 ^ 53"
  proof (cases "x = 0")
    case False
    moreover have "0 \<le> x" by (simp add: x_def)
    ultimately have "0 < x" by simp
    then show ?thesis using ieee_round_error [of x 53] by linarith
  qed (simp add: ieee_round_def)
  with x31 have "f64 x \<le> 2 ^ 32 - 1" by simp
  then have "c < 2 ^ 32" by (simp add: c_def ceiling_le_iff [symmetric] ceiling_less_iff)
  then obtain k where k: "c = int k" "k < 2 ^ 32" using c0 nonneg_int_cases [of c] by auto
  have "unat (of_nat k :: u32) = k" using k(2) by (simp add: unat_of_nat)
  then have "unat (of_int c :: u32) = nat c" by (simp add: k)
  moreover have "weight_per_server ws n = of_int c"
    by (simp only: weight_per_server_def Let_def c_def x_def unat_sum_weights [OF assms(2)])
  moreover have "weight_sum ws \<le> n * k"
    using ge unfolding k(1) by (simp add: mult.commute flip: of_nat_mult)
  ultimately show ?thesis by (simp add: k(1))
qed

lemma cap_weights_le: "\<forall>m\<in>set (cap_weights c ws). snd m \<le> c"
  by (auto simp: cap_weights_def not_less)

lemma weight_sum_cap_le: "weight_sum (cap_weights c ws) \<le> weight_sum ws"
  by (induction ws) (auto simp: cap_weights_def word_less_nat_alt)

lemma heavy_cap_le: "length (filter heavy (cap_weights c ws)) \<le> length (filter heavy ws)"
  by (induction ws) (auto simp: cap_weights_def split: if_splits)

lemma fst_cap_weights: "map fst (cap_weights c ws) = map fst ws"
  by (simp add: cap_weights_def case_prod_beta comp_def)

lemma sorted_by_weight: "sorted_wrt (\<lambda>a b. snd b \<le> snd a) (by_weight ms)"
proof -
  have "sorted (map (\<lambda>m. - uint (snd m)) (by_weight ms))" by (simp add: by_weight_def)
  then show ?thesis by (simp add: sorted_map word_le_def)
qed

lemma weight_sum_free_le: "weight_sum (free_weights ws ss) \<le> weight_sum ws"
  by (induction ws) (auto simp: free_weights_def)

lemma heavy_free_le: "length (filter heavy (free_weights ws ss)) \<le> length (filter heavy ws)"
  by (induction ws) (auto simp: free_weights_def)

lemma bins_of_fits:
  assumes "\<And>xs. mset (order xs) = mset xs" "c = weight_per_server ws n"
  shows "\<exists>bs. fits c bs (bins_of order ws n)"
    and "mset (concat (bins_of order ws n)) = mset (cap_weights c ws)"
proof -
  let ?ms = "by_weight (order (cap_weights c ws))"
  have ms: "mset ?ms = mset (cap_weights c ws)" by (simp add: by_weight_def assms(1))
  then have "\<forall>m\<in>set ?ms. snd m \<le> c" using cap_weights_le by (metis set_mset_mset)
  from pack_fits [OF this] ms show "\<exists>bs. fits c bs (bins_of order ws n)"
    "mset (concat (bins_of order ws n)) = mset (cap_weights c ws)"
    by (auto simp: bins_of_def Let_def assms(2))
qed

lemma bins_of_bounded:
  assumes order: "\<And>xs. mset (order xs) = mset xs"
    and "2 \<le> n" "weight_sum ws < 2 ^ 32" "length (filter heavy ws) \<le> n"
  shows "length (bins_of order ws n) \<le> n"
proof -
  define c where "c = weight_per_server ws n"
  let ?ms = "by_weight (order (cap_weights c ws))"
  have ms: "mset ?ms = mset (cap_weights c ws)" by (simp add: by_weight_def order)
  have "weight_sum ?ms = weight_sum (cap_weights c ws)" by (rule weight_sum_mset [OF ms])
  also have "\<dots> \<le> n * unat c"
    using weight_sum_cap_le [of c ws] weight_per_server_enough [OF assms(2,3)] unfolding c_def
    by (rule order_trans)
  finally have sum: "weight_sum ?ms \<le> n * unat c" .
  have "length (filter heavy ?ms) = length (filter heavy (cap_weights c ws))"
    using ms by (metis mset_filter size_mset)
  with heavy_cap_le [of c ws] assms(4) have "length (filter heavy ?ms) \<le> n" by simp
  moreover have "\<forall>m\<in>set ?ms. snd m \<le> c" using ms cap_weights_le by (metis set_mset_mset)
  ultimately show ?thesis
    using pack_bins_bounded [OF _ sorted_by_weight _ sum] assms(2)
    by (simp add: bins_of_def Let_def c_def [symmetric])
qed

section \<open>Properties\<close>

lemma mset_concat_sorted: "mset (concat (map (\<lambda>bin. sort (map fst bin)) bins)) = mset (map fst (concat bins))"
  by (induction bins) auto

lemma distribution_complete:
  assumes order: "\<And>xs. mset (order xs) = mset xs"
    and "unrestricted servers \<noteq> []" "weight_sum weights < 2 ^ 32"
    and few: "length (filter heavy weights) \<le> length (unrestricted servers)"
  shows "mset (concat (map AssignedMapsToHandle (unrestricted (Distribute order weights servers)))) =
      mset (map fst (free_weights weights servers)) \<and>
    (\<forall>s\<in>set (unrestricted (Distribute order weights servers)). sorted (AssignedMapsToHandle s))"
proof (cases "length (unrestricted servers) = 1")
  case True
  then obtain s where "unrestricted servers = [s]" by (auto simp: length_Suc_conv)
  then have "unrestricted (Distribute order weights servers) =
      [sort_maps (add_maps (map fst (order (free_weights weights servers))) (cleared s))]"
    by (simp add: unrestricted_Distribute unrestricted_servers)
  then show ?thesis by (simp add: sort_maps_def add_maps_def order)
next
  case False
  let ?n = "length (unrestricted servers)" and ?ws = "free_weights weights servers"
  let ?bins = "bins_of order ?ws ?n"
  have n: "2 \<le> ?n" using False assms(2) by (cases ?n) (auto simp: Suc_le_eq)
  have "length ?bins \<le> ?n"
    by (rule bins_of_bounded [OF order n])
      (use weight_sum_free_le [of weights servers] assms(3) heavy_free_le [of weights servers] few in linarith)+
  then have eq: "map AssignedMapsToHandle (unrestricted (Distribute order weights servers)) =
      map (\<lambda>bin. sort (map fst bin)) ?bins @ replicate (?n - length ?bins) []"
    using assigned_Distribute [OF refl n refl] by simp
  have "mset (concat (map AssignedMapsToHandle (unrestricted (Distribute order weights servers)))) =
      mset (map fst (concat ?bins))"
    by (simp add: eq mset_concat_sorted)
  also have "\<dots> = image_mset fst (mset (concat ?bins))" by simp
  also have "\<dots> = mset (map fst ?ws)"
    by (simp add: bins_of_fits(2) [OF order refl] fst_cap_weights flip: mset_map)
  finally have "mset (concat (map AssignedMapsToHandle (unrestricted (Distribute order weights servers)))) =
      mset (map fst ?ws)" .
  moreover have "\<forall>ms\<in>set (map AssignedMapsToHandle (unrestricted (Distribute order weights servers))). sorted ms"
    unfolding eq by auto
  ultimately show ?thesis by auto
qed

text \<open>
  C19: Every map is distributed. When the weights add up to less than \<^verbatim>\<open>2^32\<close> and at most as many maps
  weigh more than 1 as there are servers that accept every map, each map that no restricted server
  takes is assigned to exactly one of those servers, in whatever order Go iterates over the
  weights, and every assignment is sorted.
\<close>

theorem Distribute_assigns_every_map:
  assumes order: "\<And>xs. mset (order xs) = mset xs"
    and "unrestricted servers \<noteq> []" "weight_sum weights < 2 ^ 32"
    and few: "length (filter heavy weights) \<le> length (unrestricted servers)"
  shows "mset (concat (map AssignedMapsToHandle (unrestricted (Distribute order weights servers)))) =
      mset (map fst (free_weights weights servers)) \<and>
    (\<forall>s\<in>set (unrestricted (Distribute order weights servers)). sorted (AssignedMapsToHandle s))"
  by (rule distribution_complete [OF assms])

theorem Distribute_assigns_every_map_witness:
  "mset (concat (map AssignedMapsToHandle (unrestricted
      (Distribute rev [(0, 1), (1, 3), (3, 2), (4, 1)] [ex_server ''a'', ex_server ''b''])))) = {#0, 1, 3, 4#}"
  using Distribute_assigns_every_map
    [of rev "[ex_server ''a'', ex_server ''b'']" "[(0, 1), (1, 3), (3, 2), (4, 1)]"]
  by (simp add: ex_server_def IsAllMapsAvailable_def free_weights_def)

text \<open>
  C20: No server is given more than its share. With at least two servers that accept every map, the
  maps assigned to each of them are the sorted contents of a bin whose capped weights add up to at
  most the weight per server.
\<close>

theorem Distribute_within_capacity:
  assumes order: "\<And>xs. mset (order xs) = mset xs"
    and n: "n = length (unrestricted servers)" "2 \<le> n"
    and ws: "ws = free_weights weights servers"
    and s: "s \<in> set (unrestricted (Distribute order weights servers))"
  shows "\<exists>bin. AssignedMapsToHandle s = sort (map fst bin) \<and>
    mset bin \<subseteq># mset (cap_weights (weight_per_server ws n) ws) \<and>
    weight_sum bin \<le> unat (weight_per_server ws n)"
proof -
  let ?bins = "bins_of order ws n" and ?c = "weight_per_server ws n"
  have "AssignedMapsToHandle s \<in> set (map (\<lambda>bin. sort (map fst bin)) (take n ?bins) @
      replicate (n - length ?bins) [])"
    using s by (simp add: assigned_Distribute [OF n refl, symmetric] ws)
  then consider bin where "bin \<in> set ?bins" "AssignedMapsToHandle s = sort (map fst bin)"
    | "AssignedMapsToHandle s = []"
    by (auto dest: in_set_takeD)
  then show ?thesis
  proof cases
    case (1 bin)
    obtain bs where "fits ?c bs ?bins" using bins_of_fits(1) [OF order refl] by blast
    moreover obtain i where "i < length ?bins" "bin = ?bins ! i" using 1(1) by (auto simp: in_set_conv_nth)
    ultimately have "unat (bs ! i) + weight_sum bin = unat ?c" by (auto simp: fits_def)
    then have "weight_sum bin \<le> unat ?c" by linarith
    moreover have "mset bin \<subseteq># mset (concat ?bins)"
    proof -
      obtain xs ys where "?bins = xs @ bin # ys" using 1(1) by (auto dest: split_list)
      then show ?thesis by simp
    qed
    ultimately show ?thesis using 1(2) bins_of_fits(2) [OF order refl] by metis
  next
    case 2
    then show ?thesis by (intro exI [of _ "[]"]) simp
  qed
qed

theorem Distribute_within_capacity_witness:
  "\<exists>bin. [1] = sort (map fst bin) \<and>
     mset bin \<subseteq># mset (cap_weights (weight_per_server [(1, 3), (0, 1), (3, 2)] 2) [(1, 3), (0, 1), (3, 2)]) \<and>
     weight_sum bin \<le> unat (weight_per_server [(1, 3), (0, 1), (3, 2)] 2)"
proof -
  let ?ss = "[ex_server ''a'', ex_server ''b'']" and ?w = "[(1, 3), (0, 1), (3, 2)]"
  have "\<exists>s\<in>set (unrestricted (Distribute (\<lambda>xs. xs) ?w ?ss)). AssignedMapsToHandle s = [1]"
    by code_simp
  then obtain s where "s \<in> set (unrestricted (Distribute (\<lambda>xs. xs) ?w ?ss))" "AssignedMapsToHandle s = [1]"
    by blast
  moreover have "2 = length (unrestricted ?ss)" "?w = free_weights ?w ?ss"
    by (simp_all add: ex_server_def IsAllMapsAvailable_def free_weights_def)
  ultimately show ?thesis
    using Distribute_within_capacity [of "\<lambda>xs. xs" 2 ?ss ?w ?w s] by simp
qed

text \<open>
  Bins beyond the number of servers are dropped. The loop meant to spread them over the servers
  runs \<^verbatim>\<open>len(servers)-len(packing)\<close> times, a negative number, so the assigned maps are those of
  the first bins only.
\<close>

lemma Distribute_drops_overflow_bins:
  assumes "n = length (unrestricted servers)" "2 \<le> n" "bins = bins_of order (free_weights weights servers) n"
    and "n < length bins"
  shows "map AssignedMapsToHandle (unrestricted (Distribute order weights servers)) =
    map (\<lambda>bin. sort (map fst bin)) (take n bins)"
  using assigned_Distribute [OF assms(1-3)] assms(4) by simp

theorem Distribute_drops_overflow_bins_witness:
  "map AssignedMapsToHandle (unrestricted (Distribute (\<lambda>xs. xs) [(1, 3), (2, 3), (3, 3)]
     [ex_server ''a'', ex_server ''b''])) = [[1], [2]]"
proof -
  let ?ss = "[ex_server ''a'', ex_server ''b'']" and ?w = "[(1, 3), (2, 3), (3, 3)]"
  have bins: "[[(1, 3)], [(2, 3)], [(3, 3)]] = bins_of (\<lambda>xs. xs) (free_weights ?w ?ss) 2"
    by code_simp
  have "2 = length (unrestricted ?ss)" by (simp add: ex_server_def IsAllMapsAvailable_def)
  from Distribute_drops_overflow_bins [OF this _ bins] show ?thesis by simp
qed

end
