(* ===== verification/Game_Servers.thy ===== *)
theory Game_Servers
  imports Map_Balancer "HOL-Library.List_Lexorder" "HOL-Library.Char_ord"
begin

text \<open>
  The game server service of the registry, \<^verbatim>\<open>apps/servers-registry/service/game-server.go\<close>,
  with the registration lists of \<^verbatim>\<open>shared/healthandmetrics\<close> and the events of
  \<^verbatim>\<open>shared/events/events-serversregistry.go\<close>.

  \<open>reg_env\<close> holds what a call meets outside the service: the map weights and the iteration order of
  Go maps, the alias generator, and which calls to redis, to the layer store and to the event bus
  fail. A handler returns the changed registry and its result or error.

  Slices alias: \<open>Distribute\<close> gives a restricted server \<^verbatim>\<open>AssignedMapsToHandle = AvailableMaps\<close>, one
  backing array under two names, and \<open>removeMap\<close>, \<^verbatim>\<open>append\<close> and the sort of
  \<open>applyLayerAssignments\<close> write it in place. \<open>set_assigned\<close> writes both.
\<close>

section \<open>Events\<close>

record events_GameServer =
  evID :: string
  evAddress :: string
  evRealmID :: u32
  evIsCrossRealm :: bool
  evAvailableMaps :: "u32 list"
  OldAssignedMapsToHandle :: "u32 list"
  NewAssignedMapsToHandle :: "u32 list"

definition OnlyNewMaps :: "events_GameServer \<Rightarrow> u32 list" where
  "OnlyNewMaps s = filter (\<lambda>m. m \<notin> set (OldAssignedMapsToHandle s)) (NewAssignedMapsToHandle s)"

definition OnlyRemovedMaps :: "events_GameServer \<Rightarrow> u32 list" where
  "OnlyRemovedMaps s = filter (\<lambda>m. m \<notin> set (NewAssignedMapsToHandle s)) (OldAssignedMapsToHandle s)"

datatype gs_event =
    GSAdded events_GameServer
  | GSRemoved events_GameServer
  | GSMapsReassigned "events_GameServer list"

section \<open>Layer assignments\<close>

definition containsMap :: "u32 list \<Rightarrow> u32 \<Rightarrow> bool" where
  "containsMap maps mapID \<longleftrightarrow> mapID \<in> set maps"

definition mapAvailable :: "GameServer \<Rightarrow> u32 \<Rightarrow> bool" where
  "mapAvailable server mapID \<longleftrightarrow> IsAllMapsAvailable server \<or> mapID \<in> set (AvailableMaps server)"

definition removeMap :: "u32 list \<Rightarrow> u32 \<Rightarrow> u32 list" where
  "removeMap maps mapID = filter (\<lambda>assigned. assigned \<noteq> mapID) maps"

text \<open>Assigning \<open>ms\<close> through the shared backing array of a restricted server.\<close>

definition set_assigned :: "u32 list \<Rightarrow> GameServer \<Rightarrow> GameServer" where
  "set_assigned ms s =
     (if IsAllMapsAvailable s then s\<lparr>AssignedMapsToHandle := ms\<rparr>
      else s\<lparr>AssignedMapsToHandle := ms, AvailableMaps := ms @ drop (length ms) (AvailableMaps s)\<rparr>)"

definition better_candidate :: "GameServer \<Rightarrow> GameServer \<Rightarrow> bool" where
  "better_candidate s c \<longleftrightarrow>
     length (AssignedMapsToHandle s) < length (AssignedMapsToHandle c) \<or>
     length (AssignedMapsToHandle s) = length (AssignedMapsToHandle c) \<and> ID s < ID c"

definition consider_candidate :: "u32 \<Rightarrow> GameServer list \<Rightarrow> nat option \<Rightarrow> nat \<Rightarrow> nat option" where
  "consider_candidate mapID servers candidate i =
     (if \<not> mapAvailable (servers ! i) mapID \<or> containsMap (AssignedMapsToHandle (servers ! i)) mapID
      then candidate
      else case candidate of
          None \<Rightarrow> Some i
        | Some c \<Rightarrow> if better_candidate (servers ! i) (servers ! c) then Some i else Some c)"

definition choose_candidate :: "u32 \<Rightarrow> GameServer list \<Rightarrow> nat option" where
  "choose_candidate mapID servers = foldl (consider_candidate mapID servers) None [0..<length servers]"

definition add_replica :: "u32 \<Rightarrow> GameServer list \<Rightarrow> GameServer list" where
  "add_replica mapID servers =
     (case choose_candidate mapID servers of
        None \<Rightarrow> servers
      | Some c \<Rightarrow> servers[c := set_assigned (sort (AssignedMapsToHandle (servers ! c) @ [mapID])) (servers ! c)])"

definition layer_map :: "GameServer list \<Rightarrow> u32 \<times> u32 \<Rightarrow> GameServer list" where
  "layer_map servers config =
     (case config of (mapID, replicas) \<Rightarrow>
        if replicas < 2 then servers
        else (add_replica mapID ^^ unat replicas)
               (map (\<lambda>s. set_assigned (removeMap (AssignedMapsToHandle s) mapID) s) servers))"

definition applyLayerAssignments :: "GameServer list \<Rightarrow> (u32 \<times> u32) list \<Rightarrow> GameServer list" where
  "applyLayerAssignments servers config = foldl layer_map servers config"

definition newlyAssigned :: "u32 list \<Rightarrow> u32 list \<Rightarrow> u32 list" where
  "newlyAssigned oldMaps newMaps = filter (\<lambda>m. m \<notin> set oldMaps) newMaps"

definition pendingAssignments :: "u32 list \<Rightarrow> u32 list \<Rightarrow> u32 list \<Rightarrow> u32 list" where
  "pendingAssignments existing oldMaps newMaps =
     (let kept = filter (\<lambda>m. m \<in> set newMaps) existing
      in kept @ filter (\<lambda>m. m \<notin> set kept) (newlyAssigned oldMaps newMaps))"

section \<open>The registry\<close>

record registry =
  redis :: gs_redis
  layerConfig :: "u32 \<Rightarrow> (u32 \<times> u32) list"
  healthObjects :: "GameServer list"
  metricsObjects :: "GameServer list"
  produced :: "gs_event list"

record reg_env =
  iteration :: "MapsWeight \<Rightarrow> MapsWeight"
  mapWeights :: MapsWeight
  generateAlias :: "string \<Rightarrow> string"
  hasLayers :: bool
  lockFails :: bool
  configFails :: bool
  listFails :: bool
  getFails :: bool
  setFails :: bool
  saddFails :: bool
  sremFails :: bool
  delFails :: bool
  updateLosses :: nat
  updateFails :: "string \<Rightarrow> bool"
  eventFails :: bool

datatype reg_error = RepoErr repo_error | LockErr | LayerConfigErr | EventErr | GameServerNotFound

text \<open>Health checks and metrics keep one object per address; the first one registered stays.\<close>

definition AddHealthCheckObject :: "GameServer \<Rightarrow> GameServer list \<Rightarrow> GameServer list" where
  "AddHealthCheckObject object objects =
     (if \<exists>o'\<in>set objects. HealthCheckAddr o' = HealthCheckAddr object then objects else objects @ [object])"

definition RemoveHealthCheckObject :: "GameServer \<Rightarrow> GameServer list \<Rightarrow> GameServer list" where
  "RemoveHealthCheckObject object objects =
     remove_first (\<lambda>o'. HealthCheckAddr o' = HealthCheckAddr object) objects"

definition AddMetricsObservable :: "GameServer \<Rightarrow> GameServer list \<Rightarrow> GameServer list" where
  "AddMetricsObservable observable objects =
     (if \<exists>o'\<in>set objects. HealthCheckAddr o' = HealthCheckAddr observable then objects else objects @ [observable])"

definition RemoveMetricsObservable :: "GameServer \<Rightarrow> GameServer list \<Rightarrow> GameServer list" where
  "RemoveMetricsObservable observable objects =
     remove_first (\<lambda>o'. HealthCheckAddr o' = HealthCheckAddr observable) objects"

section \<open>Distributing maps\<close>

definition layered :: "reg_env \<Rightarrow> registry \<Rightarrow> GameServer list \<Rightarrow> reg_error + GameServer list" where
  "layered env st distributed =
     (if distributed \<noteq> [] \<and> \<not> IsCrossRealm (hd distributed) \<and> hasLayers env
      then if configFails env then Inl LayerConfigErr
           else Inr (applyLayerAssignments distributed (layerConfig st (RealmID (hd distributed))))
      else Inr distributed)"

definition reassign_event :: "GameServer list \<Rightarrow> GameServer \<Rightarrow> events_GameServer" where
  "reassign_event serversBefore d =
     \<lparr>evID = ID d, evAddress = Address d, evRealmID = RealmID d, evIsCrossRealm = False,
      evAvailableMaps = AvailableMaps d,
      OldAssignedMapsToHandle =
        (case List.find (\<lambda>b. ID b = ID d) serversBefore of Some b \<Rightarrow> AssignedMapsToHandle b | None \<Rightarrow> []),
      NewAssignedMapsToHandle = AssignedMapsToHandle d\<rparr>"

definition mark_pending :: "events_GameServer list \<Rightarrow> GameServer \<Rightarrow> GameServer" where
  "mark_pending res d =
     (case List.find (\<lambda>r. evID r = ID d) res of
        Some r \<Rightarrow> if 0 < length (OldAssignedMapsToHandle r) then d\<lparr>AssignedButPendingMaps := OnlyNewMaps r\<rparr> else d
      | None \<Rightarrow> d)"

definition distributeMapsToServers ::
  "reg_env \<Rightarrow> GameServer list \<Rightarrow> registry \<Rightarrow> registry \<times> (reg_error + GameServer list)" where
  "distributeMapsToServers env servers st =
     (case layered env st (Distribute (iteration env) (mapWeights env) servers) of
        Inl e \<Rightarrow> (st, Inl e)
      | Inr distributed \<Rightarrow>
          (let res = map (reassign_event servers) distributed;
               marked = map (mark_pending res) distributed
           in case store_loop (\<lambda>i f. repo_Update (updateLosses env) (updateFails env i) i f)
                     (map (\<lambda>d. (ID d, AssignedMapsToHandle d, AssignedButPendingMaps d)) marked) (redis st) of
                (r, Some e) \<Rightarrow> (st\<lparr>redis := r\<rparr>, Inl (RepoErr e))
              | (r, None) \<Rightarrow>
                  if eventFails env then (st\<lparr>redis := r\<rparr>, Inl EventErr)
                  else (st\<lparr>redis := r, produced := produced st @ [GSMapsReassigned res]\<rparr>, Inr marked)))"

section \<open>Queries\<close>

definition ListForRealm :: "reg_env \<Rightarrow> u32 \<Rightarrow> registry \<Rightarrow> reg_error + GameServer list" where
  "ListForRealm env realmID st =
     (case repo_ListByRealm (listFails env) realmID (redis st) of Inl e \<Rightarrow> Inl (RepoErr e) | Inr vs \<Rightarrow> Inr vs)"

definition ListOfCrossRealms :: "reg_env \<Rightarrow> registry \<Rightarrow> reg_error + GameServer list" where
  "ListOfCrossRealms env st =
     (case repo_ListOfCrossRealms (listFails env) (redis st) of Inl e \<Rightarrow> Inl (RepoErr e) | Inr vs \<Rightarrow> Inr vs)"

definition ListAll :: "reg_env \<Rightarrow> string list \<Rightarrow> registry \<Rightarrow> reg_error + GameServer list" where
  "ListAll env scanned st =
     (case repo_ListAll (listFails env) scanned (redis st) of Inl e \<Rightarrow> Inl (RepoErr e) | Inr vs \<Rightarrow> Inr vs)"

definition peers_of :: "reg_env \<Rightarrow> GameServer \<Rightarrow> registry \<Rightarrow> reg_error + GameServer list" where
  "peers_of env server st =
     (if IsCrossRealm server then ListOfCrossRealms env st else ListForRealm env (RealmID server) st)"

definition AvailableForMapAndRealm ::
  "reg_env \<Rightarrow> u32 \<Rightarrow> u32 \<Rightarrow> bool \<Rightarrow> registry \<Rightarrow> reg_error + GameServer list" where
  "AvailableForMapAndRealm env mapID realmID isCrossRealm st =
     (case (if isCrossRealm then ListOfCrossRealms env st else ListForRealm env realmID st) of
        Inl e \<Rightarrow> Inl e
      | Inr servers \<Rightarrow> Inr (filter (\<lambda>s. CanHandleMap s mapID) servers))"

text \<open>\<open>Intn\<close> is the random choice of an index below its argument.\<close>

definition RandomServerForRealm ::
  "reg_env \<Rightarrow> (nat \<Rightarrow> nat) \<Rightarrow> u32 \<Rightarrow> registry \<Rightarrow> reg_error + GameServer option" where
  "RandomServerForRealm env Intn realmID st =
     (case ListForRealm env realmID st of
        Inl e \<Rightarrow> Inl e
      | Inr servers \<Rightarrow> if length servers = 0 then Inr None else Inr (Some (servers ! Intn (length servers))))"

section \<open>Handlers\<close>

definition RedistributeRealm :: "reg_env \<Rightarrow> u32 \<Rightarrow> registry \<Rightarrow> registry \<times> reg_error option" where
  "RedistributeRealm env realmID st =
     (if hasLayers env \<and> lockFails env then (st, Some LockErr)
      else case ListForRealm env realmID st of
        Inl e \<Rightarrow> (st, Some e)
      | Inr servers \<Rightarrow>
          (case distributeMapsToServers env servers st of
             (st', Inl e) \<Rightarrow> (st', Some e)
           | (st', Inr _) \<Rightarrow> (st', None)))"

text \<open>
  \<open>Register\<close> keeps a pointer to \<open>server\<close> in both lists, so the lists see the fields filled in later;
  it returns the server as the caller finds it.
\<close>

definition registered_event :: "GameServer \<Rightarrow> events_GameServer" where
  "registered_event s =
     \<lparr>evID = ID s, evAddress = Address s, evRealmID = RealmID s, evIsCrossRealm = IsCrossRealm s,
      evAvailableMaps = AvailableMaps s, OldAssignedMapsToHandle = [],
      NewAssignedMapsToHandle = AssignedMapsToHandle s\<rparr>"

definition observe_server :: "registry \<Rightarrow> GameServer \<Rightarrow> registry \<Rightarrow> registry" where
  "observe_server before server st =
     st\<lparr>healthObjects := AddHealthCheckObject server (healthObjects before),
        metricsObjects := AddMetricsObservable server (metricsObjects before)\<rparr>"

definition Register :: "reg_env \<Rightarrow> GameServer \<Rightarrow> registry \<Rightarrow> registry \<times> GameServer \<times> reg_error option" where
  "Register env server0 st =
     (let server1 = server0\<lparr>AvailableMaps := sort (AvailableMaps server0)\<rparr>;
          server2 = default_ids (generateAlias env) server1;
          (r, uerr) = repo_Upsert (generateAlias env) (setFails env) (saddFails env) server1 (redis st);
          st1 = observe_server st server2 (st\<lparr>redis := r\<rparr>)
      in case uerr of
           Some e \<Rightarrow> (st1, server2, Some (RepoErr e))
         | None \<Rightarrow>
             (case peers_of env server2 st1 of
                Inl e \<Rightarrow> (st1, server2, Some e)
              | Inr wsList \<Rightarrow>
                  (case distributeMapsToServers env wsList st1 of
                     (st2, Inl e) \<Rightarrow> (st2, server2, Some e)
                   | (st2, Inr res) \<Rightarrow>
                       (let server3 = (case List.find (\<lambda>g. ID g = ID server2) res of
                              Some g \<Rightarrow> server2\<lparr>AssignedMapsToHandle := AssignedMapsToHandle g\<rparr>
                            | None \<Rightarrow> server2);
                            st3 = observe_server st server3 st2
                        in (if eventFails env then st3
                            else st3\<lparr>produced := produced st3 @ [GSAdded (registered_event server3)]\<rparr>,
                            server3, None)))))"

definition MapsLoadedForServer ::
  "reg_env \<Rightarrow> string \<Rightarrow> u32 list \<Rightarrow> registry \<Rightarrow> registry \<times> GameServer option \<times> reg_error option" where
  "MapsLoadedForServer env serverID maps st =
     (case repo_One (getFails env) serverID (redis st) of
        Inl e \<Rightarrow> (st, None, Some (RepoErr e))
      | Inr None \<Rightarrow> (st, None, Some GameServerNotFound)
      | Inr (Some server) \<Rightarrow>
          (let server1 = server\<lparr>AssignedButPendingMaps :=
                 filter (\<lambda>p. \<not> (\<exists>m\<in>set maps. p = m)) (AssignedButPendingMaps server)\<rparr>;
               (r, err) = repo_Upsert (generateAlias env) (setFails env) (saddFails env) server1 (redis st)
           in (st\<lparr>redis := r\<rparr>, Some (default_ids (generateAlias env) server1), map_option RepoErr err)))"

definition removed_event :: "GameServer \<Rightarrow> events_GameServer" where
  "removed_event s =
     \<lparr>evID = ID s, evAddress = Address s, evRealmID = RealmID s, evIsCrossRealm = IsCrossRealm s,
      evAvailableMaps = AvailableMaps s, OldAssignedMapsToHandle = AssignedMapsToHandle s,
      NewAssignedMapsToHandle = AssignedMapsToHandle s\<rparr>"

definition onServerUnhealthy :: "reg_env \<Rightarrow> GameServer \<Rightarrow> registry \<Rightarrow> registry" where
  "onServerUnhealthy env server st =
     (case repo_Remove (getFails env) (sremFails env) (delFails env) (ID server) (redis st) of
        (r, Some e) \<Rightarrow> st\<lparr>redis := r\<rparr>
      | (r, None) \<Rightarrow>
          (let st1 = st\<lparr>redis := r,
                 produced := (if eventFails env then produced st
                              else produced st @ [GSRemoved (removed_event server)]),
                 metricsObjects := RemoveMetricsObservable server (metricsObjects st)\<rparr>
           in case peers_of env server st1 of
                Inl e \<Rightarrow> st1
              | Inr wsList \<Rightarrow> fst (distributeMapsToServers env wsList st1)))"

text \<open>A failed health check first drops the object, then tells the service.\<close>

definition handleResult_failed :: "reg_env \<Rightarrow> GameServer \<Rightarrow> registry \<Rightarrow> registry" where
  "handleResult_failed env server st =
     onServerUnhealthy env server (st\<lparr>healthObjects := RemoveHealthCheckObject server (healthObjects st)\<rparr>)"

record MetricsRead =
  mActiveConnections :: int
  DelayMean :: int
  DelayMedian :: int
  Delay95Percentile :: int
  Delay99Percentile :: int
  DelayMax :: int

definition onMetricsUpdate :: "reg_env \<Rightarrow> GameServer \<Rightarrow> MetricsRead \<Rightarrow> registry \<Rightarrow> registry" where
  "onMetricsUpdate env server m st =
     st\<lparr>redis := fst (repo_Update (updateLosses env) (updateFails env (ID server)) (ID server)
        (\<lambda>s. s\<lparr>ActiveConnections := of_int (mActiveConnections m),
               Diff := \<lparr>Mean = of_int (DelayMean m), Median = of_int (DelayMedian m),
                        Percentile95 = of_int (Delay95Percentile m),
                        Percentile99 = of_int (Delay99Percentile m), Max_diff = of_int (DelayMax m)\<rparr>\<rparr>)
        (redis st))\<rparr>"

text \<open>Start-up observes the servers already stored, realm by realm, then the cross-realm ones.\<close>

definition observe_servers :: "GameServer list \<Rightarrow> registry \<Rightarrow> registry" where
  "observe_servers servers st = foldl (\<lambda>st s. observe_server st s st) st servers"

fun observe_realms :: "reg_env \<Rightarrow> u32 list \<Rightarrow> registry \<Rightarrow> registry \<times> reg_error option" where
  "observe_realms env [] st = (st, None)"
| "observe_realms env (realmID # realmIDs) st =
     (case ListForRealm env realmID st of
        Inl e \<Rightarrow> (st, Some e)
      | Inr servers \<Rightarrow> observe_realms env realmIDs (observe_servers servers st))"

definition NewGameServer :: "reg_env \<Rightarrow> u32 list \<Rightarrow> registry \<Rightarrow> registry \<times> reg_error option" where
  "NewGameServer env supportedRealmIDs st =
     (case observe_realms env supportedRealmIDs st of
        (st1, Some e) \<Rightarrow> (st1, Some e)
      | (st1, None) \<Rightarrow>
          (case ListOfCrossRealms env st1 of
             Inl e \<Rightarrow> (st1, Some e)
           | Inr servers \<Rightarrow> (observe_servers servers st1, None)))"

section \<open>Layer replicas\<close>

definition eligible :: "u32 \<Rightarrow> GameServer \<Rightarrow> bool" where
  "eligible mapID s \<longleftrightarrow> mapAvailable s mapID \<and> \<not> containsMap (AssignedMapsToHandle s) mapID"

lemma consider_candidate_cases:
  "consider_candidate mapID servers candidate i =
     (if eligible mapID (servers ! i)
      then case candidate of None \<Rightarrow> Some i
         | Some c \<Rightarrow> if better_candidate (servers ! i) (servers ! c) then Some i else Some c
      else candidate)"
  by (simp add: consider_candidate_def eligible_def)

lemma choose_upto:
  "case foldl (consider_candidate mapID servers) None [0..<k] of
     None \<Rightarrow> \<forall>i<k. \<not> eligible mapID (servers ! i)
   | Some c \<Rightarrow> c < k \<and> eligible mapID (servers ! c)"
proof (induction k)
  case (Suc k)
  then show ?case
    by (cases "foldl (consider_candidate mapID servers) None [0..<k]")
      (simp_all add: consider_candidate_cases [of mapID servers _ k] less_Suc_eq)
qed simp

lemma choose_candidate_cases:
  obtains (none) "choose_candidate mapID servers = None" "\<forall>s\<in>set servers. \<not> eligible mapID s"
  | (some) c where "choose_candidate mapID servers = Some c" "c < length servers" "eligible mapID (servers ! c)"
proof (cases "choose_candidate mapID servers")
  case None
  then have "\<forall>i<length servers. \<not> eligible mapID (servers ! i)"
    using choose_upto [where mapID = mapID and servers = servers and k = "length servers"] by (simp add: choose_candidate_def)
  then have "\<forall>s\<in>set servers. \<not> eligible mapID s" by (auto simp: in_set_conv_nth)
  with None show ?thesis by (rule none)
next
  case (Some c)
  then have "c < length servers \<and> eligible mapID (servers ! c)"
    using choose_upto [where mapID = mapID and servers = servers and k = "length servers"] by (simp add: choose_candidate_def)
  with Some show ?thesis by (blast intro: some)
qed

text \<open>The number of servers that handle a map.\<close>

definition holders :: "u32 \<Rightarrow> GameServer list \<Rightarrow> nat" where
  "holders m servers = length (filter (\<lambda>s. m \<in> set (AssignedMapsToHandle s)) servers)"

lemma holders_update:
  assumes "c < length ss"
  shows "holders m (ss[c := x]) + (if m \<in> set (AssignedMapsToHandle (ss ! c)) then 1 else 0) =
    holders m ss + (if m \<in> set (AssignedMapsToHandle x) then 1 else 0)"
proof -
  have split: "holders m (a @ y # b) =
      holders m a + (if m \<in> set (AssignedMapsToHandle y) then 1 else 0) + holders m b" for a y b
    by (simp add: holders_def)
  have "holders m ss = holders m (take c ss @ ss ! c # drop (Suc c) ss)"
    using id_take_nth_drop [OF assms] by simp
  then have "holders m ss = holders m (take c ss) + (if m \<in> set (AssignedMapsToHandle (ss ! c)) then 1 else 0)
      + holders m (drop (Suc c) ss)"
    by (simp only: split)
  moreover have "holders m (ss[c := x]) = holders m (take c ss) + (if m \<in> set (AssignedMapsToHandle x) then 1 else 0)
      + holders m (drop (Suc c) ss)"
    using assms by (simp only: upd_conv_take_nth_drop split)
  ultimately show ?thesis by simp
qed

lemma set_assigned_all:
  "IsAllMapsAvailable s \<Longrightarrow> set_assigned ms s = s\<lparr>AssignedMapsToHandle := ms\<rparr>"
  by (simp add: set_assigned_def)

lemma assigned_set_assigned [simp]: "AssignedMapsToHandle (set_assigned ms s) = ms"
  by (simp add: set_assigned_def)

lemma length_add_replica [simp]: "length (add_replica m ss) = length ss"
  by (simp add: add_replica_def split: option.split)

lemma add_replica_unrestricted:
  assumes "\<forall>s\<in>set ss. IsAllMapsAvailable s"
  shows "\<forall>s\<in>set (add_replica m ss). IsAllMapsAvailable s"
proof (cases rule: choose_candidate_cases [of m ss])
  case (some c)
  then have "IsAllMapsAvailable (ss ! c)" using assms by simp
  with some assms show ?thesis
    by (auto simp: add_replica_def set_assigned_all dest!: set_update_subset_insert [THEN subsetD])
qed (use assms in \<open>simp add: add_replica_def\<close>)

lemma holders_le: "holders m ss \<le> length ss"
  by (simp add: holders_def)

lemma holders_add_replica:
  assumes "\<forall>s\<in>set ss. IsAllMapsAvailable s"
  shows "holders m (add_replica m ss) = min (holders m ss + 1) (length ss)"
    and "m' \<noteq> m \<Longrightarrow> holders m' (add_replica m ss) = holders m' ss"
proof -
  have "holders m (add_replica m ss) = min (holders m ss + 1) (length ss) \<and>
      (m' \<noteq> m \<longrightarrow> holders m' (add_replica m ss) = holders m' ss)"
  proof (cases rule: choose_candidate_cases [of m ss])
    case none
    then have "filter (\<lambda>s. m \<in> set (AssignedMapsToHandle s)) ss = ss"
      using assms by (auto simp: filter_id_conv eligible_def mapAvailable_def containsMap_def)
    then show ?thesis by (simp add: add_replica_def none holders_def)
  next
    case (some c)
    then have "m \<notin> set (AssignedMapsToHandle (ss ! c))" by (simp add: eligible_def containsMap_def)
    moreover define x where "x = set_assigned (sort (AssignedMapsToHandle (ss ! c) @ [m])) (ss ! c)"
    moreover have "add_replica m ss = ss[c := x]" by (simp add: add_replica_def some(1) x_def)
    ultimately show ?thesis
      using holders_update [OF some(2), of m x] holders_update [OF some(2), of m' x]
        holders_le [of m "ss[c := x]"] by (auto split: if_splits)
  qed
  then show "holders m (add_replica m ss) = min (holders m ss + 1) (length ss)"
    "m' \<noteq> m \<Longrightarrow> holders m' (add_replica m ss) = holders m' ss" by auto
qed

lemma add_replicas:
  assumes "\<forall>s\<in>set ss. IsAllMapsAvailable s"
  shows "(\<forall>s\<in>set ((add_replica m ^^ k) ss). IsAllMapsAvailable s) \<and>
    length ((add_replica m ^^ k) ss) = length ss \<and>
    holders m ((add_replica m ^^ k) ss) = min (holders m ss + k) (length ss) \<and>
    (\<forall>m'. m' \<noteq> m \<longrightarrow> holders m' ((add_replica m ^^ k) ss) = holders m' ss)"
proof (induction k)
  case 0
  then show ?case using assms holders_le by simp
next
  case (Suc k)
  let ?ss = "(add_replica m ^^ k) ss"
  have u: "\<forall>s\<in>set ?ss. IsAllMapsAvailable s" using Suc by blast
  from Suc holders_add_replica [OF u] add_replica_unrestricted [OF u] show ?case by simp
qed

lemma layer_map_unrestricted:
  assumes "\<forall>s\<in>set ss. IsAllMapsAvailable s"
  shows "(\<forall>s\<in>set (layer_map ss (m, c)). IsAllMapsAvailable s) \<and> length (layer_map ss (m, c)) = length ss \<and>
    (2 \<le> c \<longrightarrow> holders m (layer_map ss (m, c)) = min (unat c) (length ss)) \<and>
    (\<forall>m'. m' \<noteq> m \<longrightarrow> holders m' (layer_map ss (m, c)) = holders m' ss)"
proof (cases "c < 2")
  case False
  let ?ss = "map (\<lambda>s. set_assigned (removeMap (AssignedMapsToHandle s) m) s) ss"
  have u: "\<forall>s\<in>set ?ss. IsAllMapsAvailable s" using assms by (auto simp: set_assigned_all)
  have "holders m ?ss = 0" "m' \<noteq> m \<Longrightarrow> holders m' ?ss = holders m' ss" for m'
    by (auto simp: holders_def filter_map comp_def removeMap_def)
  with add_replicas [OF u] False show ?thesis by (simp add: layer_map_def)
qed (use assms in \<open>auto simp: layer_map_def\<close>)

text \<open>
  Every layered map runs on as many servers as configured. With servers that accept every map,
  a configured map of at least two layers ends up on exactly the configured number of servers, or
  on all of them when there are fewer, and a map without layers keeps its servers.
\<close>

lemma applyLayerAssignments_replicas:
  assumes "\<forall>s\<in>set servers. IsAllMapsAvailable s" "distinct (map fst config)"
  shows "((m, c) \<in> set config \<and> 2 \<le> c \<longrightarrow>
      holders m (applyLayerAssignments servers config) = min (unat c) (length servers)) \<and>
    (m \<notin> fst ` set config \<longrightarrow> holders m (applyLayerAssignments servers config) = holders m servers)"
  using assms
proof (induction config arbitrary: servers)
  case (Cons mc config)
  obtain m0 c0 where mc: "mc = (m0, c0)" by force
  let ?ss = "layer_map servers (m0, c0)"
  note step = layer_map_unrestricted [OF Cons.prems(1), of m0 c0]
  have "((m, c) \<in> set config \<and> 2 \<le> c \<longrightarrow>
      holders m (applyLayerAssignments ?ss config) = min (unat c) (length ?ss)) \<and>
    (m \<notin> fst ` set config \<longrightarrow> holders m (applyLayerAssignments ?ss config) = holders m ?ss)"
    using Cons.prems step by (intro Cons.IH) auto
  moreover have "applyLayerAssignments servers (mc # config) = applyLayerAssignments ?ss config"
    by (simp add: applyLayerAssignments_def mc)
  ultimately show ?case using step Cons.prems(2) mc by (auto simp: image_iff)
qed (simp add: applyLayerAssignments_def)

theorem applyLayerAssignments_replicas_witness:
  "holders 7 (applyLayerAssignments [ex_server ''a'', ex_server ''b'', ex_server ''c''] [(7, 2), (9, 5)]) = 2"
  using applyLayerAssignments_replicas
    [of "[ex_server ''a'', ex_server ''b'', ex_server ''c'']" "[(7, 2), (9, 5)]" 7 2]
  by (simp add: ex_server_def IsAllMapsAvailable_def)

section \<open>Restricted servers lose layered maps\<close>

lemma add_replica_skips:
  assumes "i < length ss" "\<not> mapAvailable (ss ! i) m"
  shows "add_replica m ss ! i = ss ! i"
proof (cases rule: choose_candidate_cases [of m ss])
  case (some c)
  then have "c \<noteq> i" using assms by (auto simp: eligible_def)
  then show ?thesis by (simp add: add_replica_def some)
qed (simp add: add_replica_def)

lemma add_replicas_skip:
  assumes "i < length ss" "\<not> mapAvailable (ss ! i) m"
  shows "(add_replica m ^^ k) ss ! i = ss ! i \<and> length ((add_replica m ^^ k) ss) = length ss"
  using assms by (induction k) (auto simp: add_replica_skips)

lemma removeMap_in_place:
  assumes "distinct ms" "m \<in> set ms" "last ms \<noteq> m"
  shows "m \<notin> set (removeMap ms m @ drop (length (removeMap ms m)) ms)"
proof -
  obtain a b where ms: "ms = a @ m # b" using assms(2) by (auto dest: split_list)
  with assms(1) have ab: "m \<notin> set a" "m \<notin> set b" by auto
  then have "filter (\<lambda>x. x \<noteq> m) a = a" "filter (\<lambda>x. x \<noteq> m) b = b" by (auto simp: filter_id_conv)
  then have rm: "removeMap ms m = a @ b" by (simp add: removeMap_def ms)
  obtain k where "length b = Suc k" using assms(3) ms by (cases b) auto
  then have "drop (length (removeMap ms m)) ms = drop k b" unfolding rm by (simp add: ms)
  with ab rm show ?thesis by (auto dest: in_set_dropD)
qed

text \<open>
  Layering a map takes it away from a restricted server. \<open>removeMap\<close> overwrites the server's own
  list of available maps, so unless the map is the last of that list the server no longer counts
  as able to run it and gets no replica.
\<close>

lemma layered_map_lost:
  assumes "i < length servers" "AvailableMaps (servers ! i) = AssignedMapsToHandle (servers ! i)"
    and "distinct (AvailableMaps (servers ! i))" "m \<in> set (AvailableMaps (servers ! i))"
    and "last (AvailableMaps (servers ! i)) \<noteq> m" "2 \<le> c"
  shows "m \<notin> set (AssignedMapsToHandle (applyLayerAssignments servers [(m, c)] ! i))"
proof -
  let ?rm = "\<lambda>s. set_assigned (removeMap (AssignedMapsToHandle s) m) s"
  let ?s = "servers ! i"
  have "\<not> IsAllMapsAvailable ?s" using assms(4) by (auto simp: IsAllMapsAvailable_def)
  then have av: "AvailableMaps (?rm ?s) =
      removeMap (AvailableMaps ?s) m @ drop (length (removeMap (AvailableMaps ?s) m)) (AvailableMaps ?s)"
    by (simp add: set_assigned_def assms(2))
  then have "m \<notin> set (AvailableMaps (?rm ?s))" using removeMap_in_place [OF assms(3-5)] by simp
  moreover have "AvailableMaps (?rm ?s) \<noteq> []"
    using assms(4) unfolding av by (metis append_is_Nil_conv drop0 empty_iff list.size(3) set_empty)
  ultimately have "\<not> mapAvailable (map ?rm servers ! i) m"
    using assms(1) by (simp add: mapAvailable_def IsAllMapsAvailable_def)
  with add_replicas_skip [of i "map ?rm servers" m "unat c"] assms(1,6)
  have "applyLayerAssignments servers [(m, c)] ! i = ?rm ?s"
    by (simp add: applyLayerAssignments_def layer_map_def)
  then show ?thesis by (simp add: removeMap_def)
qed

definition ex_restricted :: GameServer where
  "ex_restricted = (ex_server ''r'')\<lparr>AvailableMaps := [1, 2, 3], AssignedMapsToHandle := [1, 2, 3]\<rparr>"

theorem layered_map_lost_witness:
  "2 \<notin> set (AssignedMapsToHandle (applyLayerAssignments [ex_restricted] [(2, 2)] ! 0))"
  by (rule layered_map_lost) (simp_all add: ex_restricted_def)

section \<open>Storing a distribution\<close>

lemma Distribute_keeps:
  assumes "\<And>g x. f (g\<lparr>AssignedMapsToHandle := x\<rparr>) = f g"
  shows "mset (map f (Distribute order weights servers)) = mset (map f servers)"
proof -
  let ?rest = "case unrestricted (map cleared servers) of
        [] \<Rightarrow> []
      | [s] \<Rightarrow> [sort_maps (add_maps (map fst (order (free_weights weights servers))) s)]
      | ss \<Rightarrow> greedyBinPackBalancer order (free_weights weights servers) ss"
  have "map f ?rest = map f (unrestricted (map cleared servers))"
    using greedy_keeps [of f, OF assms]
    by (auto simp: sort_maps_def add_maps_def assms split: list.split)
  also have "\<dots> = map f (unrestricted servers)" by (simp add: unrestricted_servers assms comp_def)
  finally have rest: "map f ?rest = map f (unrestricted servers)" .
  have "map f (Distribute order weights servers) =
      map f (filter (\<lambda>s. \<not> IsAllMapsAvailable s) servers) @ map f ?rest"
    by (simp add: Distribute_eq assms comp_def)
  moreover have "mset (filter (\<lambda>s. \<not> IsAllMapsAvailable s) servers) + mset (unrestricted servers) = mset servers"
    by (induction servers) auto
  then have "mset (map f (filter (\<lambda>s. \<not> IsAllMapsAvailable s) servers)) + mset (map f (unrestricted servers))
      = mset (map f servers)"
    by (metis image_mset_union mset_map)
  ultimately show ?thesis unfolding rest by simp
qed

lemma set_assigned_keeps [simp]:
  "ID (set_assigned ms s) = ID s" "RealmID (set_assigned ms s) = RealmID s"
  "AssignedButPendingMaps (set_assigned ms s) = AssignedButPendingMaps s"
  by (simp_all add: set_assigned_def)

lemma layers_keep:
  assumes "\<And>ms s. f (set_assigned ms s) = f s"
  shows "map f (applyLayerAssignments servers config) = map f servers"
proof -
  have rep: "map f (add_replica m ss) = map f ss" for m ss
  proof (cases rule: choose_candidate_cases [of m ss])
    case (some c)
    then show ?thesis
      using list_update_id [of "map f ss" c] by (simp add: add_replica_def map_update assms)
  qed (simp add: add_replica_def)
  have reps: "map f ((add_replica m ^^ k) ss) = map f ss" for m ss k
    by (induction k) (simp_all add: rep)
  have "map f (layer_map ss mc) = map f ss" for ss mc
    by (simp add: layer_map_def reps assms comp_def split: prod.split)
  then show ?thesis
    unfolding applyLayerAssignments_def by (induction config arbitrary: servers) simp_all
qed

lemma mark_pending_keeps [simp]:
  "ID (mark_pending res d) = ID d" "AssignedMapsToHandle (mark_pending res d) = AssignedMapsToHandle d"
  by (simp_all add: mark_pending_def split: option.split)

text \<open>A call of the service during which no other component fails.\<close>

definition calm :: "reg_env \<Rightarrow> bool" where
  "calm env \<longleftrightarrow> \<not> lockFails env \<and> \<not> configFails env \<and> \<not> listFails env \<and> \<not> getFails env \<and> \<not> setFails env \<and>
     \<not> saddFails env \<and> \<not> sremFails env \<and> \<not> delFails env \<and> updateLosses env = 0 \<and> updateFails env = (\<lambda>_. False) \<and>
     \<not> eventFails env"

lemma layered_ids:
  assumes "calm env"
  obtains ds where "layered env st (Distribute order weights servers) = Inr ds"
    "mset (map ID ds) = mset (map ID servers)"
proof -
  let ?d = "Distribute order weights servers"
  have d: "mset (map ID ?d) = mset (map ID servers)" by (rule Distribute_keeps) simp
  show ?thesis
  proof (cases "?d \<noteq> [] \<and> \<not> IsCrossRealm (hd ?d) \<and> hasLayers env")
    case True
    let ?ds = "applyLayerAssignments ?d (layerConfig st (RealmID (hd ?d)))"
    have "map ID ?ds = map ID ?d" by (rule layers_keep) simp
    then have "mset (map ID ?ds) = mset (map ID servers)" using d by metis
    moreover have "layered env st ?d = Inr ?ds" using True assms by (simp add: layered_def calm_def)
    ultimately show ?thesis using that by blast
  next
    case False
    then have "layered env st ?d = Inr ?d" unfolding layered_def by (simp only: if_False)
    then show ?thesis using that d by blast
  qed
qed

lemma find_unique:
  assumes "distinct (map f xs)" "x \<in> set xs"
  shows "List.find (\<lambda>y. f y = f x) xs = Some x"
  using assms by (induction xs) (auto simp: rev_image_eqI)

lemma mark_pending_eq:
  assumes "distinct (map ID ds)" "d \<in> set ds" "distinct (map ID servers)" "v \<in> set servers" "ID v = ID d"
  shows "AssignedButPendingMaps (mark_pending (map (reassign_event servers) ds) d) =
    (if AssignedMapsToHandle v = [] then AssignedButPendingMaps d
     else newlyAssigned (AssignedMapsToHandle v) (AssignedMapsToHandle d))"
proof -
  have "List.find (\<lambda>r. evID r = ID d) (map (reassign_event servers) ds) = Some (reassign_event servers d)"
    using find_unique [of evID "map (reassign_event servers) ds" "reassign_event servers d"] assms(1,2)
    by (simp add: comp_def reassign_event_def)
  moreover have "List.find (\<lambda>b. ID b = ID d) servers = Some v"
    using find_unique [OF assms(3,4)] assms(5) by simp
  ultimately show ?thesis
    by (simp add: mark_pending_def OnlyNewMaps_def newlyAssigned_def) (simp add: reassign_event_def)
qed

text \<open>The stored value of server \<open>v\<close> after the distribution that made it \<open>d\<close>.\<close>

definition reassigned :: "GameServer \<Rightarrow> GameServer \<Rightarrow> GameServer" where
  "reassigned v d = v\<lparr>AssignedMapsToHandle := AssignedMapsToHandle d,
     AssignedButPendingMaps := (if AssignedMapsToHandle v = [] then AssignedButPendingMaps d
       else newlyAssigned (AssignedMapsToHandle v) (AssignedMapsToHandle d))\<rparr>"

lemma reassigned_keeps [simp]:
  "ID (reassigned v d) = ID v" "RealmID (reassigned v d) = RealmID v"
  "IsCrossRealm (reassigned v d) = IsCrossRealm v"
  "AssignedMapsToHandle (reassigned v d) = AssignedMapsToHandle d"
  by (simp_all add: reassigned_def)

lemma distinct_ids_mset: "mset (map ID ds) = mset (map ID servers) \<Longrightarrow> distinct (map ID ds) = distinct (map ID servers)"
  by (metis mset_eq_imp_distinct_iff)

lemma distributeMapsToServers_stores:
  assumes "calm env" and wf: "wf_repo (redis st)" and dist: "distinct (map ID servers)"
    and stored: "\<forall>v\<in>set servers. wsValues (redis st) (ws_key (ID v)) = Some v"
    and ds: "layered env st (Distribute (iteration env) (mapWeights env) servers) = Inr ds"
    and "distributeMapsToServers env servers st = (st', res)"
  shows "res = Inr (map (mark_pending (map (reassign_event servers) ds)) ds) \<and> wf_repo (redis st') \<and>
    (\<forall>d\<in>set ds. \<exists>v\<in>set servers. ID v = ID d \<and>
       wsValues (redis st') (ws_key (ID d)) = Some (reassigned v d)) \<and>
    (\<forall>i. i \<notin> ID ` set servers \<longrightarrow> wsValues (redis st') (ws_key i) = wsValues (redis st) (ws_key i))"
proof -
  let ?m = "mark_pending (map (reassign_event servers) ds)"
  define upd where "upd = map (\<lambda>d. (ID d, AssignedMapsToHandle d, AssignedButPendingMaps d)) (map ?m ds)"
  obtain ds' where "layered env st (Distribute (iteration env) (mapWeights env) servers) = Inr ds'"
    "mset (map ID ds') = mset (map ID servers)"
    by (rule layered_ids [OF assms(1)])
  with ds have ids: "mset (map ID ds) = mset (map ID servers)" by simp
  have dd: "distinct (map ID ds)" using dist distinct_ids_mset [OF ids] by simp
  have sets: "ID ` set ds = ID ` set servers" using ids by (metis list.set_map set_mset_mset)
  have fsts: "map fst upd = map ID ds" by (simp add: upd_def comp_def)
  have "\<forall>u\<in>set upd. wsValues (redis st) (ws_key (fst u)) \<noteq> None"
  proof
    fix u assume "u \<in> set upd"
    then have "fst u \<in> ID ` set servers" using fsts sets by (metis image_eqI list.set_map)
    with stored show "wsValues (redis st) (ws_key (fst u)) \<noteq> None" by auto
  qed
  with redis_servers.store_loop_all [OF wf, of upd] fsts dd obtain r where
    r: "store_loop (\<lambda>i f. repo_Update 0 False i f) upd (redis st) = (r, None)" "wf_repo r"
    "\<And>i. wsValues r (ws_key i) = (case map_of upd i of
        None \<Rightarrow> wsValues (redis st) (ws_key i)
      | Some (a, p) \<Rightarrow> map_option (\<lambda>v. v\<lparr>AssignedMapsToHandle := a, AssignedButPendingMaps := p\<rparr>)
          (wsValues (redis st) (ws_key i)))"
    by auto
  have res: "res = Inr (map ?m ds)" "redis st' = r"
    using assms(6) r(1) assms(1) unfolding upd_def
    by (auto simp: distributeMapsToServers_def ds Let_def calm_def)
  have "\<exists>v\<in>set servers. ID v = ID d \<and>
       wsValues r (ws_key (ID d)) = Some (reassigned v d)" if d: "d \<in> set ds" for d
  proof -
    from d sets obtain v where v: "v \<in> set servers" "ID v = ID d" by (metis image_iff)
    have "(ID d, AssignedMapsToHandle d, AssignedButPendingMaps (?m d)) \<in> set upd"
      using d by (force simp: upd_def)
    then have "map_of upd (ID d) = Some (AssignedMapsToHandle d, AssignedButPendingMaps (?m d))"
      using fsts dd by (simp add: map_of_is_SomeI)
    moreover have "wsValues (redis st) (ws_key (ID d)) = Some v" using stored v by force
    ultimately show ?thesis
      using v mark_pending_eq [OF dd d dist v] r(3) [of "ID d"] by (auto simp: reassigned_def)
  qed
  moreover have "wsValues r (ws_key i) = wsValues (redis st) (ws_key i)" if "i \<notin> ID ` set servers" for i
  proof -
    have "map_of upd i = None" using that fsts sets by (metis list.set_map map_of_eq_None_iff)
    then show ?thesis using r(3) [of i] by simp
  qed
  ultimately show ?thesis using res r(2) by blast
qed

section \<open>Redistributing a realm\<close>

lemma ListForRealm_calm: "calm env \<Longrightarrow> ListForRealm env realmID st = Inr (redis_listing (redis st) realmID)"
  by (simp add: ListForRealm_def redis_listing_def repo_ListByRealm_def listForRealmOrCrossRealm_def calm_def)

lemma RedistributeRealm_stores:
  assumes "calm env" "wf_repo (redis st)" "RedistributeRealm env realmID st = (st', err)"
  obtains ds where
    "layered env st (Distribute (iteration env) (mapWeights env) (redis_listing (redis st) realmID)) = Inr ds"
    "err = None" "wf_repo (redis st')" "ID ` set ds = ID ` set (redis_listing (redis st) realmID)"
    "\<And>d. d \<in> set ds \<Longrightarrow> \<exists>v\<in>set (redis_listing (redis st) realmID). ID v = ID d \<and>
       wsValues (redis st') (ws_key (ID d)) = Some (reassigned v d)"
proof -
  let ?servers = "redis_listing (redis st) realmID"
  obtain ds where ds: "layered env st (Distribute (iteration env) (mapWeights env) ?servers) = Inr ds"
    "mset (map ID ds) = mset (map ID ?servers)"
    by (rule layered_ids [OF assms(1)])
  obtain st1 res where d: "distributeMapsToServers env ?servers st = (st1, res)" by force
  note s = distributeMapsToServers_stores [OF assms(1,2) redis_listing_members [OF assms(2)] ds(1) d]
  have "RedistributeRealm env realmID st = (st1, None)"
    using assms(1) s by (auto simp: RedistributeRealm_def ListForRealm_calm d calm_def)
  with assms(3) have "st' = st1" "err = None" by simp_all
  moreover have "ID ` set ds = ID ` set ?servers" using ds(2) by (metis list.set_map set_mset_mset)
  ultimately show ?thesis using that [OF ds(1)] s by blast
qed



definition ex_env :: reg_env where
  "ex_env = \<lparr>iteration = (\<lambda>xs. xs), mapWeights = [(7, 1), (8, 5)], generateAlias = (\<lambda>a. a), hasLayers = False,
     lockFails = False, configFails = False, listFails = False, getFails = False, setFails = False,
     saddFails = False, sremFails = False, delFails = False, updateLosses = 0, updateFails = (\<lambda>_. False),
     eventFails = False\<rparr>"

definition ex_registry :: "GameServer \<Rightarrow> registry" where
  "ex_registry v = \<lparr>redis = \<lparr>wsValues = [ws_key (ID v) \<mapsto> v],
       wsIndex = (\<lambda>_. [])(server_index v := [ws_key (ID v)])\<rparr>,
     layerConfig = (\<lambda>_. []), healthObjects = [], metricsObjects = [], produced = []\<rparr>"

lemma ex_registry_facts:
  "calm ex_env" "\<not> hasLayers ex_env" "wf_repo (redis (ex_registry v))"
  "\<not> IsCrossRealm v \<Longrightarrow> redis_listing (redis (ex_registry v)) (RealmID v) = [v]"
  by (auto simp: calm_def ex_env_def ex_registry_def wf_repo_def redis_listing_def repo_ListByRealm_def
      listForRealmOrCrossRealm_def List.map_filter_def)


text \<open>
  A redistribution forgets what is pending. A map a server was told to load before and that it
  keeps is no longer pending afterwards, although the server never confirmed it; the unused
  \<open>pendingAssignments\<close> would have kept it.
\<close>

lemma redistribution_forgets_pending:
  assumes "calm env" "wf_repo (redis st)" "RedistributeRealm env realmID st = (st', err)"
    and v: "v \<in> set (redis_listing (redis st) realmID)" "m \<in> set (AssignedMapsToHandle v)"
      "m \<in> set (AssignedButPendingMaps v)"
    and v': "wsValues (redis st') (ws_key (ID v)) = Some v'" "m \<in> set (AssignedMapsToHandle v')"
  shows "m \<notin> set (AssignedButPendingMaps v') \<and>
    m \<in> set (pendingAssignments (AssignedButPendingMaps v) (AssignedMapsToHandle v) (AssignedMapsToHandle v'))"
proof -
  let ?servers = "redis_listing (redis st) realmID"
  obtain ds where ids: "ID ` set ds = ID ` set ?servers"
    and stored: "\<And>d. d \<in> set ds \<Longrightarrow> \<exists>v\<in>set ?servers. ID v = ID d \<and>
       wsValues (redis st') (ws_key (ID d)) = Some (reassigned v d)"
    by (rule RedistributeRealm_stores [OF assms(1-3)]) blast
  obtain d where "d \<in> set ds" "ID d = ID v" using v(1) ids by (metis imageE imageI)
  with stored [of d] v'(1) obtain u where u: "u \<in> set ?servers" "ID u = ID v" "v' = reassigned u d" by auto
  note members = redis_listing_members(2) [OF assms(2), of realmID, THEN bspec]
  have "Some u = wsValues (redis st) (ws_key (ID u))" using members [OF u(1)] ..
  also have "\<dots> = Some v" unfolding u(2) by (rule members [OF v(1)])
  finally have "u = v" by (rule option.inject [THEN iffD1])
  moreover have "AssignedMapsToHandle v \<noteq> []" using v(2) by auto
  ultimately have "m \<notin> set (AssignedButPendingMaps v')"
    using u(3) v(2) by (simp add: newlyAssigned_def reassigned_def)
  then show ?thesis using v(3) v'(2) by (simp add: pendingAssignments_def Let_def)
qed

theorem redistribution_forgets_pending_witness:
  "\<exists>v'. wsValues (redis (fst (RedistributeRealm ex_env 1 (ex_registry
        ((ex_server ''a'')\<lparr>AssignedMapsToHandle := [7], AssignedButPendingMaps := [7]\<rparr>))))) (ws_key ''a'') = Some v' \<and>
     7 \<in> set (AssignedMapsToHandle v') \<and> 7 \<notin> set (AssignedButPendingMaps v')"
proof -
  let ?v = "(ex_server ''a'')\<lparr>AssignedMapsToHandle := [7], AssignedButPendingMaps := [7]\<rparr>"
  let ?r = "RedistributeRealm ex_env 1 (ex_registry ?v)"
  have v: "?v \<in> set (redis_listing (redis (ex_registry ?v)) 1)" "ID ?v = ''a''"
    using ex_registry_facts(4) [of ?v] by (simp_all add: ex_server_def)
  have "map_option AssignedMapsToHandle (wsValues (redis (fst ?r)) (ws_key ''a'')) = Some [7, 8]"
    by code_simp
  then obtain v' where v': "wsValues (redis (fst ?r)) (ws_key (ID ?v)) = Some v'" "AssignedMapsToHandle v' = [7, 8]"
    using v(2) by auto
  with redistribution_forgets_pending
    [OF ex_registry_facts(1,3) prod.collapse [symmetric] v(1) _ _ v'(1), of 7] v(2)
  show ?thesis by auto
qed

section \<open>Queries\<close>

text \<open>
  The handlers as steps of the registry, each with arbitrary failures around it. Game servers
  register without assigned maps, as the registry's API builds them.
\<close>

inductive reg_step :: "registry \<Rightarrow> registry \<Rightarrow> bool" where
  register: "AssignedMapsToHandle server = [] \<Longrightarrow> reg_step st (fst (Register env server st))"
| loaded: "reg_step st (fst (MapsLoadedForServer env serverID maps st))"
| failed: "reg_step st (handleResult_failed env server st)"
| metrics: "reg_step st (onMetricsUpdate env server m st)"
| redistribute: "reg_step st (fst (RedistributeRealm env realmID st))"
| started: "reg_step st (fst (NewGameServer env realmIDs st))"

definition sorted_repo :: "gs_redis \<Rightarrow> bool" where
  "sorted_repo r \<longleftrightarrow> (\<forall>k v. wsValues r k = Some v \<longrightarrow> sorted (AssignedMapsToHandle v) \<and> sorted (AvailableMaps v))"

lemma sorted_Distribute:
  assumes "\<forall>s\<in>set servers. sorted (AvailableMaps s)"
  shows "\<forall>d\<in>set (Distribute order weights servers). sorted (AssignedMapsToHandle d)"
proof -
  have "sorted (AssignedMapsToHandle d)" if "d \<in> set (greedyBinPackBalancer order w ss)" for d w ss
    using that by (auto simp: greedyBinPackBalancer_def Let_def sort_maps_def split: if_splits prod.splits)
  with assms show ?thesis
    by (auto simp: Distribute_eq sort_maps_def split: list.splits) (metis neq_Nil_conv)
qed

lemma sorted_layers:
  assumes "\<forall>s\<in>set servers. sorted (AssignedMapsToHandle s)"
  shows "\<forall>s\<in>set (applyLayerAssignments servers config). sorted (AssignedMapsToHandle s)"
proof -
  have rep: "\<forall>s\<in>set (add_replica m ss). sorted (AssignedMapsToHandle s)"
    if "\<forall>s\<in>set ss. sorted (AssignedMapsToHandle s)" for m ss
    using that
    by (auto simp: add_replica_def split: option.split dest!: set_update_subset_insert [THEN subsetD])
  have reps: "\<forall>s\<in>set ((add_replica m ^^ k) ss). sorted (AssignedMapsToHandle s)"
    if "\<forall>s\<in>set ss. sorted (AssignedMapsToHandle s)" for m ss k
    using that by (induction k) (simp_all add: rep)
  have step: "\<forall>s\<in>set (layer_map ss mc). sorted (AssignedMapsToHandle s)"
    if "\<forall>s\<in>set ss. sorted (AssignedMapsToHandle s)" for ss mc
  proof -
    obtain m c where mc: "mc = (m, c)" by force
    have "\<forall>s\<in>set (map (\<lambda>s. set_assigned (removeMap (AssignedMapsToHandle s) m) s) ss). sorted (AssignedMapsToHandle s)"
      using that by (simp add: removeMap_def sorted_wrt_filter)
    with that show ?thesis unfolding mc layer_map_def by (simp add: reps del: set_map)
  qed
  show ?thesis
    unfolding applyLayerAssignments_def using assms
  proof (induction config arbitrary: servers)
    case (Cons mc config)
    then show ?case unfolding foldl_Cons by (intro Cons.IH step)
  qed simp
qed

lemma sorted_Update:
  assumes "sorted_repo r" "\<And>v. sorted (AssignedMapsToHandle v) \<Longrightarrow> sorted (AvailableMaps v) \<Longrightarrow>
      sorted (AssignedMapsToHandle (f v)) \<and> sorted (AvailableMaps (f v))"
  shows "sorted_repo (fst (repo_Update losses fails i f r))"
  using assms by (auto simp: repo_Update_def sorted_repo_def split: option.split)

lemma sorted_store_loop:
  assumes "sorted_repo r" "\<forall>(i, a, p)\<in>set ds. sorted a"
  shows "sorted_repo (fst (store_loop (\<lambda>i f. repo_Update losses (fails i) i f) ds r))"
  using assms
proof (induction ds arbitrary: r)
  case (Cons d ds)
  obtain i a p where d: "d = (i, a, p)" by (cases d) auto
  let ?u = "repo_Update losses (fails i) i
    (\<lambda>latest. latest\<lparr>AssignedMapsToHandle := a, AssignedButPendingMaps := p\<rparr>) r"
  have "sorted_repo (fst ?u)" using Cons.prems d by (intro sorted_Update) auto
  with Cons show ?case by (auto simp: d split: prod.split option.split)
qed simp

lemma sorted_distribute:
  assumes "sorted_repo (redis st)" "\<forall>s\<in>set servers. sorted (AvailableMaps s)"
  shows "sorted_repo (redis (fst (distributeMapsToServers env servers st)))"
proof (cases "layered env st (Distribute (iteration env) (mapWeights env) servers)")
  case (Inl e)
  then show ?thesis using assms by (simp add: distributeMapsToServers_def)
next
  case (Inr ds)
  have "\<forall>d\<in>set ds. sorted (AssignedMapsToHandle d)"
    using Inr sorted_Distribute [OF assms(2), of "iteration env" "mapWeights env"] sorted_layers
    by (auto simp: layered_def split: if_splits)
  then have "\<forall>(i, a, p)\<in>set (map (\<lambda>d. (ID d, AssignedMapsToHandle d, AssignedButPendingMaps d))
      (map (mark_pending (map (reassign_event servers) ds)) ds)). sorted a" by auto
  from sorted_store_loop [OF assms(1) this, of "updateLosses env" "updateFails env"]
  show ?thesis
    by (auto simp: distributeMapsToServers_def Inr Let_def split: prod.split option.split)
qed

lemma sorted_listing:
  assumes "sorted_repo r" "listForRealmOrCrossRealm fails realmID x r = Inr vs"
  shows "\<forall>v\<in>set vs. sorted (AvailableMaps v) \<and> sorted (AssignedMapsToHandle v)"
  using assms by (auto simp: listForRealmOrCrossRealm_def map_filter_set sorted_repo_def split: if_splits)

lemma sorted_peers:
  assumes "sorted_repo (redis st)" "peers_of env server st = Inr vs"
  shows "\<forall>v\<in>set vs. sorted (AvailableMaps v)"
  using assms(2) sorted_listing [OF assms(1)]
  by (auto simp: peers_of_def ListOfCrossRealms_def ListForRealm_def repo_ListOfCrossRealms_def
      repo_ListByRealm_def split: if_splits sum.splits)

lemma sorted_Upsert:
  assumes "sorted_repo r" "sorted (AssignedMapsToHandle v)" "sorted (AvailableMaps v)"
  shows "sorted_repo (fst (repo_Upsert alias setF saddF v r))"
  using assms by (auto simp: repo_Upsert_def Let_def sorted_repo_def default_ids_def)

lemma redis_observe [simp]: "redis (observe_server before server st) = redis st"
  by (simp add: observe_server_def)

lemma redis_observe_servers [simp]: "redis (observe_servers servers st) = redis st"
  unfolding observe_servers_def by (induction servers arbitrary: st) simp_all

lemma redis_observe_realms: "redis (fst (observe_realms env realmIDs st)) = redis st"
  by (induction env realmIDs st rule: observe_realms.induct) (simp_all split: sum.split)

lemma sorted_Register:
  assumes "sorted_repo (redis st)" "AssignedMapsToHandle server = []"
  shows "sorted_repo (redis (fst (Register env server st)))"
proof -
  let ?s1 = "server\<lparr>AvailableMaps := sort (AvailableMaps server)\<rparr>"
  obtain r uerr where u: "repo_Upsert (generateAlias env) (setFails env) (saddFails env) ?s1 (redis st) = (r, uerr)"
    by force
  have "sorted_repo r"
    using sorted_Upsert [OF assms(1), of ?s1 "generateAlias env" "setFails env" "saddFails env"] assms(2)
    by (simp add: u)
  moreover define s2 where "s2 = default_ids (generateAlias env) ?s1"
  moreover define st1 where "st1 = observe_server st s2 (st\<lparr>redis := r\<rparr>)"
  ultimately have st1: "sorted_repo (redis st1)" by simp
  then have dist: "sorted_repo (redis (fst (distributeMapsToServers env vs st1)))"
    if "peers_of env s2 st1 = Inr vs" for vs
    using sorted_distribute sorted_peers that by blast
  show ?thesis
  proof (cases uerr)
    case None
    show ?thesis
    proof (cases "peers_of env s2 st1")
      case (Inr vs)
      then show ?thesis
        using dist [OF Inr] None
        by (cases "distributeMapsToServers env vs st1"; cases "snd (distributeMapsToServers env vs st1)")
          (simp_all add: Register_def Let_def u s2_def [symmetric] st1_def [symmetric])
    qed (use st1 None in \<open>simp add: Register_def Let_def u s2_def [symmetric] st1_def [symmetric]\<close>)
  qed (use st1 in \<open>simp add: Register_def Let_def u s2_def [symmetric] st1_def [symmetric]\<close>)
qed

lemma sorted_unhealthy:
  assumes "sorted_repo (redis st)"
  shows "sorted_repo (redis (onServerUnhealthy env server st))"
proof -
  obtain r e where r: "repo_Remove (getFails env) (sremFails env) (delFails env) (ID server) (redis st) = (r, e)"
    by force
  have "sorted_repo (fst (repo_Remove (getFails env) (sremFails env) (delFails env) (ID server) (redis st)))"
    using assms by (auto simp: repo_Remove_def Let_def sorted_repo_def split: option.split)
  then have sr: "sorted_repo r" by (simp add: r)
  define st1 where "st1 = st\<lparr>redis := r,
      produced := (if eventFails env then produced st else produced st @ [GSRemoved (removed_event server)]),
      metricsObjects := RemoveMetricsObservable server (metricsObjects st)\<rparr>"
  then have st1: "sorted_repo (redis st1)" using sr by simp
  have "sorted_repo (redis (fst (distributeMapsToServers env vs st1)))" if "peers_of env server st1 = Inr vs" for vs
    using sorted_distribute sorted_peers st1 that by blast
  with st1 sr show ?thesis
    unfolding onServerUnhealthy_def r prod.case Let_def st1_def [symmetric]
    by (simp split: option.split sum.split)
qed

lemma reg_step_sorted: "reg_step st st' \<Longrightarrow> sorted_repo (redis st) \<Longrightarrow> sorted_repo (redis st')"
proof (induction rule: reg_step.induct)
  case (loaded st env serverID maps)
  show ?case
  proof (cases "repo_One (getFails env) serverID (redis st)")
    case (Inr v)
    show ?thesis
    proof (cases v)
      case (Some server)
      let ?s1 = "server\<lparr>AssignedButPendingMaps :=
          filter (\<lambda>p. \<not> (\<exists>m\<in>set maps. p = m)) (AssignedButPendingMaps server)\<rparr>"
      have "sorted (AssignedMapsToHandle server)" "sorted (AvailableMaps server)"
        using Inr Some loaded by (auto simp: repo_One_def sorted_repo_def split: if_splits)
      then have "sorted_repo (fst (repo_Upsert (generateAlias env) (setFails env) (saddFails env) ?s1 (redis st)))"
        using loaded by (intro sorted_Upsert) simp_all
      then show ?thesis by (simp add: MapsLoadedForServer_def Let_def Inr Some case_prod_beta)
    qed (use loaded Inr in \<open>simp add: MapsLoadedForServer_def\<close>)
  qed (use loaded in \<open>simp add: MapsLoadedForServer_def\<close>)
next
  case (failed st env server)
  then show ?case by (simp add: handleResult_failed_def sorted_unhealthy)
next
  case (metrics st env server m)
  then show ?case by (simp add: onMetricsUpdate_def sorted_Update)
next
  case (redistribute st env realmID)
  have "sorted_repo (redis (fst (distributeMapsToServers env vs st)))" if "ListForRealm env realmID st = Inr vs" for vs
    using that redistribute sorted_listing [of "redis st"]
    by (intro sorted_distribute) (auto simp: ListForRealm_def repo_ListByRealm_def split: sum.splits)
  with redistribute show ?case
    by (force simp: RedistributeRealm_def split: sum.split prod.split)
next
  case (started st env realmIDs)
  then show ?case
    using redis_observe_realms [of env realmIDs st]
    by (auto simp: NewGameServer_def split: prod.split option.split sum.split)
qed (rule sorted_Register)

text \<open>
  C6: Lookups are exact. In every state the handlers reach from a sorted database, whatever fails
  on the way, the servers returned for a map are those of the realm that have the map assigned and
  not pending: the binary search never misses one.
\<close>

theorem AvailableForMapAndRealm_exact:
  assumes "sorted_repo (redis st0)" "reg_step\<^sup>*\<^sup>* st0 st"
    and "ListForRealm env realmID st = Inr servers"
  shows "AvailableForMapAndRealm env m realmID False st =
    Inr (filter (\<lambda>v. m \<in> set (AssignedMapsToHandle v) \<and> m \<notin> set (AssignedButPendingMaps v)) servers)"
proof -
  have "sorted_repo (redis st)" using assms(2,1) by (induction rule: rtranclp_induct) (auto intro: reg_step_sorted)
  then have "\<forall>v\<in>set servers. sorted (AssignedMapsToHandle v)"
    using assms(3) sorted_listing [of "redis st"]
    by (auto simp: ListForRealm_def repo_ListByRealm_def split: sum.splits)
  then have "filter (\<lambda>s. CanHandleMap s m) servers =
      filter (\<lambda>v. m \<in> set (AssignedMapsToHandle v) \<and> m \<notin> set (AssignedButPendingMaps v)) servers"
    by (intro filter_cong) (auto simp: CanHandleMap_sorted)
  then show ?thesis by (simp add: AvailableForMapAndRealm_def assms(3))
qed

theorem AvailableForMapAndRealm_exact_witness:
  "AvailableForMapAndRealm ex_env 8 1 False (ex_registry
      ((ex_server ''a'')\<lparr>AssignedMapsToHandle := [7, 8], AssignedButPendingMaps := [7]\<rparr>)) =
   Inr [(ex_server ''a'')\<lparr>AssignedMapsToHandle := [7, 8], AssignedButPendingMaps := [7]\<rparr>]"
proof -
  let ?v = "(ex_server ''a'')\<lparr>AssignedMapsToHandle := [7, 8], AssignedButPendingMaps := [7]\<rparr>"
  have "sorted_repo (redis (ex_registry ?v))" by (simp add: sorted_repo_def ex_registry_def ex_server_def)
  moreover have "ListForRealm ex_env 1 (ex_registry ?v) = Inr [?v]"
    using ex_registry_facts(4) [of ?v] by (simp add: ListForRealm_calm ex_registry_facts(1) ex_server_def)
  ultimately show ?thesis
    using AvailableForMapAndRealm_exact [of "ex_registry ?v" "ex_registry ?v" ex_env 1 "[?v]" 8] by simp
qed

text \<open>
  A confirmed map becomes available. After a server reports the maps it loaded, exactly those
  leave its pending maps, and every reported map that is assigned to it can be handled.
\<close>

lemma MapsLoadedForServer_confirms:
  assumes "calm env" "sorted_repo (redis st)" "wsValues (redis st) (ws_key serverID) = Some v"
    and "default_ids (generateAlias env) v = v" "ID v = serverID"
    and "MapsLoadedForServer env serverID maps st = (st', res, err)"
  shows "err = None \<and> (\<exists>v'. wsValues (redis st') (ws_key serverID) = Some v' \<and>
      v' = v\<lparr>AssignedButPendingMaps := filter (\<lambda>m. m \<notin> set maps) (AssignedButPendingMaps v)\<rparr> \<and>
      (\<forall>m\<in>set maps. CanHandleMap v' m \<longleftrightarrow> m \<in> set (AssignedMapsToHandle v)))"
proof -
  let ?p = "filter (\<lambda>m. m \<notin> set maps) (AssignedButPendingMaps v)"
  let ?v = "v\<lparr>AssignedButPendingMaps := ?p\<rparr>"
  have "default_ids (generateAlias env) ?v = (default_ids (generateAlias env) v)\<lparr>AssignedButPendingMaps := ?p\<rparr>"
    by (simp add: default_ids_def Let_def)
  then have d: "default_ids (generateAlias env) ?v = ?v" using assms(4) by simp
  have "sorted (AssignedMapsToHandle ?v)" using assms(2,3) by (auto simp: sorted_repo_def)
  then have "\<forall>m\<in>set maps. CanHandleMap ?v m \<longleftrightarrow> m \<in> set (AssignedMapsToHandle v)"
    by (simp add: CanHandleMap_sorted)
  moreover have "wsValues (redis st') (ws_key serverID) = Some ?v \<and> err = None"
    using assms(1,3,5,6) d
    by (auto simp: MapsLoadedForServer_def repo_One_def repo_Upsert_def Let_def calm_def)
  ultimately show ?thesis by blast
qed

theorem MapsLoadedForServer_confirms_witness:
  "\<exists>v'. wsValues (redis (fst (MapsLoadedForServer ex_env ''a'' [7] (ex_registry
        ((ex_server ''a'')\<lparr>AssignedMapsToHandle := [7], AssignedButPendingMaps := [7]\<rparr>))))) (ws_key ''a'') = Some v' \<and>
      CanHandleMap v' 7"
proof -
  let ?v = "(ex_server ''a'')\<lparr>AssignedMapsToHandle := [7], AssignedButPendingMaps := [7]\<rparr>"
  obtain st' res err where m: "MapsLoadedForServer ex_env ''a'' [7] (ex_registry ?v) = (st', res, err)"
    by (rule prod_cases3)
  have "sorted_repo (redis (ex_registry ?v))" "wsValues (redis (ex_registry ?v)) (ws_key ''a'') = Some ?v"
    "ID ?v = ''a''"
    by (simp_all add: sorted_repo_def ex_registry_def ex_server_def)
  moreover have "default_ids (generateAlias ex_env) ?v = ?v"
    by (simp add: default_ids_def ex_server_def ToLower_def to_lower_def Let_def)
  ultimately show ?thesis
    using MapsLoadedForServer_confirms [OF ex_registry_facts(1) _ _ _ _ m, of ?v] by (auto simp: m)
qed

end
