(* ===== verification/Go_Strings.thy ===== *)
theory Go_Strings
  imports Cloud9_Prelude
begin

text \<open>
  The functions of Go's \<^verbatim>\<open>strings\<close> and \<^verbatim>\<open>strconv\<close> packages that the services use, on ASCII strings, and the
  lemmas by which a formatted number or list is read back.
\<close>

section \<open>Cutting strings\<close>

text \<open>\<open>Split c\<close> is \<^verbatim>\<open>strings.Split\<close> and \<open>Join c\<close> is \<^verbatim>\<open>strings.Join\<close> with the separator \<open>c\<close>.\<close>

fun Split :: "char \<Rightarrow> string \<Rightarrow> string list" where
  "Split d [] = [[]]"
| "Split d (c # cs) =
     (if c = d then [] # Split d cs
      else case Split d cs of [] \<Rightarrow> [[c]] | w # ws \<Rightarrow> (c # w) # ws)"

fun Join :: "char \<Rightarrow> string list \<Rightarrow> string" where
  "Join d [] = []"
| "Join d [w] = w"
| "Join d (w # v # ws) = w @ d # Join d (v # ws)"

lemma Split_plain: "d \<notin> set w \<Longrightarrow> Split d w = [w]"
  by (induction w) auto

lemma Split_append: "d \<notin> set w \<Longrightarrow> Split d (w @ d # s) = w # Split d s"
  by (induction w) auto

lemma Split_Join: "\<forall>w\<in>set ws. d \<notin> set w \<Longrightarrow> ws \<noteq> [] \<Longrightarrow> Split d (Join d ws) = ws"
  by (induction d ws rule: Join.induct) (auto simp: Split_plain Split_append)

definition is_space :: "char \<Rightarrow> bool" where
  "is_space c \<longleftrightarrow> of_char c \<in> set [9, 10, 11, 12, 13, 32 :: nat]"

definition TrimSpace :: "string \<Rightarrow> string" where
  "TrimSpace s = rev (dropWhile is_space (rev (dropWhile is_space s)))"

fun Contains :: "string \<Rightarrow> string \<Rightarrow> bool" where
  "Contains [] p = (p = [])"
| "Contains (c # cs) p = (take (length p) (c # cs) = p \<or> Contains cs p)"

section \<open>Case\<close>

definition to_upper :: "char \<Rightarrow> char" where
  "to_upper c = (let n = (of_char c :: nat) in if 97 \<le> n \<and> n \<le> 122 then char_of (n - 32) else c)"

definition ToUpper :: "string \<Rightarrow> string" where
  "ToUpper = map to_upper"

section \<open>Numbers\<close>

definition is_digit :: "char \<Rightarrow> bool" where
  "is_digit c \<longleftrightarrow> 48 \<le> (of_char c :: nat) \<and> (of_char c :: nat) \<le> 57"

lemma is_digit_digit: "n < 10 \<Longrightarrow> is_digit (digit n)"
  by (simp add: is_digit_def)

lemma dec_digits: "c \<in> set (dec n) \<Longrightarrow> is_digit c"
proof (induction n rule: dec.induct)
  case (1 n)
  then show ?case
    by (subst (asm) dec.simps) (auto simp: is_digit_digit split: if_splits)
qed

lemma dec_nonempty: "dec n \<noteq> []"
  by (subst dec.simps) simp

lemma digit_not_space: "is_digit c \<Longrightarrow> \<not> is_space c"
  by (auto simp: is_digit_def is_space_def)

lemma digit_not_comma: "is_digit c \<Longrightarrow> c \<noteq> CHR '',''"
  by (auto simp: is_digit_def)

lemma TrimSpace_digits: "\<forall>c\<in>set s. is_digit c \<Longrightarrow> TrimSpace s = s"
proof -
  assume a: "\<forall>c\<in>set s. is_digit c"
  have "dropWhile is_space t = t" if "set t \<subseteq> set s" for t
    using a that by (cases t) (auto dest: digit_not_space)
  then show ?thesis by (simp add: TrimSpace_def)
qed

lemma takeWhile_all: "\<forall>c\<in>set s. p c \<Longrightarrow> takeWhile p s = s"
  by (rule takeWhile_eq_all_conv [THEN iffD2]) blast

text \<open>
  \<open>Atoi\<close> is the value of \<^verbatim>\<open>strconv.Atoi\<close> when its error is dropped: 0 for what is not a number, and the nearest
  64 bit integer for a number out of range.
\<close>

definition Atoi :: "string \<Rightarrow> int" where
  "Atoi w =
     (let neg = (w \<noteq> [] \<and> hd w = CHR ''-''); ds = (if w \<noteq> [] \<and> hd w \<in> {CHR ''-'', CHR ''+''} then tl w else w)
      in if ds = [] \<or> (\<exists>c\<in>set ds. \<not> is_digit c) then 0
         else if neg then max (- (2 ^ 63)) (- int (undec ds)) else min (2 ^ 63 - 1) (int (undec ds)))"

lemma digit_no_sign: "is_digit c \<Longrightarrow> c \<noteq> CHR ''-'' \<and> c \<noteq> CHR ''+''"
  by (auto simp: is_digit_def)

lemma Atoi_dec: "int n < 2 ^ 63 \<Longrightarrow> Atoi (dec n) = int n"
proof -
  assume n: "int n < 2 ^ 63"
  have d: "\<And>c. c \<in> set (dec n) \<Longrightarrow> is_digit c" by (rule dec_digits)
  have "hd (dec n) \<in> set (dec n)" by (simp add: dec_nonempty)
  then have "hd (dec n) \<noteq> CHR ''-''" "hd (dec n) \<noteq> CHR ''+''" using d digit_no_sign by blast+
  then show ?thesis using n d by (auto simp: Atoi_def Let_def dec_nonempty)
qed

end
