(* ===== verification/Layers.thy ===== *)
theory Layers
  imports Game_Servers Go_Strings
begin

text \<open>
  Layers, \<^verbatim>\<open>apps/servers-registry/service/layer.go\<close> and \<^verbatim>\<open>repo/layer_redis.go\<close>: several
  servers run the same map, and the members of a group are bound to one of them through a redis key
  per realm, group and map.

  \<open>Select\<close> reads the binding and, when it has to create or replace it, writes it in a second redis
  command, so it is modelled in the two parts between which other clients run. Expiry of a key is a
  step of its own. Case folding and trimming are those of ASCII text.
\<close>

section \<open>The layer store\<close>

definition configurationKey :: "u32 \<Rightarrow> string" where
  "configurationKey realmID = ''layer:config:'' @ dec (unat realmID)"

definition groupKey :: "u32 \<Rightarrow> u32 \<Rightarrow> u32 \<Rightarrow> string" where
  "groupKey realmID groupID mapID =
     ''layer:group:'' @ dec (unat realmID) @ '':'' @ dec (unat groupID) @ '':'' @ dec (unat mapID)"

record layer_redis =
  configs :: "string \<rightharpoonup> (u32 \<times> u32) list"
  bindings :: "string \<rightharpoonup> string"
  locks :: "u32 \<rightharpoonup> string"

definition store_Configuration :: "bool \<Rightarrow> u32 \<Rightarrow> layer_redis \<Rightarrow> repo_error + (u32 \<times> u32) list" where
  "store_Configuration fails realmID s =
     (if fails then Inl RedisErr
      else case configs s (configurationKey realmID) of None \<Rightarrow> Inr [] | Some config \<Rightarrow> Inr config)"

definition store_SetConfiguration ::
  "bool \<Rightarrow> u32 \<Rightarrow> (u32 \<times> u32) list \<Rightarrow> layer_redis \<Rightarrow> layer_redis \<times> repo_error option" where
  "store_SetConfiguration fails realmID config s =
     (if fails then (s, Some RedisErr)
      else (s\<lparr>configs := (configs s)(configurationKey realmID \<mapsto> config)\<rparr>, None))"

definition store_GroupBinding :: "bool \<Rightarrow> u32 \<Rightarrow> u32 \<Rightarrow> u32 \<Rightarrow> layer_redis \<Rightarrow> repo_error + string" where
  "store_GroupBinding fails realmID groupID mapID s =
     (if fails then Inl RedisErr
      else case bindings s (groupKey realmID groupID mapID) of None \<Rightarrow> Inr [] | Some serverID \<Rightarrow> Inr serverID)"

text \<open>\<open>later\<close> is the store at the time of the second command, the read after a lost \<^verbatim>\<open>SETNX\<close>.\<close>

definition store_BindGroup ::
  "bool \<Rightarrow> layer_redis \<Rightarrow> u32 \<Rightarrow> u32 \<Rightarrow> u32 \<Rightarrow> string \<Rightarrow> layer_redis \<Rightarrow> layer_redis \<times> (repo_error + string)" where
  "store_BindGroup fails later realmID groupID mapID serverID s =
     (let key = groupKey realmID groupID mapID in
      if fails then (s, Inl RedisErr)
      else if bindings s key = None then (s\<lparr>bindings := (bindings s)(key \<mapsto> serverID)\<rparr>, Inr serverID)
      else (s, case bindings later key of None \<Rightarrow> Inl RedisNil | Some bound \<Rightarrow> Inr bound))"

definition store_SetGroupBinding ::
  "bool \<Rightarrow> u32 \<Rightarrow> u32 \<Rightarrow> u32 \<Rightarrow> string \<Rightarrow> layer_redis \<Rightarrow> layer_redis \<times> repo_error option" where
  "store_SetGroupBinding fails realmID groupID mapID serverID s =
     (if fails then (s, Some RedisErr)
      else (s\<lparr>bindings := (bindings s)(groupKey realmID groupID mapID \<mapsto> serverID)\<rparr>, None))"

definition store_ReplaceGroupBinding ::
  "bool \<Rightarrow> u32 \<Rightarrow> u32 \<Rightarrow> u32 \<Rightarrow> string \<Rightarrow> string \<Rightarrow> layer_redis \<Rightarrow> layer_redis \<times> (repo_error + string)" where
  "store_ReplaceGroupBinding fails realmID groupID mapID staleServerID serverID s =
     (let key = groupKey realmID groupID mapID in
      if fails then (s, Inl RedisErr)
      else if bindings s key = Some staleServerID
           then (s\<lparr>bindings := (bindings s)(key \<mapsto> serverID)\<rparr>, Inr serverID)
           else (s, Inr (case bindings s key of None \<Rightarrow> [] | Some current \<Rightarrow> current)))"

text \<open>One attempt of \<open>LockRealm\<close>, and the script that unlocks: the key is deleted by its owner only.\<close>

definition LockRealm_attempt :: "u32 \<Rightarrow> string \<Rightarrow> layer_redis \<Rightarrow> layer_redis \<times> bool" where
  "LockRealm_attempt realmID token s =
     (if locks s realmID = None then (s\<lparr>locks := (locks s)(realmID \<mapsto> token)\<rparr>, True) else (s, False))"

definition unlock :: "u32 \<Rightarrow> string \<Rightarrow> layer_redis \<Rightarrow> layer_redis" where
  "unlock realmID token s =
     (if locks s realmID = Some token then s\<lparr>locks := (locks s)(realmID := None)\<rparr> else s)"

section \<open>Selecting a server\<close>

datatype LayerSelectionStatus = LayerSelectionOK | LayerSelectionNoServer | LayerSelectionNotFound

record LayerSelection =
  Status :: LayerSelectionStatus
  Server :: "GameServer option"

definition EqualFold :: "string \<Rightarrow> string \<Rightarrow> bool" where
  "EqualFold a b \<longleftrightarrow> ToLower a = ToLower b"

definition less_loaded :: "GameServer \<Rightarrow> GameServer \<Rightarrow> bool" where
  "less_loaded s t \<longleftrightarrow> ActiveConnections s < ActiveConnections t \<or>
     ActiveConnections s = ActiveConnections t \<and> ID s < ID t"

definition leastLoaded :: "GameServer list \<Rightarrow> GameServer" where
  "leastLoaded servers =
     servers ! foldl (\<lambda>index i. if less_loaded (servers ! i) (servers ! index) then i else index) 0
       [1..<length servers]"

definition serverByID :: "GameServer list \<Rightarrow> string \<Rightarrow> GameServer option" where
  "serverByID servers i = List.find (\<lambda>s. ID s = i) servers"

datatype select_start =
    Answer LayerSelection
  | Bind "GameServer list" string

definition Select_start ::
  "bool \<Rightarrow> reg_error + GameServer list \<Rightarrow> u32 \<Rightarrow> u32 \<Rightarrow> u32 \<Rightarrow> string \<Rightarrow> layer_redis \<Rightarrow> reg_error + select_start" where
  "Select_start readFails available realmID mapID groupID preferredAlias s =
     (case available of
        Inl e \<Rightarrow> Inl e
      | Inr servers \<Rightarrow>
          if length servers = 0 then Inr (Answer \<lparr>Status = LayerSelectionNoServer, Server = None\<rparr>)
          else let preferred = TrimSpace preferredAlias in
          if preferred \<noteq> [] then
            (case List.find (\<lambda>g. EqualFold (Alias g) preferred \<or> EqualFold (Address g) preferred) servers of
               Some g \<Rightarrow> Inr (Answer \<lparr>Status = LayerSelectionOK, Server = Some g\<rparr>)
             | None \<Rightarrow> Inr (Answer \<lparr>Status = LayerSelectionNotFound, Server = None\<rparr>))
          else if groupID = 0 then Inr (Answer \<lparr>Status = LayerSelectionOK, Server = Some (leastLoaded servers)\<rparr>)
          else (case store_GroupBinding readFails realmID groupID mapID s of
              Inl e \<Rightarrow> Inl (RepoErr e)
            | Inr boundID \<Rightarrow>
                (case serverByID servers boundID of
                   Some g \<Rightarrow> Inr (Answer \<lparr>Status = LayerSelectionOK, Server = Some g\<rparr>)
                 | None \<Rightarrow> Inr (Bind servers boundID))))"

definition Select_finish ::
  "bool \<Rightarrow> layer_redis \<Rightarrow> GameServer list \<Rightarrow> string \<Rightarrow> u32 \<Rightarrow> u32 \<Rightarrow> u32 \<Rightarrow> layer_redis \<Rightarrow>
   layer_redis \<times> (reg_error + LayerSelection)" where
  "Select_finish writeFails later servers boundID realmID mapID groupID s =
     (let selected = leastLoaded servers;
          (s', winner) =
            (if boundID = [] then store_BindGroup writeFails later realmID groupID mapID (ID selected) s
             else store_ReplaceGroupBinding writeFails realmID groupID mapID boundID (ID selected) s)
      in (s', case winner of
            Inl e \<Rightarrow> Inl (RepoErr e)
          | Inr w \<Rightarrow>
              (case serverByID servers w of
                 Some g \<Rightarrow> Inr \<lparr>Status = LayerSelectionOK, Server = Some g\<rparr>
               | None \<Rightarrow> Inr \<lparr>Status = LayerSelectionNoServer, Server = None\<rparr>)))"

text \<open>\<open>Select\<close> with no other client in between.\<close>

definition Select ::
  "reg_env \<Rightarrow> registry \<Rightarrow> bool \<Rightarrow> bool \<Rightarrow> u32 \<Rightarrow> u32 \<Rightarrow> u32 \<Rightarrow> string \<Rightarrow> layer_redis \<Rightarrow>
   layer_redis \<times> (reg_error + LayerSelection)" where
  "Select env st readFails writeFails realmID mapID groupID preferredAlias s =
     (case Select_start readFails (AvailableForMapAndRealm env mapID realmID False st)
        realmID mapID groupID preferredAlias s of
        Inl e \<Rightarrow> (s, Inl e)
      | Inr (Answer a) \<Rightarrow> (s, Inr a)
      | Inr (Bind servers boundID) \<Rightarrow> Select_finish writeFails s servers boundID realmID mapID groupID s)"

datatype layer_error =
    MissingIDs
  | ServerNotAvailable string u32
  | ZeroLayers u32
  | RegistryErr reg_error

definition BindGroup ::
  "reg_env \<Rightarrow> registry \<Rightarrow> bool \<Rightarrow> u32 \<Rightarrow> u32 \<Rightarrow> u32 \<Rightarrow> string \<Rightarrow> layer_redis \<Rightarrow> layer_redis \<times> layer_error option" where
  "BindGroup env st writeFails realmID groupID mapID serverID s =
     (if groupID = 0 \<or> serverID = [] then (s, Some MissingIDs)
      else case AvailableForMapAndRealm env mapID realmID False st of
        Inl e \<Rightarrow> (s, Some (RegistryErr e))
      | Inr servers \<Rightarrow>
          if serverByID servers serverID = None then (s, Some (ServerNotAvailable serverID mapID))
          else case store_SetGroupBinding writeFails realmID groupID mapID serverID s of
             (s', e) \<Rightarrow> (s', map_option (\<lambda>e. RegistryErr (RepoErr e)) e))"

text \<open>
  The registry reads the configuration it distributes by from the same store:
  \<open>with_config\<close> passes it on.
\<close>

definition with_config :: "layer_redis \<Rightarrow> registry \<Rightarrow> registry" where
  "with_config s st = st\<lparr>layerConfig := (\<lambda>realmID.
     case configs s (configurationKey realmID) of None \<Rightarrow> [] | Some config \<Rightarrow> config)\<rparr>"

definition UpdateConfiguration ::
  "reg_env \<Rightarrow> bool \<Rightarrow> u32 \<Rightarrow> (u32 \<times> u32) list \<Rightarrow> layer_redis \<Rightarrow> registry \<Rightarrow>
   layer_redis \<times> registry \<times> layer_error option" where
  "UpdateConfiguration env writeFails realmID config s st =
     (case List.find (\<lambda>(mapID, n). n = 0) config of
        Some (mapID, n) \<Rightarrow> (s, st, Some (ZeroLayers mapID))
      | None \<Rightarrow>
          (case store_SetConfiguration writeFails realmID config s of
             (s', Some e) \<Rightarrow> (s', st, Some (RegistryErr (RepoErr e)))
           | (s', None) \<Rightarrow>
               (case RedistributeRealm env realmID (with_config s' st) of
                  (st', e) \<Rightarrow> (s', st', map_option RegistryErr e))))"

definition Stats ::
  "reg_env \<Rightarrow> registry \<Rightarrow> bool \<Rightarrow> u32 \<Rightarrow> u32 \<Rightarrow> layer_redis \<Rightarrow> reg_error + u32 \<times> (u32 \<times> GameServer) list" where
  "Stats env st readFails realmID mapID s =
     (case store_Configuration readFails realmID s of
        Inl e \<Rightarrow> Inl (RepoErr e)
      | Inr config \<Rightarrow>
          (case AvailableForMapAndRealm env mapID realmID False st of
             Inl e \<Rightarrow> Inl e
           | Inr servers \<Rightarrow>
               (let stats = sort_key (\<lambda>x. Alias (snd x)) (map (\<lambda>g. (ActiveConnections g, g)) servers);
                    configured = (case map_of config mapID of None \<Rightarrow> 0 | Some n \<Rightarrow> n)
                in Inr (if configured = 0 then 1 else configured, stats))))"

section \<open>Keys and choices\<close>

lemma groupKey_inject [simp]:
  "groupKey r g m = groupKey r' g' m' \<longleftrightarrow> r = r' \<and> g = g' \<and> m = m'"
  by (simp add: groupKey_def word_unat_eq_iff)

lemma configurationKey_inject [simp]: "configurationKey r = configurationKey r' \<longleftrightarrow> r = r'"
  by (simp add: configurationKey_def word_unat_eq_iff)

lemma less_loaded_trans: "\<not> less_loaded s t \<Longrightarrow> \<not> less_loaded t u \<Longrightarrow> \<not> less_loaded s u"
  by (auto simp: less_loaded_def not_less_iff_gr_or_eq)

lemma least_upto:
  assumes "0 < n"
  shows "(let k = foldl (\<lambda>index i. if less_loaded (servers ! i) (servers ! index) then i else index) 0 [1..<n]
    in k < n \<and> (\<forall>i<n. \<not> less_loaded (servers ! i) (servers ! k)))"
  using assms
proof (induction n)
  case (Suc n)
  show ?case
  proof (cases n)
    case 0
    then show ?thesis by (simp add: less_loaded_def)
  next
    case (Suc j)
    let ?f = "\<lambda>index i. if less_loaded (servers ! i) (servers ! index) then i else index"
    define k where "k = foldl ?f 0 [1..<n]"
    have k: "k < n" "\<forall>i<n. \<not> less_loaded (servers ! i) (servers ! k)"
      using Suc.IH Suc by (simp_all add: k_def Let_def)
    have eq: "foldl ?f 0 [1..<Suc n] = ?f k n" using Suc by (simp add: k_def)
    show ?thesis
    proof (cases "less_loaded (servers ! n) (servers ! k)")
      case True
      then have "\<not> less_loaded (servers ! k) (servers ! n)" by (auto simp: less_loaded_def)
      then have "\<forall>i<n. \<not> less_loaded (servers ! i) (servers ! n)"
        using k(2) less_loaded_trans [of _ "servers ! k" "servers ! n"] by simp
      then show ?thesis unfolding eq using True by (simp add: Let_def less_Suc_eq less_loaded_def)
    next
      case False
      with k show ?thesis unfolding eq by (simp add: Let_def less_Suc_eq)
    qed
  qed
qed simp

lemma leastLoaded_in: "servers \<noteq> [] \<Longrightarrow> leastLoaded servers \<in> set servers"
  using least_upto [of "length servers" servers] by (simp add: leastLoaded_def Let_def)

text \<open>
  \<open>leastLoaded\<close> returns a server of the list with the fewest connections, the one with the
  smallest id among those.
\<close>

lemma leastLoaded_minimal:
  assumes "s \<in> set servers"
  shows "leastLoaded servers \<in> set servers \<and> \<not> less_loaded s (leastLoaded servers)"
proof -
  from assms have "servers \<noteq> []" by auto
  moreover from assms obtain i where "i < length servers" "s = servers ! i" by (auto simp: in_set_conv_nth)
  ultimately show ?thesis
    using least_upto [of "length servers" servers] leastLoaded_in by (simp add: leastLoaded_def Let_def)
qed

theorem leastLoaded_minimal_witness:
  "\<not> less_loaded (ex_server ''b'') (leastLoaded [ex_server ''b'', ex_server ''a''])"
  using leastLoaded_minimal [of "ex_server ''b''" "[ex_server ''b'', ex_server ''a'']"] by simp

lemma serverByID_cases:
  obtains (found) g where "serverByID servers i = Some g" "g \<in> set servers" "ID g = i"
  | (missing) "serverByID servers i = None" "i \<notin> ID ` set servers"
proof (cases "serverByID servers i")
  case None
  then show ?thesis using missing by (auto simp: serverByID_def find_None_iff)
next
  case (Some g)
  moreover from Some have "g \<in> set servers \<and> ID g = i"
    by (auto simp: serverByID_def find_Some_iff)
  ultimately show ?thesis using found by blast
qed

section \<open>Group members end up on one server\<close>

text \<open>
  The members of one group entering one map, interleaved: each reads the binding, and when it has
  to write it does so later, while others read and write. \<open>A\<close> is the set of ids of the servers the
  map is available on; members may see different loads. Other keys of the store may change at any
  time.
\<close>

record select_run =
  store :: layer_redis
  waiting :: "(GameServer list \<times> string) list"
  answers :: "LayerSelection list"

inductive select_step :: "u32 \<Rightarrow> u32 \<Rightarrow> u32 \<Rightarrow> string set \<Rightarrow> select_run \<Rightarrow> select_run \<Rightarrow> bool"
  for realmID mapID groupID A where
  answered: "ID ` set servers = A \<Longrightarrow>
    Select_start False (Inr servers) realmID mapID groupID [] (store \<sigma>) = Inr (Answer a) \<Longrightarrow>
    select_step realmID mapID groupID A \<sigma> (\<sigma>\<lparr>answers := answers \<sigma> @ [a]\<rparr>)"
| must_bind: "ID ` set servers = A \<Longrightarrow>
    Select_start False (Inr servers) realmID mapID groupID [] (store \<sigma>) = Inr (Bind vs boundID) \<Longrightarrow>
    select_step realmID mapID groupID A \<sigma> (\<sigma>\<lparr>waiting := waiting \<sigma> @ [(vs, boundID)]\<rparr>)"
| finish: "i < length (waiting \<sigma>) \<Longrightarrow> waiting \<sigma> ! i = (vs, boundID) \<Longrightarrow>
    Select_finish False (store \<sigma>) vs boundID realmID mapID groupID (store \<sigma>) = (s', Inr a) \<Longrightarrow>
    select_step realmID mapID groupID A \<sigma>
      (\<sigma>\<lparr>store := s', waiting := take i (waiting \<sigma>) @ drop (Suc i) (waiting \<sigma>), answers := answers \<sigma> @ [a]\<rparr>)"
| other_keys: "bindings s' (groupKey realmID groupID mapID) = bindings (store \<sigma>) (groupKey realmID groupID mapID) \<Longrightarrow>
    select_step realmID mapID groupID A \<sigma> (\<sigma>\<lparr>store := s'\<rparr>)"

definition read_binding :: "u32 \<Rightarrow> u32 \<Rightarrow> u32 \<Rightarrow> layer_redis \<Rightarrow> string" where
  "read_binding realmID mapID groupID s =
     (case bindings s (groupKey realmID groupID mapID) of None \<Rightarrow> [] | Some x \<Rightarrow> x)"

lemma Select_start_group:
  assumes "servers \<noteq> []" "groupID \<noteq> 0"
  shows "Select_start False (Inr servers) realmID mapID groupID [] s =
    (case serverByID servers (read_binding realmID mapID groupID s) of
       Some g \<Rightarrow> Inr (Answer \<lparr>Status = LayerSelectionOK, Server = Some g\<rparr>)
     | None \<Rightarrow> Inr (Bind servers (read_binding realmID mapID groupID s)))"
  using assms
  by (simp add: Select_start_def TrimSpace_def store_GroupBinding_def read_binding_def split: option.split)

definition answer_is :: "string \<Rightarrow> LayerSelection \<Rightarrow> bool" where
  "answer_is w a \<longleftrightarrow> Status a = LayerSelectionOK \<and> map_option ID (Server a) = Some w"

text \<open>
  Once the binding names an available server it stays, and all answers name that server; until then
  there are no answers and every waiting member has read the current binding.
\<close>

definition select_inv :: "u32 \<Rightarrow> u32 \<Rightarrow> u32 \<Rightarrow> string set \<Rightarrow> select_run \<Rightarrow> bool" where
  "select_inv realmID mapID groupID A \<sigma> \<longleftrightarrow>
     (let b = read_binding realmID mapID groupID (store \<sigma>) in
      bindings (store \<sigma>) (groupKey realmID groupID mapID) \<noteq> Some [] \<and>
      (\<forall>w\<in>set (waiting \<sigma>). ID ` set (fst w) = A \<and> snd w \<notin> A) \<and>
      (if b \<in> A then \<forall>a\<in>set (answers \<sigma>). answer_is b a
       else answers \<sigma> = [] \<and> (\<forall>w\<in>set (waiting \<sigma>). snd w = b)))"

lemma Select_finish_unbound:
  assumes "ID ` set vs = A" "A \<noteq> {}" "[] \<notin> A"
    and "boundID = read_binding realmID mapID groupID s" "bindings s (groupKey realmID groupID mapID) \<noteq> Some []"
    and "Select_finish False later vs boundID realmID mapID groupID s = (s', Inr a)"
  shows "\<exists>w\<in>A. bindings s' (groupKey realmID groupID mapID) = Some w \<and> answer_is w a"
proof -
  let ?k = "groupKey realmID groupID mapID" and ?w = "ID (leastLoaded vs)"
  have "vs \<noteq> []" using assms(1,2) by auto
  then have w: "?w \<in> A" using leastLoaded_in assms(1) by blast
  then obtain g where g: "serverByID vs ?w = Some g" "ID g = ?w"
    using assms(1) by (cases rule: serverByID_cases [of vs ?w]) auto
  have "s' = s\<lparr>bindings := (bindings s)(?k \<mapsto> ?w)\<rparr> \<and> a = \<lparr>Status = LayerSelectionOK, Server = Some g\<rparr>"
    using assms(4-6) g(1)
    by (cases "bindings s ?k")
      (auto simp: Select_finish_def Let_def store_BindGroup_def store_ReplaceGroupBinding_def read_binding_def)
  with w g(2) show ?thesis by (auto simp: answer_is_def)
qed

lemma Select_finish_bound:
  assumes "ID ` set vs = A" "boundID \<notin> A" "[] \<notin> A" "w \<in> A"
    and "bindings s (groupKey realmID groupID mapID) = Some w"
    and "Select_finish False s vs boundID realmID mapID groupID s = (s', Inr a)"
  shows "s' = s \<and> answer_is w a"
proof -
  obtain g where g: "serverByID vs w = Some g" "ID g = w"
    using assms(1,4) by (cases rule: serverByID_cases [of vs w]) auto
  have "boundID \<noteq> w" "w \<noteq> []" using assms(2-4) by auto
  with assms(5,6) g show ?thesis
    by (auto simp: Select_finish_def Let_def store_BindGroup_def store_ReplaceGroupBinding_def answer_is_def
        split: if_splits)
qed

lemma select_step_inv:
  assumes "select_step realmID mapID groupID A \<sigma> \<sigma>'" "select_inv realmID mapID groupID A \<sigma>"
    and ne: "groupID \<noteq> 0" "A \<noteq> {}" "[] \<notin> A"
  shows "select_inv realmID mapID groupID A \<sigma>'"
  using assms(1,2)
proof (induction rule: select_step.induct)
  case (answered servers \<sigma> a)
  let ?b = "read_binding realmID mapID groupID (store \<sigma>)"
  have s: "servers \<noteq> []" using answered.hyps(1) ne(2) by auto
  show ?case
  proof (cases rule: serverByID_cases [of servers ?b])
    case (found g)
    then have "a = \<lparr>Status = LayerSelectionOK, Server = Some g\<rparr>" "?b \<in> A"
      using answered.hyps by (simp_all add: Select_start_group [OF s ne(1)]) (metis imageI)
    with answered.prems found show ?thesis by (simp add: select_inv_def Let_def answer_is_def)
  qed (use answered.hyps in \<open>simp add: Select_start_group [OF s ne(1)]\<close>)
next
  case (must_bind servers \<sigma> vs boundID)
  let ?b = "read_binding realmID mapID groupID (store \<sigma>)"
  have s: "servers \<noteq> []" using must_bind.hyps(1) ne(2) by auto
  show ?case
  proof (cases rule: serverByID_cases [of servers ?b])
    case missing
    then have "vs = servers" "boundID = ?b" "?b \<notin> A"
      using must_bind.hyps by (auto simp: Select_start_group [OF s ne(1)])
    with must_bind show ?thesis by (simp add: select_inv_def Let_def)
  qed (use must_bind.hyps in \<open>simp add: Select_start_group [OF s ne(1)]\<close>)
next
  case (finish i \<sigma> vs boundID s' a)
  let ?b = "read_binding realmID mapID groupID (store \<sigma>)" and ?k = "groupKey realmID groupID mapID"
  have "(vs, boundID) \<in> set (waiting \<sigma>)" using finish.hyps(1,2) by (metis nth_mem)
  with finish.prems have w: "ID ` set vs = A" "boundID \<notin> A" "bindings (store \<sigma>) ?k \<noteq> Some []"
    by (auto simp: select_inv_def Let_def)
  have rest: "\<forall>w\<in>set (take i (waiting \<sigma>) @ drop (Suc i) (waiting \<sigma>)). ID ` set (fst w) = A \<and> snd w \<notin> A"
    using finish.prems by (auto simp: select_inv_def Let_def dest: in_set_takeD in_set_dropD)
  show ?case
  proof (cases "?b \<in> A")
    case True
    then have "bindings (store \<sigma>) ?k = Some ?b" using ne(3) by (auto simp: read_binding_def split: option.splits)
    from Select_finish_bound [OF w(1,2) ne(3) True this finish.hyps(3)] finish.prems True rest w(3)
    show ?thesis by (auto simp: select_inv_def Let_def)
  next
    case False
    then have b: "boundID = ?b" and empty: "answers \<sigma> = []"
      using finish.prems \<open>(vs, boundID) \<in> set (waiting \<sigma>)\<close> by (auto simp: select_inv_def Let_def)
    from Select_finish_unbound [OF w(1) ne(2,3) b w(3) finish.hyps(3)] obtain x
      where x: "x \<in> A" "bindings s' ?k = Some x" "answer_is x a" by blast
    then have "read_binding realmID mapID groupID s' = x" "x \<noteq> []" using ne(3) by (auto simp: read_binding_def)
    with x rest empty show ?thesis by (simp add: select_inv_def Let_def)
  qed
next
  case (other_keys s' \<sigma>)
  then show ?case by (simp add: select_inv_def read_binding_def Let_def)
qed

text \<open>
  C5: Group members meet. However the members of a group interleave, and whatever each of them
  knows of the load, all get an answer with the same server, as long as the map is available on
  the same servers for all of them; a binding to a server that is gone is replaced once.
\<close>

theorem group_members_share_server:
  assumes "(select_step realmID mapID groupID A)\<^sup>*\<^sup>* \<sigma>0 \<sigma>" "groupID \<noteq> 0" "A \<noteq> {}" "[] \<notin> A"
    and "waiting \<sigma>0 = []" "answers \<sigma>0 = []"
    and "bindings (store \<sigma>0) (groupKey realmID groupID mapID) \<noteq> Some []"
  shows "\<exists>w. \<forall>a\<in>set (answers \<sigma>). answer_is w a"
proof -
  have "select_inv realmID mapID groupID A \<sigma>0" using assms(5-7) by (simp add: select_inv_def Let_def)
  with assms(1) have "select_inv realmID mapID groupID A \<sigma>"
    by (induction rule: rtranclp_induct) (auto intro: select_step_inv [OF _ _ assms(2-4)])
  then show ?thesis by (auto simp: select_inv_def Let_def split: if_splits)
qed

definition ex_select :: "select_run" where
  "ex_select = \<lparr>store = \<lparr>configs = Map.empty, bindings = Map.empty, locks = Map.empty\<rparr>, waiting = [], answers = []\<rparr>"

definition ex_select_done :: "select_run" where
  "ex_select_done = \<lparr>store = \<lparr>configs = Map.empty, bindings = [groupKey 1 5 0 \<mapsto> ''a''], locks = Map.empty\<rparr>,
     waiting = [], answers = [\<lparr>Status = LayerSelectionOK, Server = Some (ex_server ''a'')\<rparr>]\<rparr>"

lemma ex_select_run: "(select_step 1 0 5 {''a''})\<^sup>*\<^sup>* ex_select ex_select_done"
proof -
  let ?s = "[ex_server ''a'']"
  have "ID ` set ?s = {''a''}" by (simp add: ex_server_def)
  moreover have "Select_start False (Inr ?s) 1 0 5 [] (store ex_select) = Inr (Bind ?s [])"
    by (simp add: Select_start_group read_binding_def ex_select_def serverByID_def ex_server_def)
  ultimately have 1: "select_step 1 0 5 {''a''} ex_select (ex_select\<lparr>waiting := waiting ex_select @ [(?s, [])]\<rparr>)"
    by (rule select_step.must_bind)
  let ?\<sigma> = "ex_select\<lparr>waiting := waiting ex_select @ [(?s, [])]\<rparr>"
  have "Select_finish False (store ?\<sigma>) ?s [] 1 0 5 (store ?\<sigma>) = (store ex_select_done, Inr (hd (answers ex_select_done)))"
    by (simp add: Select_finish_def ex_select_def ex_select_done_def store_BindGroup_def leastLoaded_def
        serverByID_def Let_def) (simp add: ex_server_def)
  then have "select_step 1 0 5 {''a''} ?\<sigma>
      (?\<sigma>\<lparr>store := store ex_select_done, waiting := take 0 (waiting ?\<sigma>) @ drop (Suc 0) (waiting ?\<sigma>),
         answers := answers ?\<sigma> @ [hd (answers ex_select_done)]\<rparr>)"
    by (intro select_step.finish) (simp_all add: ex_select_def)
  also have "?\<sigma>\<lparr>store := store ex_select_done, waiting := take 0 (waiting ?\<sigma>) @ drop (Suc 0) (waiting ?\<sigma>),
         answers := answers ?\<sigma> @ [hd (answers ex_select_done)]\<rparr> = ex_select_done"
    by (simp add: ex_select_def ex_select_done_def)
  finally show ?thesis using 1 by (meson r_into_rtranclp rtranclp.rtrancl_into_rtrancl)
qed

theorem group_members_share_server_witness:
  "answers ex_select_done \<noteq> [] \<and> (\<exists>w. \<forall>a\<in>set (answers ex_select_done). answer_is w a)"
proof
  show "\<exists>w. \<forall>a\<in>set (answers ex_select_done). answer_is w a"
    by (rule group_members_share_server [OF ex_select_run]) (simp_all add: ex_select_def)
qed (simp add: ex_select_done_def)

section \<open>The realm lock\<close>

text \<open>
  Registry replicas taking the lock of a realm. \<open>inside\<close> are the tokens of the replicas whose lease
  still runs; a lease that expires leaves the set, though its replica may still be working.
\<close>

inductive lock_step :: "u32 \<Rightarrow> layer_redis \<times> string set \<Rightarrow> layer_redis \<times> string set \<Rightarrow> bool" for realmID where
  acquire: "LockRealm_attempt realmID token s = (s', True) \<Longrightarrow> lock_step realmID (s, inside) (s', insert token inside)"
| release: "lock_step realmID (s, inside) (unlock realmID token s, inside - {token})"
| expire: "lock_step realmID (s, inside) (s\<lparr>locks := (locks s)(realmID := None)\<rparr>, {})"

text \<open>
  C18: The lock is exclusive and only its owner gives it up: at every time at most one replica holds a
  running lease, and it is the one whose token is in the key, whatever late unlocks arrive.
\<close>

theorem realm_lock_exclusive:
  assumes "(lock_step realmID)\<^sup>*\<^sup>* (s0, {}) (s, inside)" "locks s0 realmID = None"
  shows "inside = (case locks s realmID of None \<Rightarrow> {} | Some token \<Rightarrow> {token})"
  using assms
proof (induction rule: rtranclp_induct2)
  case (step s inside s' inside')
  from step.hyps(2) step.IH [OF step.prems] show ?case
    by (cases rule: lock_step.cases)
      (auto simp: LockRealm_attempt_def unlock_def split: if_splits option.splits)
qed simp

theorem realm_lock_exclusive_witness:
  "{''t''} = (case locks (fst (LockRealm_attempt 1 ''t'' (store ex_select))) 1 of None \<Rightarrow> {} | Some token \<Rightarrow> {token})"
proof -
  have free: "locks (store ex_select) 1 = None" by (simp add: ex_select_def)
  then have "LockRealm_attempt 1 ''t'' (store ex_select) =
      (fst (LockRealm_attempt 1 ''t'' (store ex_select)), True)" by (simp add: LockRealm_attempt_def)
  from lock_step.acquire [OF this, of "{}"] show ?thesis
    by (rule realm_lock_exclusive [OF r_into_rtranclp free])
qed

end
