(* ===== verification/Battlegrounds.thy ===== *)
theory Battlegrounds
  imports Cloud9_Prelude "HOL-Library.Multiset"
begin

text \<open>
  Battlegrounds of the matchmaking server, \<^verbatim>\<open>apps/matchmakingserver/battleground\<close>, their level
  brackets (\<^verbatim>\<open>repo/battleground-template.go\<close>) and their in-memory repository
  (\<^verbatim>\<open>repo/battleground_inmem.go\<close>).

  The arrays indexed by team are functions of the team; a team loop visits any, alliance, horde.
  Go maps are association lists with distinct keys, in iteration order. Times are milliseconds.
\<close>

section \<open>Players, teams, groups\<close>

record PlayerUnwrapped =
  playerRealm :: u16
  LowGUID :: u32

definition player_of :: "u64 \<Rightarrow> u32 \<Rightarrow> PlayerUnwrapped" where
  "player_of playerGUID realmID = \<lparr>playerRealm = ucast realmID, LowGUID = ucast playerGUID\<rparr>"

datatype PVPTeam = TeamAny | TeamAlliance | TeamHorde

definition all_teams :: "PVPTeam list" where
  "all_teams = [TeamAny, TeamAlliance, TeamHorde]"

datatype BGStatus = StatusNone | StatusWaitQueue | StatusWaitJoin | StatusInProgress | StatusEnded

record QueuedGroup =
  LeaderGUID :: PlayerUnwrapped
  Members :: "PlayerUnwrapped list"
  SlotsPerMember :: "PlayerUnwrapped \<Rightarrow> u8"
  groupRealm :: u32
  TeamID :: PVPTeam
  EnqueuedTime :: nat
  IsRandomQueue :: bool

abbreviation group_size :: "QueuedGroup \<Rightarrow> nat" where
  "group_size g \<equiv> length (Members g) + 1"

abbreviation group_players :: "QueuedGroup \<Rightarrow> PlayerUnwrapped list" where
  "group_players g \<equiv> Members g @ [LeaderGUID g]"

record InvitedPlayer =
  invGUID :: PlayerUnwrapped
  InvitedTime :: nat

record Battleground =
  InstanceID :: u32
  bgMapID :: u32
  GameserverAddress :: string
  BattlegroundTypeID :: u8
  bgQueueTypeID :: u8
  bgBracketID :: u8
  bgBattleGroupID :: u32
  bgRealmID :: u32
  MinPlayersPerTeam :: u8
  MaxPlayersPerTeam :: u8
  bgStatus :: BGStatus
  ActivePlayersPerTeam :: "PVPTeam \<Rightarrow> PlayerUnwrapped list"
  InvitedPlayersPerTeam :: "PVPTeam \<Rightarrow> InvitedPlayer list"

section \<open>Slots\<close>

abbreviation team_count :: "Battleground \<Rightarrow> PVPTeam \<Rightarrow> nat" where
  "team_count b team \<equiv> length (ActivePlayersPerTeam b team) + length (InvitedPlayersPerTeam b team)"

definition FreeSlotsForTeam :: "Battleground \<Rightarrow> PVPTeam \<Rightarrow> u8" where
  "FreeSlotsForTeam b team =
     (let r = int (unat (MaxPlayersPerTeam b)) - int (team_count b team)
      in if r < 0 then 0 else of_int r)"

definition other_team :: "PVPTeam \<Rightarrow> PVPTeam" where
  "other_team team = (if team = TeamAlliance then TeamHorde else TeamAlliance)"

definition BackfillSlotsForTeam :: "Battleground \<Rightarrow> PVPTeam \<Rightarrow> u8" where
  "BackfillSlotsForTeam b team =
     (let other = other_team team;
          teamCount = int (team_count b team);
          otherCount = int (team_count b other);
          target1 = int (unat (MinPlayersPerTeam b));
          target2 = (if target1 < otherCount then otherCount else target1);
          target3 = (if int (unat (MaxPlayersPerTeam b)) < target2 then int (unat (MaxPlayersPerTeam b)) else target2);
          r = target3 - teamCount
      in if r < 0 then 0 else of_int r)"

section \<open>Levels\<close>

definition BracketIDByLevel :: "u8 \<Rightarrow> u8" where
  "BracketIDByLevel level = (if level < 10 then 1 else if 80 \<le> level then 8 else level div 10)"

definition LevelsDiapasonForBracket :: "u8 \<Rightarrow> u8 \<times> u8" where
  "LevelsDiapasonForBracket bracket = (if 8 \<le> bracket then (80, 80) else (bracket * 10, bracket * 10 + 9))"

record BattlegroundTemplate =
  tTypeID :: u32
  tMapID :: u32
  tMinPlayersPerTeam :: u8
  tMaxPlayersPerTeam :: u8
  MinLvl :: u8
  MaxLvl :: u8
  RandomBattlegroundWeight :: int

text \<open>The loop of \<open>GetAllBrackets\<close>: levels stay below 90, so the counter does not wrap.\<close>

function brackets_from :: "nat \<Rightarrow> nat \<Rightarrow> u8 list" where
  "brackets_from i maxLvl =
     (if i < maxLvl then BracketIDByLevel (of_nat i) # brackets_from (i + 10) maxLvl else [])"
  by pat_completeness auto
termination
  by (relation "measure (\<lambda>(i, m). m - i)") auto

declare brackets_from.simps [simp del]

definition GetAllBrackets :: "BattlegroundTemplate \<Rightarrow> u8 list" where
  "GetAllBrackets t =
     (let minLvl = (if MinLvl t < 10 then 10 else MinLvl t);
          maxLvl = (if 80 < MaxLvl t then 80 else MaxLvl t)
      in brackets_from (unat minLvl) (unat maxLvl) @ [BracketIDByLevel (MaxLvl t)])"

definition battlegroundTypeToMapID :: "u32 \<Rightarrow> u32" where
  "battlegroundTypeToMapID typeID =
     (let q = (ucast typeID :: u8) in
      if q = 1 then 30 else if q = 2 then 489 else if q = 3 then 529 else if q = 4 then 559
      else if q = 5 then 562 else if q = 6 then 559 else if q = 7 then 566 else if q = 8 then 572
      else if q = 9 then 607 else if q = 10 then 617 else if q = 11 then 618 else if q = 30 then 628
      else 30)"

section \<open>Invitations\<close>

record invited_event =
  evRealm :: u32
  evPlayers :: "u32 list"
  evSlots :: "u32 \<rightharpoonup> u8"
  evMinLVL :: u8
  evMaxLVL :: u8
  evType :: u8
  evMap :: u32

definition invite_group :: "nat \<Rightarrow> PVPTeam \<Rightarrow> Battleground \<Rightarrow> QueuedGroup \<Rightarrow> Battleground" where
  "invite_group now team b g =
     b\<lparr>InvitedPlayersPerTeam := (InvitedPlayersPerTeam b)(team := InvitedPlayersPerTeam b team @
        map (\<lambda>p. \<lparr>invGUID = p, InvitedTime = now\<rparr>) (group_players g))\<rparr>"

definition group_slots :: "(u32 \<rightharpoonup> u8) \<Rightarrow> QueuedGroup \<Rightarrow> (u32 \<rightharpoonup> u8)" where
  "group_slots slots g =
     foldl (\<lambda>m p. m(LowGUID p \<mapsto> SlotsPerMember g p)) slots (group_players g)"

definition realm_invite_event :: "Battleground \<Rightarrow> u32 \<Rightarrow> QueuedGroup list \<Rightarrow> invited_event" where
  "realm_invite_event b realm groups =
     (let (minLvl, maxLvl) = LevelsDiapasonForBracket (bgBracketID b)
      in \<lparr>evRealm = realm,
          evPlayers = concat (map (\<lambda>g. LowGUID (LeaderGUID g) # map LowGUID (Members g)) groups),
          evSlots = foldl group_slots Map.empty groups,
          evMinLVL = minLvl, evMaxLVL = maxLvl, evType = bgQueueTypeID b, evMap = bgMapID b\<rparr>)"

text \<open>
  \<open>realms\<close> are the keys of \<^verbatim>\<open>groupsByRealm\<close> in iteration order; \<open>produceFails\<close> tells for which
  realm the event cannot be produced. The first failure ends the loop with the invitations made
  so far.
\<close>

fun invite_realms ::
  "(u32 \<Rightarrow> bool) \<Rightarrow> nat \<Rightarrow> PVPTeam \<Rightarrow> QueuedGroup list \<Rightarrow> u32 list \<Rightarrow> Battleground \<Rightarrow>
   Battleground \<times> invited_event list \<times> bool" where
  "invite_realms produceFails now team groups [] b = (b, [], True)"
| "invite_realms produceFails now team groups (realm # realms) b =
     (let queuedGroups = filter (\<lambda>g. groupRealm g = realm) groups;
          b' = foldl (invite_group now team) b queuedGroups
      in if produceFails realm then (b', [], False)
         else case invite_realms produceFails now team groups realms b' of
           (b'', evs, ok) \<Rightarrow> (b'', realm_invite_event b' realm queuedGroups # evs, ok))"

definition InviteGroups ::
  "(u32 list \<Rightarrow> u32 list) \<Rightarrow> (u32 \<Rightarrow> bool) \<Rightarrow> nat \<Rightarrow> QueuedGroup list \<Rightarrow> PVPTeam \<Rightarrow> Battleground \<Rightarrow>
   Battleground \<times> invited_event list \<times> bool" where
  "InviteGroups order produceFails now groups team b =
     invite_realms produceFails now team groups (order (remdups (map groupRealm groups))) b"

fun first_team_with :: "(PVPTeam \<Rightarrow> bool) \<Rightarrow> PVPTeam list \<Rightarrow> PVPTeam option" where
  "first_team_with p [] = None"
| "first_team_with p (t # ts) = (if p t then Some t else first_team_with p ts)"

definition TeamForInvitedPlayer :: "u64 \<Rightarrow> u32 \<Rightarrow> Battleground \<Rightarrow> PVPTeam option" where
  "TeamForInvitedPlayer playerGUID realmID b =
     first_team_with (\<lambda>t. \<exists>i\<in>set (InvitedPlayersPerTeam b t). invGUID i = player_of playerGUID realmID) all_teams"

definition RemovePlayerFromInvite :: "u64 \<Rightarrow> u32 \<Rightarrow> Battleground \<Rightarrow> Battleground" where
  "RemovePlayerFromInvite playerGUID realmID b =
     (case TeamForInvitedPlayer playerGUID realmID b of
        None \<Rightarrow> b
      | Some t \<Rightarrow> b\<lparr>InvitedPlayersPerTeam := (InvitedPlayersPerTeam b)(t :=
           remove_first (\<lambda>i. invGUID i = player_of playerGUID realmID) (InvitedPlayersPerTeam b t))\<rparr>)"

definition RemovePlayer :: "u64 \<Rightarrow> u32 \<Rightarrow> Battleground \<Rightarrow> Battleground" where
  "RemovePlayer playerGUID realmID b =
     (let p = player_of playerGUID realmID;
          b' = (case first_team_with (\<lambda>t. p \<in> set (ActivePlayersPerTeam b t)) all_teams of
                  None \<Rightarrow> b
                | Some t \<Rightarrow> b\<lparr>ActivePlayersPerTeam := (ActivePlayersPerTeam b)(t :=
                     remove_first (\<lambda>q. q = p) (ActivePlayersPerTeam b t))\<rparr>)
      in RemovePlayerFromInvite playerGUID realmID b')"

definition AddActivePlayer :: "u64 \<Rightarrow> u32 \<Rightarrow> PVPTeam \<Rightarrow> Battleground \<Rightarrow> Battleground" where
  "AddActivePlayer playerGUID realmID team b =
     b\<lparr>ActivePlayersPerTeam := (ActivePlayersPerTeam b)(team :=
        ActivePlayersPerTeam b team @ [player_of playerGUID realmID])\<rparr>"

definition IsActive :: "Battleground \<Rightarrow> bool" where
  "IsActive b \<longleftrightarrow> bgStatus b \<noteq> StatusEnded"

section \<open>The repository\<close>

text \<open>The key is printed from the instance and the realm; the battlegroup is not part of it.\<close>

record RealmWithBattlegroupKey =
  keyRealmID :: u32
  keyBattlegroupID :: u32

definition indexKeyForInstanceAndRealm :: "u32 \<Rightarrow> RealmWithBattlegroupKey \<Rightarrow> string" where
  "indexKeyForInstanceAndRealm instanceID k = dec (unat instanceID) @ '':'' @ dec (unat (keyRealmID k))"

definition bg_index :: "Battleground \<Rightarrow> string" where
  "bg_index b = indexKeyForInstanceAndRealm (InstanceID b)
     \<lparr>keyRealmID = bgRealmID b, keyBattlegroupID = bgBattleGroupID b\<rparr>"

type_synonym bg_repo = "string \<rightharpoonup> Battleground"

definition SaveBattleground :: "Battleground \<Rightarrow> bg_repo \<Rightarrow> bg_repo" where
  "SaveBattleground b r = (if bgStatus b = StatusEnded then r(bg_index b := None) else r(bg_index b \<mapsto> b))"

definition GetBattlegroundByInstanceID :: "u32 \<Rightarrow> RealmWithBattlegroupKey \<Rightarrow> bg_repo \<Rightarrow> Battleground option" where
  "GetBattlegroundByInstanceID instanceID k r = r (indexKeyForInstanceAndRealm instanceID k)"

text \<open>The loops over all battlegrounds visit \<open>keys\<close>, the keys of the map in iteration order.\<close>

definition GetActiveBattlegrounds ::
  "string list \<Rightarrow> u8 \<Rightarrow> u8 \<Rightarrow> RealmWithBattlegroupKey \<Rightarrow> bg_repo \<Rightarrow> Battleground list" where
  "GetActiveBattlegrounds keys bgType bracket k r =
     filter (\<lambda>b. bgQueueTypeID b = bgType \<and> bgBracketID b = bracket \<and> bgRealmID b = keyRealmID k \<and>
        bgBattleGroupID b = keyBattlegroupID k \<and> IsActive b) (List.map_filter r keys)"

definition GetAllActiveBattlegrounds :: "string list \<Rightarrow> bg_repo \<Rightarrow> Battleground list" where
  "GetAllActiveBattlegrounds keys r = filter IsActive (List.map_filter r keys)"

text \<open>The update function works on the stored object, so its changes stay when it reports an error.\<close>

definition UpdateBattleground ::
  "u32 \<Rightarrow> RealmWithBattlegroupKey \<Rightarrow> (Battleground \<Rightarrow> Battleground \<times> 'e option) \<Rightarrow> bg_repo \<Rightarrow>
   bg_repo \<times> ('e option) option" where
  "UpdateBattleground instanceID k u r =
     (let key = indexKeyForInstanceAndRealm instanceID k in
      case r key of
        None \<Rightarrow> (r, None)
      | Some b \<Rightarrow>
          (case u b of
             (b', Some e) \<Rightarrow> (r(key \<mapsto> b'), Some (Some e))
           | (b', None) \<Rightarrow>
               (if bgStatus b' = StatusEnded then (r(key \<mapsto> b'))(bg_index b' := None) else r(key \<mapsto> b'),
                Some None)))"

definition DeleteAllWithGameServerAddress ::
  "string list \<Rightarrow> string \<Rightarrow> bg_repo \<Rightarrow> bg_repo \<times> Battleground list" where
  "DeleteAllWithGameServerAddress keys address r =
     (let hit = (\<lambda>key. case r key of None \<Rightarrow> False | Some b \<Rightarrow> GameserverAddress b = address)
      in (\<lambda>key. if key \<in> set keys \<and> hit key then None else r key,
          rev (List.map_filter r (filter hit keys))))"

section \<open>Slots and invitations\<close>

lemma unat_u8_le: "unat (w :: u8) \<le> 255"
proof -
  have "unat w < 2 ^ LENGTH(8)" by (rule unsigned_less)
  then show ?thesis by simp
qed

lemma slots_clip:
  fixes m c :: nat
  assumes "m \<le> 255"
  shows "unat (if int m - int c < 0 then 0 else of_int (int m - int c) :: u8) = m - c"
proof (cases "c \<le> m")
  case True
  then have "int m - int c = int (m - c)" by simp
  with assms show ?thesis by (simp add: unat_of_nat del: of_nat_diff)
qed simp

lemma backfill_target:
  fixes lo hi c :: nat
  shows "(let t = (if int lo < int c then int c else int lo) in if int hi < t then int hi else t) = int (min hi (max lo c))"
  by (simp add: Let_def min_def max_def)

lemma BackfillSlots_exact:
  "unat (BackfillSlotsForTeam b team) =
     min (unat (MaxPlayersPerTeam b)) (max (unat (MinPlayersPerTeam b)) (team_count b (other_team team)))
       - team_count b team"
proof -
  let ?m = "min (unat (MaxPlayersPerTeam b)) (max (unat (MinPlayersPerTeam b)) (team_count b (other_team team)))"
  have "?m \<le> 255" using unat_u8_le [of "MaxPlayersPerTeam b"] by linarith
  from slots_clip [OF this, of "team_count b team"] show ?thesis
    unfolding backfill_target [symmetric] BackfillSlotsForTeam_def Let_def .
qed

lemma FreeSlots_exact:
  "unat (FreeSlotsForTeam b team) = unat (MaxPlayersPerTeam b) - team_count b team"
  unfolding FreeSlotsForTeam_def Let_def by (rule slots_clip [OF unat_u8_le])

abbreviation invites :: "Battleground \<Rightarrow> PVPTeam \<Rightarrow> PlayerUnwrapped list" where
  "invites b t \<equiv> map invGUID (InvitedPlayersPerTeam b t)"

lemma invite_group_fields [simp]:
  "ActivePlayersPerTeam (invite_group now team b g) = ActivePlayersPerTeam b"
  "t \<noteq> team \<Longrightarrow> InvitedPlayersPerTeam (invite_group now team b g) t = InvitedPlayersPerTeam b t"
  "map invGUID (InvitedPlayersPerTeam (invite_group now team b g) team) = invites b team @ group_players g"
  "bg_index (invite_group now team b g) = bg_index b" "bgStatus (invite_group now team b g) = bgStatus b"
  "bgQueueTypeID (invite_group now team b g) = bgQueueTypeID b" "bgBracketID (invite_group now team b g) = bgBracketID b"
  "bgBattleGroupID (invite_group now team b g) = bgBattleGroupID b" "bgRealmID (invite_group now team b g) = bgRealmID b"
  by (simp_all add: invite_group_def comp_def bg_index_def)

lemma foldl_invite_group:
  "ActivePlayersPerTeam (foldl (invite_group now team) b gs) = ActivePlayersPerTeam b"
  "t \<noteq> team \<Longrightarrow> InvitedPlayersPerTeam (foldl (invite_group now team) b gs) t = InvitedPlayersPerTeam b t"
  "invites (foldl (invite_group now team) b gs) team = invites b team @ concat (map group_players gs)"
  "bg_index (foldl (invite_group now team) b gs) = bg_index b"
  "bgStatus (foldl (invite_group now team) b gs) = bgStatus b"
  by (induction gs arbitrary: b) simp_all

lemma invite_realms_invites:
  assumes "invite_realms f now team groups realms b = (b', evs, True)"
  shows "ActivePlayersPerTeam b' = ActivePlayersPerTeam b \<and>
    (\<forall>t. t \<noteq> team \<longrightarrow> InvitedPlayersPerTeam b' t = InvitedPlayersPerTeam b t) \<and>
    invites b' team = invites b team @
      concat (map group_players (concat (map (\<lambda>r. filter (\<lambda>g. groupRealm g = r) groups) realms))) \<and>
    bg_index b' = bg_index b \<and> bgStatus b' = bgStatus b"
  using assms
proof (induction realms arbitrary: b b' evs)
  case (Cons r realms)
  let ?b = "foldl (invite_group now team) b (filter (\<lambda>g. groupRealm g = r) groups)"
  obtain b1 evs1 ok where rec: "invite_realms f now team groups realms ?b = (b1, evs1, ok)"
    by (rule prod_cases3)
  with Cons.prems have "b1 = b'" "ok" by (auto simp: Let_def split: if_splits)
  with Cons.IH [of ?b b' evs1] rec show ?case by (simp add: foldl_invite_group)
qed simp

lemma mset_by_realm:
  assumes "distinct realms" "groupRealm ` set groups \<subseteq> set realms"
  shows "mset (concat (map (\<lambda>r. filter (\<lambda>g. groupRealm g = r) groups) realms)) = mset groups"
  using assms
proof (induction realms arbitrary: groups)
  case (Cons r realms)
  let ?rest = "filter (\<lambda>g. groupRealm g \<noteq> r) groups"
  have "map (\<lambda>r. filter (\<lambda>g. groupRealm g = r) groups) realms = map (\<lambda>r. filter (\<lambda>g. groupRealm g = r) ?rest) realms"
    using Cons.prems(1) by (auto simp: filter_filter intro!: filter_cong)
  then have "concat (map (\<lambda>r. filter (\<lambda>g. groupRealm g = r) groups) (r # realms)) =
      filter (\<lambda>g. groupRealm g = r) groups @ concat (map (\<lambda>r. filter (\<lambda>g. groupRealm g = r) ?rest) realms)"
    by (simp only: list.map concat.simps)
  moreover have "mset (concat (map (\<lambda>r. filter (\<lambda>g. groupRealm g = r) ?rest) realms)) = mset ?rest"
    using Cons.prems by (intro Cons.IH) auto
  moreover have "mset (filter (\<lambda>g. groupRealm g = r) groups) + mset ?rest = mset groups"
    by (induction groups) auto
  ultimately show ?case by (simp only: mset_append)
qed simp

lemma mset_concat_map_cong: "mset xs = mset ys \<Longrightarrow> mset (concat (map f xs)) = mset (concat (map f ys))"
  by (simp add: mset_concat flip: sum_mset_sum_list)

lemma InviteGroups_invites:
  assumes "\<And>xs. mset (order xs) = mset xs" "InviteGroups order f now groups team b = (b', evs, True)"
  shows "ActivePlayersPerTeam b' = ActivePlayersPerTeam b"
    and "t \<noteq> team \<Longrightarrow> InvitedPlayersPerTeam b' t = InvitedPlayersPerTeam b t"
    and "mset (invites b' team) = mset (invites b team) + mset (concat (map group_players groups))"
    and "bg_index b' = bg_index b" "bgStatus b' = bgStatus b"
proof -
  let ?realms = "order (remdups (map groupRealm groups))"
  note i = invite_realms_invites [OF assms(2) [unfolded InviteGroups_def]]
  have "mset ?realms = mset (remdups (map groupRealm groups))" by (rule assms(1))
  then have "distinct ?realms" "set ?realms = groupRealm ` set groups"
    by (metis distinct_remdups mset_eq_imp_distinct_iff, metis list.set_map mset_eq_setD set_remdups)
  then have "mset (concat (map (\<lambda>r. filter (\<lambda>g. groupRealm g = r) groups) ?realms)) = mset groups"
    by (intro mset_by_realm) auto
  from mset_concat_map_cong [OF this, of group_players] i
  show "mset (invites b' team) = mset (invites b team) + mset (concat (map group_players groups))"
    by (simp only: mset_append)
  show "ActivePlayersPerTeam b' = ActivePlayersPerTeam b"
    "t \<noteq> team \<Longrightarrow> InvitedPlayersPerTeam b' t = InvitedPlayersPerTeam b t"
    "bg_index b' = bg_index b" "bgStatus b' = bgStatus b"
    using i by blast+
qed

text \<open>
  Refilling keeps a match balanced. Inviting groups whose players fit into the backfill slots of
  a team leaves the team at most as large as the other team, or as the minimum when that is larger,
  never above the maximum, and does not touch the other team.
\<close>

lemma backfill_keeps_balance:
  assumes "\<And>xs. mset (order xs) = mset xs" "team \<noteq> TeamAny" "groups \<noteq> []"
    and "(\<Sum>g\<leftarrow>groups. group_size g) \<le> unat (BackfillSlotsForTeam b team)"
    and "InviteGroups order f now groups team b = (b', evs, True)"
  shows "team_count b' team \<le> unat (MaxPlayersPerTeam b) \<and>
    team_count b' team \<le> max (unat (MinPlayersPerTeam b)) (team_count b (other_team team)) \<and>
    team_count b' (other_team team) = team_count b (other_team team)"
proof -
  note i = InviteGroups_invites [OF assms(1,5)]
  have "other_team team \<noteq> team" using assms(2) by (cases team) (simp_all add: other_team_def)
  then have o: "team_count b' (other_team team) = team_count b (other_team team)" by (simp add: i(1,2))
  have "length (invites b' team) = length (invites b team) + length (concat (map group_players groups))"
    using i(3) by (metis length_append mset_append size_mset)
  also have "length (concat (map group_players groups)) = (\<Sum>g\<leftarrow>groups. group_size g)"
    by (simp add: length_concat comp_def)
  finally have "team_count b' team = team_count b team + (\<Sum>g\<leftarrow>groups. group_size g)" by (simp add: i(1))
  moreover have "0 < (\<Sum>g\<leftarrow>groups. group_size g)" using assms(3) by (cases groups) auto
  ultimately show ?thesis using assms(4) o unfolding BackfillSlots_exact by linarith
qed

definition ex_player :: "u32 \<Rightarrow> PlayerUnwrapped" where
  "ex_player n = \<lparr>playerRealm = 1, LowGUID = n\<rparr>"

definition ex_group :: "u32 \<Rightarrow> u32 list \<Rightarrow> PVPTeam \<Rightarrow> QueuedGroup" where
  "ex_group l ms t = \<lparr>LeaderGUID = ex_player l, Members = map ex_player ms, SlotsPerMember = (\<lambda>_. 0), groupRealm = 1,
     TeamID = t, EnqueuedTime = 0, IsRandomQueue = False\<rparr>"

definition ex_bg :: Battleground where
  "ex_bg = \<lparr>InstanceID = 7, bgMapID = 489, GameserverAddress = ''gs'', BattlegroundTypeID = 2, bgQueueTypeID = 2,
     bgBracketID = 8, bgBattleGroupID = 0, bgRealmID = 1, MinPlayersPerTeam = 2, MaxPlayersPerTeam = 10,
     bgStatus = StatusInProgress, ActivePlayersPerTeam = (\<lambda>t. if t = TeamHorde then [ex_player 1, ex_player 2, ex_player 3] else []),
     InvitedPlayersPerTeam = (\<lambda>_. [])\<rparr>"

theorem backfill_keeps_balance_witness:
  "team_count (fst (InviteGroups (\<lambda>xs. xs) (\<lambda>_. False) 0 [ex_group 8 [9] TeamAlliance] TeamAlliance ex_bg)) TeamAlliance \<le> 3"
proof -
  let ?g = "[ex_group 8 [9] TeamAlliance]"
  obtain b' evs ok where i: "InviteGroups (\<lambda>xs. xs) (\<lambda>_. False) 0 ?g TeamAlliance ex_bg = (b', evs, ok)"
    by (rule prod_cases3)
  then have "ok" by (auto simp: InviteGroups_def Let_def ex_group_def)
  moreover have "(\<Sum>g\<leftarrow>?g. group_size g) \<le> unat (BackfillSlotsForTeam ex_bg TeamAlliance)"
    by (simp add: BackfillSlots_exact ex_bg_def ex_group_def other_team_def)
  ultimately show ?thesis
    using backfill_keeps_balance [of "\<lambda>xs. xs" TeamAlliance ?g ex_bg "\<lambda>_. False" 0 b' evs] i
    by (simp add: ex_bg_def other_team_def)
qed

section \<open>Players joining and leaving\<close>

definition invited_player :: "PlayerUnwrapped \<Rightarrow> InvitedPlayer \<Rightarrow> bool" where
  "invited_player p i \<longleftrightarrow> invGUID i = p"

lemma first_team_with_Some:
  "first_team_with p ts = Some t \<Longrightarrow> t \<in> set ts \<and> p t"
  by (induction ts) (auto split: if_splits)

lemma first_team_with_None: "first_team_with p ts = None \<longleftrightarrow> (\<forall>t\<in>set ts. \<not> p t)"
  by (induction ts) auto

lemma in_all_teams [simp]: "t \<in> set all_teams"
  by (cases t) (simp_all add: all_teams_def)

text \<open>Everybody in a battleground, invited or playing, per team.\<close>

abbreviation roster :: "Battleground \<Rightarrow> PVPTeam \<Rightarrow> PlayerUnwrapped multiset" where
  "roster b t \<equiv> mset (ActivePlayersPerTeam b t) + mset (invites b t)"

definition joins :: "u64 \<Rightarrow> u32 \<Rightarrow> Battleground \<Rightarrow> Battleground \<times> string option" where
  "joins playerGUID realmID b =
     (case TeamForInvitedPlayer playerGUID realmID b of
        None \<Rightarrow> (b, Some ''player not found in invited players'')
      | Some team \<Rightarrow> (AddActivePlayer playerGUID realmID team (RemovePlayer playerGUID realmID b), None))"

lemma mset_map_remove_first:
  "\<exists>x\<in>set xs. f x = y \<Longrightarrow> mset (map f (remove_first (\<lambda>x. f x = y) xs)) = mset (map f xs) - {#y#}"
  by (induction xs) auto

text \<open>
  Joining moves a player. A player who is invited and not yet playing ends up playing for the
  team that invited him, and every team has the same players, invited or playing, as before.
\<close>

lemma join_keeps_rosters:
  assumes "joins playerGUID realmID b = (b', None)" "p = player_of playerGUID realmID"
    and "\<And>t. p \<notin> set (ActivePlayersPerTeam b t)"
  shows "roster b' t = roster b t \<and> (\<exists>team. p \<in> set (invites b team) \<and> p \<in> set (ActivePlayersPerTeam b' team))"
proof -
  obtain team where team: "TeamForInvitedPlayer playerGUID realmID b = Some team"
    and b': "b' = AddActivePlayer playerGUID realmID team (RemovePlayer playerGUID realmID b)"
    using assms(1) by (auto simp: joins_def split: option.splits)
  have "\<exists>i\<in>set (InvitedPlayersPerTeam b team). invGUID i = p"
    using first_team_with_Some [OF team [unfolded TeamForInvitedPlayer_def]] assms(2) by blast
  then have inv: "p \<in> set (invites b team)" by auto
  have "first_team_with (\<lambda>t. p \<in> set (ActivePlayersPerTeam b t)) all_teams = None"
    using assms(3) by (simp add: first_team_with_None)
  then have "RemovePlayer playerGUID realmID b = RemovePlayerFromInvite playerGUID realmID b"
    by (simp add: RemovePlayer_def assms(2) Let_def)
  then have b1: "b' = AddActivePlayer playerGUID realmID team (b\<lparr>InvitedPlayersPerTeam :=
      (InvitedPlayersPerTeam b)(team := remove_first (\<lambda>i. invGUID i = p) (InvitedPlayersPerTeam b team))\<rparr>)"
    by (simp add: b' RemovePlayerFromInvite_def team assms(2))
  have "mset (invites b' team) = mset (invites b team) - {#p#}"
    using mset_map_remove_first [of "InvitedPlayersPerTeam b team" invGUID p] inv
    by (auto simp: b1 AddActivePlayer_def)
  moreover have "mset (ActivePlayersPerTeam b' team) = mset (ActivePlayersPerTeam b team) + {#p#}"
    by (simp add: b1 AddActivePlayer_def assms(2))
  moreover have "t \<noteq> team \<Longrightarrow> roster b' t = roster b t" by (simp add: b1 AddActivePlayer_def)
  moreover have "{#p#} \<subseteq># mset (invites b team)" using inv by simp
  ultimately have "roster b' t = roster b t"
    by (cases "t = team") (auto simp: subset_mset.add_diff_assoc2 multiset_eq_iff)
  moreover have "p \<in> set (ActivePlayersPerTeam b' team)" by (simp add: b1 AddActivePlayer_def assms(2))
  ultimately show ?thesis using inv by blast
qed

theorem join_keeps_rosters_witness:
  "\<exists>b'. joins 9 1 (ex_bg\<lparr>InvitedPlayersPerTeam := (\<lambda>_. [])(TeamAlliance := [\<lparr>invGUID = ex_player 9, InvitedTime = 0\<rparr>])\<rparr>) = (b', None) \<and>
     roster b' TeamAlliance = {#ex_player 9#}"
proof -
  let ?b = "ex_bg\<lparr>InvitedPlayersPerTeam := (\<lambda>_. [])(TeamAlliance := [\<lparr>invGUID = ex_player 9, InvitedTime = 0\<rparr>])\<rparr>"
  have p: "player_of 9 1 = ex_player 9" by (simp add: player_of_def ex_player_def)
  then have "TeamForInvitedPlayer 9 1 ?b = Some TeamAlliance"
    by (simp add: TeamForInvitedPlayer_def all_teams_def)
  then obtain b' where b': "joins 9 1 ?b = (b', None)" by (simp add: joins_def)
  from join_keeps_rosters [OF this p [symmetric], of TeamAlliance] b' show ?thesis
    by (auto simp: ex_bg_def ex_player_def)
qed

section \<open>Brackets\<close>

lemma bracket_of_level:
  assumes "10 \<le> l" "l < 80"
  shows "BracketIDByLevel (of_nat l) = of_nat (l div 10)"
proof -
  have "\<forall>l\<in>set [10..<80]. BracketIDByLevel (of_nat l) = of_nat (l div 10)" by code_simp
  moreover have "l \<in> set [10..<80]" using assms unfolding set_upt by simp
  ultimately show ?thesis by (rule bspec)
qed

lemma brackets_from_cover:
  assumes "i \<le> l" "l < m" "m \<le> 80" "10 \<le> i"
  shows "BracketIDByLevel (of_nat l) \<in> set (brackets_from i m) \<or> l div 10 = m div 10"
  using assms
proof (induction i m rule: brackets_from.induct)
  case (1 i m)
  have list: "brackets_from i m = BracketIDByLevel (of_nat i) # brackets_from (i + 10) m"
    using 1 by (subst brackets_from.simps) simp
  consider "i + 10 \<le> l" | "l < i + 10" "l div 10 = i div 10" | "l < i + 10" "l div 10 = i div 10 + 1"
    using \<open>i \<le> l\<close> by linarith
  then show ?case
  proof cases
    case 1
    then show ?thesis using "1.IH" "1.prems" list by auto
  next
    case 2
    then show ?thesis using "1.prems" by (simp add: list bracket_of_level)
  next
    case 3
    show ?thesis
    proof (cases "i + 10 < m")
      case True
      then have "brackets_from (i + 10) m = BracketIDByLevel (of_nat (i + 10)) # brackets_from (i + 10 + 10) m"
        using brackets_from.simps [of "i + 10" m] by (simp only: if_True)
      moreover have "BracketIDByLevel (of_nat l) = BracketIDByLevel (of_nat (i + 10))"
        using 3 "1.prems" True bracket_of_level [of l] bracket_of_level [of "i + 10"] by simp
      ultimately show ?thesis by (simp add: list)
    next
      case False
      then have "m div 10 = l div 10" using 3 "1.prems" by linarith
      then show ?thesis by simp
    qed
  qed
qed

text \<open>
  Every level has its queue. For each level a battleground template admits, from 10 and its
  minimum up to its maximum, the bracket of the level is among the brackets queues are made for.
\<close>

lemma GetAllBrackets_complete:
  assumes "MinLvl t \<le> level" "10 \<le> level" "level \<le> MaxLvl t"
  shows "BracketIDByLevel level \<in> set (GetAllBrackets t)"
proof (cases "level = MaxLvl t \<or> 80 \<le> level")
  case True
  with assms have "BracketIDByLevel level = BracketIDByLevel (MaxLvl t)"
    by (auto simp: BracketIDByLevel_def word_le_nat_alt word_less_nat_alt)
  then show ?thesis by (simp add: GetAllBrackets_def Let_def)
next
  case False
  let ?m = "unat (if 80 < MaxLvl t then 80 else MaxLvl t)" and ?i = "unat (if MinLvl t < 10 then 10 else MinLvl t)"
  have l: "unat level < 80" "10 \<le> unat level" "unat level < unat (MaxLvl t)"
    using False assms by (auto simp: word_le_nat_alt word_unat_eq_iff)
  then have b: "?i \<le> unat level" "unat level < ?m" "?m \<le> 80" "10 \<le> ?i"
    using assms by (auto simp: word_le_nat_alt word_less_nat_alt)
  from brackets_from_cover [OF b] show ?thesis
  proof
    assume "unat level div 10 = ?m div 10"
    show ?thesis
    proof (cases "80 < MaxLvl t")
      case True
      then show ?thesis using \<open>unat level div 10 = ?m div 10\<close> l(1) by simp
    next
      case False
      then have m: "?m = unat (MaxLvl t)" by simp
      with b have "unat (MaxLvl t) \<noteq> 80" using \<open>unat level div 10 = ?m div 10\<close> l(1) by auto
      then have "unat (MaxLvl t) < 80" using b m by linarith
      then have "BracketIDByLevel (MaxLvl t) = BracketIDByLevel level"
        using bracket_of_level [of "unat (MaxLvl t)"] bracket_of_level [of "unat level"] l m
          \<open>unat level div 10 = ?m div 10\<close> by simp
      then show ?thesis by (simp add: GetAllBrackets_def Let_def)
    qed
  qed (simp add: GetAllBrackets_def Let_def)
qed

definition ex_template :: BattlegroundTemplate where
  "ex_template = \<lparr>tTypeID = 2, tMapID = 489, tMinPlayersPerTeam = 2, tMaxPlayersPerTeam = 10, MinLvl = 15, MaxLvl = 43,
     RandomBattlegroundWeight = 1\<rparr>"

theorem GetAllBrackets_complete_witness: "BracketIDByLevel 29 \<in> set (GetAllBrackets ex_template)"
  by (rule GetAllBrackets_complete) (simp_all add: ex_template_def)

section \<open>The key of a battleground\<close>

text \<open>
  Battlegroups share keys. Two battlegrounds of one instance id and realm collide in the
  repository whatever their battlegroups are: cross-realm battlegrounds are all stored under realm
  0, so saving one makes a lookup for the other return it.
\<close>

lemma battlegroups_collide:
  assumes "InstanceID b1 = InstanceID b2" "bgRealmID b1 = bgRealmID b2" "IsActive b2"
  shows "GetBattlegroundByInstanceID (InstanceID b1)
      \<lparr>keyRealmID = bgRealmID b1, keyBattlegroupID = bgBattleGroupID b1\<rparr>
      (SaveBattleground b2 (SaveBattleground b1 r)) = Some b2"
  using assms
  by (simp add: GetBattlegroundByInstanceID_def SaveBattleground_def bg_index_def IsActive_def
      indexKeyForInstanceAndRealm_def)

end
