(* ===== verification/Battleground_Queue.thy ===== *)
theory Battleground_Queue
  imports Battlegrounds "HOL-Library.AList" "HOL-Library.Sublist"
begin

text \<open>
  The battleground queue, \<^verbatim>\<open>apps/matchmakingserver/service/battleground-queue.go\<close>: groups waiting
  for a match, the search for groups that refill a running battleground, the backtracking search for
  two balanced teams, and \<open>process\<close>, which the queue runs after every new group.

  The queue calls the battleground service through an interface. \<open>process\<close> takes those operations as
  arguments and threads the state \<open>'w\<close> they work on; the service's theory supplies them. The map of
  queued groups is an association list; \<open>order\<close> is the order in which a loop visits it. Sorting by
  size is stable, every outcome of Go's sort being the stable sort of some order.
\<close>

section \<open>The queue\<close>

record pvp_queue =
  qBattlegroundTypeID :: u8
  qQueueTypeID :: u8
  qBracketID :: u8
  qBattleGroupID :: u32
  qRealmID :: u32
  queuedGroups :: "(PlayerUnwrapped \<times> QueuedGroup) list"
  playersGroupLeaderByPlayer :: "PlayerUnwrapped \<rightharpoonup> PlayerUnwrapped"

definition NewGenericBattlegroundQueue :: "BattlegroundTemplate \<Rightarrow> u32 \<Rightarrow> u32 \<Rightarrow> u8 \<Rightarrow> pvp_queue" where
  "NewGenericBattlegroundQueue template realmID battlegroupID bracketID =
     \<lparr>qBattlegroundTypeID = ucast (tTypeID template), qQueueTypeID = ucast (tTypeID template),
      qBracketID = bracketID, qBattleGroupID = battlegroupID, qRealmID = realmID,
      queuedGroups = [], playersGroupLeaderByPlayer = Map.empty\<rparr>"

definition NewBattlegroundRandomQueue :: "BattlegroundTemplate \<Rightarrow> u32 \<Rightarrow> u32 \<Rightarrow> u8 \<Rightarrow> pvp_queue" where
  "NewBattlegroundRandomQueue template realmID battlegroupID bracketID =
     (NewGenericBattlegroundQueue template realmID battlegroupID bracketID)\<lparr>qQueueTypeID := 32\<rparr>"

definition enqueue :: "QueuedGroup \<Rightarrow> pvp_queue \<Rightarrow> pvp_queue" where
  "enqueue g q =
     q\<lparr>queuedGroups := AList.update (LeaderGUID g) g (queuedGroups q),
       playersGroupLeaderByPlayer :=
         (put_all (playersGroupLeaderByPlayer q) (Members g) (LeaderGUID g))(LeaderGUID g \<mapsto> LeaderGUID g)\<rparr>"

text \<open>Reading a missing key of the Go map gives the zero group.\<close>

definition zero_group :: QueuedGroup where
  "zero_group = \<lparr>LeaderGUID = \<lparr>playerRealm = 0, LowGUID = 0\<rparr>, Members = [], SlotsPerMember = (\<lambda>_. 0),
     groupRealm = 0, TeamID = TeamAny, EnqueuedTime = 0, IsRandomQueue = False\<rparr>"

definition queued_group :: "PlayerUnwrapped \<Rightarrow> pvp_queue \<Rightarrow> QueuedGroup" where
  "queued_group leader q = (case map_of (queuedGroups q) leader of None \<Rightarrow> zero_group | Some g \<Rightarrow> g)"

datatype queue_error = ErrPlayerNotFound | ServiceErr | CreateErr | NilTemplate

definition RemoveQueuedGroup :: "PlayerUnwrapped \<Rightarrow> pvp_queue \<Rightarrow> pvp_queue \<times> queue_error option" where
  "RemoveQueuedGroup player q =
     (case playersGroupLeaderByPlayer q player of
        None \<Rightarrow> (q, Some ErrPlayerNotFound)
      | Some leaderID \<Rightarrow>
          (q\<lparr>playersGroupLeaderByPlayer :=
               delete_all (playersGroupLeaderByPlayer q) (Members (queued_group leaderID q)),
             queuedGroups := AList.delete leaderID (queuedGroups q)\<rparr>, None))"

definition RemoveAllQueuedGroups :: "pvp_queue \<Rightarrow> pvp_queue" where
  "RemoveAllQueuedGroups q = q\<lparr>queuedGroups := [], playersGroupLeaderByPlayer := Map.empty\<rparr>"

definition GetAllQueuedGroups :: "(QueuedGroup list \<Rightarrow> QueuedGroup list) \<Rightarrow> pvp_queue \<Rightarrow> QueuedGroup list" where
  "GetAllQueuedGroups order q = order (map snd (queuedGroups q))"

definition QueuedGroupByPlayer :: "PlayerUnwrapped \<Rightarrow> pvp_queue \<Rightarrow> QueuedGroup option" where
  "QueuedGroupByPlayer player q =
     (case playersGroupLeaderByPlayer q player of
        None \<Rightarrow> None
      | Some leaderGuid \<Rightarrow> Some (queued_group leaderGuid q))"

definition removeGroupFromQueue :: "QueuedGroup \<Rightarrow> pvp_queue \<Rightarrow> pvp_queue" where
  "removeGroupFromQueue g q =
     q\<lparr>playersGroupLeaderByPlayer := delete_all (playersGroupLeaderByPlayer q) (Members g),
       queuedGroups := AList.delete (LeaderGUID g) (queuedGroups q)\<rparr>"

section \<open>Refilling\<close>

fun take_groups :: "u8 \<Rightarrow> PVPTeam \<Rightarrow> QueuedGroup list \<Rightarrow> QueuedGroup list" where
  "take_groups slots team [] = []"
| "take_groups slots team (g # gs) =
     (if slots = 0 then []
      else let groupSize = (of_nat (length (Members g)) :: u8) + 1
           in if \<not> (TeamID g = team \<or> TeamID g = TeamAny) \<or> slots < groupSize
              then take_groups slots team gs
              else g # take_groups (slots - groupSize) team gs)"

definition findGroupsForGivenSlots ::
  "(QueuedGroup list \<Rightarrow> QueuedGroup list) \<Rightarrow> u8 \<Rightarrow> PVPTeam \<Rightarrow> pvp_queue \<Rightarrow> QueuedGroup list" where
  "findGroupsForGivenSlots order slots team q = take_groups slots team (order (map snd (queuedGroups q)))"

section \<open>Balanced teams\<close>

text \<open>The variables the backtracking closure updates.\<close>

record best_state =
  best :: "QueuedGroup list"
  bestTotal :: int
  bestDiff :: int

fun backtrack ::
  "int \<Rightarrow> int \<Rightarrow> QueuedGroup list \<Rightarrow> QueuedGroup list \<Rightarrow> int \<Rightarrow> int \<Rightarrow> best_state \<Rightarrow> best_state" where
  "backtrack minPlayers maxPlayers [] current currentTotal currentDiff s =
     (if minPlayers \<le> currentTotal \<and> currentTotal \<le> maxPlayers \<and>
         (bestTotal s < currentTotal \<or> currentTotal = bestTotal s \<and> currentDiff < bestDiff s)
      then \<lparr>best = current, bestTotal = currentTotal, bestDiff = currentDiff\<rparr> else s)"
| "backtrack minPlayers maxPlayers (g # gs) current currentTotal currentDiff s =
     (let maxPossiblePlayers = currentTotal + int (length (Members g)) + 1;
          s1 = (if \<bar>maxPossiblePlayers - maxPlayers\<bar> \<le> bestDiff s
                then backtrack minPlayers maxPlayers gs (current @ [g]) maxPossiblePlayers
                       \<bar>maxPossiblePlayers - maxPlayers\<bar> s
                else s)
      in backtrack minPlayers maxPlayers gs current currentTotal currentDiff s1)"

definition findBestGroups :: "QueuedGroup list \<Rightarrow> int \<Rightarrow> int \<Rightarrow> QueuedGroup list" where
  "findBestGroups groups minPlayers maxPlayers =
     best (backtrack minPlayers maxPlayers groups [] 0 maxPlayers
             \<lparr>best = [], bestTotal = 0, bestDiff = maxPlayers\<rparr>)"

definition totalMembers :: "QueuedGroup list \<Rightarrow> int" where
  "totalMembers groups = (\<Sum>g\<leftarrow>groups. int (length (Members g)) + 1)"

definition by_size :: "QueuedGroup list \<Rightarrow> QueuedGroup list" where
  "by_size gs = sort_key (\<lambda>g. - int (length (Members g))) gs"

definition balancedGroups ::
  "(QueuedGroup list \<Rightarrow> QueuedGroup list) \<Rightarrow> int \<Rightarrow> int \<Rightarrow> pvp_queue \<Rightarrow> QueuedGroup list \<times> QueuedGroup list" where
  "balancedGroups order minPlayers maxPlayers q =
     (let groups = order (map snd (queuedGroups q));
          allianceGroups = by_size (filter (\<lambda>g. TeamID g \<noteq> TeamHorde) groups);
          hordeGroups0 = by_size (filter (\<lambda>g. TeamID g \<noteq> TeamAlliance) groups);
          bestAlliance = findBestGroups allianceGroups minPlayers maxPlayers;
          hordeGroups = foldl (\<lambda>hs g. remove_first (\<lambda>h. LeaderGUID h = LeaderGUID g) hs) hordeGroups0 bestAlliance;
          bestHorde = findBestGroups hordeGroups minPlayers maxPlayers;
          totalBestHorde = totalMembers bestHorde;
          totalBestAlliance = totalMembers bestAlliance
      in if 1 < \<bar>totalBestHorde - totalBestAlliance\<bar>
         then if totalBestAlliance < totalBestHorde
              then (bestAlliance, findBestGroups hordeGroups minPlayers (totalBestAlliance + 1))
              else (findBestGroups allianceGroups minPlayers (totalBestHorde + 1), bestHorde)
         else (bestAlliance, bestHorde))"

section \<open>Processing\<close>

text \<open>
  The operations of the service the queue calls; a \<open>False\<close> is an error, and no template is the nil
  pointer the service would dereference. Creating a battleground may change the queue: a random
  queue draws its next battleground type then.
\<close>

record 'w bg_ops =
  op_need :: "pvp_queue \<Rightarrow> 'w \<Rightarrow> Battleground list option"
  op_invite :: "QueuedGroup list \<Rightarrow> PVPTeam \<Rightarrow> Battleground \<Rightarrow> 'w \<Rightarrow> 'w \<times> Battleground \<times> bool"
  op_template :: "pvp_queue \<Rightarrow> 'w \<Rightarrow> BattlegroundTemplate option"
  op_create :: "BattlegroundTemplate \<Rightarrow> pvp_queue \<Rightarrow> QueuedGroup list \<Rightarrow> QueuedGroup list \<Rightarrow> 'w \<Rightarrow> 'w \<times> pvp_queue \<times> bool"

definition inviteGroupsToBG ::
  "'w bg_ops \<Rightarrow> QueuedGroup list \<Rightarrow> PVPTeam \<Rightarrow> pvp_queue \<times> 'w \<times> Battleground \<Rightarrow> pvp_queue \<times> 'w \<times> Battleground" where
  "inviteGroupsToBG ops groups team s =
     (case s of (q, w, b) \<Rightarrow>
        (case op_invite ops groups team b w of
           (w', b', ok) \<Rightarrow> (if ok then foldl (\<lambda>q g. removeGroupFromQueue g q) q groups else q, w', b')))"

definition refill_team ::
  "(QueuedGroup list \<Rightarrow> QueuedGroup list) \<Rightarrow> 'w bg_ops \<Rightarrow> PVPTeam \<Rightarrow> pvp_queue \<times> 'w \<times> Battleground \<Rightarrow>
   pvp_queue \<times> 'w \<times> Battleground" where
  "refill_team order ops team s =
     (case s of (q, w, b) \<Rightarrow>
        (let freeSlots = BackfillSlotsForTeam b team in
         if 0 < freeSlots
         then let groupsToInvite = findGroupsForGivenSlots order freeSlots team q
              in if groupsToInvite \<noteq> [] then inviteGroupsToBG ops groupsToInvite team (q, w, b) else (q, w, b)
         else (q, w, b)))"

definition refill ::
  "(QueuedGroup list \<Rightarrow> QueuedGroup list) \<Rightarrow> 'w bg_ops \<Rightarrow> pvp_queue \<times> 'w \<Rightarrow> Battleground \<Rightarrow> pvp_queue \<times> 'w" where
  "refill order ops s b =
     (case refill_team order ops TeamHorde (refill_team order ops TeamAlliance (fst s, snd s, b)) of
        (q, w, b') \<Rightarrow> (q, w))"

definition process ::
  "(QueuedGroup list \<Rightarrow> QueuedGroup list) \<Rightarrow> 'w bg_ops \<Rightarrow> pvp_queue \<Rightarrow> 'w \<Rightarrow> pvp_queue \<times> 'w \<times> queue_error option" where
  "process order ops q w =
     (case op_need ops q w of
        None \<Rightarrow> (q, w, Some ServiceErr)
      | Some bgs \<Rightarrow>
          (case foldl (refill order ops) (q, w) bgs of
             (q1, w1) \<Rightarrow>
               (case op_template ops q1 w1 of
                  None \<Rightarrow> (q1, w1, Some NilTemplate)
                | Some template \<Rightarrow>
                    (let (allianceGroup, hordeGroup) =
                           balancedGroups order (int (unat (tMinPlayersPerTeam template)))
                             (int (unat (tMaxPlayersPerTeam template))) q1
                     in if allianceGroup = [] \<or> hordeGroup = [] then (q1, w1, None)
                        else case op_create ops template q1 allianceGroup hordeGroup w1 of
                          (w2, q2, ok) \<Rightarrow>
                            if ok
                            then (foldl (\<lambda>q g. removeGroupFromQueue g q)
                                    (foldl (\<lambda>q g. removeGroupFromQueue g q) q2 hordeGroup) allianceGroup, w2, None)
                            else (q2, w2, Some CreateErr)))))"

definition AddQueuedGroup ::
  "(QueuedGroup list \<Rightarrow> QueuedGroup list) \<Rightarrow> 'w bg_ops \<Rightarrow> QueuedGroup \<Rightarrow> pvp_queue \<Rightarrow> 'w \<Rightarrow>
   pvp_queue \<times> 'w \<times> queue_error option" where
  "AddQueuedGroup order ops g q w = process order ops (enqueue g q) w"

definition random_AddQueuedGroup ::
  "(QueuedGroup list \<Rightarrow> QueuedGroup list) \<Rightarrow> 'w bg_ops \<Rightarrow> QueuedGroup \<Rightarrow> pvp_queue \<Rightarrow> 'w \<Rightarrow>
   pvp_queue \<times> 'w \<times> queue_error option" where
  "random_AddQueuedGroup order ops g q w = AddQueuedGroup order ops (g\<lparr>IsRandomQueue := True\<rparr>) q w"

section \<open>Groups for free slots\<close>

lemma unat_group_size: "group_size g \<le> 255 \<Longrightarrow> unat (of_nat (length (Members g)) + 1 :: u8) = group_size g"
  by (simp add: unat_of_nat unat_word_ariths)

lemma take_groups_subseq: "subseq (take_groups slots team gs) gs"
proof (induction gs arbitrary: slots)
  case (Cons g gs)
  then show ?case by (auto simp: Let_def)
qed simp

lemma take_groups_team: "g \<in> set (take_groups slots team gs) \<Longrightarrow> TeamID g = team \<or> TeamID g = TeamAny"
  by (induction gs arbitrary: slots) (auto simp: Let_def split: if_splits)

lemma take_groups_fit:
  assumes "\<forall>g\<in>set gs. group_size g \<le> 255"
  shows "(\<Sum>g\<leftarrow>take_groups slots team gs. group_size g) \<le> unat slots"
  using assms
proof (induction gs arbitrary: slots)
  case (Cons g gs)
  let ?n = "of_nat (length (Members g)) + 1 :: u8"
  have n: "unat ?n = group_size g" using Cons.prems by (intro unat_group_size) simp
  show ?case
  proof (cases "slots = 0 \<or> \<not> (TeamID g = team \<or> TeamID g = TeamAny) \<or> slots < ?n")
    case True
    then show ?thesis using Cons by (auto simp: Let_def)
  next
    case False
    then have "?n \<le> slots" using not_less by blast
    then have "unat (slots - ?n) + group_size g = unat slots"
      using n by (simp add: unat_sub_le word_le_unat)
    moreover have "(\<Sum>g\<leftarrow>take_groups (slots - ?n) team gs. group_size g) \<le> unat (slots - ?n)"
      using Cons by simp
    moreover have "take_groups slots team (g # gs) = g # take_groups (slots - ?n) team gs"
      using False by (simp add: Let_def)
    ultimately show ?thesis by (simp del: take_groups.simps)
  qed
qed simp

lemma mset_subseq: "subseq xs ys \<Longrightarrow> mset xs \<subseteq># mset ys"
  by (induction rule: list_emb.induct) (auto simp: subseteq_mset_def le_SucI)

lemma groups_within_slots:
  assumes "\<And>xs. mset (order xs) = mset xs" "\<forall>g\<in>snd ` set (queuedGroups q). group_size g \<le> 255"
  shows "(\<Sum>g\<leftarrow>findGroupsForGivenSlots order slots team q. group_size g) \<le> unat slots"
proof -
  have "set (order (map snd (queuedGroups q))) = snd ` set (queuedGroups q)"
    using assms(1) by (metis list.set_map mset_eq_setD)
  with assms(2) show ?thesis unfolding findGroupsForGivenSlots_def by (intro take_groups_fit) blast
qed

text \<open>
  C36: Refilling respects the slots. The groups found for free slots of a team are queued groups that
  may play for the team, each at most once, and together they have no more players than slots, in
  whatever order the queue is visited, for groups of at most 255 players.
\<close>

theorem findGroupsForGivenSlots_fit:
  assumes "\<And>xs. mset (order xs) = mset xs" "\<forall>g\<in>snd ` set (queuedGroups q). group_size g \<le> 255"
    and "gs = findGroupsForGivenSlots order slots team q"
  shows "(\<Sum>g\<leftarrow>gs. group_size g) \<le> unat slots \<and> mset gs \<subseteq># mset (map snd (queuedGroups q)) \<and>
    (\<forall>g\<in>set gs. TeamID g = team \<or> TeamID g = TeamAny)"
proof -
  have "mset gs \<subseteq># mset (order (map snd (queuedGroups q)))"
    unfolding assms(3) findGroupsForGivenSlots_def by (rule mset_subseq [OF take_groups_subseq])
  then show ?thesis
    using assms(1) groups_within_slots [OF assms(1,2)] take_groups_team assms(3) by (auto simp: findGroupsForGivenSlots_def)
qed

definition ex_queue :: "QueuedGroup list \<Rightarrow> pvp_queue" where
  "ex_queue gs = foldl (\<lambda>q g. enqueue g q) (NewGenericBattlegroundQueue ex_template 1 0 8) gs"

theorem findGroupsForGivenSlots_fit_witness:
  "(\<Sum>g\<leftarrow>findGroupsForGivenSlots rev 2 TeamHorde (ex_queue [ex_group 1 [2, 3] TeamHorde, ex_group 4 [5] TeamAny]). group_size g) \<le> 2"
  using findGroupsForGivenSlots_fit [of rev "ex_queue [ex_group 1 [2, 3] TeamHorde, ex_group 4 [5] TeamAny]"
      "findGroupsForGivenSlots rev 2 TeamHorde (ex_queue [ex_group 1 [2, 3] TeamHorde, ex_group 4 [5] TeamAny])" 2 TeamHorde]
  by (simp add: ex_queue_def enqueue_def NewGenericBattlegroundQueue_def ex_group_def)

section \<open>The backtracking search\<close>

definition sound :: "int \<Rightarrow> int \<Rightarrow> QueuedGroup list \<Rightarrow> QueuedGroup list \<Rightarrow> bool" where
  "sound lo hi pool b \<longleftrightarrow> b = [] \<or> subseq b pool \<and> lo \<le> totalMembers b \<and> totalMembers b \<le> hi"

lemma totalMembers_snoc [simp]: "totalMembers (gs @ [g]) = totalMembers gs + int (length (Members g)) + 1"
  by (simp add: totalMembers_def)

lemma totalMembers_Nil [simp]: "totalMembers [] = 0"
  by (simp add: totalMembers_def)

lemma backtrack_sound:
  assumes "subseq current pre" "currentTotal = totalMembers current" "sound lo hi (pre @ gs) (best s)"
  shows "sound lo hi (pre @ gs) (best (backtrack lo hi gs current currentTotal currentDiff s))"
  using assms
proof (induction gs arbitrary: pre current currentTotal currentDiff s)
  case Nil
  then show ?case by (simp add: sound_def)
next
  case (Cons g gs)
  let ?m = "currentTotal + int (length (Members g)) + 1"
  let ?s1 = "if \<bar>?m - hi\<bar> \<le> bestDiff s then backtrack lo hi gs (current @ [g]) ?m \<bar>?m - hi\<bar> s else s"
  have "subseq (current @ [g]) (pre @ [g])" using Cons.prems(1) by simp
  moreover have "subseq current (pre @ [g])" using Cons.prems(1) by (rule subseq_rev_drop_many)
  ultimately have "sound lo hi ((pre @ [g]) @ gs) (best ?s1)"
    using Cons.IH [of "current @ [g]" "pre @ [g]" ?m s] Cons.prems by simp
  from Cons.IH [OF \<open>subseq current (pre @ [g])\<close> Cons.prems(2) this] show ?case by (simp add: Let_def)
qed

lemma findBestGroups_sound:
  "findBestGroups groups lo hi = [] \<or>
     subseq (findBestGroups groups lo hi) groups \<and> lo \<le> totalMembers (findBestGroups groups lo hi) \<and>
     totalMembers (findBestGroups groups lo hi) \<le> hi"
  using backtrack_sound [of "[]" "[]" 0 lo hi groups]
  by (simp add: findBestGroups_def sound_def)

lemma set_by_size [simp]: "set (by_size gs) = set gs"
  by (simp add: by_size_def)

lemma set_findBestGroups: "set (findBestGroups groups lo hi) \<subseteq> set groups"
  using findBestGroups_sound [of groups lo hi] list_emb_set [of "(=)" "findBestGroups groups lo hi" groups]
  by auto

lemma set_removed: "set (foldl (\<lambda>hs g. remove_first (p g) hs) hs gs) \<subseteq> set hs"
proof (induction gs arbitrary: hs)
  case (Cons g gs)
  then show ?case using set_remove_first_subset [of "p g" hs] by auto
qed simp

lemma totalMembers_nonneg: "0 \<le> totalMembers gs"
  unfolding totalMembers_def by (induction gs) auto

definition alliance_pool :: "(QueuedGroup list \<Rightarrow> QueuedGroup list) \<Rightarrow> pvp_queue \<Rightarrow> QueuedGroup list" where
  "alliance_pool order q = by_size (filter (\<lambda>g. TeamID g \<noteq> TeamHorde) (order (map snd (queuedGroups q))))"

definition horde_pool :: "(QueuedGroup list \<Rightarrow> QueuedGroup list) \<Rightarrow> QueuedGroup list \<Rightarrow> pvp_queue \<Rightarrow> QueuedGroup list" where
  "horde_pool order taken q = foldl (\<lambda>hs g. remove_first (\<lambda>h. LeaderGUID h = LeaderGUID g) hs)
     (by_size (filter (\<lambda>g. TeamID g \<noteq> TeamAlliance) (order (map snd (queuedGroups q))))) taken"

lemma balancedGroups_cases:
  assumes a: "a = findBestGroups (alliance_pool order q) lo hi"
    and pool: "pool = horde_pool order a q" and h: "h = findBestGroups pool lo hi"
    and AH: "balancedGroups order lo hi q = (A, H)"
  obtains "A = a" "H = h"
  | "A = a" "H = findBestGroups pool lo (totalMembers a + 1)" "totalMembers a + 1 < totalMembers h"
  | "A = findBestGroups (alliance_pool order q) lo (totalMembers h + 1)" "H = h"
    "totalMembers h + 1 < totalMembers a"
proof -
  have "(A, H) = (if 1 < \<bar>totalMembers h - totalMembers a\<bar>
         then if totalMembers a < totalMembers h
              then (a, findBestGroups pool lo (totalMembers a + 1))
              else (findBestGroups (alliance_pool order q) lo (totalMembers h + 1), h)
         else (a, h))"
    using AH [symmetric] unfolding balancedGroups_def Let_def h pool a horde_pool_def alliance_pool_def .
  then show ?thesis using that by (auto split: if_splits)
qed

lemma balancedGroups_bounds:
  assumes "balancedGroups order lo hi q = (A, H)" "A \<noteq> []" "H \<noteq> []"
  shows "lo \<le> totalMembers A \<and> totalMembers A \<le> hi \<and> lo \<le> totalMembers H \<and> totalMembers H \<le> hi"
proof -
  define a where "a = findBestGroups (alliance_pool order q) lo hi"
  define pool where "pool = horde_pool order a q"
  define h where "h = findBestGroups pool lo hi"
  have sa: "a = [] \<or> lo \<le> totalMembers a \<and> totalMembers a \<le> hi"
    and sh: "h = [] \<or> lo \<le> totalMembers h \<and> totalMembers h \<le> hi"
    using findBestGroups_sound by (auto simp: a_def h_def)
  show ?thesis
  proof (cases rule: balancedGroups_cases [OF a_def pool_def h_def assms(1)])
    case 1
    then show ?thesis using sa sh assms(2,3) by simp
  next
    case 2
    moreover have "h \<noteq> []" using 2(3) totalMembers_nonneg [of a] by auto
    ultimately show ?thesis
      using sa sh findBestGroups_sound [of pool lo "totalMembers a + 1"] assms(2,3) by auto
  next
    case 3
    moreover have "a \<noteq> []" using 3(3) totalMembers_nonneg [of h] by auto
    ultimately show ?thesis
      using sa sh findBestGroups_sound [of "alliance_pool order q" lo "totalMembers h + 1"] assms(2,3) by auto
  qed
qed

lemma balancedGroups_teams:
  assumes "\<And>xs. mset (order xs) = mset xs" "balancedGroups order lo hi q = (A, H)"
  shows "set A \<subseteq> {g \<in> snd ` set (queuedGroups q). TeamID g \<noteq> TeamHorde} \<and>
    set H \<subseteq> {g \<in> snd ` set (queuedGroups q). TeamID g \<noteq> TeamAlliance}"
proof -
  have groups: "set (order (map snd (queuedGroups q))) = snd ` set (queuedGroups q)"
    by (metis assms(1) list.set_map mset_eq_setD)
  have a: "set (findBestGroups (alliance_pool order q) lo n) \<subseteq> {g \<in> snd ` set (queuedGroups q). TeamID g \<noteq> TeamHorde}" for n
    using set_findBestGroups [of "alliance_pool order q" lo n] groups by (auto simp: alliance_pool_def)
  have "set (horde_pool order taken q) \<subseteq> {g \<in> snd ` set (queuedGroups q). TeamID g \<noteq> TeamAlliance}" for taken
    unfolding horde_pool_def
    by (rule order_trans [OF set_removed]) (use groups in auto)
  then have h: "set (findBestGroups (horde_pool order taken q) lo n)
      \<subseteq> {g \<in> snd ` set (queuedGroups q). TeamID g \<noteq> TeamAlliance}" for taken n
    using set_findBestGroups by (meson order_trans)
  show ?thesis
    by (cases rule: balancedGroups_cases [OF refl refl refl assms(2)]) (use a h in simp_all)
qed

text \<open>
  A new match has full, legal teams. When the search finds two teams, each has between the
  minimum and the maximum number of players, consists of queued groups that may play on its side,
  and no group that has chosen a side is on both.
\<close>

lemma balancedGroups_legal:
  assumes "\<And>xs. mset (order xs) = mset xs" "balancedGroups order minPlayers maxPlayers q = (A, H)"
    and "A \<noteq> []" "H \<noteq> []"
  shows "totalMembers A \<in> {minPlayers..maxPlayers} \<and> totalMembers H \<in> {minPlayers..maxPlayers} \<and>
    set A \<union> set H \<subseteq> snd ` set (queuedGroups q) \<and>
    (\<forall>g\<in>set A. TeamID g \<noteq> TeamHorde) \<and> (\<forall>g\<in>set H. TeamID g \<noteq> TeamAlliance) \<and>
    (\<forall>g\<in>set A \<inter> set H. TeamID g = TeamAny)"
  using balancedGroups_bounds [OF assms(2-4)] balancedGroups_teams [OF assms(1,2)]
  by (auto intro: PVPTeam.exhaust)

theorem balancedGroups_legal_witness:
  "totalMembers (fst (balancedGroups (\<lambda>xs. xs) 2 3 (ex_queue [ex_group 1 [2] TeamAlliance, ex_group 3 [4, 5] TeamHorde]))) \<in> {2..3}"
proof -
  let ?q = "ex_queue [ex_group 1 [2] TeamAlliance, ex_group 3 [4, 5] TeamHorde]"
  have "balancedGroups (\<lambda>xs. xs) 2 3 ?q = ([ex_group 1 [2] TeamAlliance], [ex_group 3 [4, 5] TeamHorde])"
    by (simp add: balancedGroups_def ex_queue_def enqueue_def NewGenericBattlegroundQueue_def by_size_def
        findBestGroups_def totalMembers_def ex_group_def ex_player_def Let_def)
  from balancedGroups_legal [OF _ this] this show ?thesis by simp
qed

text \<open>
  A group can be put on both teams. The alliance team is chosen again from all groups when the
  horde is too small, without leaving out the groups the horde has taken: a lone player without a
  side, beside a party of four, is matched against himself.
\<close>

lemma balancedGroups_same_group_twice:
  "balancedGroups (\<lambda>xs. xs) 1 4 (ex_queue [ex_group 1 [2, 3, 4] TeamAlliance, ex_group 5 [] TeamAny]) =
     ([ex_group 5 [] TeamAny], [ex_group 5 [] TeamAny])"
  by (simp add: balancedGroups_def ex_queue_def enqueue_def NewGenericBattlegroundQueue_def by_size_def
      findBestGroups_def totalMembers_def ex_group_def ex_player_def Let_def)

text \<open>
  The search is not exhaustive. With at most six players, groups of four, three and three give
  a team of four, although the two groups of three would fill it: the pruning compares unfinished
  teams with the finished one.
\<close>

lemma findBestGroups_misses_full_team:
  "totalMembers (findBestGroups [ex_group 1 [2, 3, 4] TeamAny, ex_group 5 [6, 7] TeamAny, ex_group 8 [9, 10] TeamAny] 1 6) = 4 \<and>
   totalMembers [ex_group 5 [6, 7] TeamAny, ex_group 8 [9, 10] TeamAny] = 6"
  by (simp add: findBestGroups_def totalMembers_def ex_group_def Let_def)

section \<open>The index of players\<close>

lemma map_of_update_group: "map_of (AList.update k v al) = (map_of al)(k \<mapsto> v)"
  by (rule update_conv')

text \<open>
  C37: A queued player is found. After a group is queued, each of its players looks up that group, and
  removing the group by any of its players takes it out of the queue and makes every member but the
  leader unknown. The entry of the leader stays, so a later lookup of the leader finds a group with
  no leader and no realm.
\<close>

theorem queue_add_lookup_remove:
  assumes "p \<in> set (group_players g)" "LeaderGUID g \<notin> set (Members g)" "q1 = enqueue g q"
    and "RemoveQueuedGroup p q1 = (q2, err)"
  shows "QueuedGroupByPlayer p q1 = Some g \<and> err = None \<and>
    map_of (queuedGroups q2) = (map_of (queuedGroups q))(LeaderGUID g := None) \<and>
    (\<forall>m\<in>set (Members g). QueuedGroupByPlayer m q2 = None) \<and>
    QueuedGroupByPlayer (LeaderGUID g) q2 = Some zero_group"
proof -
  have idx: "playersGroupLeaderByPlayer q1 p = Some (LeaderGUID g)"
    using assms(1,3) by (auto simp: enqueue_def)
  have grp: "queued_group (LeaderGUID g) q1 = g"
    by (simp add: queued_group_def assms(3) enqueue_def map_of_update_group)
  have q2: "q2 = q1\<lparr>playersGroupLeaderByPlayer := delete_all (playersGroupLeaderByPlayer q1) (Members g),
      queuedGroups := AList.delete (LeaderGUID g) (queuedGroups q1)\<rparr>" "err = None"
    using assms(4) by (auto simp: RemoveQueuedGroup_def idx grp)
  have m: "map_of (queuedGroups q2) = (map_of (queuedGroups q))(LeaderGUID g := None)"
    by (simp add: q2 assms(3) enqueue_def delete_conv' map_of_update_group)
  moreover have "QueuedGroupByPlayer (LeaderGUID g) q2 = Some zero_group"
    using assms(2) m by (simp add: QueuedGroupByPlayer_def queued_group_def q2 assms(3) enqueue_def)
  ultimately show ?thesis
    using idx grp q2 by (simp add: QueuedGroupByPlayer_def)
qed

theorem queue_add_lookup_remove_witness:
  "QueuedGroupByPlayer (ex_player 1) (fst (RemoveQueuedGroup (ex_player 2)
     (enqueue (ex_group 1 [2] TeamHorde) (ex_queue [])))) = Some zero_group"
  using queue_add_lookup_remove [of "ex_player 2" "ex_group 1 [2] TeamHorde" _ "ex_queue []", OF _ _ refl prod.collapse [symmetric]]
  by (simp add: ex_group_def ex_player_def)

section \<open>The contract with the service\<close>

text \<open>
  \<open>Inv\<close> is what the service keeps and \<open>okb\<close> what it promises of the battlegrounds it hands to the
  queue. In return the queue invites only groups that fit the backfill slots, and creates only
  battlegrounds whose teams do not exceed the template's maximum.
\<close>

definition small_groups :: "pvp_queue \<Rightarrow> bool" where
  "small_groups q \<longleftrightarrow> (\<forall>g\<in>snd ` set (queuedGroups q). group_size g \<le> 255)"

lemma small_removed_all:
  "small_groups q \<Longrightarrow> small_groups (foldl (\<lambda>q g. removeGroupFromQueue g q) q xs)"
proof (induction xs arbitrary: q)
  case (Cons x xs)
  have "small_groups (removeGroupFromQueue x q)"
    using Cons.prems by (auto simp: small_groups_def removeGroupFromQueue_def AList.delete_eq)
  with Cons.IH show ?case by simp
qed simp


locale battleground_service =
  fixes order :: "QueuedGroup list \<Rightarrow> QueuedGroup list" and ops :: "'w bg_ops"
    and Inv :: "'w \<Rightarrow> bool" and okb :: "Battleground \<Rightarrow> bool"
  assumes order: "mset (order xs) = mset xs"
    and need: "Inv w \<Longrightarrow> op_need ops q w = Some bgs \<Longrightarrow> b \<in> set bgs \<Longrightarrow> okb b"
    and invite: "Inv w \<Longrightarrow> okb b \<Longrightarrow> team \<noteq> TeamAny \<Longrightarrow>
      (\<Sum>g\<leftarrow>groups. group_size g) \<le> unat (BackfillSlotsForTeam b team) \<Longrightarrow>
      op_invite ops groups team b w = (w', b', ok) \<Longrightarrow> Inv w' \<and> okb b'"
    and create: "Inv w \<Longrightarrow> totalMembers A \<le> int (unat (tMaxPlayersPerTeam t)) \<Longrightarrow>
      totalMembers H \<le> int (unat (tMaxPlayersPerTeam t)) \<Longrightarrow>
      op_create ops t q A H w = (w', q', ok) \<Longrightarrow> Inv w' \<and> queuedGroups q' = queuedGroups q"
begin

lemma refill_team_inv:
  assumes "Inv w" "okb b" "small_groups q" "team \<noteq> TeamAny"
    and "refill_team order ops team (q, w, b) = (q', w', b')"
  shows "Inv w' \<and> okb b' \<and> small_groups q'"
proof -
  let ?s = "BackfillSlotsForTeam b team"
  define gs where "gs = findGroupsForGivenSlots order ?s team q"
  show ?thesis
  proof (cases "0 < ?s \<and> gs \<noteq> []")
    case True
    obtain w1 b1 ok where i: "op_invite ops gs team b w = (w1, b1, ok)" by (rule prod_cases3)
    have "(\<Sum>g\<leftarrow>gs. group_size g) \<le> unat ?s"
      unfolding gs_def by (rule groups_within_slots [OF order assms(3) [unfolded small_groups_def]])
    from invite [OF assms(1,2,4) this i] have "Inv w1" "okb b1" by auto
    moreover have "w' = w1" "b' = b1"
        "q' = (if ok then foldl (\<lambda>q g. removeGroupFromQueue g q) q gs else q)"
      using assms(5) True i by (auto simp: refill_team_def inviteGroupsToBG_def Let_def gs_def [symmetric])
    ultimately show ?thesis using assms(3) small_removed_all by simp
  next
    case False
    then have "q' = q" "w' = w" "b' = b"
      using assms(5) by (auto simp: refill_team_def Let_def gs_def [symmetric] split: if_splits)
    then show ?thesis using assms(1-3) by simp
  qed
qed

lemma refill_inv:
  assumes "Inv w" "okb b" "small_groups q"
    and "refill order ops (q, w) b = (q', w')"
  shows "Inv w' \<and> small_groups q'"
proof -
  obtain q1 w1 b1 where a: "refill_team order ops TeamAlliance (q, w, b) = (q1, w1, b1)" by (rule prod_cases3)
  obtain q2 w2 b2 where h: "refill_team order ops TeamHorde (q1, w1, b1) = (q2, w2, b2)" by (rule prod_cases3)
  have "q' = q2" "w' = w2" using assms(4) by (auto simp: refill_def a h)
  with refill_team_inv [OF assms(1-3) _ a] refill_team_inv [OF _ _ _ _ h] show ?thesis by simp
qed

lemma refills_inv:
  assumes "Inv w" "\<forall>b\<in>set bgs. okb b" "small_groups q"
    and "foldl (refill order ops) (q, w) bgs = (q', w')"
  shows "Inv w' \<and> small_groups q'"
  using assms
proof (induction bgs arbitrary: q w)
  case (Cons b bgs)
  obtain q1 w1 where r: "refill order ops (q, w) b = (q1, w1)" by force
  from refill_inv [OF Cons.prems(1) _ Cons.prems(3) r] Cons.prems(2)
  have "Inv w1" "small_groups q1" by auto
  with Cons r show ?case by simp
qed simp

lemma process_inv:
  assumes "Inv w" "small_groups q" "process order ops q w = (q', w', e)"
  shows "Inv w' \<and> small_groups q'"
proof (cases "op_need ops q w")
  case None
  then show ?thesis using assms by (simp add: process_def)
next
  case (Some bgs)
  obtain q1 w1 where r: "foldl (refill order ops) (q, w) bgs = (q1, w1)" by force
  have inv: "Inv w1" "small_groups q1"
    using refills_inv [OF assms(1) _ assms(2) r] need [OF assms(1) Some] by auto
  show ?thesis
  proof (cases "op_template ops q1 w1")
    case None
    then show ?thesis using assms(3) inv by (simp add: process_def Some r)
  next
    case (Some t)
    obtain A H where b: "balancedGroups order (int (unat (tMinPlayersPerTeam t))) (int (unat (tMaxPlayersPerTeam t))) q1 = (A, H)"
      by force
    obtain w2 q2 ok where c: "op_create ops t q1 A H w1 = (w2, q2, ok)" by (rule prod_cases3)
    have p: "process order ops q w = (if A = [] \<or> H = [] then (q1, w1, None)
        else if ok then (foldl (\<lambda>q g. removeGroupFromQueue g q) (foldl (\<lambda>q g. removeGroupFromQueue g q) q2 H) A, w2, None)
        else (q2, w2, Some CreateErr))"
      by (simp only: process_def \<open>op_need ops q w = Some bgs\<close> option.case r prod.case Let_def Some b c)
    show ?thesis
    proof (cases "A = [] \<or> H = []")
      case True
      then show ?thesis using p assms(3) inv by simp
    next
      case False
      with balancedGroups_bounds [OF b] have "Inv w2 \<and> queuedGroups q2 = queuedGroups q1"
        by (intro create [OF inv(1) _ _ c]) auto
      moreover from this inv(2) have "small_groups q2" by (simp add: small_groups_def)
      ultimately show ?thesis
        using p assms(3) False small_removed_all by (auto split: if_splits)
    qed
  qed
qed

end

lemma small_enqueue:
  assumes "small_groups q" "group_size g \<le> 255"
  shows "small_groups (enqueue g q)"
proof -
  have "snd ` set (AList.update k v al) \<subseteq> insert v (snd ` set al)" for k :: PlayerUnwrapped and v :: QueuedGroup and al
    by (induction al) auto
  with assms show ?thesis by (fastforce simp: small_groups_def enqueue_def)
qed

end
