(* ===== verification/Battleground_Service.thy ===== *)
theory Battleground_Service
  imports Battleground_Queue Go_Strings
begin

text \<open>
  The battleground service, \<^verbatim>\<open>apps/matchmakingserver/service/battleground_service.go\<close>, with the
  tracker of cross-realm nodes and the battlegroups of \<^verbatim>\<open>repo/battlegroups_inmem.go\<close>. The service
  owns the queues, the repository of battlegrounds and, per player, the links to the queue or the
  battleground he is in. Queues are referred to by their place in the nested map.

  Handlers run one after the other here. \<open>bg_env\<close> holds what a call meets outside: the orders in which
  Go visits maps, the clock, which events cannot be produced, the answers of the servers registry
  and of the game server, and the random choice of a template.
\<close>

section \<open>State\<close>

record queue_ref =
  refBattlegroup :: u32
  refRealm :: u32
  refType :: u8
  refBracket :: u8

record BattlegroundKey =
  kRealmID :: u32
  kInstanceID :: u32
  kBattlegroupID :: u32

text \<open>A link to a queue carries the queue type id the queue reports.\<close>

datatype QueueOrBattlegroundLink = QueueLink queue_ref u8 | BattlegroundLink BattlegroundKey

datatype mm_event =
    InvitedToBG invited_event
  | JoinedQueue u32 "u32 list" "u32 \<rightharpoonup> u8" u8 u8 u8
  | InviteExpired u32 u32

record bg_service =
  bgTemplates :: "u8 \<rightharpoonup> BattlegroundTemplate"
  queues :: "u32 \<times> u32 \<rightharpoonup> (u8 \<rightharpoonup> (u8 \<rightharpoonup> pvp_queue))"
  playersQueueOrBattleground :: "PlayerUnwrapped \<Rightarrow> QueueOrBattlegroundLink list"
  battlegrounds :: bg_repo
  battleGroupIDByRealmID :: "u32 \<rightharpoonup> u32"
  activeCrossRealmNodes :: "string set"
  mmEvents :: "mm_event list"

record bg_env =
  groupOrder :: "QueuedGroup list \<Rightarrow> QueuedGroup list"
  realmOrder :: "u32 list \<Rightarrow> u32 list"
  bgKeys :: "string list"
  realmsIter :: "u32 list"
  battlegroupsIter :: "u32 list"
  queuesIter :: "u32 \<times> u32 \<Rightarrow> (u8 \<times> u8) list"
  clock :: nat
  inviteFails :: "u32 \<Rightarrow> bool"
  joinedFails :: bool
  gameServers :: "u32 \<Rightarrow> u32 \<Rightarrow> bool \<Rightarrow> string list option"
  connectionFails :: bool
  startBattleground :: "u32 list \<Rightarrow> u32 list \<Rightarrow> u32 option"
  Intn :: "int \<Rightarrow> int"

datatype service_error =
    ErrAlreadyInQueue
  | UnknownQueueKey
  | UnknownQueueType
  | UnknownBracket
  | QueueFailed queue_error
  | EventFailed
  | UpdateFailed string

definition queue_at :: "bg_service \<Rightarrow> queue_ref \<Rightarrow> pvp_queue option" where
  "queue_at s r = Option.bind (queues s (refBattlegroup r, refRealm r)) (\<lambda>m. Option.bind (m (refType r)) (\<lambda>b. b (refBracket r)))"

definition set_queue :: "queue_ref \<Rightarrow> pvp_queue \<Rightarrow> bg_service \<Rightarrow> bg_service" where
  "set_queue r q s =
     (case queues s (refBattlegroup r, refRealm r) of
        None \<Rightarrow> s
      | Some m \<Rightarrow>
          (case m (refType r) of
             None \<Rightarrow> s
           | Some b \<Rightarrow> s\<lparr>queues := (queues s)((refBattlegroup r, refRealm r) \<mapsto> m(refType r \<mapsto> b(refBracket r \<mapsto> q)))\<rparr>))"

definition IsCrossRealmNodeAvailable :: "bg_service \<Rightarrow> bool" where
  "IsCrossRealmNodeAvailable s \<longleftrightarrow> activeCrossRealmNodes s \<noteq> {}"

section \<open>Templates\<close>

fun pick_weighted :: "int \<Rightarrow> int \<Rightarrow> BattlegroundTemplate list \<Rightarrow> BattlegroundTemplate option" where
  "pick_weighted randomWeight currentWeight [] = None"
| "pick_weighted randomWeight currentWeight (t # ts) =
     (let currentWeight' = currentWeight + RandomBattlegroundWeight t
      in if randomWeight \<le> currentWeight' then Some t else pick_weighted randomWeight currentWeight' ts)"

definition selectRandomTemplate :: "(int \<Rightarrow> int) \<Rightarrow> BattlegroundTemplate list \<Rightarrow> BattlegroundTemplate option" where
  "selectRandomTemplate intn templates =
     (let totalWeight = (\<Sum>t\<leftarrow>templates. if 0 < RandomBattlegroundWeight t then RandomBattlegroundWeight t else 0)
      in if totalWeight = 0 then None else pick_weighted (intn totalWeight + 1) 0 templates)"

text \<open>\<open>None\<close> is the panic on a template that is missing.\<close>

definition TemplateForQueueTypeID :: "(int \<Rightarrow> int) \<Rightarrow> u8 \<Rightarrow> bg_service \<Rightarrow> BattlegroundTemplate option" where
  "TemplateForQueueTypeID intn i s =
     (let fallbackBG = bgTemplates s 2 in
      if i \<noteq> 32 then (case bgTemplates s i of Some t \<Rightarrow> Some t | None \<Rightarrow> fallbackBG)
      else let ts = map (bgTemplates s) [1, 3, 7, 2, 30, 9]
           in if None \<in> set ts then None
              else case selectRandomTemplate intn (map the ts) of
                Some t \<Rightarrow> Some t
              | None \<Rightarrow> fallbackBG)"

section \<open>Links\<close>

definition link_player :: "QueueOrBattlegroundLink \<Rightarrow> bg_service \<Rightarrow> PlayerUnwrapped \<Rightarrow> bg_service" where
  "link_player l s p =
     s\<lparr>playersQueueOrBattleground := (playersQueueOrBattleground s)(p := playersQueueOrBattleground s p @ [l])\<rparr>"

text \<open>Links the members in order, then the leader; the slot of a player is the index of his new link.\<close>

fun link_players :: "QueueOrBattlegroundLink \<Rightarrow> PlayerUnwrapped list \<Rightarrow> (PlayerUnwrapped \<Rightarrow> u8) \<Rightarrow> bg_service \<Rightarrow>
    bg_service \<times> (PlayerUnwrapped \<Rightarrow> u8)" where
  "link_players l [] slots s = (s, slots)"
| "link_players l (p # ps) slots s =
     (let s' = link_player l s p
      in link_players l ps (slots(p := of_nat (length (playersQueueOrBattleground s' p) - 1))) s')"

definition addLinkForGroupMembersLocked ::
  "QueueOrBattlegroundLink \<Rightarrow> QueuedGroup \<Rightarrow> bg_service \<Rightarrow> bg_service \<times> QueuedGroup" where
  "addLinkForGroupMembersLocked l g s =
     (case link_players l (group_players g) (\<lambda>_. 0) s of (s', slots) \<Rightarrow> (s', g\<lparr>SlotsPerMember := slots\<rparr>))"

definition addQueueForGroupMembersIfFree ::
  "queue_ref \<Rightarrow> pvp_queue \<Rightarrow> QueuedGroup \<Rightarrow> bg_service \<Rightarrow> (bg_service \<times> QueuedGroup) option" where
  "addQueueForGroupMembersIfFree r q g s =
     (if 0 < length (playersQueueOrBattleground s (LeaderGUID g)) then None
      else if \<exists>m\<in>set (Members g). 0 < length (playersQueueOrBattleground s m) then None
      else Some (addLinkForGroupMembersLocked (QueueLink r (qQueueTypeID q)) g s))"

definition is_queue_link :: "u8 \<Rightarrow> QueueOrBattlegroundLink \<Rightarrow> bool" where
  "is_queue_link queueTypeID l = (case l of QueueLink r t \<Rightarrow> t = queueTypeID | BattlegroundLink k \<Rightarrow> False)"

definition unlink_player :: "(QueueOrBattlegroundLink \<Rightarrow> bool) \<Rightarrow> bg_service \<Rightarrow> PlayerUnwrapped \<Rightarrow> bg_service" where
  "unlink_player p s player =
     s\<lparr>playersQueueOrBattleground := (playersQueueOrBattleground s)(player :=
        remove_first p (playersQueueOrBattleground s player))\<rparr>"

definition removeQueueForGroupMembers :: "u8 \<Rightarrow> QueuedGroup \<Rightarrow> bg_service \<Rightarrow> bg_service" where
  "removeQueueForGroupMembers queueTypeID g s =
     foldl (unlink_player (is_queue_link queueTypeID)) s (group_players g)"

definition is_bg_link :: "u32 \<Rightarrow> u32 \<Rightarrow> QueueOrBattlegroundLink \<Rightarrow> bool" where
  "is_bg_link instanceID realmID l =
     (case l of QueueLink r t \<Rightarrow> False | BattlegroundLink k \<Rightarrow> kInstanceID k = instanceID \<and> kRealmID k = realmID)"

definition removeBattlegroundLinkForPlayer :: "BattlegroundKey \<Rightarrow> bg_service \<Rightarrow> PlayerUnwrapped \<Rightarrow> bg_service" where
  "removeBattlegroundLinkForPlayer k s player = unlink_player (is_bg_link (kInstanceID k) (kRealmID k)) s player"

definition key_of :: "Battleground \<Rightarrow> BattlegroundKey" where
  "key_of b = \<lparr>kRealmID = bgRealmID b, kInstanceID = InstanceID b, kBattlegroupID = bgBattleGroupID b\<rparr>"

definition addBattlegroundForGroupMembers :: "Battleground \<Rightarrow> QueuedGroup \<Rightarrow> bg_service \<Rightarrow> bg_service" where
  "addBattlegroundForGroupMembers b g s = fst (addLinkForGroupMembersLocked (BattlegroundLink (key_of b)) g s)"

definition move_group :: "u8 \<Rightarrow> Battleground \<Rightarrow> bg_service \<Rightarrow> QueuedGroup \<Rightarrow> bg_service" where
  "move_group queueTypeID b s g = addBattlegroundForGroupMembers b g (removeQueueForGroupMembers queueTypeID g s)"

section \<open>Battlegrounds\<close>

definition BattlegroundsThatNeedPlayers ::
  "bg_env \<Rightarrow> u8 \<Rightarrow> u8 \<Rightarrow> u32 \<Rightarrow> u32 \<Rightarrow> bg_service \<Rightarrow> Battleground list" where
  "BattlegroundsThatNeedPlayers env queueTypeID bracketID battleGroupID realmID s =
     filter (\<lambda>b. 0 < BackfillSlotsForTeam b TeamAlliance \<or> 0 < BackfillSlotsForTeam b TeamHorde)
       (GetActiveBattlegrounds (bgKeys env) queueTypeID bracketID
          \<lparr>keyRealmID = realmID, keyBattlegroupID = battleGroupID\<rparr> (battlegrounds s))"

text \<open>
  \<open>bg\<close> is the caller's copy: it is changed, saved over the stored one and returned. A queue that is
  missing from the map is a nil interface, whose method call panics; it counts as an error here.
\<close>

definition service_InviteGroups ::
  "bg_env \<Rightarrow> QueuedGroup list \<Rightarrow> PVPTeam \<Rightarrow> Battleground \<Rightarrow> bg_service \<Rightarrow> bg_service \<times> Battleground \<times> bool" where
  "service_InviteGroups env groups team b s =
     (case InviteGroups (realmOrder env) (inviteFails env) (clock env) groups team b of
        (b', evs, ok) \<Rightarrow>
          (let s1 = s\<lparr>mmEvents := mmEvents s @ map InvitedToBG evs\<rparr> in
           if \<not> ok then (s1, b', False)
           else let s2 = s1\<lparr>battlegrounds := SaveBattleground b' (battlegrounds s1)\<rparr> in
           case queue_at s2 \<lparr>refBattlegroup = bgBattleGroupID b', refRealm = bgRealmID b', refType = bgQueueTypeID b',
                  refBracket = bgBracketID b'\<rparr> of
             None \<Rightarrow> (s2, b', False)
           | Some q \<Rightarrow> (foldl (move_group (qQueueTypeID q) b') s2 groups, b', True)))"

definition new_battleground ::
  "BattlegroundTemplate \<Rightarrow> u32 \<Rightarrow> string \<Rightarrow> u8 \<Rightarrow> u8 \<Rightarrow> u32 \<Rightarrow> u32 \<Rightarrow> Battleground" where
  "new_battleground template instanceID address queueType bracketID realmID battlegroupID =
     \<lparr>InstanceID = instanceID, bgMapID = tMapID template, GameserverAddress = address,
      BattlegroundTypeID = ucast (tTypeID template), bgQueueTypeID = queueType, bgBracketID = bracketID,
      bgBattleGroupID = battlegroupID, bgRealmID = realmID,
      MinPlayersPerTeam = tMinPlayersPerTeam template, MaxPlayersPerTeam = tMaxPlayersPerTeam template,
      bgStatus = StatusWaitJoin, ActivePlayersPerTeam = (\<lambda>_. []), InvitedPlayersPerTeam = (\<lambda>_. [])\<rparr>"

definition low_guids :: "QueuedGroup list \<Rightarrow> u32 list" where
  "low_guids groups = concat (map (\<lambda>g. map LowGUID (group_players g)) groups)"

definition CreateBattleground ::
  "bg_env \<Rightarrow> BattlegroundTemplate \<Rightarrow> u8 \<Rightarrow> u8 \<Rightarrow> u32 \<Rightarrow> u32 \<Rightarrow> QueuedGroup list \<Rightarrow> QueuedGroup list \<Rightarrow>
   bg_service \<Rightarrow> bg_service \<times> bool" where
  "CreateBattleground env template queueType bracketID realmID0 battlegroupID allianceGroups hordeGroups s =
     (let isCrossRealm = 0 < battlegroupID;
          realmID = (if isCrossRealm then 0 else realmID0)
      in case gameServers env (tMapID template) realmID isCrossRealm of
           None \<Rightarrow> (s, False)
         | Some [] \<Rightarrow> (s, False)
         | Some (address # _) \<Rightarrow>
             if connectionFails env then (s, False)
             else case startBattleground env (low_guids allianceGroups) (low_guids hordeGroups) of
               None \<Rightarrow> (s, False)
             | Some instanceID \<Rightarrow>
                 (let b0 = new_battleground template instanceID address queueType bracketID realmID battlegroupID in
                  case InviteGroups (realmOrder env) (inviteFails env) (clock env) hordeGroups TeamHorde b0 of
                    (b1, evs1, ok1) \<Rightarrow>
                      (let s1 = s\<lparr>mmEvents := mmEvents s @ map InvitedToBG evs1\<rparr> in
                       if \<not> ok1 then (s1, False)
                       else case InviteGroups (realmOrder env) (inviteFails env) (clock env) allianceGroups TeamAlliance b1 of
                         (b2, evs2, ok2) \<Rightarrow>
                           (let s2 = s1\<lparr>mmEvents := mmEvents s1 @ map InvitedToBG evs2\<rparr> in
                            if \<not> ok2 then (s2, False)
                            else let s3 = s2\<lparr>battlegrounds := SaveBattleground b2 (battlegrounds s2)\<rparr> in
                            case queue_at s3 \<lparr>refBattlegroup = battlegroupID, refRealm = realmID, refType = queueType,
                                   refBracket = bracketID\<rparr> of
                              None \<Rightarrow> (s3, False)
                            | Some q \<Rightarrow>
                                (foldl (move_group (qQueueTypeID q) b2)
                                   (foldl (move_group (qQueueTypeID q) b2) s3 hordeGroups) allianceGroups, True)))))"

section \<open>The operations the queues use\<close>

text \<open>A random queue, the one of queue type 32, draws the type of its next battleground first.\<close>

definition queue_create ::
  "bg_env \<Rightarrow> BattlegroundTemplate \<Rightarrow> pvp_queue \<Rightarrow> QueuedGroup list \<Rightarrow> QueuedGroup list \<Rightarrow> bg_service \<Rightarrow>
   bg_service \<times> pvp_queue \<times> bool" where
  "queue_create env template q allianceGroups hordeGroups s =
     (if qQueueTypeID q = 32
      then case TemplateForQueueTypeID (Intn env) 32 s of
             None \<Rightarrow> (s, q, False)
           | Some t \<Rightarrow>
               (case CreateBattleground env template 32 (qBracketID q) (qRealmID q) (qBattleGroupID q)
                       allianceGroups hordeGroups s of
                  (s', ok) \<Rightarrow> (s', q\<lparr>qBattlegroundTypeID := ucast (tTypeID t)\<rparr>, ok))
      else case CreateBattleground env template (qQueueTypeID q) (qBracketID q) (qRealmID q) (qBattleGroupID q)
                  allianceGroups hordeGroups s of
             (s', ok) \<Rightarrow> (s', q, ok))"

definition service_ops :: "bg_env \<Rightarrow> bg_service bg_ops" where
  "service_ops env =
     \<lparr>op_need = (\<lambda>q s. Some (BattlegroundsThatNeedPlayers env (qQueueTypeID q) (qBracketID q) (qBattleGroupID q) (qRealmID q) s)),
      op_invite = service_InviteGroups env,
      op_template = (\<lambda>q s. TemplateForQueueTypeID (Intn env) (qBattlegroundTypeID q) s),
      op_create = queue_create env\<rparr>"

text \<open>Adding a group to the queue at \<open>r\<close>: the queue runs on its own state and the service's.\<close>

definition add_to_queue ::
  "bg_env \<Rightarrow> queue_ref \<Rightarrow> pvp_queue \<Rightarrow> QueuedGroup \<Rightarrow> bg_service \<Rightarrow> bg_service \<times> queue_error option" where
  "add_to_queue env r q g s =
     (case (if refType r = 32 then random_AddQueuedGroup (groupOrder env) (service_ops env) g q s
            else AddQueuedGroup (groupOrder env) (service_ops env) g q s) of
        (q', s', e) \<Rightarrow> (set_queue r q' s', e))"

section \<open>Handlers\<close>

definition queue_ref_for :: "u32 \<Rightarrow> u8 \<Rightarrow> u8 \<Rightarrow> bg_service \<Rightarrow> queue_ref" where
  "queue_ref_for realmID typeID bracketID s =
     (let battleGroupID = (case battleGroupIDByRealmID s realmID of None \<Rightarrow> 0 | Some b \<Rightarrow> b)
      in if battleGroupID \<noteq> 0 \<and> IsCrossRealmNodeAvailable s
         then \<lparr>refBattlegroup = battleGroupID, refRealm = 0, refType = typeID, refBracket = bracketID\<rparr>
         else \<lparr>refBattlegroup = 0, refRealm = realmID, refType = typeID, refBracket = bracketID\<rparr>)"

definition AddGroupToQueue ::
  "bg_env \<Rightarrow> u32 \<Rightarrow> u64 \<Rightarrow> u64 list \<Rightarrow> u8 \<Rightarrow> u8 \<Rightarrow> PVPTeam \<Rightarrow> bg_service \<Rightarrow> bg_service \<times> service_error option" where
  "AddGroupToQueue env realmID leaderGUID partyMembers typeID leaderLvl teamID s =
     (let bracketID = BracketIDByLevel leaderLvl;
          r = queue_ref_for realmID typeID bracketID s
      in case queues s (refBattlegroup r, refRealm r) of
           None \<Rightarrow> (s, Some UnknownQueueKey)
         | Some types \<Rightarrow>
             (case types typeID of
                None \<Rightarrow> (s, Some UnknownQueueType)
              | Some brackets \<Rightarrow>
                  (case brackets bracketID of
                     None \<Rightarrow> (s, Some UnknownBracket)
                   | Some queue \<Rightarrow>
                       (let group0 = \<lparr>LeaderGUID = player_of leaderGUID realmID,
                              Members = map (\<lambda>p. player_of p realmID) partyMembers, SlotsPerMember = (\<lambda>_. 0),
                              groupRealm = realmID, TeamID = teamID, EnqueuedTime = clock env, IsRandomQueue = False\<rparr>
                        in case addQueueForGroupMembersIfFree r queue group0 s of
                             None \<Rightarrow> (s, Some ErrAlreadyInQueue)
                           | Some (s1, grp) \<Rightarrow>
                               (case add_to_queue env r queue grp s1 of
                                  (s2, Some e) \<Rightarrow>
                                    (removeQueueForGroupMembers (qQueueTypeID queue) grp s2, Some (QueueFailed e))
                                | (s2, None) \<Rightarrow>
                                    (if joinedFails env then (s2, Some EventFailed)
                                     else let (minLvl, maxLvl) = LevelsDiapasonForBracket bracketID;
                                       slots = foldl (\<lambda>m p. m(LowGUID p \<mapsto> SlotsPerMember grp p)) Map.empty (group_players grp)
                                     in (s2\<lparr>mmEvents := mmEvents s2 @
                                          [JoinedQueue realmID (map ucast (partyMembers @ [leaderGUID])) slots minLvl maxLvl typeID]\<rparr>,
                                         None)))))))"

definition realm_key :: "u32 \<Rightarrow> bool \<Rightarrow> RealmWithBattlegroupKey" where
  "realm_key realmID isCrossrealm = \<lparr>keyRealmID = (if isCrossrealm then 0 else realmID), keyBattlegroupID = 0\<rparr>"

definition PlayerLeftBattleground :: "u64 \<Rightarrow> u32 \<Rightarrow> u32 \<Rightarrow> bool \<Rightarrow> bg_service \<Rightarrow> bg_service \<times> service_error option" where
  "PlayerLeftBattleground playerGUID realmID instanceID isCrossrealm s =
     (let k = realm_key realmID isCrossrealm in
      case UpdateBattleground instanceID k (\<lambda>b. (RemovePlayer playerGUID realmID b, None :: string option)) (battlegrounds s) of
        (r, None) \<Rightarrow> (s\<lparr>battlegrounds := r\<rparr>, None)
      | (r, Some (Some e)) \<Rightarrow> (s\<lparr>battlegrounds := r\<rparr>, Some (UpdateFailed e))
      | (r, Some None) \<Rightarrow>
          (removeBattlegroundLinkForPlayer \<lparr>kRealmID = keyRealmID k, kInstanceID = instanceID, kBattlegroupID = 0\<rparr>
             (s\<lparr>battlegrounds := r\<rparr>) (player_of playerGUID realmID), None))"

definition PlayerJoinedBattleground :: "u64 \<Rightarrow> u32 \<Rightarrow> u32 \<Rightarrow> bool \<Rightarrow> bg_service \<Rightarrow> bg_service \<times> service_error option" where
  "PlayerJoinedBattleground playerGUID realmID instanceID isCrossrealm s =
     (case UpdateBattleground instanceID (realm_key realmID isCrossrealm) (joins playerGUID realmID) (battlegrounds s) of
        (r, None) \<Rightarrow> (s\<lparr>battlegrounds := r\<rparr>, Some (UpdateFailed ''not found''))
      | (r, Some (Some e)) \<Rightarrow> (s\<lparr>battlegrounds := r\<rparr>, Some (UpdateFailed e))
      | (r, Some None) \<Rightarrow> (s\<lparr>battlegrounds := r\<rparr>, None))"

definition purge_links :: "Battleground \<Rightarrow> bg_service \<Rightarrow> bg_service" where
  "purge_links b s =
     foldl (\<lambda>s team.
        foldl (removeBattlegroundLinkForPlayer (key_of b))
          (foldl (removeBattlegroundLinkForPlayer (key_of b)) s (ActivePlayersPerTeam b team))
          (map invGUID (InvitedPlayersPerTeam b team)))
       s [TeamAlliance, TeamHorde]"

definition BattlegroundStatusChanged :: "BGStatus \<Rightarrow> u32 \<Rightarrow> u32 \<Rightarrow> bool \<Rightarrow> bg_service \<Rightarrow> bg_service" where
  "BattlegroundStatusChanged status realmID instanceID isCrossrealm s =
     (let k = realm_key realmID isCrossrealm;
          found = GetBattlegroundByInstanceID instanceID k (battlegrounds s);
          (r, res) = UpdateBattleground instanceID k (\<lambda>b. (b\<lparr>bgStatus := status\<rparr>, None :: string option)) (battlegrounds s);
          s1 = s\<lparr>battlegrounds := r\<rparr>
      in case found of
           None \<Rightarrow> s1
         | Some b \<Rightarrow> if status = StatusEnded then purge_links b s1 else s1)"

definition leave_queue :: "queue_ref \<Rightarrow> u8 \<Rightarrow> PlayerUnwrapped \<Rightarrow> bg_service \<Rightarrow> bg_service" where
  "leave_queue r queueTypeID player s =
     (case queue_at s r of
        None \<Rightarrow> s
      | Some q \<Rightarrow>
          (case QueuedGroupByPlayer player q of
             None \<Rightarrow> s
           | Some queuedGroup \<Rightarrow>
               set_queue r (fst (RemoveQueuedGroup player q)) (removeQueueForGroupMembers queueTypeID queuedGroup s)))"

text \<open>
  \<open>PlayerBecomeOffline\<close> walks a copy of the player's links. \<open>RemovePlayerFromQueue\<close> walks the stored
  slice itself, from which the handlers it calls cut elements in place: \<open>backing\<close> is the array behind
  the slice.
\<close>

fun offline_links :: "u64 \<Rightarrow> u32 \<Rightarrow> QueueOrBattlegroundLink list \<Rightarrow> bg_service \<Rightarrow> bg_service \<times> service_error option" where
  "offline_links playerGUID realmID [] s = (s, None)"
| "offline_links playerGUID realmID (BattlegroundLink k # ls) s =
     (case PlayerLeftBattleground playerGUID realmID (kInstanceID k) (kBattlegroupID k \<noteq> 0) s of
        (s', Some e) \<Rightarrow> (s', Some e)
      | (s', None) \<Rightarrow> offline_links playerGUID realmID ls s')"
| "offline_links playerGUID realmID (QueueLink r t # ls) s =
     offline_links playerGUID realmID ls (leave_queue r t (player_of playerGUID realmID) s)"

definition PlayerBecomeOffline :: "u64 \<Rightarrow> u32 \<Rightarrow> bg_service \<Rightarrow> bg_service \<times> service_error option" where
  "PlayerBecomeOffline playerGUID realmID s =
     offline_links playerGUID realmID (playersQueueOrBattleground s (player_of playerGUID realmID)) s"

definition remove_by_link :: "u64 \<Rightarrow> u32 \<Rightarrow> u8 \<Rightarrow> QueueOrBattlegroundLink \<Rightarrow> bg_service \<Rightarrow> bg_service \<times> service_error option" where
  "remove_by_link playerGUID realmID typeID l s =
     (case l of
        BattlegroundLink k \<Rightarrow>
          (case GetBattlegroundByInstanceID (kInstanceID k)
                  \<lparr>keyRealmID = kRealmID k, keyBattlegroupID = kBattlegroupID k\<rparr> (battlegrounds s) of
             None \<Rightarrow> (s, None)
           | Some b \<Rightarrow>
               if bgQueueTypeID b \<noteq> typeID then (s, None)
               else PlayerLeftBattleground playerGUID realmID (kInstanceID k) (kBattlegroupID k \<noteq> 0) s)
      | QueueLink r t \<Rightarrow>
          if t = typeID then (leave_queue r t (player_of playerGUID realmID) s, None) else (s, None))"

fun remove_links :: "u64 \<Rightarrow> u32 \<Rightarrow> u8 \<Rightarrow> nat list \<Rightarrow> QueueOrBattlegroundLink list \<Rightarrow> bg_service \<Rightarrow>
    bg_service \<times> service_error option" where
  "remove_links playerGUID realmID typeID [] backing s = (s, None)"
| "remove_links playerGUID realmID typeID (i # is) backing s =
     (case remove_by_link playerGUID realmID typeID (backing ! i) s of
        (s', Some e) \<Rightarrow> (s', Some e)
      | (s', None) \<Rightarrow>
          (let live = playersQueueOrBattleground s' (player_of playerGUID realmID)
           in remove_links playerGUID realmID typeID is (live @ drop (length live) backing) s'))"

definition RemovePlayerFromQueue :: "u64 \<Rightarrow> u32 \<Rightarrow> u8 \<Rightarrow> bg_service \<Rightarrow> bg_service \<times> service_error option" where
  "RemovePlayerFromQueue playerGUID realmID typeID s =
     (let links = playersQueueOrBattleground s (player_of playerGUID realmID)
      in remove_links playerGUID realmID typeID [0..<length links] links s)"

definition OnGameServerRemoved :: "bg_env \<Rightarrow> string \<Rightarrow> bg_service \<Rightarrow> bg_service" where
  "OnGameServerRemoved env address s =
     (case DeleteAllWithGameServerAddress (bgKeys env) address (battlegrounds s) of
        (r, bgs) \<Rightarrow>
          foldl (\<lambda>s b. foldl (removeBattlegroundLinkForPlayer (key_of b))
                   (foldl (removeBattlegroundLinkForPlayer (key_of b)) s (ActivePlayersPerTeam b TeamHorde))
                   (ActivePlayersPerTeam b TeamAlliance))
            (s\<lparr>battlegrounds := r\<rparr>) bgs)"

text \<open>One round of \<open>ProcessExpiredBattlegroundInvites\<close>, over the copies it has taken.\<close>

definition expire_invite :: "bg_env \<Rightarrow> Battleground \<Rightarrow> bg_service \<Rightarrow> InvitedPlayer \<Rightarrow> bg_service" where
  "expire_invite env b s i =
     (if InvitedTime i + 60000 < clock env
      then let playerGUID = ucast (LowGUID (invGUID i)); realmID = ucast (playerRealm (invGUID i)) in
        (case UpdateBattleground (InstanceID b) \<lparr>keyRealmID = bgRealmID b, keyBattlegroupID = bgBattleGroupID b\<rparr>
                (\<lambda>b. (RemovePlayerFromInvite playerGUID realmID b, None :: string option)) (battlegrounds s) of
           (r, Some None) \<Rightarrow>
             (case RemovePlayerFromQueue playerGUID realmID (bgQueueTypeID b) (s\<lparr>battlegrounds := r\<rparr>) of
                (s', Some e) \<Rightarrow> s'
              | (s', None) \<Rightarrow>
                  s'\<lparr>mmEvents := mmEvents s' @ (if joinedFails env then [] else [InviteExpired realmID (LowGUID (invGUID i))])\<rparr>)
         | (r, _) \<Rightarrow> s\<lparr>battlegrounds := r\<rparr>)
      else s)"

definition ProcessExpiredBattlegroundInvites_round :: "bg_env \<Rightarrow> bg_service \<Rightarrow> bg_service" where
  "ProcessExpiredBattlegroundInvites_round env s =
     foldl (\<lambda>s b. foldl (\<lambda>s team. foldl (expire_invite env b) s (InvitedPlayersPerTeam b team)) s all_teams)
       s (GetAllActiveBattlegrounds (bgKeys env) (battlegrounds s))"

section \<open>Moving queues between realms and battlegroups\<close>

text \<open>A queue that is missing at the destination is a nil interface: \<open>None\<close> is the panic.\<close>

definition move_queued ::
  "bg_env \<Rightarrow> u8 \<Rightarrow> (QueuedGroup \<Rightarrow> queue_ref) \<Rightarrow> bg_service option \<Rightarrow> QueuedGroup \<Rightarrow> bg_service option" where
  "move_queued env oldType target so g =
     Option.bind so (\<lambda>s.
       (let s1 = removeQueueForGroupMembers oldType g s; r' = target g in
        case queue_at s1 r' of
          None \<Rightarrow> None
        | Some newQueue \<Rightarrow>
            (case add_to_queue env r' newQueue g s1 of
               (s2, e) \<Rightarrow> Some (fst (addLinkForGroupMembersLocked (QueueLink r' (qQueueTypeID newQueue)) g s2)))))"

definition move_queue ::
  "bg_env \<Rightarrow> u32 \<times> u32 \<Rightarrow> (u8 \<Rightarrow> u8 \<Rightarrow> QueuedGroup \<Rightarrow> queue_ref) \<Rightarrow> bg_service option \<Rightarrow> u8 \<times> u8 \<Rightarrow>
   bg_service option" where
  "move_queue env k target so tb =
     Option.bind so (\<lambda>s.
       (let r = \<lparr>refBattlegroup = fst k, refRealm = snd k, refType = fst tb, refBracket = snd tb\<rparr> in
        case queue_at s r of
          None \<Rightarrow> Some s
        | Some q \<Rightarrow>
            (let groups = GetAllQueuedGroups (groupOrder env) q in
             if groups = [] then Some s
             else foldl (move_queued env (qQueueTypeID q) (target (fst tb) (snd tb)))
                    (Some (set_queue r (RemoveAllQueuedGroups q) s)) groups)))"

definition OnNoCrossRealmNodesAvailable :: "bg_env \<Rightarrow> bg_service \<Rightarrow> bg_service option" where
  "OnNoCrossRealmNodesAvailable env s =
     foldl (\<lambda>so realm.
        foldl (move_queue env (0, realm)
                (\<lambda>typeID bracket g. \<lparr>refBattlegroup = (case battleGroupIDByRealmID s realm of None \<Rightarrow> 0 | Some b \<Rightarrow> b),
                   refRealm = 0, refType = typeID, refBracket = bracket\<rparr>))
          so (queuesIter env (0, realm)))
       (Some s) (realmsIter env)"

definition OnNoCrossRealmNodesUnAvailable :: "bg_env \<Rightarrow> bg_service \<Rightarrow> bg_service option" where
  "OnNoCrossRealmNodesUnAvailable env s =
     foldl (\<lambda>so battlegroup.
        foldl (move_queue env (battlegroup, 0)
                (\<lambda>typeID bracket g. \<lparr>refBattlegroup = 0, refRealm = groupRealm g, refType = typeID, refBracket = bracket\<rparr>))
          so (queuesIter env (battlegroup, 0)))
       (Some s) (battlegroupsIter env)"

text \<open>The tracker of cross-realm nodes; of a node only its id matters.\<close>

definition tracker_OnGameServerAdded :: "bg_env \<Rightarrow> string \<Rightarrow> bool \<Rightarrow> bg_service \<Rightarrow> bg_service option" where
  "tracker_OnGameServerAdded env gsID isCrossRealm s =
     (if \<not> isCrossRealm then Some s
      else let s1 = s\<lparr>activeCrossRealmNodes := insert gsID (activeCrossRealmNodes s)\<rparr>
           in if activeCrossRealmNodes s = {} then OnNoCrossRealmNodesAvailable env s1 else Some s1)"

definition tracker_OnGameServerRemoved :: "bg_env \<Rightarrow> string \<Rightarrow> bool \<Rightarrow> bg_service \<Rightarrow> bg_service option" where
  "tracker_OnGameServerRemoved env gsID isCrossRealm s =
     (if \<not> isCrossRealm \<or> activeCrossRealmNodes s = {} then Some s
      else let s1 = s\<lparr>activeCrossRealmNodes := activeCrossRealmNodes s - {gsID}\<rparr>
           in if activeCrossRealmNodes s1 = {} then OnNoCrossRealmNodesUnAvailable env s1 else Some s1)"

section \<open>Construction\<close>

text \<open>\<open>strconv.ParseUint(_, 10, 32)\<close>.\<close>

definition parse_u32 :: "string \<Rightarrow> u32 option" where
  "parse_u32 w =
     (if w \<noteq> [] \<and> (\<forall>c\<in>set w. is_digit c) \<and> undec w < 2 ^ 32
      then Some (of_nat (undec w)) else None)"

fun add_realms :: "u32 \<Rightarrow> string list \<Rightarrow> (u32 \<rightharpoonup> u32) \<Rightarrow> (u32 \<rightharpoonup> u32) option" where
  "add_realms battleGroupID [] m = Some m"
| "add_realms battleGroupID (w # ws) m =
     (case parse_u32 w of None \<Rightarrow> None | Some realmID \<Rightarrow> add_realms battleGroupID ws (m(realmID \<mapsto> battleGroupID)))"

fun NewBattleGroupsInMemWithConfigValue :: "(u32 \<times> string) list \<Rightarrow> (u32 \<rightharpoonup> u32) \<Rightarrow> (u32 \<rightharpoonup> u32) option" where
  "NewBattleGroupsInMemWithConfigValue [] m = Some m"
| "NewBattleGroupsInMemWithConfigValue ((battleGroupID, realms) # rest) m =
     (case add_realms battleGroupID (Split (CHR '','') realms) m of
        None \<Rightarrow> None
      | Some m' \<Rightarrow> NewBattleGroupsInMemWithConfigValue rest m')"

definition queue_types :: "u8 list" where
  "queue_types = [1, 2, 3, 7, 30, 9, 32]"

text \<open>The queues of one realm or battlegroup; \<open>None\<close> is the panic on a missing template.\<close>

definition queue_for :: "u8 \<Rightarrow> BattlegroundTemplate \<Rightarrow> u32 \<times> u32 \<Rightarrow> u8 \<Rightarrow> pvp_queue" where
  "queue_for typeID template k bracket =
     (if typeID = 32 then NewBattlegroundRandomQueue template (snd k) (fst k) bracket
      else NewGenericBattlegroundQueue template (snd k) (fst k) bracket)"

fun setup_types :: "(int \<Rightarrow> int) \<Rightarrow> bg_service \<Rightarrow> u32 \<times> u32 \<Rightarrow> u8 list \<Rightarrow> (u8 \<rightharpoonup> (u8 \<rightharpoonup> pvp_queue)) \<Rightarrow>
    (u8 \<rightharpoonup> (u8 \<rightharpoonup> pvp_queue)) option" where
  "setup_types intn s k [] m = Some m"
| "setup_types intn s k (typeID # ts) m =
     (case TemplateForQueueTypeID intn typeID s of
        None \<Rightarrow> None
      | Some template \<Rightarrow>
          setup_types intn s k ts
            (m(typeID \<mapsto> (\<lambda>br. if br \<in> set (GetAllBrackets template) then Some (queue_for typeID template k br) else None))))"

fun generateQueuesForAllBattlegroundTypes ::
  "(u32 \<times> u32 \<Rightarrow> int \<Rightarrow> int) \<Rightarrow> bg_service \<Rightarrow> (u32 \<times> u32) list \<Rightarrow> bg_service option" where
  "generateQueuesForAllBattlegroundTypes draw s [] = Some s"
| "generateQueuesForAllBattlegroundTypes draw s (k # ks) =
     (case setup_types (draw k) s k queue_types Map.empty of
        None \<Rightarrow> None
      | Some m \<Rightarrow> generateQueuesForAllBattlegroundTypes draw (s\<lparr>queues := (queues s)(k \<mapsto> m)\<rparr>) ks)"

fun index_templates :: "BattlegroundTemplate list \<Rightarrow> (u8 \<rightharpoonup> BattlegroundTemplate) \<Rightarrow> (u8 \<rightharpoonup> BattlegroundTemplate) option" where
  "index_templates [] m = Some m"
| "index_templates (t # ts) m =
     (if tTypeID t < 33 then index_templates ts (m(ucast (tTypeID t) \<mapsto> t)) else None)"

definition NewBattleGroundService ::
  "(u32 \<times> u32 \<Rightarrow> int \<Rightarrow> int) \<Rightarrow> BattlegroundTemplate list \<Rightarrow> (u32 \<rightharpoonup> u32) \<Rightarrow> u32 list \<Rightarrow> string set \<Rightarrow> u32 list \<Rightarrow>
   bg_service option" where
  "NewBattleGroundService draw templates battleGroups battlegroupIDs nodes realmIDs =
     (case index_templates templates Map.empty of
        None \<Rightarrow> None
      | Some ts \<Rightarrow>
          generateQueuesForAllBattlegroundTypes draw
            \<lparr>bgTemplates = ts, queues = Map.empty, playersQueueOrBattleground = (\<lambda>_. []), battlegrounds = Map.empty,
             battleGroupIDByRealmID = battleGroups, activeCrossRealmNodes = nodes, mmEvents = []\<rparr>
            (map (\<lambda>realmID. (0, realmID)) realmIDs @ map (\<lambda>b. (b, 0)) battlegroupIDs))"

section \<open>Capacity\<close>

definition within_capacity :: "Battleground \<Rightarrow> bool" where
  "within_capacity b \<longleftrightarrow> (\<forall>t\<in>{TeamAlliance, TeamHorde}. team_count b t \<le> unat (MaxPlayersPerTeam b))"

definition repo_capacity :: "bg_repo \<Rightarrow> bool" where
  "repo_capacity r \<longleftrightarrow> (\<forall>b\<in>ran r. within_capacity b)"

definition mm_ok :: "bg_service \<Rightarrow> bool" where
  "mm_ok s \<longleftrightarrow> repo_capacity (battlegrounds s) \<and> (\<forall>r q. queue_at s r = Some q \<longrightarrow> small_groups q)"

text \<open>Even when an event fails, the invitations made come from the groups of some of the realms.\<close>

lemma invite_realms_prefix:
  assumes "invite_realms f now team groups realms b = (b', evs, ok)"
  shows "\<exists>k. invites b' team = invites b team @
      concat (map group_players (concat (map (\<lambda>r. filter (\<lambda>g. groupRealm g = r) groups) (take k realms)))) \<and>
    ActivePlayersPerTeam b' = ActivePlayersPerTeam b \<and> MaxPlayersPerTeam b' = MaxPlayersPerTeam b \<and>
    (\<forall>t. t \<noteq> team \<longrightarrow> InvitedPlayersPerTeam b' t = InvitedPlayersPerTeam b t)"
  using assms
proof (induction realms arbitrary: b b' evs ok)
  case (Cons r realms)
  define b1 where "b1 = foldl (invite_group now team) b (filter (\<lambda>g. groupRealm g = r) groups)"
  have max: "MaxPlayersPerTeam (foldl (invite_group now team) b gs) = MaxPlayersPerTeam b" for gs
    by (induction gs arbitrary: b) (simp_all add: invite_group_def)
  obtain b2 evs2 ok2 where rec: "invite_realms f now team groups realms b1 = (b2, evs2, ok2)"
    by (rule prod_cases3)
  show ?case
  proof (cases "f r")
    case True
    with Cons.prems have "b' = b1" by (simp add: Let_def b1_def)
    then show ?thesis
      by (intro exI [of _ 1]) (simp add: b1_def foldl_invite_group max)
  next
    case False
    with Cons.prems rec have "b' = b2" by (simp add: Let_def b1_def [symmetric])
    with Cons.IH [OF rec] obtain k where
      "invites b' team = invites b1 team @
        concat (map group_players (concat (map (\<lambda>r. filter (\<lambda>g. groupRealm g = r) groups) (take k realms))))"
      "ActivePlayersPerTeam b' = ActivePlayersPerTeam b1" "MaxPlayersPerTeam b' = MaxPlayersPerTeam b1"
      "\<forall>t. t \<noteq> team \<longrightarrow> InvitedPlayersPerTeam b' t = InvitedPlayersPerTeam b1 t" by blast
    then show ?thesis
      by (intro exI [of _ "Suc k"]) (simp add: b1_def foldl_invite_group max)
  qed
qed simp

lemma sum_by_realm_le:
  assumes "distinct realms"
  shows "(\<Sum>g\<leftarrow>concat (map (\<lambda>r. filter (\<lambda>g. groupRealm g = r) groups) realms). group_size g) \<le> (\<Sum>g\<leftarrow>groups. group_size g)"
proof -
  let ?in = "filter (\<lambda>g. groupRealm g \<in> set realms) groups"
  have split: "map (\<lambda>r. filter (\<lambda>g. groupRealm g = r) groups) realms = map (\<lambda>r. filter (\<lambda>g. groupRealm g = r) ?in) realms"
    by (auto simp: filter_filter intro!: filter_cong)
  have m: "mset (concat (map (\<lambda>r. filter (\<lambda>g. groupRealm g = r) groups) realms)) = mset ?in"
    unfolding split by (rule mset_by_realm [OF assms]) auto
  have "sum_list (map group_size xs) = sum_list (map group_size ys)" if "mset xs = mset ys" for xs ys
    using arg_cong [OF that, of "\<lambda>m. sum_mset (image_mset group_size m)"] by (simp flip: sum_mset_sum_list)
  from this [OF m] have "(\<Sum>g\<leftarrow>concat (map (\<lambda>r. filter (\<lambda>g. groupRealm g = r) groups) realms). group_size g) = (\<Sum>g\<leftarrow>?in. group_size g)" .
  also have "\<dots> \<le> (\<Sum>g\<leftarrow>groups. group_size g)" by (induction groups) auto
  finally show ?thesis .
qed

lemma InviteGroups_capacity:
  assumes "\<And>xs. mset (order xs) = mset xs" "InviteGroups order f now groups team b = (b', evs, ok)"
  shows "team_count b' team \<le> team_count b team + (\<Sum>g\<leftarrow>groups. group_size g)"
    and "t \<noteq> team \<Longrightarrow> team_count b' t = team_count b t"
    and "MaxPlayersPerTeam b' = MaxPlayersPerTeam b"
proof -
  let ?realms = "order (remdups (map groupRealm groups))"
  have d: "distinct (take k ?realms)" for k
    by (rule distinct_take) (metis assms(1) distinct_remdups mset_eq_imp_distinct_iff)
  obtain k where k: "invites b' team = invites b team @
      concat (map group_players (concat (map (\<lambda>r. filter (\<lambda>g. groupRealm g = r) groups) (take k ?realms))))"
    "ActivePlayersPerTeam b' = ActivePlayersPerTeam b" "MaxPlayersPerTeam b' = MaxPlayersPerTeam b"
    "\<forall>t. t \<noteq> team \<longrightarrow> InvitedPlayersPerTeam b' t = InvitedPlayersPerTeam b t"
    using invite_realms_prefix [OF assms(2) [unfolded InviteGroups_def]] by blast
  let ?taken = "concat (map (\<lambda>r. filter (\<lambda>g. groupRealm g = r) groups) (take k ?realms))"
  have "length (InvitedPlayersPerTeam b' team) = length (InvitedPlayersPerTeam b team) + length (concat (map group_players ?taken))"
    using arg_cong [OF k(1), of length] unfolding length_append length_map by simp
  moreover have "length (concat (map group_players xs)) = (\<Sum>g\<leftarrow>xs. group_size g)" for xs
    by (simp add: length_concat comp_def)
  ultimately show "team_count b' team \<le> team_count b team + (\<Sum>g\<leftarrow>groups. group_size g)"
    using sum_by_realm_le [OF d, of groups k] k(2) by simp
  show "t \<noteq> team \<Longrightarrow> team_count b' t = team_count b t" using k(2,4) by simp
  show "MaxPlayersPerTeam b' = MaxPlayersPerTeam b" by (rule k(3))
qed

lemma within_capacity_invite:
  assumes "\<And>xs. mset (order xs) = mset xs" "InviteGroups order f now groups team b = (b', evs, ok)"
    and "within_capacity b" "team_count b team + (\<Sum>g\<leftarrow>groups. group_size g) \<le> unat (MaxPlayersPerTeam b)"
  shows "within_capacity b'"
  unfolding within_capacity_def
proof
  fix t assume t: "t \<in> {TeamAlliance, TeamHorde}"
  note c = InviteGroups_capacity [OF assms(1,2)]
  show "team_count b' t \<le> unat (MaxPlayersPerTeam b')"
  proof (cases "t = team")
    case True
    then show ?thesis using c(1,3) assms(4) by simp
  next
    case False
    then show ?thesis using c(2) [OF False] c(3) assms(3) t unfolding within_capacity_def by auto
  qed
qed

lemma repo_capacityD: "repo_capacity r \<Longrightarrow> r k = Some b \<Longrightarrow> within_capacity b"
  by (auto simp: repo_capacity_def ran_def)

lemma repo_capacityI: "(\<And>k b. r k = Some b \<Longrightarrow> within_capacity b) \<Longrightarrow> repo_capacity r"
  by (auto simp: repo_capacity_def ran_def)

lemma repo_capacity_save: "repo_capacity r \<Longrightarrow> within_capacity b \<Longrightarrow> repo_capacity (SaveBattleground b r)"
  by (rule repo_capacityI) (auto simp: SaveBattleground_def dest: repo_capacityD split: if_splits)

lemma repo_capacity_update:
  assumes "repo_capacity r" "\<And>b. within_capacity b \<Longrightarrow> within_capacity (fst (u b))"
  shows "repo_capacity (fst (UpdateBattleground i k u r))"
proof (cases "r (indexKeyForInstanceAndRealm i k)")
  case None
  then show ?thesis using assms(1) by (simp add: UpdateBattleground_def)
next
  case (Some b)
  have "within_capacity (fst (u b))" by (rule assms(2) [OF repo_capacityD [OF assms(1) Some]])
  with Some assms(1) show ?thesis
    by (cases "u b")
      (rule repo_capacityI, auto simp: UpdateBattleground_def Let_def dest: repo_capacityD split: if_splits option.splits)
qed

subsection \<open>What linking leaves alone\<close>

lemma foldl_keeps: "(\<And>s x. P s \<Longrightarrow> P (f s x)) \<Longrightarrow> P s \<Longrightarrow> P (foldl f s xs)"
  by (induction xs arbitrary: s) auto

definition same_core :: "bg_service \<Rightarrow> bg_service \<Rightarrow> bool" where
  "same_core s s' \<longleftrightarrow> battlegrounds s' = battlegrounds s \<and> queues s' = queues s"

lemma same_core_refl [simp]: "same_core s s" by (simp add: same_core_def)

lemma same_core_trans: "same_core s t \<Longrightarrow> same_core t u \<Longrightarrow> same_core s u" by (simp add: same_core_def)

lemma same_core_foldl: "(\<And>s x. same_core s (f s x)) \<Longrightarrow> same_core s (foldl f s xs)"
  by (rule foldl_keeps [where P = "same_core s"]) (auto intro: same_core_trans)

lemma same_core_ok: "same_core s s' \<Longrightarrow> mm_ok s \<Longrightarrow> mm_ok s'"
  by (simp add: same_core_def mm_ok_def queue_at_def)

lemma same_core_unlink [simp]: "same_core s (unlink_player p s x)"
  by (simp add: unlink_player_def same_core_def)

lemma same_core_removeQueue [simp]: "same_core s (removeQueueForGroupMembers t g s)"
  unfolding removeQueueForGroupMembers_def by (rule same_core_foldl) simp

lemma same_core_removeBG [simp]: "same_core s (removeBattlegroundLinkForPlayer k s x)"
  by (simp add: removeBattlegroundLinkForPlayer_def)

lemma same_core_removeBGs [simp]: "same_core s (foldl (removeBattlegroundLinkForPlayer k) s xs)"
  by (rule same_core_foldl) simp

lemma same_core_link_players: "same_core s (fst (link_players l ps m s))"
proof (induction ps arbitrary: m s)
  case (Cons p ps)
  have "same_core s (link_player l s p)" by (simp add: link_player_def same_core_def)
  with Cons.IH show ?case by (auto simp: Let_def intro: same_core_trans)
qed simp

lemma same_core_addLink [simp]: "same_core s (fst (addLinkForGroupMembersLocked l g s))"
  using same_core_link_players by (simp add: addLinkForGroupMembersLocked_def split: prod.split) (metis fst_conv)

lemma same_core_move [simp]: "same_core s (foldl (move_group t b) s gs)"
  unfolding move_group_def addBattlegroundForGroupMembers_def
  by (rule same_core_foldl, rule same_core_trans [OF same_core_removeQueue same_core_addLink])

lemma same_core_events [simp]: "same_core s (s\<lparr>mmEvents := es\<rparr>)" by (simp add: same_core_def)

lemma mm_ok_bgs: "mm_ok s \<Longrightarrow> repo_capacity r \<Longrightarrow> mm_ok (s\<lparr>battlegrounds := r\<rparr>)"
  by (simp add: mm_ok_def queue_at_def)

lemma queue_at_set: "queue_at (set_queue r q s) r' = Some q' \<Longrightarrow> q' = q \<or> queue_at s r' = Some q'"
  by (auto simp: set_queue_def queue_at_def bind_eq_Some_conv split: option.splits if_splits)

lemma mm_ok_set_queue: "mm_ok s \<Longrightarrow> small_groups q \<Longrightarrow> mm_ok (set_queue r q s)"
  unfolding mm_ok_def by (auto dest: queue_at_set) (simp add: set_queue_def split: option.split)

lemma battlegrounds_ok: "mm_ok s \<Longrightarrow> repo_capacity (battlegrounds s)" by (simp add: mm_ok_def)

lemma queue_at_ok: "mm_ok s \<Longrightarrow> queue_at s r = Some q \<Longrightarrow> small_groups q" by (simp add: mm_ok_def)

subsection \<open>The queue's contract\<close>

definition fair_env :: "bg_env \<Rightarrow> bool" where
  "fair_env env \<longleftrightarrow> (\<forall>xs. mset (groupOrder env xs) = mset xs) \<and> (\<forall>xs. mset (realmOrder env xs) = mset xs)"

lemma mm_ok_need:
  assumes "mm_ok s" "b \<in> set (BattlegroundsThatNeedPlayers env q br bg realm s)"
  shows "within_capacity b"
  using assms
  by (auto simp: BattlegroundsThatNeedPlayers_def GetActiveBattlegrounds_def map_filter_def mm_ok_def dest: repo_capacityD)

lemma backfill_capacity:
  "team \<noteq> TeamAny \<Longrightarrow> within_capacity b \<Longrightarrow>
    team_count b team + unat (BackfillSlotsForTeam b team) \<le> unat (MaxPlayersPerTeam b)"
  unfolding BackfillSlots_exact within_capacity_def by (cases team) auto

lemma service_InviteGroups_ok:
  assumes "fair_env env" "mm_ok s" "within_capacity b" "team \<noteq> TeamAny"
    and "(\<Sum>g\<leftarrow>groups. group_size g) \<le> unat (BackfillSlotsForTeam b team)"
    and "service_InviteGroups env groups team b s = (s', b', ok)"
  shows "mm_ok s' \<and> within_capacity b'"
proof -
  obtain b1 evs ok1 where i: "InviteGroups (realmOrder env) (inviteFails env) (clock env) groups team b = (b1, evs, ok1)"
    by (rule prod_cases3)
  have b1: "within_capacity b1"
    using within_capacity_invite [OF _ i assms(3)] assms(1,5) backfill_capacity [OF assms(4,3)]
    by (simp add: fair_env_def)
  define s1 where "s1 = s\<lparr>mmEvents := mmEvents s @ map InvitedToBG evs\<rparr>"
  define s2 where "s2 = s1\<lparr>battlegrounds := SaveBattleground b1 (battlegrounds s1)\<rparr>"
  have s1: "mm_ok s1" unfolding s1_def by (rule same_core_ok [OF same_core_events assms(2)])
  have s2: "mm_ok s2"
    unfolding s2_def by (intro mm_ok_bgs repo_capacity_save s1 battlegrounds_ok [OF s1] b1)
  have "b' = b1 \<and> (s' = s1 \<or> s' = s2 \<or> (\<exists>t. s' = foldl (move_group t b1) s2 groups))"
    using assms(6) by (auto simp: service_InviteGroups_def i Let_def s1_def [symmetric] s2_def [symmetric] split: if_splits option.splits)
  with b1 s1 s2 show ?thesis by (auto intro: same_core_ok [OF same_core_move])
qed

lemma totalMembers_sizes: "totalMembers gs = int (\<Sum>g\<leftarrow>gs. group_size g)"
  by (induction gs) (simp_all add: totalMembers_def)

lemma CreateBattleground_ok:
  assumes "fair_env env" "mm_ok s"
    and "totalMembers A \<le> int (unat (tMaxPlayersPerTeam t))" "totalMembers H \<le> int (unat (tMaxPlayersPerTeam t))"
    and "CreateBattleground env t qt br realm bgr A H s = (s', ok)"
  shows "mm_ok s'"
proof -
  have sums: "(\<Sum>g\<leftarrow>A. group_size g) \<le> unat (tMaxPlayersPerTeam t)" "(\<Sum>g\<leftarrow>H. group_size g) \<le> unat (tMaxPlayersPerTeam t)"
    using assms(3,4) unfolding totalMembers_sizes of_nat_le_iff by simp_all
  have fair: "\<And>xs. mset (realmOrder env xs) = mset xs" using assms(1) by (simp add: fair_env_def)
  have events: "mm_ok (s\<lparr>mmEvents := es\<rparr>)" for es by (rule same_core_ok [OF same_core_events assms(2)])
  have moved: "mm_ok (foldl (move_group x c) (foldl (move_group x c) u gs) hs)" if "mm_ok u" for x c u gs hs
    using that by (intro same_core_ok [OF same_core_move])
  have saved: "mm_ok (s\<lparr>mmEvents := es, battlegrounds := SaveBattleground b2 (battlegrounds s)\<rparr>)"
    if i1: "InviteGroups (realmOrder env) (inviteFails env) (clock env) H TeamHorde (new_battleground t i a q br r g) = (b1, evs1, ok1)"
      and i2: "InviteGroups (realmOrder env) (inviteFails env) (clock env) A TeamAlliance b1 = (b2, evs2, ok2)"
    for i a q br r g b1 b2 evs1 evs2 ok1 ok2 es
  proof -
    let ?b0 = "new_battleground t i a q br r g"
    have b0: "within_capacity ?b0" "team_count ?b0 x = 0" "MaxPlayersPerTeam ?b0 = tMaxPlayersPerTeam t" for x
      by (simp_all add: within_capacity_def new_battleground_def)
    have b1: "within_capacity b1" by (rule within_capacity_invite [OF fair i1 b0(1)]) (use b0 sums in simp)
    have "team_count b1 TeamAlliance = 0" "MaxPlayersPerTeam b1 = tMaxPlayersPerTeam t"
      using InviteGroups_capacity(2) [OF fair i1, of TeamAlliance] InviteGroups_capacity(3) [OF fair i1]
        b0(2) [of TeamAlliance] b0(3) by simp_all
    then have "within_capacity b2" by (intro within_capacity_invite [OF fair i2 b1]) (use sums in simp)
    then show ?thesis
      using mm_ok_bgs [OF events repo_capacity_save [OF battlegrounds_ok [OF assms(2)]]] by simp
  qed
  from assms(2,5) show ?thesis
    by (auto simp: CreateBattleground_def Let_def dest: saved intro!: events moved
        split: option.splits list.splits if_splits prod.splits)
qed

lemma queue_create_ok:
  assumes "fair_env env" "mm_ok s"
    and "totalMembers A \<le> int (unat (tMaxPlayersPerTeam t))" "totalMembers H \<le> int (unat (tMaxPlayersPerTeam t))"
    and "queue_create env t q A H s = (s', q', ok)"
  shows "mm_ok s' \<and> queuedGroups q' = queuedGroups q"
  using assms(2,5) CreateBattleground_ok [OF assms(1-4)]
  by (auto simp: queue_create_def split: if_splits option.splits prod.splits)

text \<open>An environment whose orders are no permutations is replaced by one that keeps the lists.\<close>

definition fairly :: "bg_env \<Rightarrow> bg_env" where
  "fairly env = (if fair_env env then env else env\<lparr>groupOrder := \<lambda>xs. xs, realmOrder := \<lambda>xs. xs\<rparr>)"

lemma fair_fairly: "fair_env (fairly env)" by (simp add: fairly_def fair_env_def)

lemma fairly_id: "fair_env env \<Longrightarrow> fairly env = env" by (simp add: fairly_def)

interpretation mm: battleground_service "groupOrder (fairly env)" "service_ops (fairly env)" mm_ok within_capacity for env
proof
  show "mset (groupOrder (fairly env) xs) = mset xs" for xs using fair_fairly by (simp add: fair_env_def)
  show "mm_ok w \<Longrightarrow> op_need (service_ops (fairly env)) q w = Some bgs \<Longrightarrow> b \<in> set bgs \<Longrightarrow> within_capacity b" for w q bgs b
    using mm_ok_need by (auto simp: service_ops_def)
  show "mm_ok w \<Longrightarrow> within_capacity b \<Longrightarrow> team \<noteq> TeamAny \<Longrightarrow>
      (\<Sum>g\<leftarrow>groups. group_size g) \<le> unat (BackfillSlotsForTeam b team) \<Longrightarrow>
      op_invite (service_ops (fairly env)) groups team b w = (w', b', ok) \<Longrightarrow> mm_ok w' \<and> within_capacity b'"
    for w b team groups w' b' ok
    unfolding service_ops_def bg_ops.simps by (rule service_InviteGroups_ok [OF fair_fairly])
  show "mm_ok w \<Longrightarrow> totalMembers A \<le> int (unat (tMaxPlayersPerTeam t)) \<Longrightarrow>
      totalMembers H \<le> int (unat (tMaxPlayersPerTeam t)) \<Longrightarrow>
      op_create (service_ops (fairly env)) t q A H w = (w', q', ok) \<Longrightarrow> mm_ok w' \<and> queuedGroups q' = queuedGroups q"
    for w A t H q w' q' ok
    unfolding service_ops_def bg_ops.simps by (rule queue_create_ok [OF fair_fairly])
qed

lemma add_to_queue_ok:
  assumes "fair_env env" "mm_ok s" "small_groups q" "group_size g \<le> 255" "add_to_queue env r q g s = (s', e)"
  shows "mm_ok s'"
proof -
  obtain g' where g': "group_size g' \<le> 255"
    and a: "add_to_queue env r q g s =
      (case process (groupOrder env) (service_ops env) (enqueue g' q) s of (q', s', e) \<Rightarrow> (set_queue r q' s', e))"
    using assms(4) that [of "g\<lparr>IsRandomQueue := True\<rparr>"] that [of g]
    by (cases "refType r = 32") (simp_all add: add_to_queue_def random_AddQueuedGroup_def AddQueuedGroup_def)
  obtain q1 s1 e1 where p: "process (groupOrder env) (service_ops env) (enqueue g' q) s = (q1, s1, e1)"
    by (rule prod_cases3)
  have "mm_ok s1 \<and> small_groups q1"
    using mm.process_inv [of s "enqueue g' q" env q1 s1 e1] assms(1,2) small_enqueue [OF assms(3) g'] p
    by (simp add: fairly_id)
  moreover have "s' = set_queue r q1 s1" using assms(5) by (simp add: a p)
  ultimately show ?thesis by (simp add: mm_ok_set_queue)
qed

subsection \<open>Every handler\<close>

lemma link_players_result: "addLinkForGroupMembersLocked l g s = (s', g') \<Longrightarrow> same_core s s' \<and> Members g' = Members g"
  using same_core_addLink [of s l g] by (auto simp: addLinkForGroupMembersLocked_def split: prod.splits)

lemma AddGroupToQueue_ok:
  assumes "fair_env env" "mm_ok s" "length partyMembers < 255"
    and "AddGroupToQueue env realmID leaderGUID partyMembers typeID leaderLvl teamID s = (s', e)"
  shows "mm_ok s'"
proof -
  define r where "r = queue_ref_for realmID typeID (BracketIDByLevel leaderLvl) s"
  have r: "refType r = typeID" "refBracket r = BracketIDByLevel leaderLvl" by (simp_all add: r_def queue_ref_for_def Let_def)
  have queued: "mm_ok s2"
    if at: "queues s (refBattlegroup r, refRealm r) = Some m" "m typeID = Some b" "b (BracketIDByLevel leaderLvl) = Some q"
      and free: "addQueueForGroupMembersIfFree r q g0 s = Some (s1, g)" "Members g0 = map f partyMembers"
      and add: "add_to_queue env r q g s1 = (s2, x)" for m b q g0 s1 g s2 x f
  proof -
    have g: "same_core s s1" "Members g = Members g0"
      using free(1) by (auto simp: addQueueForGroupMembersIfFree_def dest: link_players_result split: if_splits)
    have "small_groups q" using queue_at_ok [OF assms(2), of r] at r by (simp add: queue_at_def)
    from add_to_queue_ok [OF assms(1) same_core_ok [OF g(1) assms(2)] this _ add]
    show ?thesis using assms(3) g(2) free(2) by simp
  qed
  from assms(2,4) show ?thesis
    by (auto simp: AddGroupToQueue_def Let_def r_def [symmetric] dest: queued
        intro!: same_core_ok [OF same_core_events] same_core_ok [OF same_core_removeQueue]
        split: option.splits if_splits prod.splits)
qed

lemma capacity_mono:
  assumes "within_capacity b" "MaxPlayersPerTeam b' = MaxPlayersPerTeam b" "\<And>t. team_count b' t \<le> team_count b t"
  shows "within_capacity b'"
  using assms le_trans unfolding within_capacity_def by fastforce

lemma RemovePlayerFromInvite_count: "team_count (RemovePlayerFromInvite p realm b) t \<le> team_count b t"
  by (auto simp: RemovePlayerFromInvite_def length_remove_first split: option.split)

lemma RemovePlayerFromInvite_max [simp]: "MaxPlayersPerTeam (RemovePlayerFromInvite p realm b) = MaxPlayersPerTeam b"
  by (simp add: RemovePlayerFromInvite_def split: option.split)

lemma RemovePlayer_count: "team_count (RemovePlayer p realm b) t \<le> team_count b t"
  unfolding RemovePlayer_def Let_def
  by (rule order_trans [OF RemovePlayerFromInvite_count]) (auto simp: length_remove_first split: option.split)

lemma RemovePlayer_max [simp]: "MaxPlayersPerTeam (RemovePlayer p realm b) = MaxPlayersPerTeam b"
  by (simp add: RemovePlayer_def Let_def split: option.split)

lemma RemovePlayer_capacity: "within_capacity b \<Longrightarrow> within_capacity (RemovePlayer p realm b)"
  by (rule capacity_mono [OF _ RemovePlayer_max RemovePlayer_count])

lemma RemovePlayerFromInvite_capacity: "within_capacity b \<Longrightarrow> within_capacity (RemovePlayerFromInvite p realm b)"
  by (rule capacity_mono [OF _ RemovePlayerFromInvite_max RemovePlayerFromInvite_count])

lemma joins_capacity:
  assumes "within_capacity b"
  shows "within_capacity (fst (joins p realm b))"
proof (cases "TeamForInvitedPlayer p realm b")
  case None
  then show ?thesis using assms by (simp add: joins_def)
next
  case (Some team)
  let ?match = "\<lambda>i. invGUID i = player_of p realm"
  define b1 where "b1 = (case first_team_with (\<lambda>t. player_of p realm \<in> set (ActivePlayersPerTeam b t)) all_teams of
                  None \<Rightarrow> b
                | Some t \<Rightarrow> b\<lparr>ActivePlayersPerTeam := (ActivePlayersPerTeam b)(t :=
                     remove_first (\<lambda>q. q = player_of p realm) (ActivePlayersPerTeam b t))\<rparr>)"
  have b1: "InvitedPlayersPerTeam b1 = InvitedPlayersPerTeam b" "MaxPlayersPerTeam b1 = MaxPlayersPerTeam b"
      "length (ActivePlayersPerTeam b1 t) \<le> length (ActivePlayersPerTeam b t)" for t
    by (auto simp: b1_def length_remove_first split: option.split)
  have "TeamForInvitedPlayer p realm b1 = Some team" using Some b1(1) by (simp add: TeamForInvitedPlayer_def)
  then have rm: "RemovePlayer p realm b = b1\<lparr>InvitedPlayersPerTeam := (InvitedPlayersPerTeam b)(team :=
      remove_first ?match (InvitedPlayersPerTeam b team))\<rparr>"
    by (simp add: RemovePlayer_def Let_def b1_def [symmetric] RemovePlayerFromInvite_def b1(1))
  have "\<exists>i\<in>set (InvitedPlayersPerTeam b team). ?match i"
    using first_team_with_Some [OF Some [unfolded TeamForInvitedPlayer_def]] by blast
  then have "length (remove_first ?match (InvitedPlayersPerTeam b team)) < length (InvitedPlayersPerTeam b team)"
    by (auto simp: length_remove_first dest: length_pos_if_in_set)
  then have "team_count (fst (joins p realm b)) t \<le> team_count b t" for t
    using b1(3) [of t] by (auto simp: joins_def Some rm AddActivePlayer_def)
  moreover have "MaxPlayersPerTeam (fst (joins p realm b)) = MaxPlayersPerTeam b"
    by (simp add: joins_def Some AddActivePlayer_def)
  ultimately show ?thesis by (intro capacity_mono [OF assms])
qed

lemma DeleteAll_capacity:
  "repo_capacity r \<Longrightarrow> DeleteAllWithGameServerAddress keys address r = (r', bgs) \<Longrightarrow> repo_capacity r'"
  by (rule repo_capacityI) (auto simp: DeleteAllWithGameServerAddress_def Let_def dest: repo_capacityD split: if_splits)

lemma update_ok:
  assumes "mm_ok s" "\<And>b. within_capacity b \<Longrightarrow> within_capacity (fst (u b))"
    and "UpdateBattleground i k u (battlegrounds s) = (r, x)"
  shows "mm_ok (s\<lparr>battlegrounds := r\<rparr>)"
proof -
  have "repo_capacity (fst (UpdateBattleground i k u (battlegrounds s)))"
    by (rule repo_capacity_update [OF battlegrounds_ok [OF assms(1)] assms(2)])
  then show ?thesis by (intro mm_ok_bgs [OF assms(1)]) (simp add: assms(3))
qed

lemma update_leave_ok:
  assumes "mm_ok s" "UpdateBattleground i k (\<lambda>b. (RemovePlayer p realm b, None :: string option)) (battlegrounds s) = (r, x)"
  shows "mm_ok (s\<lparr>battlegrounds := r\<rparr>)"
  by (rule update_ok [OF assms(1) _ assms(2)]) (simp add: RemovePlayer_capacity)

lemma update_uninvite_ok:
  assumes "mm_ok s"
    and "UpdateBattleground i k (\<lambda>b. (RemovePlayerFromInvite p realm b, None :: string option)) (battlegrounds s) = (r, x)"
  shows "mm_ok (s\<lparr>battlegrounds := r\<rparr>)"
  by (rule update_ok [OF assms(1) _ assms(2)]) (simp add: RemovePlayerFromInvite_capacity)

lemma PlayerLeft_ok: "mm_ok s \<Longrightarrow> mm_ok (fst (PlayerLeftBattleground p realm i x s))"
  by (auto simp: PlayerLeftBattleground_def Let_def intro!: same_core_ok [OF same_core_removeBG]
      dest: update_leave_ok split: prod.split option.split)

lemma PlayerJoined_ok: "mm_ok s \<Longrightarrow> mm_ok (fst (PlayerJoinedBattleground p realm i x s))"
  by (auto simp: PlayerJoinedBattleground_def Let_def intro: update_ok joins_capacity split: prod.split option.split)

lemma purge_ok: "mm_ok s \<Longrightarrow> mm_ok (purge_links b s)"
  unfolding purge_links_def
  by (erule same_core_ok [rotated], rule same_core_foldl)
    (rule same_core_trans [OF same_core_removeBGs same_core_removeBGs])

lemma StatusChanged_ok:
  assumes "mm_ok s"
  shows "mm_ok (BattlegroundStatusChanged status realm i x s)"
proof -
  let ?u = "\<lambda>b. (b\<lparr>bgStatus := status\<rparr>, None :: string option)"
  have "within_capacity b \<Longrightarrow> within_capacity (fst (?u b))" for b by (simp add: within_capacity_def)
  from update_ok [OF assms this] show ?thesis
    by (auto simp: BattlegroundStatusChanged_def Let_def intro!: purge_ok split: prod.split option.split)
qed

lemma small_RemoveQueuedGroup: "small_groups q \<Longrightarrow> small_groups (fst (RemoveQueuedGroup p q))"
  by (auto simp: RemoveQueuedGroup_def small_groups_def AList.delete_eq split: option.split)

lemma leave_queue_ok:
  assumes "mm_ok s"
  shows "mm_ok (leave_queue r t p s)"
proof -
  have "mm_ok (set_queue r (fst (RemoveQueuedGroup p q)) (removeQueueForGroupMembers t g s))" if "queue_at s r = Some q" for q g
    using queue_at_ok [OF assms that] small_RemoveQueuedGroup
    by (intro mm_ok_set_queue same_core_ok [OF same_core_removeQueue assms]) auto
  then show ?thesis using assms by (simp add: leave_queue_def split: option.split)
qed

lemma offline_links_ok: "mm_ok s \<Longrightarrow> mm_ok (fst (offline_links p realm ls s))"
proof (induction p realm ls s rule: offline_links.induct)
  case (2 p realm k ls s)
  then show ?case using PlayerLeft_ok [OF "2.prems", of p realm "kInstanceID k" "kBattlegroupID k \<noteq> 0"]
    by (auto split: prod.split option.split)
qed (auto simp: leave_queue_ok)

lemma remove_by_link_ok: "mm_ok s \<Longrightarrow> mm_ok (fst (remove_by_link p realm t l s))"
  by (auto simp: remove_by_link_def leave_queue_ok PlayerLeft_ok split: QueueOrBattlegroundLink.split option.split)

lemma remove_links_ok: "mm_ok s \<Longrightarrow> mm_ok (fst (remove_links p realm t is bs s))"
proof (induction "is" arbitrary: bs s)
  case (Cons i "is")
  then show ?case using remove_by_link_ok [OF Cons.prems, of p realm t "bs ! i"]
    by (auto simp: Let_def split: prod.split option.split)
qed simp

lemma RemovePlayerFromQueue_ok: "mm_ok s \<Longrightarrow> mm_ok (fst (RemovePlayerFromQueue p realm t s))"
  by (simp add: RemovePlayerFromQueue_def remove_links_ok Let_def)

lemma OnGameServerRemoved_ok:
  assumes "mm_ok s"
  shows "mm_ok (OnGameServerRemoved env address s)"
proof -
  obtain r bgs where d: "DeleteAllWithGameServerAddress (bgKeys env) address (battlegrounds s) = (r, bgs)" by force
  have "mm_ok (s\<lparr>battlegrounds := r\<rparr>)"
    using assms DeleteAll_capacity [OF battlegrounds_ok d] mm_ok_bgs by blast
  then show ?thesis
    unfolding OnGameServerRemoved_def d prod.case
    by (rule same_core_ok [rotated], intro same_core_foldl)
      (rule same_core_trans [OF same_core_removeBGs same_core_removeBGs])
qed

lemma expire_invite_ok:
  assumes "mm_ok s"
  shows "mm_ok (expire_invite env b s i)"
proof -
  have q: "mm_ok s'"
    if "UpdateBattleground j k (\<lambda>b. (RemovePlayerFromInvite p realm b, None :: string option)) (battlegrounds s) = (r, y)"
      "RemovePlayerFromQueue p realm t (s\<lparr>battlegrounds := r\<rparr>) = (s', x)" for r s' p realm t x j k y
    using RemovePlayerFromQueue_ok [OF update_uninvite_ok [OF assms that(1)], of p realm t] that(2) by simp
  show ?thesis
    using assms
    by (auto simp: expire_invite_def Let_def intro!: same_core_ok [OF same_core_events]
        dest: q update_uninvite_ok split: prod.split option.split)
qed

lemma expired_round_ok: "mm_ok s \<Longrightarrow> mm_ok (ProcessExpiredBattlegroundInvites_round env s)"
  unfolding ProcessExpiredBattlegroundInvites_round_def
  by (intro foldl_keeps [where P = mm_ok] expire_invite_ok)

lemma move_queued_ok:
  assumes "fair_env env" "mm_ok s" "group_size g \<le> 255" "move_queued env t target (Some s) g = Some s'"
  shows "mm_ok s'"
proof -
  let ?s1 = "removeQueueForGroupMembers t g s"
  have s1: "mm_ok ?s1" by (rule same_core_ok [OF same_core_removeQueue assms(2)])
  obtain q where q: "queue_at ?s1 (target g) = Some q"
    using assms(4) by (auto simp: move_queued_def Let_def split: option.splits)
  obtain s2 e where a: "add_to_queue env (target g) q g ?s1 = (s2, e)" by force
  have "mm_ok s2" by (rule add_to_queue_ok [OF assms(1) s1 queue_at_ok [OF s1 q] assms(3) a])
  moreover have "s' = fst (addLinkForGroupMembersLocked (QueueLink (target g) (qQueueTypeID q)) g s2)"
    using assms(4) q a by (simp add: move_queued_def Let_def)
  ultimately show ?thesis using same_core_ok [OF same_core_addLink] by simp
qed

lemma foldl_None: "(\<And>x. f None x = None) \<Longrightarrow> foldl f None xs = None"
  by (induction xs) auto

lemma foldl_Some_keeps:
  assumes "\<And>x. f None x = None" "\<And>s x s'. x \<in> set xs \<Longrightarrow> P s \<Longrightarrow> f (Some s) x = Some s' \<Longrightarrow> P s'"
    and "P s" "foldl f (Some s) xs = Some s'"
  shows "P s'"
  using assms(2-4)
proof (induction xs arbitrary: s)
  case (Cons x xs)
  from Cons.prems(3) obtain s1 where s1: "f (Some s) x = Some s1"
    using foldl_None [of f xs] assms(1) by (cases "f (Some s) x") auto
  show ?case by (rule Cons.IH [of s1]) (use Cons.prems s1 in auto)
qed simp

lemma move_queue_ok:
  assumes "fair_env env" "mm_ok s" "move_queue env k target (Some s) tb = Some s'"
  shows "mm_ok s'"
proof -
  let ?r = "\<lparr>refBattlegroup = fst k, refRealm = snd k, refType = fst tb, refBracket = snd tb\<rparr>"
  show ?thesis
  proof (cases "queue_at s ?r")
    case None
    then show ?thesis using assms(2,3) by (simp add: move_queue_def)
  next
    case (Some q)
    let ?gs = "GetAllQueuedGroups (groupOrder env) q"
    have small: "small_groups q" by (rule queue_at_ok [OF assms(2) Some])
    have "set ?gs = snd ` set (queuedGroups q)"
      using assms(1) by (metis GetAllQueuedGroups_def fair_env_def list.set_map mset_eq_setD)
    then have gs: "g \<in> set ?gs \<Longrightarrow> group_size g \<le> 255" for g using small by (auto simp: small_groups_def)
    show ?thesis
    proof (cases "?gs = []")
      case True
      then show ?thesis using assms(2,3) Some by (simp add: move_queue_def)
    next
      case False
      have moves: "foldl (move_queued env (qQueueTypeID q) (target (fst tb) (snd tb))) (Some (set_queue ?r (RemoveAllQueuedGroups q) s)) ?gs = Some s'"
        using assms(3) Some False by (simp add: move_queue_def)
      have start: "mm_ok (set_queue ?r (RemoveAllQueuedGroups q) s)"
        by (intro mm_ok_set_queue assms(2)) (simp add: small_groups_def RemoveAllQueuedGroups_def)
      show ?thesis
      proof (rule foldl_Some_keeps [where P = mm_ok, OF _ _ start moves])
        show "mm_ok u'" if "g \<in> set ?gs" "mm_ok u" "move_queued env (qQueueTypeID q) (target (fst tb) (snd tb)) (Some u) g = Some u'"
          for u g u' by (rule move_queued_ok [OF assms(1) that(2) gs [OF that(1)] that(3)])
      qed (simp add: move_queued_def)
    qed
  qed
qed

lemma moves_ok:
  assumes "fair_env env" "mm_ok s"
    and "foldl (\<lambda>so x. foldl (move_queue env (key x) (target x)) so (queuesIter env (key x))) (Some s) xs = Some s'"
  shows "mm_ok s'"
proof (rule foldl_Some_keeps [where P = mm_ok, OF _ _ assms(2,3)])
  have none: "move_queue env k t None tb = None" for k t tb by (simp add: move_queue_def)
  then show "foldl (move_queue env (key x) (target x)) None (queuesIter env (key x)) = None" for x
    by (rule foldl_None)
  show "mm_ok u'" if "mm_ok u" "foldl (move_queue env (key x) (target x)) (Some u) (queuesIter env (key x)) = Some u'"
    for u x u'
    by (rule foldl_Some_keeps [where P = mm_ok, OF none _ that]) (rule move_queue_ok [OF assms(1)])
qed

lemma OnNoCrossRealmNodesAvailable_ok:
  "fair_env env \<Longrightarrow> mm_ok s \<Longrightarrow> OnNoCrossRealmNodesAvailable env s = Some s' \<Longrightarrow> mm_ok s'"
  unfolding OnNoCrossRealmNodesAvailable_def by (rule moves_ok [where key = "\<lambda>realm. (0, realm)"])

lemma OnNoCrossRealmNodesUnAvailable_ok:
  "fair_env env \<Longrightarrow> mm_ok s \<Longrightarrow> OnNoCrossRealmNodesUnAvailable env s = Some s' \<Longrightarrow> mm_ok s'"
  unfolding OnNoCrossRealmNodesUnAvailable_def by (rule moves_ok [where key = "\<lambda>battlegroup. (battlegroup, 0)"])

lemma mm_ok_nodes: "mm_ok s \<Longrightarrow> mm_ok (s\<lparr>activeCrossRealmNodes := x\<rparr>)"
  by (simp add: mm_ok_def queue_at_def)

lemma tracker_added_ok:
  "fair_env env \<Longrightarrow> mm_ok s \<Longrightarrow> tracker_OnGameServerAdded env i c s = Some s' \<Longrightarrow> mm_ok s'"
  by (auto simp: tracker_OnGameServerAdded_def Let_def mm_ok_nodes elim: OnNoCrossRealmNodesAvailable_ok [rotated 2]
      split: if_splits)

lemma tracker_removed_ok:
  "fair_env env \<Longrightarrow> mm_ok s \<Longrightarrow> tracker_OnGameServerRemoved env i c s = Some s' \<Longrightarrow> mm_ok s'"
  using OnNoCrossRealmNodesUnAvailable_ok [OF _ mm_ok_nodes]
  by (auto simp: tracker_OnGameServerRemoved_def Let_def mm_ok_nodes split: if_splits)

subsection \<open>Reachable states\<close>

text \<open>One step is one call of a handler, with any arguments and in any fair environment.\<close>

inductive mm_step :: "bg_service \<Rightarrow> bg_service \<Rightarrow> bool" where
  add: "fair_env env \<Longrightarrow> length partyMembers < 255 \<Longrightarrow>
    mm_step s (fst (AddGroupToQueue env realmID leaderGUID partyMembers typeID leaderLvl teamID s))"
| left: "mm_step s (fst (PlayerLeftBattleground playerGUID realmID instanceID isCrossrealm s))"
| joined: "mm_step s (fst (PlayerJoinedBattleground playerGUID realmID instanceID isCrossrealm s))"
| status: "mm_step s (BattlegroundStatusChanged status realmID instanceID isCrossrealm s)"
| offline: "mm_step s (fst (PlayerBecomeOffline playerGUID realmID s))"
| remove: "mm_step s (fst (RemovePlayerFromQueue playerGUID realmID typeID s))"
| server_gone: "mm_step s (OnGameServerRemoved env address s)"
| expired: "mm_step s (ProcessExpiredBattlegroundInvites_round env s)"
| node_up: "fair_env env \<Longrightarrow> tracker_OnGameServerAdded env gsID isCrossRealm s = Some s' \<Longrightarrow> mm_step s s'"
| node_down: "fair_env env \<Longrightarrow> tracker_OnGameServerRemoved env gsID isCrossRealm s = Some s' \<Longrightarrow> mm_step s s'"

lemma mm_step_ok: "mm_step s s' \<Longrightarrow> mm_ok s \<Longrightarrow> mm_ok s'"
proof (induction rule: mm_step.induct)
  case (add env partyMembers s realmID leaderGUID typeID leaderLvl teamID)
  from AddGroupToQueue_ok [OF add(1,3,2) prod.collapse [symmetric]] show ?case .
qed (auto simp: PlayerBecomeOffline_def intro: PlayerLeft_ok PlayerJoined_ok StatusChanged_ok offline_links_ok
      RemovePlayerFromQueue_ok OnGameServerRemoved_ok expired_round_ok tracker_added_ok tracker_removed_ok)

lemma setup_types_small:
  assumes "setup_types intn s k ts m = Some m'" "\<And>t b br q. m t = Some b \<Longrightarrow> b br = Some q \<Longrightarrow> small_groups q"
    and "m' t = Some b" "b br = Some q"
  shows "small_groups q"
  using assms
proof (induction intn s k ts m rule: setup_types.induct)
  case (2 intn s k typeID ts m)
  obtain template where t: "TemplateForQueueTypeID intn typeID s = Some template"
    using "2.prems"(1) by (auto split: option.splits)
  have e: "small_groups (queue_for typeID template k br)" for br
    by (simp add: queue_for_def NewBattlegroundRandomQueue_def NewGenericBattlegroundQueue_def small_groups_def)
  show ?case
  proof (rule "2.IH" [OF t _ _ "2.prems"(3,4)])
    show "setup_types intn s k ts (m(typeID \<mapsto> (\<lambda>br. if br \<in> set (GetAllBrackets template)
        then Some (queue_for typeID template k br) else None))) = Some m'"
      using "2.prems"(1) t by simp
  qed (use "2.prems"(2) e in \<open>auto split: if_splits\<close>)
qed auto

lemma generate_ok:
  "generateQueuesForAllBattlegroundTypes draw s ks = Some s' \<Longrightarrow> mm_ok s \<Longrightarrow> mm_ok s'"
proof (induction ks arbitrary: s)
  case (Cons k ks)
  obtain m where m: "setup_types (draw k) s k queue_types Map.empty = Some m"
    using Cons.prems(1) by (auto split: option.splits)
  have "mm_ok (s\<lparr>queues := (queues s)(k \<mapsto> m)\<rparr>)"
    using Cons.prems(2) setup_types_small [OF m]
    by (fastforce simp: mm_ok_def queue_at_def bind_eq_Some_conv split: if_splits)
  with Cons m show ?case by simp
qed simp

lemma NewBattleGroundService_ok:
  "NewBattleGroundService draw templates groups ids nodes realms = Some s \<Longrightarrow> mm_ok s"
  by (auto simp: NewBattleGroundService_def split: option.splits elim!: generate_ok)
    (simp add: mm_ok_def repo_capacity_def queue_at_def)

text \<open>
  C2: No team is overfilled. Whatever calls the matchmaking server receives after it starts, with
  events that fail, battlegrounds that cannot be started and queues moved between realms, no
  battleground ever has more players on a side, invited or playing, than its template allows.
\<close>

theorem matchmaking_capacity:
  assumes "NewBattleGroundService draw templates battleGroups battlegroupIDs nodes realmIDs = Some s0"
    and "mm_step\<^sup>*\<^sup>* s0 s" "battlegrounds s k = Some b" "team \<in> {TeamAlliance, TeamHorde}"
  shows "length (ActivePlayersPerTeam b team) + length (InvitedPlayersPerTeam b team) \<le> unat (MaxPlayersPerTeam b)"
proof -
  from assms(2) have "mm_ok s"
    by (induction rule: rtranclp_induct) (auto intro: NewBattleGroundService_ok [OF assms(1)] mm_step_ok)
  from repo_capacityD [OF battlegrounds_ok [OF this] assms(3)] assms(4) show ?thesis
    unfolding within_capacity_def by blast
qed

definition ex_env :: bg_env where
  "ex_env = \<lparr>groupOrder = (\<lambda>xs. xs), realmOrder = (\<lambda>xs. xs), bgKeys = [''7:1''], realmsIter = [1], battlegroupsIter = [5],
     queuesIter = (\<lambda>_. [(2, 8)]), clock = 0, inviteFails = (\<lambda>_. False), joinedFails = False,
     gameServers = (\<lambda>_ _ _. Some [''gs'']), connectionFails = False, startBattleground = (\<lambda>_ _. Some 7), Intn = (\<lambda>_. 0)\<rparr>"

definition ex_templates :: "BattlegroundTemplate list" where
  "ex_templates = map (\<lambda>i. \<lparr>tTypeID = i, tMapID = 489, tMinPlayersPerTeam = 1, tMaxPlayersPerTeam = 2, MinLvl = 80, MaxLvl = 80,
     RandomBattlegroundWeight = 1\<rparr>) [1, 2, 3, 7, 9, 30]"

definition ex_service :: bg_service where
  "ex_service = the (NewBattleGroundService (\<lambda>_ _. 0) ex_templates [1 \<mapsto> 5] [5] {} [1])"

definition ex_match :: bg_service where
  "ex_match = fst (AddGroupToQueue ex_env 1 11 [] 2 80 TeamHorde (fst (AddGroupToQueue ex_env 1 10 [] 2 80 TeamAlliance ex_service)))"

theorem matchmaking_capacity_witness:
  "case battlegrounds ex_match ''7:1'' of None \<Rightarrow> False
   | Some b \<Rightarrow> length (ActivePlayersPerTeam b TeamHorde) + length (InvitedPlayersPerTeam b TeamHorde) \<le> unat (MaxPlayersPerTeam b)"
proof -
  have "NewBattleGroundService (\<lambda>_ _. 0) ex_templates [1 \<mapsto> 5] [5] {} [1] \<noteq> None" by code_simp
  then have s0: "NewBattleGroundService (\<lambda>_ _. 0) ex_templates [1 \<mapsto> 5] [5] {} [1] = Some ex_service"
    by (auto simp: ex_service_def)
  have "fair_env ex_env" by (simp add: fair_env_def ex_env_def)
  then have step: "mm_step s (fst (AddGroupToQueue ex_env realm leader [] t lvl team s))" for s realm leader t lvl team
    by (rule mm_step.add) simp
  have "mm_step\<^sup>*\<^sup>* ex_service ex_match"
    unfolding ex_match_def by (rule rtranclp.rtrancl_into_rtrancl [OF r_into_rtranclp]) (rule step)+
  moreover have "battlegrounds ex_match ''7:1'' \<noteq> None" by code_simp
  then obtain b where "battlegrounds ex_match ''7:1'' = Some b" by blast
  ultimately show ?thesis using matchmaking_capacity [OF s0, of ex_match "''7:1''" b TeamHorde] by simp
qed

section \<open>Links\<close>

abbreviation links_of :: "bg_service \<Rightarrow> PlayerUnwrapped \<Rightarrow> QueueOrBattlegroundLink list" where
  "links_of \<equiv> playersQueueOrBattleground"

lemma removeBGs_links:
  "links_of (foldl (removeBattlegroundLinkForPlayer k) s ps) p =
     ((remove_first (is_bg_link (kInstanceID k) (kRealmID k))) ^^ count (mset ps) p) (links_of s p)"
  by (induction ps arbitrary: s)
    (simp_all add: removeBattlegroundLinkForPlayer_def unlink_player_def funpow_swap1)

lemma remove_first_single:
  "length (filter P xs) \<le> 1 \<Longrightarrow> remove_first P xs = filter (\<lambda>x. \<not> P x) xs"
proof (induction xs)
  case (Cons x xs)
  show ?case
  proof (cases "P x")
    case True
    with Cons.prems have "filter P xs = []" by simp
    then have "filter (\<lambda>x. \<not> P x) xs = xs" by (simp add: filter_empty_conv filter_id_conv)
    with True show ?thesis by simp
  qed (use Cons in simp)
qed simp

lemma remove_first_pow:
  assumes "length (filter P xs) \<le> 1"
  shows "((remove_first P) ^^ n) xs = (if n = 0 then xs else filter (\<lambda>x. \<not> P x) xs)"
proof (induction n)
  case (Suc n)
  have "remove_first P (filter (\<lambda>x. \<not> P x) xs) = filter (\<lambda>x. \<not> P x) xs" by (rule remove_first_none) simp
  with Suc remove_first_single [OF assms] show ?case by simp
qed simp

lemma purge_links_links:
  assumes "length (filter (is_bg_link (InstanceID b) (bgRealmID b)) (links_of s p)) \<le> 1"
  shows "links_of (purge_links b s) p =
    (if \<exists>t\<in>{TeamAlliance, TeamHorde}. p \<in># roster b t
     then filter (\<lambda>l. \<not> is_bg_link (InstanceID b) (bgRealmID b) l) (links_of s p) else links_of s p)"
proof -
  define k where "k = key_of b"
  define ps where "ps = ActivePlayersPerTeam b TeamAlliance @ invites b TeamAlliance @ ActivePlayersPerTeam b TeamHorde @ invites b TeamHorde"
  have "purge_links b s = foldl (removeBattlegroundLinkForPlayer k) s ps"
    by (simp add: purge_links_def ps_def k_def)
  then have "links_of (purge_links b s) p = (remove_first (is_bg_link (InstanceID b) (bgRealmID b)) ^^ count (mset ps) p) (links_of s p)"
    by (simp add: removeBGs_links k_def key_of_def)
  moreover have "count (mset ps) p = 0 \<longleftrightarrow> \<not> (\<exists>t\<in>{TeamAlliance, TeamHorde}. p \<in># roster b t)"
    unfolding count_eq_zero_iff by (auto simp: ps_def)
  ultimately show ?thesis by (simp only: remove_first_pow [OF assms] if_not_P split: if_split) blast
qed

text \<open>
  C31: The end of a battleground frees its players. When a battleground ends, it leaves the repository,
  and every player, invited or playing, who held one link to it holds none; his other links and
  the links of everybody else stay.
\<close>

theorem ended_frees_players:
  assumes "GetBattlegroundByInstanceID instanceID (realm_key realmID isCrossrealm) (battlegrounds s) = Some b"
    and "bg_index b = indexKeyForInstanceAndRealm instanceID (realm_key realmID isCrossrealm)"
    and "length (filter (is_bg_link (InstanceID b) (bgRealmID b)) (links_of s p)) \<le> 1"
    and "s' = BattlegroundStatusChanged StatusEnded realmID instanceID isCrossrealm s"
  shows "battlegrounds s' = (battlegrounds s)(bg_index b := None) \<and>
    (p \<in># roster b TeamAlliance + roster b TeamHorde \<longrightarrow> filter (is_bg_link (InstanceID b) (bgRealmID b)) (links_of s' p) = []) \<and>
    filter (\<lambda>l. \<not> is_bg_link (InstanceID b) (bgRealmID b) l) (links_of s' p) =
      filter (\<lambda>l. \<not> is_bg_link (InstanceID b) (bgRealmID b) l) (links_of s p) \<and>
    (p \<notin># roster b TeamAlliance + roster b TeamHorde \<longrightarrow> links_of s' p = links_of s p)"
proof -
  define s1 where "s1 = s\<lparr>battlegrounds := (battlegrounds s)(bg_index b := None)\<rparr>"
  have "bg_index (b\<lparr>bgStatus := StatusEnded\<rparr>) = bg_index b" by (simp add: bg_index_def)
  with assms(1,2) have s': "s' = purge_links b s1"
    by (simp add: assms(4) BattlegroundStatusChanged_def UpdateBattleground_def GetBattlegroundByInstanceID_def s1_def)
  have "same_core s1 (purge_links b s1)"
    unfolding purge_links_def by (rule same_core_foldl) (rule same_core_trans [OF same_core_removeBGs same_core_removeBGs])
  then have "battlegrounds s' = (battlegrounds s)(bg_index b := None)" by (simp add: s' same_core_def s1_def)
  moreover have "links_of s' p = (if \<exists>t\<in>{TeamAlliance, TeamHorde}. p \<in># roster b t
     then filter (\<lambda>l. \<not> is_bg_link (InstanceID b) (bgRealmID b) l) (links_of s p) else links_of s p)"
    using purge_links_links [of b s1 p] assms(3) by (simp add: s' s1_def)
  ultimately show ?thesis by auto
qed

theorem ended_frees_players_witness:
  "filter (is_bg_link 7 1) (links_of (BattlegroundStatusChanged StatusEnded 1 7 False ex_match) \<lparr>playerRealm = 1, LowGUID = 10\<rparr>) = []"
proof -
  have "battlegrounds ex_match ''7:1'' \<noteq> None" by code_simp
  then obtain b where b: "battlegrounds ex_match ''7:1'' = Some b" by blast
  have "map_option (\<lambda>b. (InstanceID b, bgRealmID b, bg_index b, invites b TeamAlliance)) (battlegrounds ex_match ''7:1'') =
      Some (7, 1, ''7:1'', [\<lparr>playerRealm = 1, LowGUID = 10\<rparr>])"
    by code_simp
  with b have f: "InstanceID b = 7" "bgRealmID b = 1" "bg_index b = ''7:1''" "invites b TeamAlliance = [\<lparr>playerRealm = 1, LowGUID = 10\<rparr>]"
    by simp_all
  have k: "indexKeyForInstanceAndRealm 7 (realm_key 1 False) = ''7:1''" by code_simp
  have one: "length (filter (is_bg_link 7 1) (links_of ex_match \<lparr>playerRealm = 1, LowGUID = 10\<rparr>)) \<le> 1" by code_simp
  show ?thesis
    using ended_frees_players [of 7 1 False ex_match b "\<lparr>playerRealm = 1, LowGUID = 10\<rparr>"] b f k one
    by (simp add: GetBattlegroundByInstanceID_def)
qed

text \<open>
  A player who is still invited when the game server of his battleground goes away keeps a link to the
  deleted battleground: only the links of active players are removed. He can never queue again.
\<close>

lemma removed_server_blocks_invited:
  "let s = OnGameServerRemoved ex_env ''gs'' ex_match in
     battlegrounds s ''7:1'' = None \<and>
     snd (AddGroupToQueue ex_env 1 10 [] 2 80 TeamAlliance s) = Some ErrAlreadyInQueue"
  by code_simp

text \<open>
  When the first cross-realm node appears, the waiting groups move to the queue of the battlegroup. The
  group that completes a match is linked to that queue after the match was made: the player stays
  linked to a queue he is not in, and cannot queue again when the battleground has ended.
\<close>

definition ex_moved :: bg_service where
  "ex_moved =
     (let s0 = the (NewBattleGroundService (\<lambda>_ _. 0) ex_templates [1 \<mapsto> 5, 2 \<mapsto> 5] [5] {} [1, 2]);
          s1 = fst (AddGroupToQueue ex_env 1 10 [] 2 80 TeamAlliance s0);
          s2 = fst (AddGroupToQueue ex_env 2 11 [] 2 80 TeamHorde s1)
      in the (tracker_OnGameServerAdded (ex_env\<lparr>realmsIter := [1, 2]\<rparr>) ''node'' True s2))"

lemma crossrealm_move_blocks_player:
  "length (links_of ex_moved \<lparr>playerRealm = 2, LowGUID = 11\<rparr>) = 2 \<and>
   snd (AddGroupToQueue ex_env 2 11 [] 2 80 TeamHorde (BattlegroundStatusChanged StatusEnded 0 7 True ex_moved)) =
     Some ErrAlreadyInQueue"
  by code_simp

end
