(* ===== verification/Group_Cache.thy ===== *)
theory Group_Cache
  imports Cloud9_Prelude
begin

text \<open>
  Groups of the group server: \<^verbatim>\<open>apps/groupserver/repo/group.go\<close>, the MySQL repository
  \<^verbatim>\<open>repo/group_mysql.go\<close> and the write-through cache \<^verbatim>\<open>service/group-cache_inmem.go\<close>.

  Every operation works on the tables and the cache of one realm, which is the state here. A table is
  a list of rows in the order they were inserted, or a map from its key. The member cache points into
  the member slices of the cached groups: a pointer is the id of the group and a slot. The pointers are
  refreshed after every change of a slice, so a pointer never refers to an old array.

  What the database does is a parameter: which statement fails, the ids it gives to new groups, and the
  rows its schema rejects. A result \<open>Some e\<close> is an error, \<open>Some Panic\<close> a panic.
\<close>

section \<open>Groups\<close>

record GroupMember =
  mGroupID :: u64
  MemberGUID :: u64
  MemberFlags :: u8
  MemberName :: string
  IsOnline :: bool
  SubGroup :: u8
  Roles :: u8

record Group =
  groupID :: u64
  gLeaderGUID :: u64
  LootMethod :: u8
  LooterGUID :: u64
  LootThreshold :: u8
  TargetIcons :: "u64 list"
  GroupType :: u8
  Difficulty :: u8
  RaidDifficulty :: u8
  MasterLooterGuid :: u64
  gMembers :: "GroupMember list"

record GroupInvite =
  Inviter :: u64
  InviterName :: string
  Invitee :: u64
  InviteeName :: string
  inviteGroupID :: u64
  InviterMapID :: u32
  InviterGameServerID :: string

definition MemberByGUID :: "u64 \<Rightarrow> Group \<Rightarrow> GroupMember option" where
  "MemberByGUID guid g = find (\<lambda>m. MemberGUID m = guid) (gMembers g)"

unbundle bit_operations_syntax

definition IsRaid :: "Group \<Rightarrow> bool" where
  "IsRaid g \<longleftrightarrow> 0 < GroupType g AND 2"

definition IsFull :: "Group \<Rightarrow> bool" where
  "IsFull g \<longleftrightarrow> (if IsRaid g then 40 else 5) \<le> length (gMembers g)"

definition IsAssistant :: "GroupMember \<Rightarrow> bool" where
  "IsAssistant m \<longleftrightarrow> 0 < Roles m AND 1"

definition OnlineMemberGUIDs :: "Group \<Rightarrow> u64 list" where
  "OnlineMemberGUIDs g = map MemberGUID (filter IsOnline (gMembers g))"

section \<open>The state of a realm\<close>

datatype stmt = InsertGroup | InsertMember u64 | UpdateGroup | UpdateMemberRow | DeleteMemberRow | DeleteMembers | DeleteGroup
  | ReplaceInvite | SelectInvite

datatype grp_error = DBError | ErrAlreadyInGroup | ErrNoPermissions | ErrGroupFull | ErrGroupNotFound | ErrGroupMemberNotFound
  | ErrMemberInDungeonOrRaid | ErrInviteNotFound | ErrUnsupported | ErrNoGameServer | ErrBind | ErrCharacters | ErrEvent | Panic

record groups_realm =
  dbGroups :: "u64 \<rightharpoonup> Group"
  dbMembers :: "GroupMember list"
  dbInvites :: "u64 \<rightharpoonup> GroupInvite"
  groupsCache :: "u64 \<rightharpoonup> Group"
  groupMembersCache :: "u64 \<rightharpoonup> u64 \<times> nat"

record grp_env =
  dbFails :: "stmt \<Rightarrow> bool"
  schemaRejects :: "GroupMember list \<Rightarrow> GroupMember \<Rightarrow> bool"
  lastInsertId :: "groups_realm \<Rightarrow> u64"
  characterRow :: "u64 \<Rightarrow> (string \<times> bool) option"
  bindFails :: bool
  onlineMaps :: "u64 list \<Rightarrow> u32 list option"
  eventFails :: bool

text \<open>The columns of the tables: a group without its members, a member without name and online flag.\<close>

definition group_row :: "Group \<Rightarrow> Group" where
  "group_row g = g\<lparr>gMembers := []\<rparr>"

definition member_row :: "GroupMember \<Rightarrow> GroupMember" where
  "member_row m = m\<lparr>MemberName := [], IsOnline := False\<rparr>"

section \<open>The MySQL repository\<close>

definition mysql_AddMember :: "grp_env \<Rightarrow> GroupMember \<Rightarrow> groups_realm \<Rightarrow> groups_realm \<times> bool" where
  "mysql_AddMember env m s =
     (if dbFails env (InsertMember (MemberGUID m)) \<or> schemaRejects env (dbMembers s) (member_row m) then (s, False)
      else (s\<lparr>dbMembers := dbMembers s @ [member_row m]\<rparr>, True))"

fun insert_members :: "grp_env \<Rightarrow> u64 \<Rightarrow> GroupMember list \<Rightarrow> groups_realm \<Rightarrow> groups_realm \<times> bool" where
  "insert_members env i [] s = (s, True)"
| "insert_members env i (m # ms) s =
     (case mysql_AddMember env (m\<lparr>mGroupID := i\<rparr>) s of
        (s', ok) \<Rightarrow> if ok then insert_members env i ms s' else (s', False))"

text \<open>
  The caller's group gets its id and its members get their group id. The id is the key of the table, so
  an insert whose id is taken is rejected.
\<close>

definition mysql_Create :: "grp_env \<Rightarrow> Group \<Rightarrow> groups_realm \<Rightarrow> groups_realm \<times> Group \<times> bool" where
  "mysql_Create env g s =
     (if dbFails env InsertGroup \<or> dbGroups s (lastInsertId env s) \<noteq> None then (s, g, False)
      else let i = lastInsertId env s;
               g' = g\<lparr>groupID := i, gMembers := map (\<lambda>m. m\<lparr>mGroupID := i\<rparr>) (gMembers g)\<rparr>
           in case insert_members env i (gMembers g) (s\<lparr>dbGroups := (dbGroups s)(i \<mapsto> group_row g')\<rparr>) of
                (s', ok) \<Rightarrow> (s', g', ok))"

definition mysql_Update :: "grp_env \<Rightarrow> Group \<Rightarrow> groups_realm \<Rightarrow> groups_realm \<times> bool" where
  "mysql_Update env g s =
     (if dbFails env UpdateGroup then (s, False)
      else (if dbGroups s (groupID g) \<noteq> None then s\<lparr>dbGroups := (dbGroups s)(groupID g \<mapsto> group_row g)\<rparr> else s, True))"

definition mysql_UpdateMember :: "grp_env \<Rightarrow> GroupMember \<Rightarrow> groups_realm \<Rightarrow> groups_realm \<times> bool" where
  "mysql_UpdateMember env m s =
     (if dbFails env UpdateMemberRow then (s, False)
      else (s\<lparr>dbMembers := map (\<lambda>r. if MemberGUID r = MemberGUID m then member_row m else r) (dbMembers s)\<rparr>, True))"

definition mysql_RemoveMember :: "grp_env \<Rightarrow> u64 \<Rightarrow> groups_realm \<Rightarrow> groups_realm \<times> bool" where
  "mysql_RemoveMember env guid s =
     (if dbFails env DeleteMemberRow then (s, False)
      else (s\<lparr>dbMembers := filter (\<lambda>m. MemberGUID m \<noteq> guid) (dbMembers s)\<rparr>, True))"

definition mysql_Delete :: "grp_env \<Rightarrow> u64 \<Rightarrow> groups_realm \<Rightarrow> groups_realm \<times> bool" where
  "mysql_Delete env i s =
     (if dbFails env DeleteMembers then (s, False)
      else let s1 = s\<lparr>dbMembers := filter (\<lambda>m. mGroupID m \<noteq> i) (dbMembers s)\<rparr> in
        if dbFails env DeleteGroup then (s1, False) else (s1\<lparr>dbGroups := (dbGroups s1)(i := None)\<rparr>, True))"

definition AddInvite :: "grp_env \<Rightarrow> GroupInvite \<Rightarrow> groups_realm \<Rightarrow> groups_realm \<times> grp_error option" where
  "AddInvite env invite s =
     (if dbFails env ReplaceInvite then (s, Some DBError)
      else (s\<lparr>dbInvites := (dbInvites s)(Invitee invite \<mapsto> invite)\<rparr>, None))"

definition GetInviteByInvitedPlayer :: "grp_env \<Rightarrow> u64 \<Rightarrow> groups_realm \<Rightarrow> grp_error + GroupInvite option" where
  "GetInviteByInvitedPlayer env invitedPlayer s =
     (if dbFails env SelectInvite then Inl DBError else Inr (dbInvites s invitedPlayer))"

text \<open>
  Loading a realm. A member row joins its character; without one the columns are NULL, which cannot be
  scanned into a string, and the load fails.
\<close>

fun load_members :: "grp_env \<Rightarrow> GroupMember list \<Rightarrow> (u64 \<rightharpoonup> Group) \<Rightarrow> (u64 \<rightharpoonup> Group) option" where
  "load_members env [] gs = Some gs"
| "load_members env (r # rs) gs =
     (case characterRow env (MemberGUID r) of
        None \<Rightarrow> None
      | Some (n, online) \<Rightarrow>
          load_members env rs
            (case gs (mGroupID r) of
               None \<Rightarrow> gs
             | Some g \<Rightarrow> gs(mGroupID r \<mapsto> g\<lparr>gMembers := gMembers g @ [r\<lparr>MemberName := n, IsOnline := online\<rparr>]\<rparr>)))"

definition LoadAllForRealm :: "grp_env \<Rightarrow> groups_realm \<Rightarrow> (u64 \<rightharpoonup> Group) option" where
  "LoadAllForRealm env s = load_members env (dbMembers s) (\<lambda>i. map_option group_row (dbGroups s i))"

section \<open>The cache\<close>

definition GroupByID :: "u64 \<Rightarrow> groups_realm \<Rightarrow> Group option" where
  "GroupByID i s = groupsCache s i"

definition groupMemberByGUID :: "u64 \<Rightarrow> groups_realm \<Rightarrow> GroupMember option" where
  "groupMemberByGUID player s =
     (case groupMembersCache s player of
        None \<Rightarrow> None
      | Some (i, slot) \<Rightarrow> map_option (\<lambda>g. gMembers g ! slot) (groupsCache s i))"

definition GroupIDByPlayer :: "u64 \<Rightarrow> groups_realm \<Rightarrow> u64" where
  "GroupIDByPlayer player s = (case groupMemberByGUID player s of None \<Rightarrow> 0 | Some m \<Rightarrow> mGroupID m)"

text \<open>\<open>groupMembersCache[guid] = &group.Members[i]\<close> for every slot, from the first to the last.\<close>

definition refreshGroupMembersPointers :: "Group \<Rightarrow> groups_realm \<Rightarrow> groups_realm" where
  "refreshGroupMembersPointers g s =
     s\<lparr>groupMembersCache :=
        foldl (\<lambda>c slot. c(MemberGUID (gMembers g ! slot) \<mapsto> (groupID g, slot))) (groupMembersCache s) [0..<length (gMembers g)]\<rparr>"

definition cache_Create :: "grp_env \<Rightarrow> Group \<Rightarrow> groups_realm \<Rightarrow> groups_realm \<times> Group \<times> grp_error option" where
  "cache_Create env g s =
     (case mysql_Create env g s of
        (s', g', ok) \<Rightarrow>
          if \<not> ok then (s', g', Some DBError)
          else (refreshGroupMembersPointers g' (s'\<lparr>groupsCache := (groupsCache s')(groupID g' \<mapsto> g')\<rparr>), g', None))"

definition cache_Delete :: "grp_env \<Rightarrow> u64 \<Rightarrow> groups_realm \<Rightarrow> groups_realm \<times> grp_error option" where
  "cache_Delete env i s =
     (case mysql_Delete env i s of
        (s', ok) \<Rightarrow>
          if \<not> ok then (s', Some DBError)
          else case GroupByID i s' of
            None \<Rightarrow> (s', None)
          | Some g \<Rightarrow>
              (s'\<lparr>groupMembersCache := delete_all (groupMembersCache s') (map MemberGUID (gMembers g)),
                  groupsCache := (groupsCache s')(i := None)\<rparr>, None))"

text \<open>\<open>put_group\<close> is an assignment to a field of the cached group, which the caller holds a pointer to.\<close>

definition put_group :: "Group \<Rightarrow> groups_realm \<Rightarrow> groups_realm" where
  "put_group g s = s\<lparr>groupsCache := (groupsCache s)(groupID g \<mapsto> g)\<rparr>"

definition cache_Update :: "grp_env \<Rightarrow> Group \<Rightarrow> groups_realm \<Rightarrow> groups_realm \<times> grp_error option" where
  "cache_Update env g s =
     (case mysql_Update env g s of (s', ok) \<Rightarrow> if \<not> ok then (s', Some DBError) else (put_group g s', None))"

definition cache_AddMember :: "grp_env \<Rightarrow> GroupMember \<Rightarrow> groups_realm \<Rightarrow> groups_realm \<times> grp_error option" where
  "cache_AddMember env m s =
     (case mysql_AddMember env m s of
        (s', ok) \<Rightarrow>
          if \<not> ok then (s', Some DBError)
          else case groupsCache s' (mGroupID m) of
            None \<Rightarrow> (s', Some Panic)
          | Some g \<Rightarrow>
              (let g' = g\<lparr>gMembers := gMembers g @ [m]\<rparr>
               in (refreshGroupMembersPointers g' (put_group g' s'), None)))"

text \<open>\<open>slot_of\<close> is the slot a loop over the members stops at.\<close>

fun slot_of :: "u64 \<Rightarrow> GroupMember list \<Rightarrow> nat option" where
  "slot_of guid [] = None"
| "slot_of guid (m # ms) = (if MemberGUID m = guid then Some 0 else map_option Suc (slot_of guid ms))"

definition cache_UpdateMember :: "grp_env \<Rightarrow> GroupMember \<Rightarrow> groups_realm \<Rightarrow> groups_realm \<times> grp_error option" where
  "cache_UpdateMember env m s =
     (case mysql_UpdateMember env m s of
        (s', ok) \<Rightarrow>
          if \<not> ok then (s', Some DBError)
          else case GroupByID (mGroupID m) s' of
            None \<Rightarrow> (s', Some Panic)
          | Some g \<Rightarrow>
              (case slot_of (MemberGUID m) (gMembers g) of
                 None \<Rightarrow> (s', None)
               | Some slot \<Rightarrow>
                   ((put_group (g\<lparr>gMembers := (gMembers g)[slot := m]\<rparr>) s')
                      \<lparr>groupMembersCache := (groupMembersCache s')(MemberGUID m \<mapsto> (groupID g, slot))\<rparr>, None)))"

definition cache_RemoveMember :: "grp_env \<Rightarrow> u64 \<Rightarrow> groups_realm \<Rightarrow> groups_realm \<times> grp_error option" where
  "cache_RemoveMember env guid s =
     (case mysql_RemoveMember env guid s of
        (s', ok) \<Rightarrow>
          if \<not> ok then (s', Some DBError)
          else case GroupByID (GroupIDByPlayer guid s') s' of
            None \<Rightarrow> (s', Some Panic)
          | Some g \<Rightarrow>
              if \<exists>m\<in>set (gMembers g). MemberGUID m = guid
              then let g' = g\<lparr>gMembers := remove_first (\<lambda>m. MemberGUID m = guid) (gMembers g)\<rparr>;
                       s1 = put_group g' s'
                   in (refreshGroupMembersPointers g' (s1\<lparr>groupMembersCache := (groupMembersCache s1)(guid := None)\<rparr>), None)
              else (s', None))"

definition set_online :: "u64 \<Rightarrow> bool \<Rightarrow> groups_realm \<Rightarrow> groups_realm" where
  "set_online player online s =
     (case groupMembersCache s player of
        None \<Rightarrow> s
      | Some (i, slot) \<Rightarrow>
          (case groupsCache s i of
             None \<Rightarrow> s
           | Some g \<Rightarrow> put_group (g\<lparr>gMembers := (gMembers g)[slot := (gMembers g ! slot)\<lparr>IsOnline := online\<rparr>]\<rparr>) s))"

definition cache_HandleCharacterLoggedIn :: "u64 \<Rightarrow> groups_realm \<Rightarrow> groups_realm" where
  "cache_HandleCharacterLoggedIn player s = set_online player True s"

definition cache_HandleCharacterLoggedOut :: "u64 \<Rightarrow> groups_realm \<Rightarrow> groups_realm" where
  "cache_HandleCharacterLoggedOut player s = set_online player False s"

text \<open>
  \<open>Warmup\<close> fills the cache of a realm from its tables, visiting the groups in the order \<open>ids\<close>. The
  caches are arrays of 256 realms, but the guard lets realm 256 through, where indexing panics.
\<close>

definition Warmup :: "grp_env \<Rightarrow> u64 list \<Rightarrow> u32 \<Rightarrow> groups_realm \<Rightarrow> groups_realm \<times> grp_error option" where
  "Warmup env ids realmID s =
     (if 256 < realmID then (s, Some Panic)
      else case LoadAllForRealm env s of
        None \<Rightarrow> (s, Some DBError)
      | Some gs \<Rightarrow>
          if 256 \<le> realmID then (s, Some Panic)
          else (foldl (\<lambda>s i. case gs i of None \<Rightarrow> s | Some g \<Rightarrow> refreshGroupMembersPointers g s)
                  (s\<lparr>groupsCache := gs, groupMembersCache := Map.empty\<rparr>) ids, None))"

section \<open>Well-formed caches\<close>

abbreviation guids :: "Group \<Rightarrow> u64 list" where
  "guids g \<equiv> map MemberGUID (gMembers g)"

definition group_ok :: "u64 \<Rightarrow> Group \<Rightarrow> bool" where
  "group_ok i g \<longleftrightarrow> i \<noteq> 0 \<and> groupID g = i \<and> distinct (guids g) \<and> (\<forall>m\<in>set (gMembers g). mGroupID m = i)"

definition in_slot :: "groups_realm \<Rightarrow> u64 \<Rightarrow> nat \<Rightarrow> u64 \<Rightarrow> bool" where
  "in_slot s i k p \<longleftrightarrow> (\<exists>g. groupsCache s i = Some g \<and> k < length (gMembers g) \<and> guids g ! k = p)"

text \<open>The pointers are exactly the slots of the cached groups, so nobody is in two groups.\<close>

definition cache_wf :: "groups_realm \<Rightarrow> bool" where
  "cache_wf s \<longleftrightarrow> (\<forall>i g. groupsCache s i = Some g \<longrightarrow> group_ok i g) \<and>
     (\<forall>p i k. groupMembersCache s p = Some (i, k) \<longleftrightarrow> in_slot s i k p)"

lemma cache_wf_group: "cache_wf s \<Longrightarrow> groupsCache s i = Some g \<Longrightarrow> group_ok i g"
  by (simp add: cache_wf_def)

lemma cache_wf_pointer: "cache_wf s \<Longrightarrow> groupMembersCache s p = Some (i, k) \<longleftrightarrow> in_slot s i k p"
  by (simp add: cache_wf_def)

lemma in_slotI: "groupsCache s i = Some g \<Longrightarrow> p \<in> set (guids g) \<Longrightarrow> \<exists>k. in_slot s i k p"
  unfolding in_slot_def in_set_conv_nth by auto

lemma in_slot_member: "in_slot s i k p \<Longrightarrow> \<exists>g. groupsCache s i = Some g \<and> p \<in> set (guids g)"
  unfolding in_slot_def by (metis length_map nth_mem)

lemma guid_slot_unique:
  "distinct (guids g) \<Longrightarrow> k < length (gMembers g) \<Longrightarrow> l < length (gMembers g) \<Longrightarrow> guids g ! k = guids g ! l \<Longrightarrow> k = l"
  by (metis length_map nth_eq_iff_index_eq)

lemma one_group:
  assumes "cache_wf s" "groupsCache s i = Some g" "groupsCache s j = Some h" "p \<in> set (guids g)" "p \<in> set (guids h)"
  shows "i = j"
proof -
  obtain k l where "in_slot s i k p" "in_slot s j l p" using assms in_slotI by metis
  with assms(1) show ?thesis by (metis cache_wf_pointer option.inject prod.inject)
qed

lemma groupMemberByGUID_wf:
  assumes "cache_wf s"
  shows "groupMemberByGUID p s = Some m \<longleftrightarrow> (\<exists>i g. groupsCache s i = Some g \<and> m \<in> set (gMembers g) \<and> MemberGUID m = p)"
    (is "?L \<longleftrightarrow> ?R")
proof
  assume ?L
  then obtain i k g where "groupMembersCache s p = Some (i, k)" "groupsCache s i = Some g" "m = gMembers g ! k"
    by (auto simp: groupMemberByGUID_def split: option.splits)
  moreover from this have "k < length (gMembers g)" "MemberGUID m = p"
    using cache_wf_pointer [OF assms, of p i k] by (auto simp: in_slot_def)
  ultimately show ?R by (metis nth_mem)
next
  assume ?R
  then obtain i g k where g: "groupsCache s i = Some g" "k < length (gMembers g)" "m = gMembers g ! k" "MemberGUID m = p"
    by (auto simp: in_set_conv_nth)
  then have "in_slot s i k p" by (auto simp: in_slot_def)
  then have "groupMembersCache s p = Some (i, k)" using cache_wf_pointer [OF assms] by blast
  then show ?L using g by (simp add: groupMemberByGUID_def)
qed

lemma GroupIDByPlayer_wf:
  assumes "cache_wf s" "i \<noteq> 0"
  shows "GroupIDByPlayer p s = i \<longleftrightarrow> (\<exists>g. groupsCache s i = Some g \<and> p \<in> set (guids g))"
proof
  assume "GroupIDByPlayer p s = i"
  then obtain m where m: "groupMemberByGUID p s = Some m" "mGroupID m = i"
    using assms(2) by (auto simp: GroupIDByPlayer_def split: option.splits)
  then obtain j g where "groupsCache s j = Some g" "m \<in> set (gMembers g)" "MemberGUID m = p"
    using groupMemberByGUID_wf [OF assms(1)] by blast
  then show "\<exists>g. groupsCache s i = Some g \<and> p \<in> set (guids g)"
    using cache_wf_group [OF assms(1)] m(2) by (fastforce simp: group_ok_def)
next
  assume "\<exists>g. groupsCache s i = Some g \<and> p \<in> set (guids g)"
  then obtain g m where g: "groupsCache s i = Some g" "m \<in> set (gMembers g)" "MemberGUID m = p" by auto
  then have "groupMemberByGUID p s = Some m" using groupMemberByGUID_wf [OF assms(1)] by blast
  then show "GroupIDByPlayer p s = i"
    using cache_wf_group [OF assms(1) g(1)] g(2) by (simp add: GroupIDByPlayer_def group_ok_def)
qed

lemma GroupIDByPlayer_0:
  assumes "cache_wf s"
  shows "GroupIDByPlayer p s = 0 \<longleftrightarrow> (\<forall>i g. groupsCache s i = Some g \<longrightarrow> p \<notin> set (guids g))"
proof -
  have "GroupIDByPlayer p s \<noteq> 0 \<longleftrightarrow> (\<exists>i g. groupsCache s i = Some g \<and> p \<in> set (guids g))"
    using GroupIDByPlayer_wf [OF assms] cache_wf_group [OF assms] by (metis group_ok_def)
  then show ?thesis by blast
qed

lemma refresh_groups [simp]:
  "groupsCache (refreshGroupMembersPointers g s) = groupsCache s"
  "dbGroups (refreshGroupMembersPointers g s) = dbGroups s"
  "dbMembers (refreshGroupMembersPointers g s) = dbMembers s"
  "dbInvites (refreshGroupMembersPointers g s) = dbInvites s"
  by (simp_all add: refreshGroupMembersPointers_def)

lemma refresh_pointers:
  assumes "distinct (guids g)"
  shows "groupMembersCache (refreshGroupMembersPointers g s) p =
    (if p \<in> set (guids g) then Some (groupID g, THE k. k < length (gMembers g) \<and> guids g ! k = p) else groupMembersCache s p)"
proof -
  define n where "n = length (gMembers g)"
  define c where "c m = foldl (\<lambda>c slot. c(MemberGUID (gMembers g ! slot) \<mapsto> (groupID g, slot))) (groupMembersCache s) [0..<m]" for m
  have *: "m \<le> n \<Longrightarrow> c m p = (if \<exists>k<m. guids g ! k = p then Some (groupID g, THE k. k < n \<and> guids g ! k = p) else groupMembersCache s p)" for m
  proof (induction m)
    case (Suc m)
    then have m: "m < n" by simp
    show ?case
    proof (cases "guids g ! m = p")
      case True
      have "(THE k. k < n \<and> guids g ! k = p) = m"
        using True m guid_slot_unique [OF assms] unfolding n_def by (intro the_equality) blast+
      with True m show ?thesis by (auto simp: c_def n_def)
    next
      case False
      have "c (Suc m) p = c m p" using False m by (simp add: c_def n_def)
      moreover have "(\<exists>k<Suc m. guids g ! k = p) \<longleftrightarrow> (\<exists>k<m. guids g ! k = p)" using False less_Suc_eq by auto
      ultimately show ?thesis using Suc by simp
    qed
  qed (simp add: c_def)
  have "p \<in> set (guids g) \<longleftrightarrow> (\<exists>k<n. guids g ! k = p)" by (metis in_set_conv_nth length_map n_def)
  moreover have "groupMembersCache (refreshGroupMembersPointers g s) p = c n p"
    by (simp add: refreshGroupMembersPointers_def c_def n_def)
  ultimately show ?thesis using * [of n] by (simp only: n_def order_refl)
qed

lemma refresh_pointer_iff:
  assumes "distinct (guids g)"
  shows "groupMembersCache (refreshGroupMembersPointers g s) p = Some (i, k) \<longleftrightarrow>
    (if p \<in> set (guids g) then i = groupID g \<and> k < length (gMembers g) \<and> guids g ! k = p else groupMembersCache s p = Some (i, k))"
proof (cases "p \<in> set (guids g)")
  case True
  then obtain l where l: "l < length (gMembers g)" "guids g ! l = p" by (auto simp: in_set_conv_nth)
  then have "(THE k. k < length (gMembers g) \<and> guids g ! k = p) = l"
    using guid_slot_unique [OF assms] by (intro the_equality) blast+
  moreover have "k < length (gMembers g) \<and> guids g ! k = p \<longleftrightarrow> k = l"
    using l assms by (metis length_map nth_eq_iff_index_eq)
  ultimately show ?thesis using True by (auto simp: refresh_pointers [OF assms])
qed (simp add: refresh_pointers [OF assms])

text \<open>Replacing or adding one group and refreshing its pointers.\<close>

lemma cache_wf_install:
  assumes wf: "cache_wf s" and g: "group_ok i g"
    and others: "\<And>j h. j \<noteq> i \<Longrightarrow> groupsCache s j = Some h \<Longrightarrow> set (guids h) \<inter> set (guids g) = {}"
    and s': "groupsCache s' = (groupsCache s)(i \<mapsto> g)"
      "groupMembersCache s' = groupMembersCache (refreshGroupMembersPointers g s0)"
    and s0: "\<And>p. p \<notin> set (guids g) \<Longrightarrow> groupMembersCache s0 p =
      (if \<exists>h. groupsCache s i = Some h \<and> p \<in> set (guids h) then None else groupMembersCache s p)"
  shows "cache_wf s'"
  unfolding cache_wf_def
proof (intro conjI allI impI)
  show "group_ok j h" if "groupsCache s' j = Some h" for j h
    using that g cache_wf_group [OF wf] by (auto simp: s' split: if_splits)
  fix p j k
  have d: "distinct (guids g)" "groupID g = i" using g by (simp_all add: group_ok_def)
  show "groupMembersCache s' p = Some (j, k) \<longleftrightarrow> in_slot s' j k p"
  proof (cases "p \<in> set (guids g)")
    case True
    have "in_slot s' j k p \<longleftrightarrow> j = i \<and> k < length (gMembers g) \<and> guids g ! k = p"
    proof (cases "j = i")
      case False
      then have "\<not> in_slot s' j k p"
        using others [OF False] True in_slot_member [of s' j k p] by (auto simp: s')
      with False show ?thesis by simp
    qed (auto simp: in_slot_def s')
    then show ?thesis using True by (auto simp: s'(2) refresh_pointer_iff [OF d(1)] d(2))
  next
    case False
    have "k < length (gMembers g) \<Longrightarrow> guids g ! k \<noteq> p" using False by (metis length_map nth_mem)
    then have slot: "in_slot s' j k p \<longleftrightarrow> j \<noteq> i \<and> in_slot s j k p" by (auto simp: in_slot_def s')
    show ?thesis
    proof (cases "\<exists>h. groupsCache s i = Some h \<and> p \<in> set (guids h)")
      case True
      then have "\<not> (j \<noteq> i \<and> in_slot s j k p)" using one_group [OF wf] in_slot_member by metis
      with True slot False s0 show ?thesis by (simp add: s'(2) refresh_pointer_iff [OF d(1)])
    next
      case False2: False
      then have "in_slot s j k p \<Longrightarrow> j \<noteq> i" using in_slot_member by metis
      with False2 slot False s0 cache_wf_pointer [OF wf] show ?thesis
        by (auto simp: s'(2) refresh_pointer_iff [OF d(1)])
    qed
  qed
qed

text \<open>Changing fields of a group, or online flags, but not who is in it.\<close>

lemma cache_wf_fields:
  assumes "cache_wf s" "groupsCache s i = Some g" "groupID g' = groupID g"
    "guids g' = guids g" "map mGroupID (gMembers g') = map mGroupID (gMembers g)"
    and "groupsCache s' = (groupsCache s)(i \<mapsto> g')" "groupMembersCache s' = groupMembersCache s"
  shows "cache_wf s'"
proof -
  have len: "length (gMembers g') = length (gMembers g)" by (metis assms(4) length_map)
  have "mGroupID ` set (gMembers g') = mGroupID ` set (gMembers g)" by (metis assms(5) list.set_map)
  moreover have g: "group_ok i g" by (rule cache_wf_group [OF assms(1,2)])
  ultimately have "group_ok i g'"
    using assms(3,4) unfolding group_ok_def by (metis image_iff)
  moreover have "in_slot s' j k p \<longleftrightarrow> in_slot s j k p" for j k p
    using assms(2,4,6) len by (simp add: in_slot_def)
  ultimately show ?thesis using assms(1,6,7) unfolding cache_wf_def by simp
qed

section \<open>The cache and the tables\<close>

text \<open>Rows of a member table are unique per player, and the cached groups are what the tables hold.\<close>

definition mirrored :: "groups_realm \<Rightarrow> u64 \<Rightarrow> Group \<Rightarrow> bool" where
  "mirrored s i g \<longleftrightarrow> dbGroups s i = Some (group_row g) \<and>
     filter (\<lambda>r. mGroupID r = i) (dbMembers s) = map member_row (gMembers g)"

definition grp_inv :: "groups_realm \<Rightarrow> bool" where
  "grp_inv s \<longleftrightarrow> cache_wf s \<and> distinct (map MemberGUID (dbMembers s)) \<and>
     (\<forall>r\<in>set (dbMembers s). mGroupID r \<in> dom (dbGroups s)) \<and>
     (\<forall>i g. groupsCache s i = Some g \<longrightarrow> mirrored s i g)"

text \<open>
  What the code relies on: no statement fails by itself, a player has at most one row of the member
  table (its primary key), and the ids given to new groups are not 0.
\<close>

definition good_env :: "grp_env \<Rightarrow> bool" where
  "good_env env \<longleftrightarrow> (\<forall>st. \<not> dbFails env st) \<and>
     (\<forall>rows m. schemaRejects env rows m \<longleftrightarrow> MemberGUID m \<in> MemberGUID ` set rows) \<and>
     (\<forall>s. lastInsertId env s \<noteq> 0)"

lemma good_envD:
  assumes "good_env env"
  shows "\<not> dbFails env st" "schemaRejects env rows m \<longleftrightarrow> MemberGUID m \<in> MemberGUID ` set rows"
    "lastInsertId env s \<noteq> 0"
  using assms by (simp_all add: good_env_def)

lemma member_row_simps [simp]:
  "MemberGUID (member_row m) = MemberGUID m" "mGroupID (member_row m) = mGroupID m"
  by (simp_all add: member_row_def)

lemma group_row_simps [simp]: "group_row (g\<lparr>gMembers := ms\<rparr>) = group_row g" "groupID (group_row g) = groupID g"
  by (simp_all add: group_row_def)

lemma grp_invD:
  assumes "grp_inv s"
  shows "cache_wf s" "distinct (map MemberGUID (dbMembers s))" "r \<in> set (dbMembers s) \<Longrightarrow> mGroupID r \<in> dom (dbGroups s)"
    "groupsCache s i = Some g \<Longrightarrow> mirrored s i g"
  using assms by (simp_all add: grp_inv_def)

lemma cached_in_db:
  assumes "grp_inv s" "groupsCache s i = Some g" "p \<in> set (guids g)"
  shows "p \<in> MemberGUID ` set (dbMembers s)"
proof -
  have "map MemberGUID (filter (\<lambda>r. mGroupID r = i) (dbMembers s)) = guids g"
    using grp_invD(4) [OF assms(1,2)] by (simp add: mirrored_def comp_def)
  then have "p \<in> set (map MemberGUID (filter (\<lambda>r. mGroupID r = i) (dbMembers s)))" using assms(3) by simp
  then show ?thesis by auto
qed

text \<open>Changing fields: assign to the cached group, then write it to the table.\<close>

lemma cache_Update_inv:
  assumes "good_env env" "grp_inv s" "groupsCache s i = Some g" "gMembers g' = gMembers g" "groupID g' = groupID g"
  shows "\<exists>s'. cache_Update env g' (put_group g' s) = (s', None) \<and> grp_inv s' \<and>
    groupsCache s' = (groupsCache s)(i \<mapsto> g') \<and> groupMembersCache s' = groupMembersCache s \<and> dbInvites s' = dbInvites s"
proof -
  note inv = grp_invD [OF assms(2)]
  have i: "groupID g = i" using cache_wf_group [OF inv(1) assms(3)] by (simp add: group_ok_def)
  have "dbGroups s i \<noteq> None" using inv(4) [OF assms(3)] by (simp add: mirrored_def)
  then have upd: "cache_Update env g' (put_group g' s) =
      (s\<lparr>groupsCache := (groupsCache s)(i \<mapsto> g'), dbGroups := (dbGroups s)(i \<mapsto> group_row g')\<rparr>, None)"
    using good_envD(1) [OF assms(1)] assms(5) i by (simp add: cache_Update_def mysql_Update_def put_group_def domIff)
  moreover have "grp_inv (s\<lparr>groupsCache := (groupsCache s)(i \<mapsto> g'), dbGroups := (dbGroups s)(i \<mapsto> group_row g')\<rparr>)"
    unfolding grp_inv_def
  proof (intro conjI)
    show "cache_wf (s\<lparr>groupsCache := (groupsCache s)(i \<mapsto> g'), dbGroups := (dbGroups s)(i \<mapsto> group_row g')\<rparr>)"
      by (rule cache_wf_fields [OF inv(1) assms(3)]) (simp_all add: assms(4,5))
  qed (use inv assms(3,4) in \<open>auto simp: mirrored_def\<close>)
  ultimately show ?thesis by simp
qed

lemma filter_snoc_other: "mGroupID x \<noteq> i \<Longrightarrow> filter (\<lambda>r. mGroupID r = i) (xs @ [x]) = filter (\<lambda>r. mGroupID r = i) xs"
  by simp

lemma cache_AddMember_inv:
  assumes "good_env env" "grp_inv s" "groupsCache s (mGroupID m) = Some g" "cache_AddMember env m s = (s', e)"
  shows "grp_inv s' \<and> (if e = None then groupsCache s' = (groupsCache s)(mGroupID m \<mapsto> g\<lparr>gMembers := gMembers g @ [m]\<rparr>)
     \<and> GroupIDByPlayer (MemberGUID m) s = 0 else s' = s)"
proof (cases "MemberGUID m \<in> MemberGUID ` set (dbMembers s)")
  case True
  then have "s' = s" "e \<noteq> None"
    using assms(4) good_envD(1,2) [OF assms(1)] by (auto simp: cache_AddMember_def mysql_AddMember_def)
  then show ?thesis using assms(2) by auto
next
  case False
  note inv = grp_invD [OF assms(2)]
  let ?i = "mGroupID m" and ?g = "g\<lparr>gMembers := gMembers g @ [m]\<rparr>"
  define s1 where "s1 = s\<lparr>dbMembers := dbMembers s @ [member_row m], groupsCache := (groupsCache s)(?i \<mapsto> ?g)\<rparr>"
  have ok: "group_ok ?i g" by (rule cache_wf_group [OF inv(1) assms(3)])
  then have res: "s' = refreshGroupMembersPointers ?g s1" "e = None"
    using assms(3,4) False good_envD(1,2) [OF assms(1)]
    by (auto simp: cache_AddMember_def mysql_AddMember_def s1_def put_group_def group_ok_def Let_def)
  have new: "MemberGUID m \<notin> set (guids h)" if "groupsCache s j = Some h" for j h
    using cached_in_db [OF assms(2) that] False by blast
  have "cache_wf s'"
  proof (rule cache_wf_install [OF inv(1), of ?i ?g])
    show "group_ok ?i ?g" using ok new [OF assms(3)] by (simp add: group_ok_def)
    show "set (guids h) \<inter> set (guids ?g) = {}" if "j \<noteq> ?i" "groupsCache s j = Some h" for j h
      using one_group [OF inv(1) assms(3) that(2)] that(1) new [OF that(2)] by auto
    show "groupsCache s' = (groupsCache s)(?i \<mapsto> ?g)" by (simp add: res s1_def)
    show "groupMembersCache s' = groupMembersCache (refreshGroupMembersPointers ?g s1)" by (simp add: res)
    show "groupMembersCache s1 p = (if \<exists>h. groupsCache s ?i = Some h \<and> p \<in> set (guids h) then None else groupMembersCache s p)"
      if "p \<notin> set (guids ?g)" for p using that assms(3) by (simp add: s1_def)
  qed
  moreover have "mirrored s' j h" if "groupsCache s' j = Some h" for j h
    using that inv(4) [of j h] inv(4) [OF assms(3)] ok
    by (cases "j = ?i") (auto simp: res s1_def mirrored_def)
  moreover have "mGroupID r \<in> dom (dbGroups s')" if "r \<in> set (dbMembers s')" for r
    using that inv(3) inv(4) [OF assms(3)] by (auto simp: res s1_def mirrored_def)
  moreover have "distinct (map MemberGUID (dbMembers s'))" using False inv(2) by (simp add: res s1_def)
  moreover have "GroupIDByPlayer (MemberGUID m) s = 0" using new by (simp add: GroupIDByPlayer_0 [OF inv(1)])
  ultimately show ?thesis by (auto simp: grp_inv_def res(2)) (simp add: res s1_def)
qed

lemma db_rows_of_group:
  assumes "grp_inv s" "groupsCache s i = Some g" "r \<in> set (dbMembers s)" "MemberGUID r \<in> set (guids g)"
  shows "mGroupID r = i"
proof -
  have "map MemberGUID (filter (\<lambda>r. mGroupID r = i) (dbMembers s)) = guids g"
    using grp_invD(4) [OF assms(1,2)] by (simp add: mirrored_def comp_def)
  from arg_cong [OF this, of set] assms(4) have "MemberGUID r \<in> MemberGUID ` {r \<in> set (dbMembers s). mGroupID r = i}"
    by simp
  then obtain r' where "r' \<in> set (dbMembers s)" "mGroupID r' = i" "MemberGUID r' = MemberGUID r"
    by auto
  with assms(3) grp_invD(2) [OF assms(1)] show ?thesis by (metis distinct_map inj_on_def)
qed

lemma remove_member_row:
  assumes "distinct (guids g)"
  shows "map member_row (remove_first (\<lambda>m. MemberGUID m = p) (gMembers g)) =
    filter (\<lambda>r. MemberGUID r \<noteq> p) (map member_row (gMembers g))"
  using remove_first_unique_key [OF assms, of p] by (simp add: filter_map comp_def)

lemma cache_RemoveMember_inv:
  assumes "good_env env" "grp_inv s" "groupsCache s i = Some g" "p \<in> set (guids g)"
    and g': "g' = g\<lparr>gMembers := remove_first (\<lambda>m. MemberGUID m = p) (gMembers g)\<rparr>"
  shows "\<exists>s'. cache_RemoveMember env p s = (s', None) \<and> grp_inv s' \<and> groupsCache s' = (groupsCache s)(i \<mapsto> g') \<and>
    dbInvites s' = dbInvites s"
proof -
  note inv = grp_invD [OF assms(2)]
  have ok: "group_ok i g" by (rule cache_wf_group [OF inv(1) assms(3)])
  then have d: "distinct (guids g)" and gid: "i \<noteq> 0" "groupID g = i" by (simp_all add: group_ok_def)
  have byp: "GroupIDByPlayer p s = i" using GroupIDByPlayer_wf [OF inv(1) gid(1)] assms(3,4) by blast
  define s0 where "s0 = s\<lparr>dbMembers := filter (\<lambda>m. MemberGUID m \<noteq> p) (dbMembers s), groupsCache := (groupsCache s)(i \<mapsto> g'),
      groupMembersCache := (groupMembersCache s)(p := None)\<rparr>"
  define s' where "s' = refreshGroupMembersPointers g' s0"
  have "GroupIDByPlayer p (s\<lparr>dbMembers := x\<rparr>) = i" for x
    using byp by (auto simp: GroupIDByPlayer_def groupMemberByGUID_def split: option.splits)
  then have res: "cache_RemoveMember env p s = (s', None)"
    using assms(3,4) good_envD(1) [OF assms(1)]
    by (auto simp: cache_RemoveMember_def mysql_RemoveMember_def GroupByID_def put_group_def Let_def s'_def s0_def g' gid)
  have guids': "guids g' = filter (\<lambda>x. x \<noteq> p) (guids g)"
    using remove_first_unique_key [OF d, of p] by (simp add: g' filter_map comp_def)
  have "cache_wf s'"
  proof (rule cache_wf_install [OF inv(1), of i g'])
    have "set (gMembers g') \<subseteq> set (gMembers g)" by (simp add: g' set_remove_first_subset)
    then show "group_ok i g'" using ok guids' by (auto simp: group_ok_def g')
    show "set (guids h) \<inter> set (guids g') = {}" if "j \<noteq> i" "groupsCache s j = Some h" for j h
      using one_group [OF inv(1) assms(3) that(2)] that(1) guids' by fastforce
    show "groupMembersCache s0 q = (if \<exists>h. groupsCache s i = Some h \<and> q \<in> set (guids h) then None else groupMembersCache s q)"
      if "q \<notin> set (guids g')" for q
    proof -
      have "q = p \<or> q \<notin> set (guids g)" using that unfolding guids' by auto
      then show ?thesis using assms(3,4) by (cases "q = p") (simp_all add: s0_def)
    qed
  qed (simp_all add: s'_def s0_def)
  moreover have "mirrored s' j h" if "groupsCache s' j = Some h" for j h
  proof (cases "j = i")
    case True
    with that have "h = g'" by (simp add: s'_def s0_def)
    have "filter (\<lambda>r. mGroupID r = i) (filter (\<lambda>m. MemberGUID m \<noteq> p) (dbMembers s)) =
        filter (\<lambda>m. MemberGUID m \<noteq> p) (filter (\<lambda>r. mGroupID r = i) (dbMembers s))"
      by (simp add: conj_commute)
    also have "\<dots> = map member_row (gMembers g')"
      using inv(4) [OF assms(3)] remove_member_row [OF d, of p] by (simp add: mirrored_def g')
    finally show ?thesis
      using True \<open>h = g'\<close> inv(4) [OF assms(3)] by (simp add: mirrored_def s'_def s0_def g')
  next
    case False
    then have h: "groupsCache s j = Some h" using that by (simp add: s'_def s0_def)
    have "filter (\<lambda>r. mGroupID r = j) (filter (\<lambda>m. MemberGUID m \<noteq> p) (dbMembers s)) = filter (\<lambda>r. mGroupID r = j) (dbMembers s)"
      using db_rows_of_group [OF assms(2,3)] assms(4) False by (auto simp: filter_filter intro!: filter_cong)
    then show ?thesis using inv(4) [OF h] by (simp add: mirrored_def s'_def s0_def)
  qed
  moreover have "distinct (map MemberGUID (dbMembers s'))"
    using inv(2) by (simp add: s'_def s0_def distinct_map_filter)
  moreover have "\<forall>r\<in>set (dbMembers s'). mGroupID r \<in> dom (dbGroups s')" using inv(3) by (auto simp: s'_def s0_def)
  ultimately have "grp_inv s'" by (simp add: grp_inv_def)
  with res show ?thesis by (auto simp: s'_def s0_def)
qed

lemma cache_Delete_inv:
  assumes "good_env env" "grp_inv s" "groupsCache s i = Some g"
  shows "\<exists>s'. cache_Delete env i s = (s', None) \<and> grp_inv s' \<and> groupsCache s' = (groupsCache s)(i := None) \<and>
    dbGroups s' = (dbGroups s)(i := None) \<and> dbInvites s' = dbInvites s"
proof -
  note inv = grp_invD [OF assms(2)]
  define s' where "s' = s\<lparr>dbMembers := filter (\<lambda>m. mGroupID m \<noteq> i) (dbMembers s), dbGroups := (dbGroups s)(i := None),
      groupMembersCache := delete_all (groupMembersCache s) (guids g), groupsCache := (groupsCache s)(i := None)\<rparr>"
  have res: "cache_Delete env i s = (s', None)"
    using assms(3) good_envD(1) [OF assms(1)] by (simp add: cache_Delete_def mysql_Delete_def GroupByID_def Let_def s'_def)
  have "cache_wf s'"
    unfolding cache_wf_def
  proof (intro conjI allI impI)
    show "group_ok j h" if "groupsCache s' j = Some h" for j h
      using that cache_wf_group [OF inv(1)] by (simp add: s'_def split: if_splits)
    fix p j k
    have slot: "in_slot s' j k p \<longleftrightarrow> j \<noteq> i \<and> in_slot s j k p" by (auto simp: in_slot_def s'_def)
    show "groupMembersCache s' p = Some (j, k) \<longleftrightarrow> in_slot s' j k p"
    proof (cases "p \<in> set (guids g)")
      case True
      then have "\<not> (j \<noteq> i \<and> in_slot s j k p)" using one_group [OF inv(1) assms(3)] in_slot_member by metis
      with True slot show ?thesis by (simp add: s'_def)
    next
      case False
      then have "in_slot s j k p \<Longrightarrow> j \<noteq> i" using in_slot_member assms(3) by fastforce
      then show ?thesis using False slot cache_wf_pointer [OF inv(1)] by (auto simp: s'_def)
    qed
  qed
  moreover have "mirrored s' j h" if "groupsCache s' j = Some h" for j h
  proof -
    have "j \<noteq> i" "groupsCache s j = Some h" using that by (auto simp: s'_def split: if_splits)
    moreover from this have "filter (\<lambda>r. mGroupID r = j) (filter (\<lambda>m. mGroupID m \<noteq> i) (dbMembers s)) = filter (\<lambda>r. mGroupID r = j) (dbMembers s)"
      by (auto simp: filter_filter intro!: filter_cong)
    ultimately show ?thesis using inv(4) by (simp add: mirrored_def s'_def)
  qed
  moreover have "distinct (map MemberGUID (dbMembers s'))" using inv(2) by (simp add: s'_def distinct_map_filter)
  moreover have "\<forall>r\<in>set (dbMembers s'). mGroupID r \<in> dom (dbGroups s')" using inv(3) by (auto simp: s'_def)
  ultimately have "grp_inv s'" by (simp add: grp_inv_def)
  with res show ?thesis by (auto simp: s'_def)
qed

lemma insert_members_inv:
  assumes "good_env env" "insert_members env i ms s = (s', ok)" "distinct (map MemberGUID (dbMembers s))"
    and "i \<in> dom (dbGroups s)" "\<forall>r\<in>set (dbMembers s). mGroupID r \<in> dom (dbGroups s)"
  shows "\<exists>rs. s' = s\<lparr>dbMembers := dbMembers s @ rs\<rparr> \<and> distinct (map MemberGUID (dbMembers s')) \<and> (\<forall>r\<in>set rs. mGroupID r = i) \<and>
    (ok \<longrightarrow> rs = map (\<lambda>m. member_row (m\<lparr>mGroupID := i\<rparr>)) ms \<and> distinct (map MemberGUID ms) \<and>
      MemberGUID ` set ms \<inter> MemberGUID ` set (dbMembers s) = {})"
  using assms
proof (induction ms arbitrary: s)
  case (Cons m ms)
  let ?r = "member_row (m\<lparr>mGroupID := i\<rparr>)"
  show ?case
  proof (cases "MemberGUID m \<in> MemberGUID ` set (dbMembers s)")
    case True
    then have "s' = s" "\<not> ok" using Cons.prems(1,2) good_envD(1,2) [OF assms(1)] by (auto simp: mysql_AddMember_def)
    then show ?thesis using Cons.prems(3) by (intro exI [of _ "[]"]) simp
  next
    case False
    let ?s1 = "s\<lparr>dbMembers := dbMembers s @ [?r]\<rparr>"
    have rec: "insert_members env i ms ?s1 = (s', ok)"
      using Cons.prems(1,2) False good_envD(1,2) [OF assms(1)] by (auto simp: mysql_AddMember_def)
    have "distinct (map MemberGUID (dbMembers ?s1))" "i \<in> dom (dbGroups ?s1)" "\<forall>r\<in>set (dbMembers ?s1). mGroupID r \<in> dom (dbGroups ?s1)"
      using Cons.prems(3-5) False by auto
    from Cons.IH [OF assms(1) rec this] obtain rs where rs:
      "s' = ?s1\<lparr>dbMembers := dbMembers ?s1 @ rs\<rparr> \<and> distinct (map MemberGUID (dbMembers s')) \<and> (\<forall>r\<in>set rs. mGroupID r = i) \<and>
       (ok \<longrightarrow> rs = map (\<lambda>m. member_row (m\<lparr>mGroupID := i\<rparr>)) ms \<and> distinct (map MemberGUID ms) \<and>
        MemberGUID ` set ms \<inter> MemberGUID ` set (dbMembers ?s1) = {})" by (rule exE)
    show ?thesis
    proof (intro exI [of _ "?r # rs"] conjI impI)
      show "s' = s\<lparr>dbMembers := dbMembers s @ ?r # rs\<rparr>" using rs by simp
      show "distinct (map MemberGUID (dbMembers s'))" using rs by blast
      show "\<forall>r\<in>set (?r # rs). mGroupID r = i" using rs by simp
      assume ok
      then have "rs = map (\<lambda>m. member_row (m\<lparr>mGroupID := i\<rparr>)) ms" "distinct (map MemberGUID ms)"
        and new: "MemberGUID ` set ms \<inter> MemberGUID ` set (dbMembers ?s1) = {}" using rs by blast+
      moreover have "MemberGUID ` set (dbMembers ?s1) = insert (MemberGUID m) (MemberGUID ` set (dbMembers s))" by simp
      ultimately show "?r # rs = map (\<lambda>m. member_row (m\<lparr>mGroupID := i\<rparr>)) (m # ms)" "distinct (map MemberGUID (m # ms))"
        "MemberGUID ` set (m # ms) \<inter> MemberGUID ` set (dbMembers s) = {}"
        using False by auto
    qed
  qed
qed auto

text \<open>
  A new group is cached when all its rows are written. When the schema rejects a member, because a
  player has joined a group meanwhile, the row of the group stays in the table.
\<close>

lemma cache_Create_inv:
  assumes "good_env env" "grp_inv s" "cache_Create env g s = (s', g', e)"
  shows "grp_inv s' \<and> dbInvites s' = dbInvites s \<and>
    (if e = None then groupsCache s' = (groupsCache s)(groupID g' \<mapsto> g') \<and> groupsCache s (groupID g') = None \<and>
       gMembers g' = map (\<lambda>m. m\<lparr>mGroupID := groupID g'\<rparr>) (gMembers g) \<and> groupID g' \<noteq> 0
     else groupsCache s' = groupsCache s)"
proof (cases "dbGroups s (lastInsertId env s) = None")
  case False
  then have "s' = s" "e \<noteq> None" using assms(3) by (auto simp: cache_Create_def mysql_Create_def)
  then show ?thesis using assms(2) by auto
next
  case free: True
  note inv = grp_invD [OF assms(2)]
  define i where "i = lastInsertId env s"
  have i: "i \<noteq> 0" "dbGroups s i = None" using good_envD(3) [OF assms(1)] free by (auto simp: i_def)
  then have nocache: "groupsCache s i = None" using inv(4) [of i] by (cases "groupsCache s i") (auto simp: mirrored_def)
  have norows: "filter (\<lambda>r. mGroupID r = i) (dbMembers s) = []" using inv(3) i(2) by (auto simp: filter_empty_conv)
  define h where "h = g\<lparr>groupID := i, gMembers := map (\<lambda>m. m\<lparr>mGroupID := i\<rparr>) (gMembers g)\<rparr>"
  define s1 where "s1 = s\<lparr>dbGroups := (dbGroups s)(i \<mapsto> group_row h)\<rparr>"
  obtain s2 ok where ins: "insert_members env i (gMembers g) s1 = (s2, ok)" by force
  have "distinct (map MemberGUID (dbMembers s1))" "i \<in> dom (dbGroups s1)" "\<forall>r\<in>set (dbMembers s1). mGroupID r \<in> dom (dbGroups s1)"
    using inv(2,3) by (auto simp: s1_def)
  from insert_members_inv [OF assms(1) ins this] obtain rs where rs:
    "s2 = s1\<lparr>dbMembers := dbMembers s1 @ rs\<rparr> \<and> distinct (map MemberGUID (dbMembers s2)) \<and> (\<forall>r\<in>set rs. mGroupID r = i) \<and>
     (ok \<longrightarrow> rs = map (\<lambda>m. member_row (m\<lparr>mGroupID := i\<rparr>)) (gMembers g) \<and> distinct (guids g) \<and>
        MemberGUID ` set (gMembers g) \<inter> MemberGUID ` set (dbMembers s1) = {})" by (rule exE)
  then have s2: "s2 = s1\<lparr>dbMembers := dbMembers s1 @ rs\<rparr>" "distinct (map MemberGUID (dbMembers s2))" "\<forall>r\<in>set rs. mGroupID r = i"
    by (blast, blast, blast)
  have oks: "ok \<Longrightarrow> rs = map (\<lambda>m. member_row (m\<lparr>mGroupID := i\<rparr>)) (gMembers g)" "ok \<Longrightarrow> distinct (guids g)"
      "ok \<Longrightarrow> set (guids g) \<inter> MemberGUID ` set (dbMembers s) = {}"
    using rs by (simp, simp, simp add: s1_def)
  have mysql: "mysql_Create env g s = (s2, h, ok)"
    unfolding mysql_Create_def Let_def i_def [symmetric] h_def [symmetric] s1_def [symmetric] ins
    using good_envD(1) [OF assms(1)] i(2) by simp
  have "groupID h = i" by (simp add: h_def)
  then have res: "g' = h" "s' = (if ok then refreshGroupMembersPointers h (s2\<lparr>groupsCache := (groupsCache s2)(i \<mapsto> h)\<rparr>) else s2)"
      "e = (if ok then None else Some DBError)"
    using assms(3) by (auto simp: cache_Create_def mysql split: if_splits)
  have rows: "dbMembers s' = dbMembers s @ rs" "dbGroups s' = (dbGroups s)(i \<mapsto> group_row h)" "dbInvites s' = dbInvites s"
    by (simp_all add: res s2(1) s1_def)
  have cached: "groupsCache s' = (if ok then (groupsCache s)(i \<mapsto> h) else groupsCache s)" by (simp add: res s2(1) s1_def)
  have guids_h: "guids h = guids g" by (simp add: h_def comp_def)
  have wf: "cache_wf s'"
  proof (cases ok)
    case True
    show ?thesis
    proof (rule cache_wf_install [OF inv(1), of i h _ s2])
      show "group_ok i h" using oks(2) [OF True] i(1) unfolding group_ok_def guids_h by (simp add: h_def)
      show "set (guids k) \<inter> set (guids h) = {}" if "groupsCache s j = Some k" for j k
        using oks(3) [OF True] cached_in_db [OF assms(2) that] unfolding guids_h by blast
    qed (use True nocache in \<open>simp_all add: res s2(1) s1_def refreshGroupMembersPointers_def\<close>)
  next
    case False
    then have "cache_wf s' = cache_wf s" by (simp add: res s2(1) s1_def cache_wf_def in_slot_def)
    then show ?thesis using inv(1) by simp
  qed
  have "mirrored s' j k" if "groupsCache s' j = Some k" for j k
  proof (cases "j = i")
    case True
    with that nocache cached have "ok" "k = h" by (auto split: if_splits)
    with True oks(1) norows show ?thesis by (simp add: mirrored_def rows h_def filter_map comp_def)
  next
    case False
    then have "groupsCache s j = Some k" using that cached by (simp split: if_splits)
    moreover have "filter (\<lambda>r. mGroupID r = j) rs = []" using s2(3) False by (auto simp: filter_empty_conv)
    ultimately show ?thesis using inv(4) False by (simp add: mirrored_def rows)
  qed
  moreover have "\<forall>r\<in>set (dbMembers s'). mGroupID r \<in> dom (dbGroups s')" using inv(3) s2(3) by (auto simp: rows)
  moreover have "distinct (map MemberGUID (dbMembers s'))" using s2 rows(1) by (simp add: s1_def)
  ultimately have "grp_inv s'" using wf by (simp add: grp_inv_def)
  then show ?thesis using rows(3) cached res(1,3) nocache i(1) by (auto simp: h_def)
qed

lemma set_online_inv:
  assumes "grp_inv s"
  shows "grp_inv (set_online p b s)"
proof (cases "groupMembersCache s p")
  case None
  then show ?thesis using assms by (simp add: set_online_def)
next
  case (Some ik)
  obtain i k where ik: "ik = (i, k)" by force
  note inv = grp_invD [OF assms]
  obtain g where g: "groupsCache s i = Some g" "k < length (gMembers g)"
    using cache_wf_pointer [OF inv(1), of p i k] Some ik by (auto simp: in_slot_def)
  let ?g = "g\<lparr>gMembers := (gMembers g)[k := (gMembers g ! k)\<lparr>IsOnline := b\<rparr>]\<rparr>"
  have id: "groupID g = i" using cache_wf_group [OF inv(1) g(1)] by (simp add: group_ok_def)
  have s': "set_online p b s = s\<lparr>groupsCache := (groupsCache s)(i \<mapsto> ?g)\<rparr>"
    using Some ik g(1) id by (simp add: set_online_def put_group_def)
  have same: "map f (gMembers ?g) = map f (gMembers g)" if "f ((gMembers g ! k)\<lparr>IsOnline := b\<rparr>) = f (gMembers g ! k)" for f
    using that g(2) by (simp add: map_update list_update_same_conv)
  have "cache_wf (set_online p b s)"
    by (rule cache_wf_fields [OF inv(1) g(1), of ?g]) (simp_all add: s' same [simplified])
  moreover have "mirrored (set_online p b s) j h" if "groupsCache (set_online p b s) j = Some h" for j h
    using that inv(4) [OF g(1)] inv(4) [of j h] same [of member_row]
    by (cases "j = i") (auto simp: s' mirrored_def member_row_def)
  ultimately show ?thesis using inv(2,3) by (simp add: grp_inv_def s')
qed

section \<open>Reloading\<close>

lemma load_members_result:
  "load_members env rs gs = Some gs' \<Longrightarrow>
     gs' i = map_option (\<lambda>g. g\<lparr>gMembers := gMembers g @ map (\<lambda>r. case the (characterRow env (MemberGUID r)) of (n, online) \<Rightarrow>
       r\<lparr>MemberName := n, IsOnline := online\<rparr>) (filter (\<lambda>r. mGroupID r = i) rs)\<rparr>) (gs i)"
proof (induction rs arbitrary: gs)
  case Nil
  then show ?case by (simp add: option.map_ident_strong)
next
  case (Cons r rs)
  obtain n online where c: "characterRow env (MemberGUID r) = Some (n, online)"
    using Cons.prems by (auto split: option.splits)
  let ?gs = "case gs (mGroupID r) of None \<Rightarrow> gs
    | Some g \<Rightarrow> gs(mGroupID r \<mapsto> g\<lparr>gMembers := gMembers g @ [r\<lparr>MemberName := n, IsOnline := online\<rparr>]\<rparr>)"
  have "load_members env rs ?gs = Some gs'" using Cons.prems c by simp
  from Cons.IH [OF this] show ?case using c by (cases "gs (mGroupID r)") auto
qed

text \<open>The same group, up to what is not stored in the tables: names and online flags.\<close>

definition same_group :: "Group \<Rightarrow> Group \<Rightarrow> bool" where
  "same_group g h \<longleftrightarrow> group_row g = group_row h \<and> map member_row (gMembers g) = map member_row (gMembers h)"

lemma reload_same:
  assumes "grp_inv s" "groupsCache s i = Some g" "LoadAllForRealm env s = Some gs"
  shows "\<exists>h. gs i = Some h \<and> same_group g h"
proof -
  have m: "dbGroups s i = Some (group_row g)" "filter (\<lambda>r. mGroupID r = i) (dbMembers s) = map member_row (gMembers g)"
    using grp_invD(4) [OF assms(1,2)] by (simp_all add: mirrored_def)
  have row: "member_row (member_row x) = member_row x" for x by (simp add: member_row_def)
  have "member_row (case c of (n, online) \<Rightarrow> member_row x\<lparr>MemberName := n, IsOnline := online\<rparr>) = member_row x" for c x
    by (cases c) (simp add: member_row_def)
  then show ?thesis
    using load_members_result [OF assms(3) [unfolded LoadAllForRealm_def], of i] m
    by (simp add: same_group_def comp_def group_row_def)
qed

end
