(* ===== verification/Group_Service.thy ===== *)
theory Group_Service
  imports Group_Cache
begin

text \<open>
  The group service, \<^verbatim>\<open>apps/groupserver/service/group.go\<close>, over the cache of one realm. Every mutating
  call holds the lock of the group it changes (see the theory of the locks), so a call is one step here.
  A call returns the new state, the events it produced and its error. \<open>emit\<close> is producing an event whose
  failure is only logged. Fields of a cached group are assigned before they are written to the table.
\<close>

section \<open>Events and maps\<close>

datatype grp_event =
    InviteCreated u64 u64 u64 string string
  | GroupCreated Group
  | MemberAdded u64 u64 string "u64 list"
  | GroupMemberLeft u64 u64 string u64 "u64 list"
  | GroupDisband u64 "u64 list"
  | LeaderChanged u64 u64 u64 "u64 list"
  | ConvertedToRaid u64 u64 "u64 list"
  | SendChatMessage u64 u64 string u32 string u8 "u64 list"
  | TargetIconUpdated u64 u64 u64 u8 "u64 list"
  | LootTypeChanged u64 u8 u64 u8 "u64 list"
  | GroupDifficultyChanged u64 u64 "u8 option" "u8 option" "u64 list"
  | GroupMemberOnlineStatusChanged u64 u64 bool "u64 list"

type_synonym grp_result = "groups_realm \<times> grp_event list \<times> grp_error option"

definition emit :: "grp_env \<Rightarrow> grp_event \<Rightarrow> grp_event list" where
  "emit env ev = (if eventFails env then [] else [ev])"

definition dungeonMaps :: "nat list" where
  "dungeonMaps = [33, 34, 36, 43, 44, 47, 48, 70, 90, 109, 129, 189, 209, 229, 230, 269, 289, 329, 349, 389, 429, 540, 542, 543,
     545, 546, 547, 552, 553, 554, 555, 556, 557, 558, 560, 574, 575, 576, 578, 585, 595, 598, 599, 600, 601, 602, 604, 608, 619,
     632, 650, 658, 668]"

definition raidMaps :: "nat list" where
  "raidMaps = [169, 249, 309, 409, 469, 509, 531, 532, 533, 534, 544, 548, 550, 564, 565, 568, 580, 603, 615, 616, 624, 631, 649, 724]"

section \<open>Helpers\<close>

definition lockGroupOfPlayer :: "u64 \<Rightarrow> groups_realm \<Rightarrow> grp_error + u64" where
  "lockGroupOfPlayer player s = (if GroupIDByPlayer player s = 0 then Inl ErrGroupNotFound else Inr (GroupIDByPlayer player s))"

definition getGroupWithLeader :: "u64 \<Rightarrow> groups_realm \<Rightarrow> grp_error + Group" where
  "getGroupWithLeader leaderGUID s =
     (if GroupIDByPlayer leaderGUID s = 0 then Inl ErrGroupNotFound
      else case GroupByID (GroupIDByPlayer leaderGUID s) s of
        None \<Rightarrow> Inl ErrGroupNotFound
      | Some g \<Rightarrow> if gLeaderGUID g \<noteq> leaderGUID then Inl ErrNoPermissions else Inr g)"

text \<open>Assigns to fields of a cached group and writes the group.\<close>

definition update_group :: "grp_env \<Rightarrow> Group \<Rightarrow> grp_event list \<Rightarrow> groups_realm \<Rightarrow> grp_result" where
  "update_group env g evs s =
     (case cache_Update env g (put_group g s) of (s', Some e) \<Rightarrow> (s', [], Some e) | (s', None) \<Rightarrow> (s', evs, None))"

definition changeLeader :: "grp_env \<Rightarrow> Group \<Rightarrow> u64 \<Rightarrow> bool \<Rightarrow> groups_realm \<Rightarrow> grp_result" where
  "changeLeader env g newLeader needsEventUpdate s =
     update_group env (g\<lparr>gLeaderGUID := newLeader\<rparr>)
       (if needsEventUpdate then emit env (LeaderChanged (groupID g) (gLeaderGUID g) newLeader (OnlineMemberGUIDs g)) else []) s"

definition disband :: "grp_env \<Rightarrow> Group \<Rightarrow> groups_realm \<Rightarrow> grp_result" where
  "disband env g s =
     (case cache_Delete env (groupID g) s of
        (s', Some e) \<Rightarrow> (s', [], Some e)
      | (s', None) \<Rightarrow> (s', emit env (GroupDisband (groupID g) (OnlineMemberGUIDs g)), None))"

definition new_member :: "u64 \<Rightarrow> string \<Rightarrow> u64 \<Rightarrow> GroupMember" where
  "new_member guid nm i =
     \<lparr>mGroupID = i, MemberGUID = guid, MemberFlags = 0, MemberName = nm, IsOnline = True, SubGroup = 0, Roles = 0\<rparr>"

definition new_group :: "GroupInvite \<Rightarrow> Group" where
  "new_group invite =
     \<lparr>groupID = 0, gLeaderGUID = Inviter invite, LootMethod = 0, LooterGUID = Inviter invite, LootThreshold = 2,
      TargetIcons = replicate 8 0, GroupType = 0, Difficulty = 0, RaidDifficulty = 0, MasterLooterGuid = Inviter invite,
      gMembers = [new_member (Inviter invite) (InviterName invite) 0, new_member (Invitee invite) (InviteeName invite) 0]\<rparr>"

definition createGroup :: "grp_env \<Rightarrow> GroupInvite \<Rightarrow> groups_realm \<Rightarrow> grp_result" where
  "createGroup env invite s =
     (case cache_Create env (new_group invite) s of
        (s1, g, Some e) \<Rightarrow> (s1, [], Some e)
      | (s1, g, None) \<Rightarrow>
          if InviterGameServerID invite = [] then (fst (cache_Delete env (groupID g) s1), [], Some ErrNoGameServer)
          else if bindFails env then (fst (cache_Delete env (groupID g) s1), [], Some ErrBind)
          else (s1, emit env (GroupCreated g), None))"

definition addMember :: "grp_env \<Rightarrow> Group \<Rightarrow> GroupInvite \<Rightarrow> groups_realm \<Rightarrow> grp_result" where
  "addMember env g invite s =
     (case cache_AddMember env (new_member (Invitee invite) (InviteeName invite) (inviteGroupID invite)) s of
        (s', Some e) \<Rightarrow> (s', [], Some e)
      | (s', None) \<Rightarrow>
          (s', emit env (MemberAdded (groupID g) (Invitee invite) (InviteeName invite)
                 (case GroupByID (inviteGroupID invite) s' of None \<Rightarrow> [] | Some g' \<Rightarrow> OnlineMemberGUIDs g' @ [Invitee invite])), None))"

section \<open>Handlers\<close>

definition Invite ::
  "grp_env \<Rightarrow> u64 \<Rightarrow> u64 \<Rightarrow> string \<Rightarrow> string \<Rightarrow> u32 \<Rightarrow> string \<Rightarrow> groups_realm \<Rightarrow> grp_result" where
  "Invite env inviter invited inviterName invitedName inviterMapID inviterGameServerID s =
     (if GroupIDByPlayer invited s \<noteq> 0 then (s, [], Some ErrAlreadyInGroup)
      else
        (let inviterGroupID = GroupIDByPlayer inviter s;
             send = (case AddInvite env \<lparr>Inviter = inviter, InviterName = inviterName, Invitee = invited, InviteeName = invitedName,
                        inviteGroupID = inviterGroupID, InviterMapID = inviterMapID, InviterGameServerID = inviterGameServerID\<rparr> s of
                      (s', Some e) \<Rightarrow> (s', [], Some e)
                    | (s', None) \<Rightarrow> (s', emit env (InviteCreated inviterGroupID inviter invited inviterName invitedName), None))
         in if inviterGroupID = 0 then send
            else case GroupByID inviterGroupID s of
              None \<Rightarrow> (s, [], Some Panic)
            | Some g \<Rightarrow>
                (case MemberByGUID inviter g of
                   None \<Rightarrow> (s, [], Some ErrGroupMemberNotFound)
                 | Some member \<Rightarrow>
                     if \<not> (gLeaderGUID g = inviter \<or> IsAssistant member) then (s, [], Some ErrNoPermissions)
                     else if IsFull g then (s, [], Some ErrGroupFull)
                     else send)))"

definition AcceptInvite :: "grp_env \<Rightarrow> u64 \<Rightarrow> groups_realm \<Rightarrow> grp_result" where
  "AcceptInvite env player s =
     (case GetInviteByInvitedPlayer env player s of
        Inl e \<Rightarrow> (s, [], Some e)
      | Inr None \<Rightarrow> (s, [], Some ErrInviteNotFound)
      | Inr (Some invite) \<Rightarrow>
          if inviteGroupID invite = 0 then createGroup env invite s
          else case GroupByID (inviteGroupID invite) s of
            None \<Rightarrow> (s, [], Some ErrGroupNotFound)
          | Some g \<Rightarrow> addMember env g invite s)"

definition remove_from_group :: "grp_env \<Rightarrow> Group \<Rightarrow> GroupMember \<Rightarrow> groups_realm \<Rightarrow> grp_result" where
  "remove_from_group env g member s =
     (case cache_RemoveMember env (MemberGUID member) s of
        (s', Some e) \<Rightarrow> (s', [], Some e)
      | (s', None) \<Rightarrow>
          (s', emit env (GroupMemberLeft (groupID g) (MemberGUID member) (MemberName member) (gLeaderGUID g) (OnlineMemberGUIDs g)), None))"

definition Uninvite :: "grp_env \<Rightarrow> u64 \<Rightarrow> u64 \<Rightarrow> groups_realm \<Rightarrow> grp_result" where
  "Uninvite env initiator target s =
     (case lockGroupOfPlayer initiator s of
        Inl e \<Rightarrow> (s, [], Some e)
      | Inr i \<Rightarrow>
          (case GroupByID i s of
             None \<Rightarrow> (s, [], Some ErrGroupNotFound)
           | Some g \<Rightarrow>
               (case MemberByGUID target g of
                  None \<Rightarrow> (s, [], Some ErrGroupNotFound)
                | Some targetMember \<Rightarrow>
                    if gLeaderGUID g \<noteq> initiator then (s, [], Some ErrNoPermissions)
                    else if length (gMembers g) \<le> 2 then disband env g s
                    else remove_from_group env g targetMember s)))"

text \<open>The first member who is online and is not the one who leaves; 0 when there is none.\<close>

definition next_leader :: "u64 \<Rightarrow> Group \<Rightarrow> u64" where
  "next_leader player g =
     (case find (\<lambda>m. IsOnline m \<and> MemberGUID m \<noteq> player) (gMembers g) of None \<Rightarrow> 0 | Some m \<Rightarrow> MemberGUID m)"

definition Leave :: "grp_env \<Rightarrow> u64 \<Rightarrow> groups_realm \<Rightarrow> grp_result" where
  "Leave env player s =
     (case lockGroupOfPlayer player s of
        Inl e \<Rightarrow> (s, [], Some e)
      | Inr i \<Rightarrow>
          (case GroupByID i s of
             None \<Rightarrow> (s, [], Some Panic)
           | Some g \<Rightarrow>
               (case MemberByGUID player g of
                  None \<Rightarrow> (s, [], Some ErrGroupNotFound)
                | Some member \<Rightarrow>
                    if length (gMembers g) \<le> 2 then disband env g s
                    else if player = gLeaderGUID g
                    then case changeLeader env g (next_leader player g) False s of
                           (s', evs, Some e) \<Rightarrow> (s', evs, Some e)
                         | (s', evs, None) \<Rightarrow> remove_from_group env (g\<lparr>gLeaderGUID := next_leader player g\<rparr>) member s'
                    else remove_from_group env g member s)))"

definition ChangeLeader :: "grp_env \<Rightarrow> u64 \<Rightarrow> u64 \<Rightarrow> groups_realm \<Rightarrow> grp_result" where
  "ChangeLeader env player newLeader s =
     (case getGroupWithLeader player s of
        Inl e \<Rightarrow> (s, [], Some e)
      | Inr g \<Rightarrow>
          (case MemberByGUID newLeader g of
             None \<Rightarrow> (s, [], Some ErrGroupNotFound)
           | Some m \<Rightarrow> changeLeader env g newLeader True s))"

definition ConvertToRaid :: "grp_env \<Rightarrow> u64 \<Rightarrow> groups_realm \<Rightarrow> grp_result" where
  "ConvertToRaid env player s =
     (case getGroupWithLeader player s of
        Inl e \<Rightarrow> (s, [], Some e)
      | Inr g \<Rightarrow> update_group env (g\<lparr>GroupType := GroupType g OR 2\<rparr>)
          (emit env (ConvertedToRaid (groupID g) (gLeaderGUID g) (OnlineMemberGUIDs g))) s)"

definition SendMessage :: "grp_env \<Rightarrow> u64 \<Rightarrow> string \<Rightarrow> u32 \<Rightarrow> u8 \<Rightarrow> groups_realm \<Rightarrow> grp_result" where
  "SendMessage env senderGUID message lang messageType s =
     (case lockGroupOfPlayer senderGUID s of
        Inl e \<Rightarrow> (s, [], Some e)
      | Inr i \<Rightarrow>
          (case GroupByID i s of
             None \<Rightarrow> (s, [], Some ErrGroupNotFound)
           | Some g \<Rightarrow>
               (case MemberByGUID senderGUID g of
                  None \<Rightarrow> (s, [], Some ErrGroupMemberNotFound)
                | Some member \<Rightarrow>
                    if messageType \<notin> {0x2, 0x3, 0x33, 0x27} then (s, [], Some ErrUnsupported)
                    else if messageType \<in> {0x33, 0x27} \<and> gLeaderGUID g \<noteq> senderGUID then (s, [], Some ErrNoPermissions)
                    else (s, emit env (SendChatMessage (groupID g) senderGUID (MemberName member) lang message messageType
                            (OnlineMemberGUIDs g)), None))))"

text \<open>The icon a target already has is cleared first; \<open>clear_icon\<close> gives its index.\<close>

fun clear_icon :: "u64 \<Rightarrow> nat \<Rightarrow> u64 list \<Rightarrow> u64 list \<times> nat option" where
  "clear_icon target n [] = ([], None)"
| "clear_icon target n (t # ts) =
     (if t = target then (0 # ts, Some n) else case clear_icon target (Suc n) ts of (ts', r) \<Rightarrow> (t # ts', r))"

definition SetTargetIcon :: "grp_env \<Rightarrow> u64 \<Rightarrow> u8 \<Rightarrow> u64 \<Rightarrow> groups_realm \<Rightarrow> grp_result" where
  "SetTargetIcon env updaterGUID iconID targetGUID s =
     (if 8 \<le> iconID then (s, [], Some ErrUnsupported)
      else case lockGroupOfPlayer updaterGUID s of
        Inl e \<Rightarrow> (s, [], Some e)
      | Inr i \<Rightarrow>
          (case GroupByID i s of
             None \<Rightarrow> (s, [], Some ErrGroupNotFound)
           | Some g \<Rightarrow>
               if IsRaid g \<and> gLeaderGUID g \<noteq> updaterGUID \<and> MemberByGUID updaterGUID g = None then (s, [], Some Panic)
               else if IsRaid g \<and> gLeaderGUID g \<noteq> updaterGUID \<and> \<not> IsAssistant (the (MemberByGUID updaterGUID g))
               then (s, [], Some ErrNoPermissions)
               else
                 (let (icons, cleared) = clear_icon targetGUID 0 (TargetIcons g);
                      clear_ev = (case cleared of None \<Rightarrow> []
                                  | Some n \<Rightarrow> emit env (TargetIconUpdated (groupID g) 0 0 (of_nat n) (OnlineMemberGUIDs g)));
                      set_ev = emit env (TargetIconUpdated (groupID g) updaterGUID targetGUID iconID (OnlineMemberGUIDs g))
                  in case update_group env (g\<lparr>TargetIcons := icons[unat iconID := targetGUID]\<rparr>) set_ev s of
                       (s', evs, e) \<Rightarrow> (s', clear_ev @ evs, e))))"

definition loot_threshold :: "u8 \<Rightarrow> Group \<Rightarrow> u8" where
  "loot_threshold lootThreshold g =
     (if lootThreshold < 2 \<or> 6 < lootThreshold
      then if LootThreshold g < 2 \<or> 6 < LootThreshold g then 2 else LootThreshold g
      else lootThreshold)"

definition SetLootMethod :: "grp_env \<Rightarrow> u64 \<Rightarrow> u8 \<Rightarrow> u64 \<Rightarrow> u8 \<Rightarrow> groups_realm \<Rightarrow> grp_result" where
  "SetLootMethod env updaterGUID lmethod lootMaster lootThreshold s =
     (case getGroupWithLeader updaterGUID s of
        Inl e \<Rightarrow> (s, [], Some e)
      | Inr g \<Rightarrow>
          if 4 < lmethod then (s, [], Some ErrNoPermissions)
          else if lmethod = 2 \<and> MemberByGUID lootMaster g = None then (s, [], Some ErrGroupMemberNotFound)
          else let t = loot_threshold lootThreshold g
               in update_group env (g\<lparr>LootMethod := lmethod, LootThreshold := t, LooterGUID := lootMaster\<rparr>)
                    (emit env (LootTypeChanged (groupID g) lmethod lootMaster t (OnlineMemberGUIDs g))) s)"

definition SetDungeonDifficulty :: "grp_env \<Rightarrow> u64 \<Rightarrow> u8 \<Rightarrow> groups_realm \<Rightarrow> grp_result" where
  "SetDungeonDifficulty env updaterGUID difficulty s =
     (case getGroupWithLeader updaterGUID s of
        Inl e \<Rightarrow> (s, [], Some e)
      | Inr g \<Rightarrow>
          (case onlineMaps env (OnlineMemberGUIDs g) of
             None \<Rightarrow> (s, [], Some ErrCharacters)
           | Some maps \<Rightarrow>
               if \<exists>m\<in>set maps. unat m \<in> set dungeonMaps then (s, [], Some ErrMemberInDungeonOrRaid)
               else update_group env (g\<lparr>Difficulty := difficulty\<rparr>)
                      (emit env (GroupDifficultyChanged (groupID g) updaterGUID (Some difficulty) None (OnlineMemberGUIDs g))) s))"

definition SetRaidDifficulty :: "grp_env \<Rightarrow> u64 \<Rightarrow> u8 \<Rightarrow> groups_realm \<Rightarrow> grp_result" where
  "SetRaidDifficulty env updaterGUID difficulty s =
     (case getGroupWithLeader updaterGUID s of
        Inl e \<Rightarrow> (s, [], Some e)
      | Inr g \<Rightarrow>
          (case onlineMaps env (OnlineMemberGUIDs g) of
             None \<Rightarrow> (s, [], Some ErrCharacters)
           | Some maps \<Rightarrow>
               if \<exists>m\<in>set maps. unat m \<in> set raidMaps then (s, [], Some ErrMemberInDungeonOrRaid)
               else update_group env (g\<lparr>RaidDifficulty := difficulty\<rparr>)
                      (emit env (GroupDifficultyChanged (groupID g) updaterGUID None (Some difficulty) (OnlineMemberGUIDs g))) s))"

text \<open>
  The cache and the service consume a login separately, in either order. The service fails with the event.
\<close>

definition online_status :: "grp_env \<Rightarrow> u64 \<Rightarrow> bool \<Rightarrow> groups_realm \<Rightarrow> grp_result" where
  "online_status env player online s =
     (if GroupIDByPlayer player s = 0 then (s, [], None)
      else case GroupByID (GroupIDByPlayer player s) s of
        None \<Rightarrow> (s, [], Some Panic)
      | Some g \<Rightarrow>
          if eventFails env then (s, [], Some ErrEvent)
          else (s, [GroupMemberOnlineStatusChanged (groupID g) player online (OnlineMemberGUIDs g)], None))"

definition HandleCharacterLoggedIn :: "grp_env \<Rightarrow> u64 \<Rightarrow> groups_realm \<Rightarrow> grp_result" where
  "HandleCharacterLoggedIn env player s = online_status env player True s"

definition HandleCharacterLoggedOut :: "grp_env \<Rightarrow> u64 \<Rightarrow> groups_realm \<Rightarrow> grp_result" where
  "HandleCharacterLoggedOut env player s = online_status env player False s"

section \<open>The invariant\<close>

definition group_shape :: "Group \<Rightarrow> bool" where
  "group_shape g \<longleftrightarrow> 2 \<le> length (gMembers g) \<and> length (TargetIcons g) = 8 \<and> distinct (filter (\<lambda>t. t \<noteq> 0) (TargetIcons g))"

definition grp_good :: "groups_realm \<Rightarrow> bool" where
  "grp_good s \<longleftrightarrow> grp_inv s \<and> (\<forall>i g. groupsCache s i = Some g \<longrightarrow> group_shape g)"

lemma grp_goodD: "grp_good s \<Longrightarrow> grp_inv s" "grp_good s \<Longrightarrow> groupsCache s i = Some g \<Longrightarrow> group_shape g"
  "grp_good s \<Longrightarrow> cache_wf s" "grp_good s \<Longrightarrow> groupsCache s i = Some g \<Longrightarrow> groupID g = i"
  by (auto simp: grp_good_def grp_inv_def cache_wf_def group_ok_def)

lemma grp_good_replace:
  assumes "grp_good s" "grp_inv s'" "groupsCache s' = (groupsCache s)(i \<mapsto> g)" "group_shape g"
  shows "grp_good s'"
  using assms by (simp add: grp_good_def)

lemma MemberByGUID_Some: "MemberByGUID p g = Some m \<Longrightarrow> m \<in> set (gMembers g) \<and> MemberGUID m = p"
  by (auto simp: MemberByGUID_def find_Some_iff)

lemma MemberByGUID_None: "MemberByGUID p g = None \<longleftrightarrow> p \<notin> set (guids g)"
  by (auto simp: MemberByGUID_def find_None_iff)

lemma locked_group:
  assumes "grp_good s" "lockGroupOfPlayer p s = Inr i"
  shows "\<exists>g. groupsCache s i = Some g \<and> p \<in> set (guids g)"
  using assms GroupIDByPlayer_wf [OF grp_goodD(3) [OF assms(1)], of i p]
  by (auto simp: lockGroupOfPlayer_def split: if_splits)

lemma led_group: "grp_good s \<Longrightarrow> getGroupWithLeader p s = Inr g \<Longrightarrow> \<exists>i. groupsCache s i = Some g \<and> gLeaderGUID g = p"
  by (auto simp: getGroupWithLeader_def GroupByID_def split: if_splits option.splits)

lemma update_group_good:
  assumes "good_env env" "grp_good s" "groupsCache s i = Some g" "gMembers g' = gMembers g" "groupID g' = groupID g"
    "group_shape g'" "update_group env g' evs s = (s', evs', e)"
  shows "grp_good s' \<and> e = None \<and> groupsCache s' = (groupsCache s)(i \<mapsto> g') \<and> evs' = evs"
proof -
  obtain s1 where "cache_Update env g' (put_group g' s) = (s1, None)" "grp_inv s1" "groupsCache s1 = (groupsCache s)(i \<mapsto> g')"
    using cache_Update_inv [OF assms(1) grp_goodD(1) [OF assms(2)] assms(3-5)] by blast
  with assms(7) grp_good_replace [OF assms(2) _ _ assms(6)] show ?thesis by (auto simp: update_group_def)
qed

lemma disband_good:
  assumes "good_env env" "grp_good s" "groupsCache s i = Some g" "disband env g s = (s', evs, e)"
  shows "grp_good s' \<and> e = None \<and> groupsCache s' = (groupsCache s)(i := None)"
proof -
  have "groupID g = i" by (rule grp_goodD(4) [OF assms(2,3)])
  moreover obtain s1 where "cache_Delete env i s = (s1, None)" "grp_inv s1" "groupsCache s1 = (groupsCache s)(i := None)"
    using cache_Delete_inv [OF assms(1) grp_goodD(1) [OF assms(2)] assms(3)] by blast
  ultimately show ?thesis using assms(2,4) by (auto simp: disband_def grp_good_def split: if_splits)
qed

lemma remove_good:
  assumes "good_env env" "grp_good s" "groupsCache s i = Some g" "2 < length (gMembers g)"
    and "m \<in> set (gMembers g)" "remove_from_group env g' m s = (s', evs, e)"
  shows "grp_good s' \<and> e = None \<and>
    groupsCache s' = (groupsCache s)(i \<mapsto> g\<lparr>gMembers := remove_first (\<lambda>x. MemberGUID x = MemberGUID m) (gMembers g)\<rparr>)"
proof -
  let ?g = "g\<lparr>gMembers := remove_first (\<lambda>x. MemberGUID x = MemberGUID m) (gMembers g)\<rparr>"
  have "MemberGUID m \<in> set (guids g)" using assms(5) by simp
  from cache_RemoveMember_inv [OF assms(1) grp_goodD(1) [OF assms(2)] assms(3) this refl]
  obtain s1 where s1: "cache_RemoveMember env (MemberGUID m) s = (s1, None)" "grp_inv s1" "groupsCache s1 = (groupsCache s)(i \<mapsto> ?g)"
    by blast
  have "group_shape ?g"
    using grp_goodD(2) [OF assms(2,3)] assms(4) by (auto simp: group_shape_def length_remove_first)
  from grp_good_replace [OF assms(2) s1(2,3) this] s1 assms(6) show ?thesis by (auto simp: remove_from_group_def)
qed

lemma createGroup_good:
  assumes "good_env env" "grp_good s" "createGroup env invite s = (s', evs, e)"
  shows "grp_good s'"
proof -
  obtain s1 g e1 where c: "cache_Create env (new_group invite) s = (s1, g, e1)" by (rule prod_cases3)
  note inv = cache_Create_inv [OF assms(1) grp_goodD(1) [OF assms(2)] c]
  show ?thesis
  proof (cases e1)
    case (Some x)
    then show ?thesis using inv assms(2,3) c by (auto simp: createGroup_def grp_good_def)
  next
    case None
    then have i: "grp_inv s1" "groupsCache s1 = (groupsCache s)(groupID g \<mapsto> g)"
      "gMembers g = map (\<lambda>m. m\<lparr>mGroupID := groupID g\<rparr>) (gMembers (new_group invite))"
      using inv by auto
    have "TargetIcons g = TargetIcons (new_group invite)"
      using c None good_envD(1) [OF assms(1)]
      by (auto simp: cache_Create_def mysql_Create_def Let_def split: prod.splits if_splits)
    with i(3) have "group_shape g" by (simp add: group_shape_def new_group_def)
    then have s1: "grp_good s1" by (rule grp_good_replace [OF assms(2) i(1,2)])
    have "groupsCache s1 (groupID g) = Some g" using i(2) by simp
    from cache_Delete_inv [OF assms(1) i(1) this] obtain s2 where
      "cache_Delete env (groupID g) s1 = (s2, None)" "grp_inv s2" "groupsCache s2 = (groupsCache s1)(groupID g := None)" by blast
    moreover from this s1 have "grp_good s2" by (simp add: grp_good_def)
    ultimately show ?thesis using assms(3) c None s1 by (auto simp: createGroup_def split: if_splits)
  qed
qed

lemma addMember_good:
  assumes "good_env env" "grp_good s" "groupsCache s (inviteGroupID invite) = Some g" "addMember env g invite s = (s', evs, e)"
  shows "grp_good s'"
proof -
  let ?m = "new_member (Invitee invite) (InviteeName invite) (inviteGroupID invite)"
  obtain s1 e1 where a: "cache_AddMember env ?m s = (s1, e1)" by force
  have "groupsCache s (mGroupID ?m) = Some g" using assms(3) by (simp add: new_member_def)
  from cache_AddMember_inv [OF assms(1) grp_goodD(1) [OF assms(2)] this a] have
    "grp_inv s1" "e1 = None \<Longrightarrow> groupsCache s1 = (groupsCache s)(mGroupID ?m \<mapsto> g\<lparr>gMembers := gMembers g @ [?m]\<rparr>)"
    "e1 \<noteq> None \<Longrightarrow> s1 = s" by auto
  moreover have "group_shape (g\<lparr>gMembers := gMembers g @ [?m]\<rparr>)"
    using grp_goodD(2) [OF assms(2,3)] by (simp add: group_shape_def)
  ultimately have "grp_good s1" using grp_good_replace [OF assms(2)] assms(2) by (cases e1) auto
  then show ?thesis using assms(4) a by (auto simp: addMember_def split: option.splits)
qed

lemma set_online_good: "grp_good s \<Longrightarrow> grp_good (set_online p b s)"
  using set_online_inv [of s p b]
  by (auto simp: grp_good_def set_online_def put_group_def group_shape_def split: option.splits if_splits)

subsection \<open>Target icons\<close>

abbreviation marked :: "u64 list \<Rightarrow> u64 list" where
  "marked \<equiv> filter (\<lambda>t. t \<noteq> 0)"

lemma clear_icon_length: "length (fst (clear_icon t n ts)) = length ts"
  by (induction t n ts rule: clear_icon.induct) (auto split: prod.splits)

lemma clear_icon_subset: "set (fst (clear_icon t n ts)) \<subseteq> insert 0 (set ts)"
  by (induction t n ts rule: clear_icon.induct) (auto split: prod.splits)

lemma clear_icon_marked: "distinct (marked ts) \<Longrightarrow> distinct (marked (fst (clear_icon t n ts)))"
proof (induction t n ts rule: clear_icon.induct)
  case (2 target n t ts)
  then show ?case using clear_icon_subset [of target "Suc n" ts] by (auto split: prod.splits)
qed simp

lemma clear_icon_gone: "distinct (marked ts) \<Longrightarrow> t \<noteq> 0 \<Longrightarrow> t \<notin> set (fst (clear_icon t n ts))"
  by (induction t n ts rule: clear_icon.induct) (auto split: prod.splits if_splits)

lemma marked_update:
  assumes "distinct (marked ts)" "t = 0 \<or> t \<notin> set ts"
  shows "distinct (marked (ts[k := t]))"
  using assms
proof (induction ts arbitrary: k)
  case (Cons x ts)
  then show ?case
    using set_update_subset_insert [of ts _ t] by (cases k) (auto split: if_splits)
qed simp

lemma icon_shape:
  assumes "group_shape g" "clear_icon t 0 (TargetIcons g) = (ts, r)"
  shows "group_shape (g\<lparr>TargetIcons := ts[k := t]\<rparr>)"
proof -
  have ts: "ts = fst (clear_icon t 0 (TargetIcons g))" using assms(2) by simp
  have d: "distinct (marked (TargetIcons g))" using assms(1) by (simp add: group_shape_def)
  have "distinct (marked (ts[k := t]))"
    unfolding ts using clear_icon_marked [OF d] clear_icon_gone [OF d] by (intro marked_update) auto
  then show ?thesis using assms(1) by (simp add: group_shape_def ts clear_icon_length)
qed

subsection \<open>Every call\<close>

lemma Invite_cache: "Invite env p q np nq m gs s = (s', evs, e) \<Longrightarrow> \<exists>x. s' = s\<lparr>dbInvites := x\<rparr>"
  by (auto simp: Invite_def AddInvite_def Let_def split: if_splits option.splits intro: exI [of _ "dbInvites s"])

lemma grp_good_invites: "grp_good s \<Longrightarrow> grp_good (s\<lparr>dbInvites := x\<rparr>)"
  by (simp add: grp_good_def grp_inv_def cache_wf_def in_slot_def mirrored_def)

lemma led_update_good:
  assumes "good_env env" "grp_good s" "getGroupWithLeader p s = Inr g" "gMembers g' = gMembers g" "groupID g' = groupID g"
    "TargetIcons g' = TargetIcons g" "update_group env g' evs s = (s', evs', e)"
  shows "grp_good s'"
proof -
  obtain i where i: "groupsCache s i = Some g" using led_group [OF assms(2,3)] by blast
  moreover have "group_shape g'" using grp_goodD(2) [OF assms(2) i] assms(4,6) by (simp add: group_shape_def)
  ultimately show ?thesis using update_group_good [OF assms(1,2) i assms(4,5)] assms(7) by blast
qed

lemma AcceptInvite_good:
  "good_env env \<Longrightarrow> grp_good s \<Longrightarrow> AcceptInvite env p s = (s', evs, e) \<Longrightarrow> grp_good s'"
  by (auto simp: AcceptInvite_def GroupByID_def dest: createGroup_good addMember_good split: sum.splits option.splits if_splits)

lemma Uninvite_good:
  assumes "good_env env" "grp_good s" "Uninvite env p t s = (s', evs, e)"
  shows "grp_good s'"
  using assms(2,3)
  by (auto simp: Uninvite_def GroupByID_def dest: disband_good [OF assms(1,2)] remove_good [OF assms(1,2)] MemberByGUID_Some
      split: sum.splits option.splits if_splits)

lemma Leave_result:
  assumes "good_env env" "grp_good s" "Leave env p s = (s', evs, e)" "groupsCache s i = Some g" "p \<in> set (guids g)"
  shows "grp_good s' \<and> e = None \<and>
    (if length (gMembers g) \<le> 2 then groupsCache s' = (groupsCache s)(i := None)
     else \<exists>h. groupsCache s' = (groupsCache s)(i \<mapsto> h) \<and> guids h = filter (\<lambda>q. q \<noteq> p) (guids g))"
proof -
  note wf = grp_goodD(3) [OF assms(2)]
  have ok: "group_ok i g" by (rule cache_wf_group [OF wf assms(4)])
  have l: "lockGroupOfPlayer p s = Inr i"
    using GroupIDByPlayer_wf [OF wf, of i p] assms(4,5) ok by (auto simp: lockGroupOfPlayer_def group_ok_def)
  obtain m where m: "MemberByGUID p g = Some m" using assms(5) MemberByGUID_None [of p g] by auto
  then have mem: "m \<in> set (gMembers g)" "MemberGUID m = p" using MemberByGUID_Some by auto
  have cut: "map MemberGUID (remove_first (\<lambda>x. MemberGUID x = p) (gMembers g)) = filter (\<lambda>q. q \<noteq> p) (guids g)"
    using remove_first_unique_key [of MemberGUID "gMembers g" p] ok by (simp add: group_ok_def filter_map comp_def)
  let ?g = "g\<lparr>gLeaderGUID := next_leader p g\<rparr>"
  show ?thesis
  proof (cases "length (gMembers g) \<le> 2")
    case True
    then show ?thesis using disband_good [OF assms(1,2,4)] assms(3) l m assms(4) by (auto simp: Leave_def GroupByID_def)
  next
    case False
    show ?thesis
    proof (cases "p = gLeaderGUID g")
      case True
      obtain s1 evs1 e1 where c: "changeLeader env g (next_leader p g) False s = (s1, evs1, e1)" by (rule prod_cases3)
      have shape: "group_shape ?g" using grp_goodD(2) [OF assms(2,4)] by (simp add: group_shape_def)
      have s1: "grp_good s1" "e1 = None" "groupsCache s1 = (groupsCache s)(i \<mapsto> ?g)"
        using update_group_good [OF assms(1,2,4) _ _ shape c [unfolded changeLeader_def]] by auto
      have r: "remove_from_group env ?g m s1 = (s', evs, e)"
        using assms(3,4) l m False True c s1(2) by (simp add: Leave_def GroupByID_def)
      have "groupsCache s1 i = Some ?g" using s1(3) by simp
      from remove_good [OF assms(1) s1(1) this _ _ r] False mem cut s1(3) show ?thesis by auto
    next
      case noleader: False
      then have r: "remove_from_group env g m s = (s', evs, e)"
        using assms(3,4) l m False by (simp add: Leave_def GroupByID_def)
      from remove_good [OF assms(1,2,4) _ mem(1) r] False mem(2) cut show ?thesis by auto
    qed
  qed
qed

lemma Leave_good:
  assumes "good_env env" "grp_good s" "Leave env p s = (s', evs, e)"
  shows "grp_good s'"
proof (cases "lockGroupOfPlayer p s")
  case (Inl x)
  then show ?thesis using assms(2,3) by (simp add: Leave_def)
next
  case (Inr i)
  then show ?thesis using locked_group [OF assms(2) Inr] Leave_result [OF assms] by blast
qed

lemma ChangeLeader_good: "good_env env \<Longrightarrow> grp_good s \<Longrightarrow> ChangeLeader env p q s = (s', evs, e) \<Longrightarrow> grp_good s'"
  by (auto simp: ChangeLeader_def changeLeader_def elim: led_update_good [where p = p, rotated 6] split: sum.splits option.splits)

lemma ConvertToRaid_good: "good_env env \<Longrightarrow> grp_good s \<Longrightarrow> ConvertToRaid env p s = (s', evs, e) \<Longrightarrow> grp_good s'"
  by (auto simp: ConvertToRaid_def elim: led_update_good [where p = p, rotated 6] split: sum.splits)

lemma SetLootMethod_good: "good_env env \<Longrightarrow> grp_good s \<Longrightarrow> SetLootMethod env p x q t s = (s', evs, e) \<Longrightarrow> grp_good s'"
  by (auto simp: SetLootMethod_def Let_def elim: led_update_good [where p = p, rotated 6] split: sum.splits if_splits)

lemma SetDungeonDifficulty_good: "good_env env \<Longrightarrow> grp_good s \<Longrightarrow> SetDungeonDifficulty env p d s = (s', evs, e) \<Longrightarrow> grp_good s'"
  by (auto simp: SetDungeonDifficulty_def elim: led_update_good [where p = p, rotated 6] split: sum.splits option.splits if_splits)

lemma SetRaidDifficulty_good: "good_env env \<Longrightarrow> grp_good s \<Longrightarrow> SetRaidDifficulty env p d s = (s', evs, e) \<Longrightarrow> grp_good s'"
  by (auto simp: SetRaidDifficulty_def elim: led_update_good [where p = p, rotated 6] split: sum.splits option.splits if_splits)

lemma SetTargetIcon_good:
  assumes "good_env env" "grp_good s" "SetTargetIcon env p icon t s = (s', evs, e)"
  shows "grp_good s'"
proof -
  have u: "grp_good s1"
    if "groupsCache s i = Some g" "clear_icon t 0 (TargetIcons g) = (ts, r)"
      "update_group env (g\<lparr>TargetIcons := ts[unat icon := t]\<rparr>) ev s = (s1, evs1, e1)" for i g ts r ev s1 evs1 e1
    using update_group_good [OF assms(1,2) that(1) _ _ icon_shape [OF grp_goodD(2) [OF assms(2) that(1)] that(2)] that(3)] by simp
  show ?thesis
    using assms(2,3)
    by (auto simp: SetTargetIcon_def GroupByID_def Let_def dest: u split: if_splits sum.splits option.splits prod.splits)
qed

section \<open>Reachable states\<close>

inductive grp_step :: "groups_realm \<Rightarrow> groups_realm \<Rightarrow> bool" where
  "good_env env \<Longrightarrow> Invite env p q np nq m gs s = (s', evs, e) \<Longrightarrow> grp_step s s'"
| "good_env env \<Longrightarrow> AcceptInvite env p s = (s', evs, e) \<Longrightarrow> grp_step s s'"
| "good_env env \<Longrightarrow> Uninvite env p q s = (s', evs, e) \<Longrightarrow> grp_step s s'"
| "good_env env \<Longrightarrow> Leave env p s = (s', evs, e) \<Longrightarrow> grp_step s s'"
| "good_env env \<Longrightarrow> ChangeLeader env p q s = (s', evs, e) \<Longrightarrow> grp_step s s'"
| "good_env env \<Longrightarrow> ConvertToRaid env p s = (s', evs, e) \<Longrightarrow> grp_step s s'"
| "good_env env \<Longrightarrow> SetTargetIcon env p icon t s = (s', evs, e) \<Longrightarrow> grp_step s s'"
| "good_env env \<Longrightarrow> SetLootMethod env p x q th s = (s', evs, e) \<Longrightarrow> grp_step s s'"
| "good_env env \<Longrightarrow> SetDungeonDifficulty env p d s = (s', evs, e) \<Longrightarrow> grp_step s s'"
| "good_env env \<Longrightarrow> SetRaidDifficulty env p d s = (s', evs, e) \<Longrightarrow> grp_step s s'"
| "grp_step s (cache_HandleCharacterLoggedIn p s)"
| "grp_step s (cache_HandleCharacterLoggedOut p s)"

lemma grp_step_good:
  assumes "grp_step s s'" "grp_good s"
  shows "grp_good s'"
  using assms
proof cases
  case (1 env p q np nq m gs evs e)
  then show ?thesis using Invite_cache grp_good_invites [OF assms(2)] by blast
qed (use assms(2) in \<open>auto simp: cache_HandleCharacterLoggedIn_def cache_HandleCharacterLoggedOut_def
      intro: AcceptInvite_good Uninvite_good Leave_good ChangeLeader_good ConvertToRaid_good SetTargetIcon_good SetLootMethod_good
        SetDungeonDifficulty_good SetRaidDifficulty_good set_online_good\<close>)

definition fresh_realm :: groups_realm where
  "fresh_realm = \<lparr>dbGroups = Map.empty, dbMembers = [], dbInvites = Map.empty, groupsCache = Map.empty, groupMembersCache = Map.empty\<rparr>"

lemma fresh_good: "grp_good fresh_realm"
  by (simp add: grp_good_def grp_inv_def cache_wf_def in_slot_def fresh_realm_def)

lemma reachable_good: "grp_step\<^sup>*\<^sup>* fresh_realm s \<Longrightarrow> grp_good s"
  by (induction rule: rtranclp_induct) (auto intro: fresh_good grp_step_good)

text \<open>
  C3: Groups are well formed. However players invite, join, leave and log in and out, a lookup by
  player names the group that lists him, nobody is listed by two groups or twice, every group has at
  least two members, and no target carries two icons of a group.
\<close>

theorem groups_well_formed:
  assumes "grp_step\<^sup>*\<^sup>* fresh_realm s"
  shows "(i \<noteq> 0 \<longrightarrow> GroupIDByPlayer p s = i \<longleftrightarrow> (\<exists>g. GroupByID i s = Some g \<and> p \<in> MemberGUID ` set (gMembers g))) \<and>
    (\<forall>g. GroupByID i s = Some g \<longrightarrow> i \<noteq> 0 \<and> distinct (map MemberGUID (gMembers g)) \<and> 2 \<le> length (gMembers g) \<and>
      distinct (filter (\<lambda>t. t \<noteq> 0) (TargetIcons g)))"
proof -
  have good: "grp_good s" by (rule reachable_good [OF assms])
  have "i \<noteq> 0 \<Longrightarrow> GroupIDByPlayer p s = i \<longleftrightarrow> (\<exists>g. GroupByID i s = Some g \<and> p \<in> MemberGUID ` set (gMembers g))"
    using GroupIDByPlayer_wf [OF grp_goodD(3) [OF good], of i p] by (simp add: GroupByID_def)
  moreover have "i \<noteq> 0 \<and> distinct (map MemberGUID (gMembers g)) \<and> 2 \<le> length (gMembers g) \<and>
      distinct (filter (\<lambda>t. t \<noteq> 0) (TargetIcons g))" if "GroupByID i s = Some g" for g
    using grp_goodD(2) [OF good, of i g] cache_wf_group [OF grp_goodD(3) [OF good], of i g] that
    by (simp add: GroupByID_def group_shape_def group_ok_def)
  ultimately show ?thesis by blast
qed

text \<open>
  C12: The tables hold the cached groups. At any time, a server that starts and reads the tables finds
  every cached group with the same leader, settings and members; only names and online flags come from
  the characters.
\<close>

theorem cache_refines_tables:
  assumes "grp_step\<^sup>*\<^sup>* fresh_realm s" "GroupByID i s = Some g" "LoadAllForRealm env s = Some gs"
  shows "\<exists>h. gs i = Some h \<and> same_group g h"
  using reload_same [OF grp_goodD(1) [OF reachable_good [OF assms(1)]] _ assms(3)] assms(2) by (simp add: GroupByID_def)

definition ex_grp_env :: grp_env where
  "ex_grp_env = \<lparr>dbFails = (\<lambda>_. False), schemaRejects = (\<lambda>rows m. MemberGUID m \<in> MemberGUID ` set rows),
     lastInsertId = (\<lambda>s. if dbGroups s 1 = None then 1 else if dbGroups s 2 = None then 2 else 3),
     characterRow = (\<lambda>p. Some (''n'', True)), bindFails = False, onlineMaps = (\<lambda>_. Some []), eventFails = False\<rparr>"

lemma ex_grp_env_good: "good_env ex_grp_env"
  by (simp add: good_env_def ex_grp_env_def)

text \<open>\<open>ex_join a b\<close>: player \<open>a\<close> invites \<open>b\<close>, who accepts.\<close>

definition ex_invite :: "u64 \<Rightarrow> u64 \<Rightarrow> groups_realm \<Rightarrow> groups_realm" where
  "ex_invite a b s = fst (Invite ex_grp_env a b ''a'' ''b'' 0 ''gs'' s)"

definition ex_accept :: "u64 \<Rightarrow> groups_realm \<Rightarrow> groups_realm" where
  "ex_accept b s = fst (AcceptInvite ex_grp_env b s)"

definition ex_pair :: groups_realm where
  "ex_pair = ex_accept 11 (ex_invite 10 11 fresh_realm)"

lemma ex_invite_step: "grp_step s (ex_invite a b s)"
  unfolding ex_invite_def by (rule grp_step.intros(1) [OF ex_grp_env_good]) (simp add: prod_eq_iff)

lemma ex_accept_step: "grp_step s (ex_accept b s)"
  unfolding ex_accept_def by (rule grp_step.intros(2) [OF ex_grp_env_good]) (simp add: prod_eq_iff)

lemma ex_pair_reach: "grp_step\<^sup>*\<^sup>* fresh_realm ex_pair"
  unfolding ex_pair_def
  by (rule rtranclp.rtrancl_into_rtrancl [OF r_into_rtranclp]) (rule ex_invite_step ex_accept_step)+

theorem groups_well_formed_witness:
  "GroupIDByPlayer 11 ex_pair = 1 \<and> (\<exists>g. GroupByID 1 ex_pair = Some g \<and> 11 \<in> MemberGUID ` set (gMembers g))"
proof -
  have "GroupIDByPlayer 11 ex_pair = 1" by code_simp
  with groups_well_formed [OF ex_pair_reach, of 1 11] show ?thesis by simp
qed

theorem cache_refines_tables_witness:
  "\<exists>g gs h. GroupByID 1 ex_pair = Some g \<and> LoadAllForRealm ex_grp_env ex_pair = Some gs \<and> gs 1 = Some h \<and> same_group g h"
proof -
  have "GroupByID 1 ex_pair \<noteq> None" "LoadAllForRealm ex_grp_env ex_pair \<noteq> None" by code_simp+
  then obtain g gs where g: "GroupByID 1 ex_pair = Some g" "LoadAllForRealm ex_grp_env ex_pair = Some gs" by blast
  from cache_refines_tables [OF ex_pair_reach this] g show ?thesis by blast
qed

section \<open>Leaving\<close>

text \<open>
  C29: A player can always leave. Leaving succeeds for every member; afterwards he is in no group and
  can be invited again. The other members stay in the group, unless only one is left: then the group is
  disbanded and he is free as well. Nobody outside the group is affected.
\<close>

theorem Leave_frees_player:
  assumes "grp_step\<^sup>*\<^sup>* fresh_realm s" "good_env env" "GroupByID i s = Some g" "p \<in> MemberGUID ` set (gMembers g)"
    and "Leave env p s = (s', evs, e)"
  shows "e = None \<and> GroupIDByPlayer p s' = 0 \<and>
    (\<forall>q. q \<noteq> p \<longrightarrow> GroupIDByPlayer q s' =
      (if length (gMembers g) \<le> 2 \<and> q \<in> MemberGUID ` set (gMembers g) then 0 else GroupIDByPlayer q s))"
proof -
  have good: "grp_good s" by (rule reachable_good [OF assms(1)])
  have g: "groupsCache s i = Some g" "p \<in> set (guids g)" using assms(3,4) by (auto simp: GroupByID_def)
  note res = Leave_result [OF assms(2) good assms(5) g]
  note wf = grp_goodD(3) [OF good]
  have wf': "cache_wf s'" using res grp_goodD(3) by blast
  have i: "i \<noteq> 0" using cache_wf_group [OF wf g(1)] by (simp add: group_ok_def)
  have eq: "GroupIDByPlayer q s' = GroupIDByPlayer q s"
    if "\<And>j. (\<exists>h. groupsCache s' j = Some h \<and> q \<in> set (guids h)) \<longleftrightarrow> (\<exists>h. groupsCache s j = Some h \<and> q \<in> set (guids h))" for q
    using GroupIDByPlayer_wf [OF wf] GroupIDByPlayer_wf [OF wf'] that by metis
  have zero: "GroupIDByPlayer q s' = 0" if "\<And>j h. groupsCache s' j = Some h \<Longrightarrow> q \<notin> set (guids h)" for q
    using GroupIDByPlayer_0 [OF wf'] that by blast
  show ?thesis
  proof (cases "length (gMembers g) \<le> 2")
    case True
    then have s': "groupsCache s' = (groupsCache s)(i := None)" using res by simp
    have "q \<notin> set (guids h)" if "q \<in> set (guids g)" "groupsCache s' j = Some h" for q j h
      using one_group [OF wf g(1), of j h q] that by (auto simp: s' split: if_splits)
    then have "q \<in> set (guids g) \<Longrightarrow> GroupIDByPlayer q s' = 0" for q by (rule zero)
    moreover have "q \<notin> set (guids g) \<Longrightarrow> GroupIDByPlayer q s' = GroupIDByPlayer q s" for q
      using g(1) by (intro eq) (auto simp: s')
    ultimately show ?thesis using res g(2) True by auto
  next
    case False
    then obtain h where s': "groupsCache s' = (groupsCache s)(i \<mapsto> h)" "guids h = filter (\<lambda>q. q \<noteq> p) (guids g)"
      using res by auto
    have "p \<notin> set (guids k)" if "groupsCache s' j = Some k" for j k
      using one_group [OF wf g(1), of j k p] that g(2) s'(2) by (cases "j = i") (auto simp: s'(1))
    then have "GroupIDByPlayer p s' = 0" by (rule zero)
    moreover have "GroupIDByPlayer q s' = GroupIDByPlayer q s" if "q \<noteq> p" for q
    proof (rule eq)
      have "q \<in> set (guids h) \<longleftrightarrow> q \<in> set (guids g)" using that unfolding s'(2) by simp
      then show "(\<exists>h. groupsCache s' j = Some h \<and> q \<in> set (guids h)) \<longleftrightarrow> (\<exists>h. groupsCache s j = Some h \<and> q \<in> set (guids h))" for j
        using g(1) by (simp add: s'(1))
    qed
    ultimately show ?thesis using res False by simp
  qed
qed

theorem Leave_frees_player_witness:
  "GroupIDByPlayer 10 (fst (Leave ex_grp_env 10 ex_pair)) = 0 \<and> GroupIDByPlayer 11 (fst (Leave ex_grp_env 10 ex_pair)) = 0"
proof -
  have "map_option guids (GroupByID 1 ex_pair) = Some [10, 11]" by code_simp
  then obtain g where g: "GroupByID 1 ex_pair = Some g" "guids g = [10, 11]"
    by (cases "GroupByID 1 ex_pair") auto
  have "MemberGUID ` set (gMembers g) = {10, 11}" "length (gMembers g) = 2"
    using arg_cong [OF g(2), of set] arg_cong [OF g(2), of length] by simp_all
  with Leave_frees_player [OF ex_pair_reach ex_grp_env_good g(1), of 10 "fst (Leave ex_grp_env 10 ex_pair)"]
  show ?thesis by (simp add: prod_eq_iff)
qed

section \<open>What goes wrong\<close>

text \<open>
  A group can outgrow its size: fullness is checked when a player is invited and not when he accepts.
  Two invitations of a group of four give a party of six.
\<close>

definition ex_four :: groups_realm where
  "ex_four = ex_accept 13 (ex_invite 10 13 (ex_accept 12 (ex_invite 10 12 ex_pair)))"

lemma accept_overfills_group:
  "map_option (\<lambda>g. (IsRaid g, length (gMembers g)))
     (GroupByID 1 (ex_accept 15 (ex_accept 14 (ex_invite 10 15 (ex_invite 10 14 ex_four))))) = Some (False, 6)"
  by code_simp

text \<open>
  A group can lose its leader: when he leaves and nobody else is online the leader becomes 0, and a
  leader who uninvites himself stays the leader of a group he is not in. Nobody may change such a group.
\<close>

lemma leaderless_group:
  "let s = fst (Leave ex_grp_env 10 (set_online 13 False (set_online 12 False (set_online 11 False ex_four)))) in
     map_option gLeaderGUID (GroupByID 1 s) = Some 0 \<and> snd (snd (ConvertToRaid ex_grp_env 11 s)) = Some ErrNoPermissions"
  "let s = fst (Uninvite ex_grp_env 10 10 ex_four) in
     map_option (\<lambda>g. (gLeaderGUID g, guids g)) (GroupByID 1 s) = Some (10, [11, 12, 13]) \<and>
     snd (snd (ConvertToRaid ex_grp_env 11 s)) = Some ErrNoPermissions"
  by code_simp+

text \<open>
  Accepting an old invitation can cut a player off. The rows of a new group are written one by one: when
  the second player has joined another group meanwhile, his row is rejected, but the row of the inviter
  stays. The cache does not know the group, so the inviter cannot leave it, and every later invitation
  he accepts is rejected by the table.
\<close>

lemma failed_create_blocks_player:
  "let s = ex_accept 11 (ex_accept 12 (ex_invite 11 12 (ex_invite 10 11 fresh_realm))) in
     GroupIDByPlayer 10 s = 0 \<and> snd (snd (Leave ex_grp_env 10 s)) = Some ErrGroupNotFound \<and>
     snd (snd (AcceptInvite ex_grp_env 10 (ex_invite 20 10 s))) = Some DBError"
  by code_simp

section \<open>Permissions\<close>






end
