(* ===== verification/Group_Locks.thy ===== *)
theory Group_Locks
  imports Group_Cache
begin

text \<open>
  The locks of the group service (\<open>groupLocks\<close>, \<open>lockGroupOfPlayer\<close> in
  \<^verbatim>\<open>apps/groupserver/service/group.go\<close>). A lock object is created for a group on first use and counted
  references keep it in the map until its last user is gone. Goroutines are interleaved: the section
  under the mutex of the map is one step, taking and releasing the mutex of a lock object another.
\<close>

section \<open>Locks\<close>

type_synonym groupLockKey = "u32 \<times> u64"

record groupLock =
  lockHolder :: "nat option"
  refs :: int

datatype lock_pc =
    Idle
  | Waiting groupLockKey nat
  | Holding groupLockKey nat
  | Releasing groupLockKey nat

record groupLocks =
  locks :: "groupLockKey \<rightharpoonup> nat"
  lockObjs :: "nat \<Rightarrow> groupLock"
  nextLock :: nat
  lockPc :: "nat \<Rightarrow> lock_pc"

definition newGroupLocks :: groupLocks where
  "newGroupLocks = \<lparr>locks = Map.empty, lockObjs = (\<lambda>_. \<lparr>lockHolder = None, refs = 0\<rparr>), nextLock = 0, lockPc = (\<lambda>_. Idle)\<rparr>"

text \<open>The part of \<open>lock\<close> under the mutex of the map: find or create the object and count the caller.\<close>

definition lock_lookup :: "nat \<Rightarrow> groupLockKey \<Rightarrow> groupLocks \<Rightarrow> groupLocks" where
  "lock_lookup t key l =
     (case locks l key of
        Some gl \<Rightarrow> l\<lparr>lockObjs := (lockObjs l)(gl := (lockObjs l gl)\<lparr>refs := refs (lockObjs l gl) + 1\<rparr>),
                     lockPc := (lockPc l)(t := Waiting key gl)\<rparr>
      | None \<Rightarrow> l\<lparr>locks := (locks l)(key \<mapsto> nextLock l),
                  lockObjs := (lockObjs l)(nextLock l := \<lparr>lockHolder = None, refs = 1\<rparr>),
                  nextLock := nextLock l + 1, lockPc := (lockPc l)(t := Waiting key (nextLock l))\<rparr>)"

definition lock_enter :: "nat \<Rightarrow> groupLockKey \<Rightarrow> nat \<Rightarrow> groupLocks \<Rightarrow> groupLocks" where
  "lock_enter t key gl l =
     l\<lparr>lockObjs := (lockObjs l)(gl := (lockObjs l gl)\<lparr>lockHolder := Some t\<rparr>), lockPc := (lockPc l)(t := Holding key gl)\<rparr>"

definition unlock_enter :: "nat \<Rightarrow> groupLockKey \<Rightarrow> nat \<Rightarrow> groupLocks \<Rightarrow> groupLocks" where
  "unlock_enter t key gl l =
     l\<lparr>lockObjs := (lockObjs l)(gl := (lockObjs l gl)\<lparr>lockHolder := None\<rparr>), lockPc := (lockPc l)(t := Releasing key gl)\<rparr>"

definition unlock_drop :: "nat \<Rightarrow> groupLockKey \<Rightarrow> nat \<Rightarrow> groupLocks \<Rightarrow> groupLocks" where
  "unlock_drop t key gl l =
     (let n = refs (lockObjs l gl) - 1
      in l\<lparr>lockObjs := (lockObjs l)(gl := (lockObjs l gl)\<lparr>refs := n\<rparr>), lockPc := (lockPc l)(t := Idle),
           locks := (if n = 0 then (locks l)(key := None) else locks l)\<rparr>)"

inductive lock_step :: "groupLocks \<Rightarrow> groupLocks \<Rightarrow> bool" where
  lookup: "lockPc l t = Idle \<Longrightarrow> lock_step l (lock_lookup t key l)"
| enter: "lockPc l t = Waiting key gl \<Longrightarrow> lockHolder (lockObjs l gl) = None \<Longrightarrow> lock_step l (lock_enter t key gl l)"
| leave: "lockPc l t = Holding key gl \<Longrightarrow> lock_step l (unlock_enter t key gl l)"
| drop: "lockPc l t = Releasing key gl \<Longrightarrow> lock_step l (unlock_drop t key gl l)"

text \<open>What a goroutine refers to.\<close>

fun pc_ref :: "lock_pc \<Rightarrow> (groupLockKey \<times> nat) option" where
  "pc_ref Idle = None"
| "pc_ref (Waiting k gl) = Some (k, gl)"
| "pc_ref (Holding k gl) = Some (k, gl)"
| "pc_ref (Releasing k gl) = Some (k, gl)"

definition users :: "groupLocks \<Rightarrow> groupLockKey \<Rightarrow> nat set" where
  "users l k = {t. \<exists>gl. pc_ref (lockPc l t) = Some (k, gl)}"

definition lock_inv :: "groupLocks \<Rightarrow> bool" where
  "lock_inv l \<longleftrightarrow>
     (\<forall>t k gl. pc_ref (lockPc l t) = Some (k, gl) \<longrightarrow> locks l k = Some gl) \<and>
     (\<forall>k k' gl. locks l k = Some gl \<longrightarrow> locks l k' = Some gl \<longrightarrow> k = k') \<and>
     (\<forall>k gl. locks l k = Some gl \<longrightarrow> gl < nextLock l \<and> finite (users l k) \<and> users l k \<noteq> {} \<and>
        refs (lockObjs l gl) = int (card (users l k))) \<and>
     (\<forall>k gl t. locks l k = Some gl \<longrightarrow> lockHolder (lockObjs l gl) = Some t \<longleftrightarrow> lockPc l t = Holding k gl)"

lemma users_upd:
  assumes "lockPc l' = (lockPc l)(t := p)"
  shows "users l' k = (if \<exists>gl. pc_ref p = Some (k, gl) then insert t (users l k) else users l k - {t})"
  using assms by (auto simp: users_def)

lemma lock_invD:
  assumes "lock_inv l"
  shows "pc_ref (lockPc l t) = Some (k, gl) \<Longrightarrow> locks l k = Some gl"
    "locks l k = Some gl \<Longrightarrow> locks l k' = Some gl \<Longrightarrow> k = k'"
    "locks l k = Some gl \<Longrightarrow> gl < nextLock l" "locks l k = Some gl \<Longrightarrow> finite (users l k)"
    "locks l k = Some gl \<Longrightarrow> users l k \<noteq> {}" "locks l k = Some gl \<Longrightarrow> refs (lockObjs l gl) = int (card (users l k))"
    "locks l k = Some gl \<Longrightarrow> lockHolder (lockObjs l gl) = Some t \<longleftrightarrow> lockPc l t = Holding k gl"
  using assms unfolding lock_inv_def by (blast, blast, blast, blast, blast, blast, blast)

lemma lookup_inv:
  assumes "lock_inv l" "lockPc l t = Idle"
  shows "lock_inv (lock_lookup t key l)"
proof (cases "locks l key")
  case (Some gl)
  note inv = lock_invD [OF assms(1)]
  define l' where "l' = lock_lookup t key l"
  have l': "locks l' = locks l" "nextLock l' = nextLock l" "lockPc l' = (lockPc l)(t := Waiting key gl)"
    "lockObjs l' = (lockObjs l)(gl := (lockObjs l gl)\<lparr>refs := refs (lockObjs l gl) + 1\<rparr>)"
    by (simp_all add: l'_def lock_lookup_def Some)
  have t: "t \<notin> users l k" for k using assms(2) by (simp add: users_def)
  have u: "users l' k = (if k = key then insert t (users l k) else users l k)" for k
    using t by (auto simp: users_upd [OF l'(3)])
  have c: "card (insert t (users l key)) = card (users l key) + 1" using inv(4) [OF Some] t by simp
  show ?thesis
    unfolding l'_def [symmetric] lock_inv_def
  proof (intro conjI allI impI)
    fix k x assume k: "locks l' k = Some x"
    then have kx: "locks l k = Some x" "x = gl \<longleftrightarrow> k = key" using inv(2) [of k x key] Some by (auto simp: l')
    show "x < nextLock l'" "finite (users l' k)" "users l' k \<noteq> {}" using inv(3-5) [OF kx(1)] by (auto simp: l' u)
    show "refs (lockObjs l' x) = int (card (users l' k))" using inv(6) [OF kx(1)] kx c by (auto simp: l' u)
    show "lockHolder (lockObjs l' x) = Some s \<longleftrightarrow> lockPc l' s = Holding k x" for s
      using inv(7) [OF kx(1), of s] assms(2) by (auto simp: l')
  qed (use inv(1,2) Some in \<open>auto simp: l' split: if_splits\<close>)
next
  case None
  note inv = lock_invD [OF assms(1)]
  define l' where "l' = lock_lookup t key l"
  let ?n = "nextLock l"
  have l': "locks l' = (locks l)(key \<mapsto> ?n)" "nextLock l' = ?n + 1" "lockPc l' = (lockPc l)(t := Waiting key ?n)"
    "lockObjs l' = (lockObjs l)(?n := \<lparr>lockHolder = None, refs = 1\<rparr>)"
    by (simp_all add: l'_def lock_lookup_def None)
  have "pc_ref (lockPc l s) \<noteq> Some (key, x)" for s x using inv(1) [of s key x] None by auto
  then have e: "users l key = {}" by (simp add: users_def)
  have t: "t \<notin> users l k" for k using assms(2) by (simp add: users_def)
  have u: "users l' k = (if k = key then {t} else users l k)" for k
    using t e by (auto simp: users_upd [OF l'(3)])
  have old: "locks l k = Some x \<Longrightarrow> x \<noteq> ?n" for k x using inv(3) [of k x] by auto
  have held: "lockPc l s \<noteq> Holding key x" for s x using inv(1) [of s key x] None by auto
  show ?thesis
    unfolding l'_def [symmetric] lock_inv_def
  proof (intro conjI allI impI)
    fix k x assume k: "locks l' k = Some x"
    then have kx: "if k = key then x = ?n else locks l k = Some x \<and> x \<noteq> ?n" using old by (auto simp: l' split: if_splits)
    show "x < nextLock l'" "finite (users l' k)" "users l' k \<noteq> {}" "refs (lockObjs l' x) = int (card (users l' k))"
      using kx inv(3-6) [of k x] by (auto simp: l' u split: if_splits)
    show "lockHolder (lockObjs l' x) = Some s \<longleftrightarrow> lockPc l' s = Holding k x" for s
      using kx inv(7) [of k x s] held assms(2) by (auto simp: l' split: if_splits)
  next
    show "locks l' k = Some x" if "pc_ref (lockPc l' s) = Some (k, x)" for s k x
      using that inv(1) [of s k x] None by (auto simp: l' split: if_splits)
    show "k = k'" if "locks l' k = Some x" "locks l' k' = Some x" for k k' x
      using that inv(2) [of k x k'] old [of k] old [of k'] by (auto simp: l' split: if_splits)
  qed
qed

text \<open>Entering and leaving the mutex of a lock object changes its holder only.\<close>

lemma holder_inv:
  assumes "lock_inv l" "pc_ref (lockPc l t) = Some (key, gl)" "pc_ref p = Some (key, gl)"
    and l': "locks l' = locks l" "nextLock l' = nextLock l" "lockPc l' = (lockPc l)(t := p)"
      "lockObjs l' = (lockObjs l)(gl := (lockObjs l gl)\<lparr>lockHolder := h\<rparr>)"
    and h: "\<And>s. h = Some s \<longleftrightarrow> lockPc l' s = Holding key gl"
  shows "lock_inv l'"
proof -
  note inv = lock_invD [OF assms(1)]
  have key: "locks l key = Some gl" by (rule inv(1) [OF assms(2)])
  have "t \<in> users l key" using assms(2) by (auto simp: users_def)
  moreover have "t \<notin> users l k" if "k \<noteq> key" for k using assms(2) that by (auto simp: users_def)
  ultimately have u: "users l' k = users l k" for k using assms(3) by (auto simp: users_upd [OF l'(3)])
  show ?thesis
    unfolding lock_inv_def
  proof (intro conjI allI impI)
    fix k x assume "locks l' k = Some x"
    then have kx: "locks l k = Some x" "x = gl \<longleftrightarrow> k = key" using inv(2) [of k x key] key by (auto simp: l')
    show "x < nextLock l'" "finite (users l' k)" "users l' k \<noteq> {}" "refs (lockObjs l' x) = int (card (users l' k))"
      using inv(3-6) [OF kx(1)] by (auto simp: l' u)
    show "lockHolder (lockObjs l' x) = Some s \<longleftrightarrow> lockPc l' s = Holding k x" for s
    proof (cases "k = key")
      case True
      then show ?thesis using kx h by (simp add: l'(4))
    next
      case False
      then have "p \<noteq> Holding k x" "lockPc l t \<noteq> Holding k x" using assms(2,3) by auto
      then show ?thesis using False kx inv(7) [OF kx(1)] by (auto simp: l')
    qed
  qed (use inv(1,2) key assms(3) in \<open>auto simp: l' split: if_splits\<close>)
qed

lemma drop_inv:
  assumes "lock_inv l" "lockPc l t = Releasing key gl"
  shows "lock_inv (unlock_drop t key gl l)"
proof -
  note inv = lock_invD [OF assms(1)]
  define l' where "l' = unlock_drop t key gl l"
  have key: "locks l key = Some gl" using inv(1) [of t] assms(2) by simp
  define n where "n = refs (lockObjs l gl) - 1"
  have l': "locks l' = (if n = 0 then (locks l)(key := None) else locks l)" "nextLock l' = nextLock l"
    "lockPc l' = (lockPc l)(t := Idle)" "lockObjs l' = (lockObjs l)(gl := (lockObjs l gl)\<lparr>refs := n\<rparr>)"
    by (simp_all add: l'_def unlock_drop_def Let_def n_def)
  have t: "t \<in> users l key" "k \<noteq> key \<Longrightarrow> t \<notin> users l k" for k using assms(2) by (auto simp: users_def)
  have u: "users l' k = (if k = key then users l key - {t} else users l k)" for k
    using t(2) by (auto simp: users_upd [OF l'(3)])
  have n: "n = int (card (users l key - {t}))"
    using inv(4,6) [OF key] t(1) card_Diff_singleton [of t "users l key"] card_gt_0_iff [of "users l key"]
    by (auto simp: n_def of_nat_diff)
  then have n0: "n = 0 \<longleftrightarrow> users l key - {t} = {}" using inv(4) [OF key] by auto
  show ?thesis
    unfolding l'_def [symmetric] lock_inv_def
  proof (intro conjI allI impI)
    fix k x assume k: "locks l' k = Some x"
    then have kx: "locks l k = Some x" "x = gl \<longleftrightarrow> k = key" "k = key \<Longrightarrow> n \<noteq> 0"
      using inv(2) [of k x key] key by (auto simp: l' split: if_splits)
    show "x < nextLock l'" "finite (users l' k)" using inv(3,4) [OF kx(1)] by (auto simp: l' u)
    show "users l' k \<noteq> {}" using inv(5) [OF kx(1)] kx(3) n0 by (simp add: u)
    show "refs (lockObjs l' x) = int (card (users l' k))" using inv(6) [OF kx(1)] kx(2) n by (simp add: l' u)
    show "lockHolder (lockObjs l' x) = Some s \<longleftrightarrow> lockPc l' s = Holding k x" for s
      using inv(7) [OF kx(1), of s] assms(2) by (auto simp: l')
  next
    fix s k x assume r: "pc_ref (lockPc l' s) = Some (k, x)"
    then have "s \<noteq> t" "pc_ref (lockPc l s) = Some (k, x)" by (auto simp: l' split: if_splits)
    moreover from this have "k = key \<Longrightarrow> users l key - {t} \<noteq> {}" by (auto simp: users_def)
    ultimately show "locks l' k = Some x" using inv(1) [of s k x] n0 by (auto simp: l')
  qed (use inv(2) in \<open>auto simp: l' split: if_splits\<close>)
qed

lemma lock_step_inv: "lock_step l l' \<Longrightarrow> lock_inv l \<Longrightarrow> lock_inv l'"
proof (induction rule: lock_step.induct)
  case (enter l t key gl)
  note inv = lock_invD [OF enter.prems]
  have "locks l key = Some gl" using inv(1) [of t] enter.hyps by simp
  then have "lockPc l s \<noteq> Holding key gl" for s using inv(7) [of key gl s] enter.hyps(2) by simp
  then show ?case
    by (intro holder_inv [OF enter.prems, where t = t and key = key and gl = gl and p = "Holding key gl" and h = "Some t"])
      (use enter.hyps in \<open>auto simp: lock_enter_def\<close>)
next
  case (leave l t key gl)
  note inv = lock_invD [OF leave.prems]
  have "locks l key = Some gl" using inv(1) [of t] leave.hyps by simp
  then have "lockPc l s = Holding key gl \<Longrightarrow> s = t" for s
    using inv(7) [of key gl s] inv(7) [of key gl t] leave.hyps by simp
  then have "((lockPc l)(t := Releasing key gl)) s \<noteq> Holding key gl" for s by (cases "s = t") auto
  then show ?case
    by (intro holder_inv [OF leave.prems, where t = t and key = key and gl = gl and p = "Releasing key gl" and h = None])
      (simp_all add: leave.hyps unlock_enter_def)
qed (auto intro: lookup_inv drop_inv)

lemma lock_reach_inv: "lock_step\<^sup>*\<^sup>* newGroupLocks l \<Longrightarrow> lock_inv l"
proof (induction rule: rtranclp_induct)
  case base
  show ?case by (simp add: lock_inv_def newGroupLocks_def)
qed (rule lock_step_inv)

text \<open>
  C17: A group is changed by one call at a time. However calls interleave, two goroutines that hold the
  lock of one group are the same, although lock objects are thrown away and made anew; and the map
  holds a lock exactly for the groups somebody holds or waits for, so it does not grow.
\<close>

theorem group_lock_exclusive:
  assumes "lock_step\<^sup>*\<^sup>* newGroupLocks l"
  shows "(\<forall>t t' k gl gl'. lockPc l t = Holding k gl \<and> lockPc l t' = Holding k gl' \<longrightarrow> t = t') \<and>
    (\<forall>k. locks l k \<noteq> None \<longleftrightarrow> (\<exists>t gl. lockPc l t \<in> {Waiting k gl, Holding k gl, Releasing k gl}))"
proof -
  note inv = lock_invD [OF lock_reach_inv [OF assms]]
  have "t = t'" if "lockPc l t = Holding k gl" "lockPc l t' = Holding k gl'" for t t' k gl gl'
  proof -
    have "locks l k = Some gl" "locks l k = Some gl'" using inv(1) [of t k gl] inv(1) [of t' k gl'] that by simp_all
    then show ?thesis using inv(7) [of k gl t] inv(7) [of k gl t'] that by simp
  qed
  moreover have "locks l k \<noteq> None \<longleftrightarrow> (\<exists>t gl. pc_ref (lockPc l t) = Some (k, gl))" for k
    using inv(1) [of _ k] inv(5) [of k] by (auto simp: users_def)
  moreover have "pc_ref p = Some (k, gl) \<longleftrightarrow> p \<in> {Waiting k gl, Holding k gl, Releasing k gl}" for p k gl
    by (cases p) auto
  ultimately show ?thesis by blast
qed

theorem group_lock_exclusive_witness:
  "locks (lock_lookup 1 (1, 7) (lock_enter 0 (1, 7) 0 (lock_lookup 0 (1, 7) newGroupLocks))) (1, 7) \<noteq> None"
proof -
  let ?l1 = "lock_lookup 0 (1, 7) newGroupLocks"
  let ?l2 = "lock_enter 0 (1, 7) 0 ?l1"
  have "lock_step newGroupLocks ?l1" by (rule lock_step.lookup) (simp add: newGroupLocks_def)
  moreover have "lock_step ?l1 ?l2" by (rule lock_step.enter) (simp_all add: newGroupLocks_def lock_lookup_def)
  moreover have "lock_step ?l2 (lock_lookup 1 (1, 7) ?l2)"
    by (rule lock_step.lookup) (simp add: newGroupLocks_def lock_lookup_def lock_enter_def)
  ultimately have "lock_step\<^sup>*\<^sup>* newGroupLocks (lock_lookup 1 (1, 7) ?l2)" by (meson converse_rtranclp_into_rtranclp rtranclp.rtrancl_refl)
  from group_lock_exclusive [OF this]
  have "locks (lock_lookup 1 (1, 7) ?l2) (1, 7) \<noteq> None \<longleftrightarrow> (\<exists>t gl. lockPc (lock_lookup 1 (1, 7) ?l2) t \<in> {Waiting (1, 7) gl, Holding (1, 7) gl, Releasing (1, 7) gl})"
    by blast
  moreover have "lockPc (lock_lookup 1 (1, 7) ?l2) 0 = Holding (1, 7) 0"
    by (simp add: newGroupLocks_def lock_lookup_def lock_enter_def)
  ultimately show ?thesis by blast
qed

section \<open>The retry loop\<close>

text \<open>
  \<open>reads n\<close> is the answer of the n-th lookup of the player's group. A round looks up the group, locks
  it and looks again; it is repeated when the group has changed in between.
\<close>

partial_function (option) lock_rounds :: "(nat \<Rightarrow> grp_error + u64) \<Rightarrow> nat \<Rightarrow> (grp_error + u64) option" where
  "lock_rounds reads n =
     (case reads n of
        Inl e \<Rightarrow> Some (Inl e)
      | Inr i \<Rightarrow>
          if i = 0 then Some (Inl ErrGroupNotFound)
          else (case reads (n + 1) of
                  Inl e \<Rightarrow> Some (Inl e)
                | Inr j \<Rightarrow> if j = i then Some (Inr i) else lock_rounds reads (n + 2)))"

text \<open>
  C38: Locking a player's group ends. When the player's group stops changing at some point, the loop
  returns, and a group it returns was the player's group before and after it was locked. A player who
  changes groups forever in step with the loop would keep it running.
\<close>

theorem lock_rounds_terminates:
  assumes "\<forall>m\<ge>N. reads (Suc m) = reads m"
  shows "\<exists>r. lock_rounds reads n = Some r \<and>
    (\<forall>i. r = Inr i \<longrightarrow> i \<noteq> 0 \<and> (\<exists>m\<ge>n. reads m = Inr i \<and> reads (Suc m) = Inr i))"
proof (induction "N - n" arbitrary: n rule: less_induct)
  case less
  show ?case
  proof (cases "\<exists>i j. reads n = Inr i \<and> i \<noteq> 0 \<and> reads (n + 1) = Inr j \<and> j \<noteq> i")
    case True
    then have "n < N" using assms by (metis Suc_eq_plus1 leI sum.inject(2))
    then have "N - (n + 2) < N - n" by simp
    from less [OF this] obtain r where r: "lock_rounds reads (n + 2) = Some r"
      "\<forall>i. r = Inr i \<longrightarrow> i \<noteq> 0 \<and> (\<exists>m\<ge>n + 2. reads m = Inr i \<and> reads (Suc m) = Inr i)" by blast
    moreover have "lock_rounds reads n = lock_rounds reads (n + 2)"
      using True by (subst lock_rounds.simps) auto
    ultimately show ?thesis by (metis add_leD1)
  next
    case False
    then show ?thesis by (subst lock_rounds.simps) (auto split: sum.splits)
  qed
qed

theorem lock_rounds_terminates_witness:
  "\<exists>r. lock_rounds (\<lambda>m. if m = 0 then Inr 4 else Inr 5) 0 = Some r"
  using lock_rounds_terminates [of 1 "\<lambda>m. if m = 0 then Inr 4 else Inr 5" 0] by auto

lemma lock_rounds_diverges: "lock_rounds (\<lambda>m. Inr (if even m then 1 else 2)) 0 = None"
proof -
  let ?reads = "\<lambda>m. Inr (if even m then 1 else 2) :: grp_error + u64"
  have "odd n" if "lock_rounds ?reads n = Some r" for n r
  proof -
    have "reads = ?reads \<longrightarrow> odd n" if "lock_rounds reads n = Some r" for reads n r
    proof (rule lock_rounds.raw_induct [where P = "\<lambda>reads n r. reads = ?reads \<longrightarrow> odd n", OF _ that])
      fix f reads n r
      assume IH: "\<And>reads n r. f reads n = Some r \<Longrightarrow> reads = ?reads \<longrightarrow> odd n"
        and body: "(case reads n of Inl e \<Rightarrow> Some (Inl e)
          | Inr i \<Rightarrow> if i = 0 then Some (Inl ErrGroupNotFound)
              else (case reads (n + 1) of Inl e \<Rightarrow> Some (Inl e) | Inr j \<Rightarrow> if j = i then Some (Inr i) else f reads (n + 2))) = Some r"
      show "reads = ?reads \<longrightarrow> odd n"
      proof (intro impI notI)
        assume n: "reads = ?reads" "even n"
        then have "f reads (n + 2) = Some r" using body by simp
        from IH [OF this] n show False by simp
      qed
    qed
    with that show ?thesis by blast
  qed
  then show ?thesis by (metis even_zero not_None_eq)
qed

end
