(* ===== verification/Chat_Channels.thy ===== *)
theory Chat_Channels
  imports Go_Strings "HOL-Library.AList"
begin

unbundle bit_operations_syntax

text \<open>
  Chat channels, \<^verbatim>\<open>apps/chatserver/repo/channels.go\<close>, \<^verbatim>\<open>channels_mysql.go\<close> and the methods of
  \<open>ActiveChannel\<close> in \<^verbatim>\<open>apps/chatserver/service/channel-manager.go\<close>: the tables of one realm, the
  statements on them, and an active channel with its members and bans, every change of which is
  written through to the tables. Each method holds the mutex of its channel from start to end, so a
  method is one step. Failures of statements, the clock and the iteration orders of Go maps are
  parameters.
\<close>

section \<open>Rows and tables\<close>

text \<open>\<open>Team\<close> is the number of a \<^verbatim>\<open>pbChat.TeamID\<close>, an \<^verbatim>\<open>int32\<close> that the tables keep unsigned.\<close>

record Channel =
  ChannelID :: u32
  Name :: string
  Team :: u32
  Announce :: bool
  Ownership :: bool
  Password :: string
  LastUsed :: int

record ChannelRights =
  rName :: string
  rFlags :: u32
  SpeakDelay :: u32
  JoinMessage :: string
  DelayMessage :: string
  Moderators :: "u32 list"

record ChannelMember =
  PlayerGUID :: u64
  PlayerName :: string
  Flags :: u8

datatype ChannelsPreparedStatements =
    StmtCreateChannel | StmtGetChannelByID | StmtGetChannelByName | StmtGetAllChannels | StmtUpdateChannel
  | StmtDeleteChannel | StmtUpdateChannelLastUsed | StmtCleanOldChannels | StmtGetChannelRights
  | StmtSetChannelRights | StmtAddChannelBan | StmtRemoveChannelBan | StmtGetChannelBans
  | StmtIsPlayerBanned | StmtCleanExpiredBans | StmtSaveChannelMember | StmtRemoveChannelMember
  | StmtLoadChannelMembers | StmtUpdateMemberFlags

text \<open>
  The tables of a realm. \<open>rightsRows\<close> keeps the moderators as the string of the column, \<open>banRows\<close> the
  end of a ban in seconds, \<open>memberRows\<close> the name, the flags and the time of joining.
\<close>

record rights_row =
  colFlags :: u32
  colSpeakDelay :: u32
  colJoinMessage :: string
  colDelayMessage :: string
  colModerators :: string

record channels_db =
  channelRows :: "Channel list"
  autoIncrement :: nat
  rightsRows :: "(string \<times> rights_row) list"
  banRows :: "((u32 \<times> u64) \<times> int) list"
  memberRows :: "((u32 \<times> u64) \<times> (string \<times> u8 \<times> int)) list"

text \<open>
  What a call meets: the time in nanoseconds, whether the \<open>n\<close>-th execution of a statement for a channel
  and a player fails, the order in which the \<open>n\<close>-th loop of the call visits the keys of a map or the
  rows of a result, and the collation by which the database compares names.
\<close>

record chan_env =
  now :: int
  stmtFails :: "ChannelsPreparedStatements \<Rightarrow> u32 \<Rightarrow> u64 \<Rightarrow> nat \<Rightarrow> bool"
  iter :: "nat \<Rightarrow> u64 list \<Rightarrow> u64 list"
  nameEq :: "string \<Rightarrow> string \<Rightarrow> bool"

text \<open>A loop visits every key. This is what Go promises of \<^verbatim>\<open>range\<close> over a map.\<close>

definition good_iter :: "chan_env \<Rightarrow> bool" where
  "good_iter env \<longleftrightarrow> (\<forall>n xs. set (iter env n xs) = set xs)"

definition second :: int where "second = 1000000000"

abbreviation Unix :: "int \<Rightarrow> int" where "Unix t \<equiv> t div second"

section \<open>The statements\<close>

type_synonym 'a fetched = "'a option"

definition CreateChannel :: "chan_env \<Rightarrow> Channel \<Rightarrow> channels_db \<Rightarrow> channels_db \<times> Channel fetched" where
  "CreateChannel env c db =
     (if stmtFails env StmtCreateChannel 0 0 0 then (db, None)
      else let i = of_nat (autoIncrement db);
               row = c\<lparr>ChannelID := i, LastUsed := Unix (LastUsed c)\<rparr>
           in (db\<lparr>channelRows := channelRows db @ [row], autoIncrement := autoIncrement db + 1\<rparr>,
               Some (c\<lparr>ChannelID := i\<rparr>)))"

abbreviation of_row :: "Channel \<Rightarrow> Channel" where
  "of_row c \<equiv> c\<lparr>LastUsed := LastUsed c * second\<rparr>"

definition GetChannelByID :: "chan_env \<Rightarrow> u32 \<Rightarrow> channels_db \<Rightarrow> Channel option fetched" where
  "GetChannelByID env channelID db =
     (if stmtFails env StmtGetChannelByID channelID 0 0 then None
      else Some (map_option of_row (find (\<lambda>c. ChannelID c = channelID) (channelRows db))))"

definition GetChannelByName :: "chan_env \<Rightarrow> string \<Rightarrow> u32 \<Rightarrow> channels_db \<Rightarrow> Channel option fetched" where
  "GetChannelByName env name team db =
     (if stmtFails env StmtGetChannelByName 0 0 0 then None
      else Some (map_option of_row (find (\<lambda>c. nameEq env (Name c) name \<and> Team c = team) (channelRows db))))"

definition GetAllChannels :: "chan_env \<Rightarrow> channels_db \<Rightarrow> Channel list fetched" where
  "GetAllChannels env db =
     (if stmtFails env StmtGetAllChannels 0 0 0 then None else Some (map of_row (channelRows db)))"

definition UpdateChannel :: "chan_env \<Rightarrow> Channel \<Rightarrow> channels_db \<Rightarrow> channels_db \<times> bool" where
  "UpdateChannel env c db =
     (if stmtFails env StmtUpdateChannel (ChannelID c) 0 0 then (db, False)
      else (db\<lparr>channelRows := map (\<lambda>r. if ChannelID r = ChannelID c
              then r\<lparr>Announce := Announce c, Ownership := Ownership c, Password := Password c,
                      LastUsed := Unix (LastUsed c)\<rparr> else r) (channelRows db)\<rparr>, True))"

definition DeleteChannel :: "chan_env \<Rightarrow> u32 \<Rightarrow> channels_db \<Rightarrow> channels_db \<times> bool" where
  "DeleteChannel env channelID db =
     (if stmtFails env StmtDeleteChannel channelID 0 0 then (db, False)
      else (db\<lparr>channelRows := filter (\<lambda>c. ChannelID c \<noteq> channelID) (channelRows db)\<rparr>, True))"

definition UpdateChannelLastUsed :: "chan_env \<Rightarrow> u32 \<Rightarrow> channels_db \<Rightarrow> channels_db \<times> bool" where
  "UpdateChannelLastUsed env channelID db =
     (if stmtFails env StmtUpdateChannelLastUsed channelID 0 0 then (db, False)
      else (db\<lparr>channelRows := map (\<lambda>r. if ChannelID r = channelID then r\<lparr>LastUsed := Unix (now env)\<rparr> else r)
              (channelRows db)\<rparr>, True))"

definition CleanOldChannels :: "chan_env \<Rightarrow> int \<Rightarrow> channels_db \<Rightarrow> channels_db \<times> bool" where
  "CleanOldChannels env olderThan db =
     (if stmtFails env StmtCleanOldChannels 0 0 0 then (db, False)
      else (db\<lparr>channelRows := filter (\<lambda>c. \<not> LastUsed c < Unix olderThan) (channelRows db)\<rparr>, True))"

definition AddChannelBan :: "chan_env \<Rightarrow> u32 \<Rightarrow> u64 \<Rightarrow> int \<Rightarrow> channels_db \<Rightarrow> channels_db \<times> bool" where
  "AddChannelBan env channelID playerGUID banTime db =
     (if stmtFails env StmtAddChannelBan channelID playerGUID 0 then (db, False)
      else (db\<lparr>banRows := AList.update (channelID, playerGUID) (Unix banTime) (banRows db)\<rparr>, True))"

definition RemoveChannelBan :: "chan_env \<Rightarrow> u32 \<Rightarrow> u64 \<Rightarrow> channels_db \<Rightarrow> channels_db \<times> bool" where
  "RemoveChannelBan env channelID playerGUID db =
     (if stmtFails env StmtRemoveChannelBan channelID playerGUID 0 then (db, False)
      else (db\<lparr>banRows := AList.delete (channelID, playerGUID) (banRows db)\<rparr>, True))"

definition GetChannelBans :: "chan_env \<Rightarrow> u32 \<Rightarrow> channels_db \<Rightarrow> (u64 \<times> int) list fetched" where
  "GetChannelBans env channelID db =
     (if stmtFails env StmtGetChannelBans channelID 0 0 then None
      else Some (map (\<lambda>((c, g), t). (g, t * second)) (filter (\<lambda>((c, g), t). c = channelID) (banRows db))))"

definition IsPlayerBanned :: "chan_env \<Rightarrow> u32 \<Rightarrow> u64 \<Rightarrow> channels_db \<Rightarrow> bool fetched" where
  "IsPlayerBanned env channelID playerGUID db =
     (if stmtFails env StmtIsPlayerBanned channelID playerGUID 0 then None
      else Some (0 < length (filter (\<lambda>((c, g), t). c = channelID \<and> g = playerGUID \<and> Unix (now env) < t) (banRows db))))"

definition CleanExpiredBans :: "chan_env \<Rightarrow> channels_db \<Rightarrow> channels_db \<times> bool" where
  "CleanExpiredBans env db =
     (if stmtFails env StmtCleanExpiredBans 0 0 0 then (db, False)
      else (db\<lparr>banRows := filter (\<lambda>(k, t). \<not> t \<le> Unix (now env)) (banRows db)\<rparr>, True))"

text \<open>An insert of a member who has a row keeps the time of joining and replaces name and flags.\<close>

definition SaveChannelMember :: "chan_env \<Rightarrow> u32 \<Rightarrow> ChannelMember \<Rightarrow> channels_db \<Rightarrow> channels_db \<times> bool" where
  "SaveChannelMember env channelID m db =
     (if stmtFails env StmtSaveChannelMember channelID (PlayerGUID m) 0 then (db, False)
      else let k = (channelID, PlayerGUID m);
               joinedAt = (case map_of (memberRows db) k of None \<Rightarrow> Unix (now env) | Some (_, _, t) \<Rightarrow> t)
           in (db\<lparr>memberRows := AList.update k (PlayerName m, Flags m, joinedAt) (memberRows db)\<rparr>, True))"

definition RemoveChannelMember :: "chan_env \<Rightarrow> u32 \<Rightarrow> u64 \<Rightarrow> channels_db \<Rightarrow> channels_db \<times> bool" where
  "RemoveChannelMember env channelID playerGUID db =
     (if stmtFails env StmtRemoveChannelMember channelID playerGUID 0 then (db, False)
      else (db\<lparr>memberRows := AList.delete (channelID, playerGUID) (memberRows db)\<rparr>, True))"

definition UpdateMemberFlags :: "chan_env \<Rightarrow> nat \<Rightarrow> u32 \<Rightarrow> u64 \<Rightarrow> u8 \<Rightarrow> channels_db \<Rightarrow> channels_db \<times> bool" where
  "UpdateMemberFlags env n channelID playerGUID fl db =
     (if stmtFails env StmtUpdateMemberFlags channelID playerGUID n then (db, False)
      else (db\<lparr>memberRows := (case map_of (memberRows db) (channelID, playerGUID) of
                None \<Rightarrow> memberRows db
              | Some (nm, _, t) \<Rightarrow> AList.update (channelID, playerGUID) (nm, fl, t) (memberRows db))\<rparr>, True))"

text \<open>The row of a member as \<^verbatim>\<open>LoadChannelMembers\<close> scans it; the time of joining is dropped.\<close>

definition db_member :: "u32 \<Rightarrow> channels_db \<Rightarrow> u64 \<Rightarrow> ChannelMember option" where
  "db_member channelID db g =
     map_option (\<lambda>(nm, fl, t). \<lparr>PlayerGUID = g, PlayerName = nm, Flags = fl\<rparr>) (map_of (memberRows db) (channelID, g))"

definition LoadChannelMembers :: "chan_env \<Rightarrow> u32 \<Rightarrow> channels_db \<Rightarrow> ChannelMember list fetched" where
  "LoadChannelMembers env channelID db =
     (if stmtFails env StmtLoadChannelMembers channelID 0 0 then None
      else Some (List.map_filter (db_member channelID db)
             (iter env 0 (remdups (map (\<lambda>((c, g), _). g) (filter (\<lambda>((c, g), _). c = channelID) (memberRows db)))))))"

subsection \<open>Rights\<close>

text \<open>
  The moderators are a column of decimal GUIDs separated by commas. Reading it splits at the commas,
  trims white space, and scans the leading digits of each part as a \<^verbatim>\<open>uint32\<close>; parts without digits, out of
  range or zero are skipped.
\<close>

text \<open>\<^verbatim>\<open>fmt.Sscanf(part, "%d", &guid)\<close> for a \<^verbatim>\<open>uint32\<close>; what follows the digits is not looked at.\<close>

definition Sscanf_u32 :: "string \<Rightarrow> u32 option" where
  "Sscanf_u32 s =
     (let ds = takeWhile is_digit s
      in if ds = [] \<or> 2 ^ 32 \<le> undec ds then None else Some (of_nat (undec ds)))"

definition parse_moderator :: "string \<Rightarrow> u32 list" where
  "parse_moderator part =
     (let w = TrimSpace part
      in if w = [] then []
         else case Sscanf_u32 w of None \<Rightarrow> [] | Some guid \<Rightarrow> if guid = 0 then [] else [guid])"

definition parse_moderators :: "string \<Rightarrow> u32 list" where
  "parse_moderators s = (if s = [] then [] else concat (map parse_moderator (Split (CHR '','') s)))"

definition format_moderators :: "u32 list \<Rightarrow> string" where
  "format_moderators ms = Join (CHR '','') (map (\<lambda>g. dec (unat g)) (filter (\<lambda>g. g \<noteq> 0) ms))"

definition GetChannelRights :: "chan_env \<Rightarrow> string \<Rightarrow> channels_db \<Rightarrow> ChannelRights option fetched" where
  "GetChannelRights env name db =
     (if stmtFails env StmtGetChannelRights 0 0 0 then None
      else Some (map_option (\<lambda>(k, r). \<lparr>rName = k, rFlags = colFlags r, SpeakDelay = colSpeakDelay r,
                JoinMessage = colJoinMessage r, DelayMessage = colDelayMessage r,
                Moderators = parse_moderators (colModerators r)\<rparr>)
             (find (\<lambda>(k, r). nameEq env k name) (rightsRows db))))"

text \<open>The name is the key of the table, compared by the collation of the column.\<close>

definition rights_of :: "ChannelRights \<Rightarrow> rights_row" where
  "rights_of r = \<lparr>colFlags = rFlags r, colSpeakDelay = SpeakDelay r, colJoinMessage = JoinMessage r,
     colDelayMessage = DelayMessage r, colModerators = format_moderators (Moderators r)\<rparr>"

definition SetChannelRights :: "chan_env \<Rightarrow> ChannelRights \<Rightarrow> channels_db \<Rightarrow> channels_db \<times> bool" where
  "SetChannelRights env r db =
     (if stmtFails env StmtSetChannelRights 0 0 0 then (db, False)
      else (db\<lparr>rightsRows :=
             (if \<exists>(k, v)\<in>set (rightsRows db). nameEq env k (rName r)
              then map (\<lambda>(k, v). if nameEq env k (rName r) then (k, rights_of r) else (k, v)) (rightsRows db)
              else rightsRows db @ [(rName r, rights_of r)])\<rparr>, True))"

lemma parse_moderator_dec: "parse_moderator (dec (unat g)) = (if g = 0 then [] else [g])"
proof -
  have "\<forall>c\<in>set (dec (unat g)). is_digit c" using dec_digits by blast
  moreover have "unat g < 2 ^ 32" using unsigned_less [of g, where ?'a = nat] by simp
  ultimately show ?thesis
    by (simp add: parse_moderator_def TrimSpace_digits takeWhile_all Sscanf_u32_def dec_nonempty)
qed

lemma parse_format_moderators: "parse_moderators (format_moderators ms) = filter (\<lambda>g. g \<noteq> 0) ms"
proof -
  define gs where "gs = filter (\<lambda>g. g \<noteq> 0) ms"
  have nz: "\<forall>g\<in>set gs. g \<noteq> 0" by (simp add: gs_def)
  show ?thesis
  proof (cases gs)
    case Nil
    then show ?thesis by (simp add: format_moderators_def parse_moderators_def gs_def [symmetric])
  next
    case (Cons g gs')
    let ?ws = "map (\<lambda>g. dec (unat g)) gs"
    have "\<forall>w\<in>set ?ws. CHR '','' \<notin> set w" using dec_digits digit_not_comma by fastforce
    then have sp: "Split (CHR '','') (Join (CHR '','') ?ws) = ?ws" using Cons by (intro Split_Join) auto
    then have "Join (CHR '','') ?ws \<noteq> []" using Cons by (cases gs') (auto simp: dec_nonempty)
    moreover have "concat (map parse_moderator ?ws) = gs"
      using nz by (induction gs) (auto simp: parse_moderator_dec)
    ultimately show ?thesis using sp by (simp add: format_moderators_def parse_moderators_def gs_def [symmetric])
  qed
qed

lemma find_map_same:
  assumes "\<And>x. P (f x) = P x" "\<And>x. P x \<Longrightarrow> f x = x"
  shows "find P (map f xs) = find P xs"
  by (induction xs) (simp_all add: assms)

lemma find_map: "(\<And>x. P (f x) = P x) \<Longrightarrow> find P (map f xs) = map_option f (find P xs)"
  by (induction xs) simp_all

lemma find_append: "find P (xs @ ys) = (case find P xs of None \<Rightarrow> find P ys | Some x \<Rightarrow> Some x)"
  by (induction xs) simp_all

abbreviation put_right :: "chan_env \<Rightarrow> ChannelRights \<Rightarrow> string \<times> rights_row \<Rightarrow> string \<times> rights_row" where
  "put_right env r \<equiv> \<lambda>(k, v). if nameEq env k (rName r) then (k, rights_of r) else (k, v)"

lemma put_right_other:
  assumes "equivp (nameEq env)" "\<not> nameEq env n (rName r)"
  shows "find (\<lambda>(k, v). nameEq env k n) (map (put_right env r) xs) = find (\<lambda>(k, v). nameEq env k n) xs"
proof (rule find_map_same)
  have *: "nameEq env k n \<Longrightarrow> \<not> nameEq env k (rName r)" for k
    using assms by (meson equivp_symp equivp_transp)
  show "(case put_right env r x of (k, v) \<Rightarrow> nameEq env k n) = (case x of (k, v) \<Rightarrow> nameEq env k n)" for x
    by (cases x) simp
  show "(case x of (k, v) \<Rightarrow> nameEq env k n) \<Longrightarrow> put_right env r x = x" for x
    using * by (cases x) simp
qed

lemma SetChannelRights_same:
  assumes "equivp (nameEq env)" "\<not> stmtFails env StmtSetChannelRights 0 0 0"
  shows "\<exists>k. nameEq env k (rName r) \<and>
    find (\<lambda>(k, v). nameEq env k (rName r)) (rightsRows (fst (SetChannelRights env r db))) = Some (k, rights_of r)"
proof (cases "find (\<lambda>(k, v). nameEq env k (rName r)) (rightsRows db)")
  case None
  then have "\<not> (\<exists>(k, v)\<in>set (rightsRows db). nameEq env k (rName r))" by (auto simp: find_None_iff)
  with None show ?thesis
    using assms by (auto simp: SetChannelRights_def find_append equivp_reflp)
next
  case (Some x)
  obtain k v where x: "x = (k, v)" by force
  with Some have k: "(k, v) \<in> set (rightsRows db)" "nameEq env k (rName r)"
    by (auto simp: find_Some_iff in_set_conv_nth)
  have "find (\<lambda>(k, v). nameEq env k (rName r)) (map (put_right env r) (rightsRows db)) = map_option (put_right env r) (Some x)"
    unfolding Some [symmetric] by (rule find_map) (auto split: if_splits)
  with k x show ?thesis using assms by (auto simp: SetChannelRights_def)
qed

lemma SetChannelRights_other:
  assumes "equivp (nameEq env)" "\<not> nameEq env n (rName r)"
  shows "GetChannelRights env n (fst (SetChannelRights env r db)) = GetChannelRights env n db"
proof -
  have "\<not> nameEq env (rName r) n" using assms by (meson equivp_symp)
  then show ?thesis
    using put_right_other [OF assms]
    by (simp add: GetChannelRights_def SetChannelRights_def find_append split: option.split)
qed

text \<open>
  Rights survive the database. Rights that are stored are read back unchanged, under the name the row
  already had, except that zero GUIDs leave the list of moderators; the rights of other names do not
  change. The collation must be an equivalence.
\<close>

lemma channel_rights_roundtrip:
  assumes "equivp (nameEq env)"
    and "\<not> stmtFails env StmtSetChannelRights 0 0 0" "\<not> stmtFails env StmtGetChannelRights 0 0 0"
    and "SetChannelRights env r db = (db', ok)"
  shows "ok \<and>
    (\<exists>k. nameEq env k (rName r) \<and>
       GetChannelRights env (rName r) db' = Some (Some (r\<lparr>rName := k, Moderators := filter (\<lambda>g. g \<noteq> 0) (Moderators r)\<rparr>))) \<and>
    (\<forall>other. \<not> nameEq env other (rName r) \<longrightarrow> GetChannelRights env other db' = GetChannelRights env other db)"
proof -
  from assms have db': "db' = fst (SetChannelRights env r db)" and ok: ok by (simp_all add: SetChannelRights_def)
  obtain k where "nameEq env k (rName r)"
    "find (\<lambda>(k, v). nameEq env k (rName r)) (rightsRows db') = Some (k, rights_of r)"
    using SetChannelRights_same [OF assms(1,2)] db' by blast
  then show ?thesis
    using ok assms(3) SetChannelRights_other [OF assms(1), of _ r db] db'
    by (auto simp: GetChannelRights_def rights_of_def parse_format_moderators)
qed

definition ex_cenv :: chan_env where
  "ex_cenv = \<lparr>now = 0, stmtFails = \<lambda>_ _ _ _. False, iter = \<lambda>_ xs. xs, nameEq = (=)\<rparr>"

definition empty_db :: channels_db where
  "empty_db = \<lparr>channelRows = [], autoIncrement = 1, rightsRows = [], banRows = [], memberRows = []\<rparr>"

definition ex_rights :: ChannelRights where
  "ex_rights = \<lparr>rName = ''world'', rFlags = 8, SpeakDelay = 0, JoinMessage = [], DelayMessage = [], Moderators = [12, 0, 345]\<rparr>"

theorem channel_rights_roundtrip_witness:
  "GetChannelRights ex_cenv ''world'' (fst (SetChannelRights ex_cenv ex_rights empty_db)) =
     Some (Some (ex_rights\<lparr>Moderators := [12, 345]\<rparr>))"
proof -
  have "equivp (nameEq ex_cenv)" by (simp add: ex_cenv_def identity_equivp)
  from channel_rights_roundtrip [OF this, of ex_rights empty_db "fst (SetChannelRights ex_cenv ex_rights empty_db)"
      "snd (SetChannelRights ex_cenv ex_rights empty_db)"]
  show ?thesis by (simp add: ex_cenv_def ex_rights_def)
qed

section \<open>Active channels\<close>

abbreviation MemberFlagNone :: u8 where "MemberFlagNone \<equiv> 0x00"
abbreviation MemberFlagOwner :: u8 where "MemberFlagOwner \<equiv> 0x01"
abbreviation MemberFlagModerator :: u8 where "MemberFlagModerator \<equiv> 0x02"
abbreviation MemberFlagVoiced :: u8 where "MemberFlagVoiced \<equiv> 0x04"
abbreviation MemberFlagMuted :: u8 where "MemberFlagMuted \<equiv> 0x08"
abbreviation ChannelFlagCustom :: u8 where "ChannelFlagCustom \<equiv> 0x01"
abbreviation ChannelRightCantSpeak :: u32 where "ChannelRightCantSpeak \<equiv> 0x008"

datatype chan_error = ErrPlayerBanned | ErrWrongPassword | ErrNotMember | ErrNotModerator | ErrNotOwner
  | ErrPlayerNotFound | ErrChannelNotFound | ErrMuted | DBFailure

record ActiveChannel =
  channelID :: u32
  chName :: string
  team :: u32
  password :: string
  announce :: bool
  ownership :: bool
  moderation :: bool
  chFlags :: u8
  ownerGUID :: u64
  rights :: "ChannelRights option"
  members :: "(u64 \<times> ChannelMember) list"
  bannedUntil :: "(u64 \<times> int) list"

text \<open>The methods change a channel and the tables of its realm.\<close>

type_synonym chan_state = "ActiveChannel \<times> channels_db"

abbreviation member_of :: "ActiveChannel \<Rightarrow> u64 \<Rightarrow> ChannelMember option" where
  "member_of ch \<equiv> map_of (members ch)"

text \<open>An assignment to \<open>Flags\<close> of a member the map points to.\<close>

definition set_flags :: "u64 \<Rightarrow> u8 \<Rightarrow> ActiveChannel \<Rightarrow> ActiveChannel" where
  "set_flags g fl ch =
     (case member_of ch g of
        None \<Rightarrow> ch
      | Some m \<Rightarrow> ch\<lparr>members := AList.update g (m\<lparr>Flags := fl\<rparr>) (members ch)\<rparr>)"

definition GetMembers :: "chan_env \<Rightarrow> ActiveChannel \<Rightarrow> ChannelMember list" where
  "GetMembers env ch = List.map_filter (member_of ch) (iter env 0 (map fst (members ch)))"

definition IsMember :: "u64 \<Rightarrow> ActiveChannel \<Rightarrow> bool" where
  "IsMember playerGUID ch \<longleftrightarrow> member_of ch playerGUID \<noteq> None"

definition GetMemberFlags :: "u64 \<Rightarrow> ActiveChannel \<Rightarrow> u8" where
  "GetMemberFlags playerGUID ch =
     (case member_of ch playerGUID of Some m \<Rightarrow> Flags m | None \<Rightarrow> MemberFlagNone)"

definition FindMemberByName :: "chan_env \<Rightarrow> string \<Rightarrow> ActiveChannel \<Rightarrow> u64" where
  "FindMemberByName env name ch =
     (case find (\<lambda>m. PlayerName m = name) (GetMembers env ch) of Some m \<Rightarrow> PlayerGUID m | None \<Rightarrow> 0)"

definition banned :: "int \<Rightarrow> u64 \<Rightarrow> ActiveChannel \<Rightarrow> bool" where
  "banned t g ch \<longleftrightarrow> (case map_of (bannedUntil ch) g of None \<Rightarrow> False | Some banTime \<Rightarrow> t < banTime)"

definition rights_moderator :: "ChannelRights option \<Rightarrow> u64 \<Rightarrow> bool" where
  "rights_moderator r g \<longleftrightarrow> (case r of None \<Rightarrow> False | Some r \<Rightarrow> \<exists>m\<in>set (Moderators r). ucast m = g)"

definition JoinChannel :: "chan_env \<Rightarrow> u64 \<Rightarrow> string \<Rightarrow> string \<Rightarrow> chan_state \<Rightarrow> chan_state \<times> chan_error option" where
  "JoinChannel env playerGUID playerName pw s =
     (case s of (ch, db) \<Rightarrow>
        if banned (now env) playerGUID ch then (s, Some ErrPlayerBanned)
        else if password ch \<noteq> [] \<and> password ch \<noteq> pw then (s, Some ErrWrongPassword)
        else if member_of ch playerGUID \<noteq> None then (s, None)
        else
          (let first = members ch = [] \<and> ownership ch;
               fl = (if first then MemberFlagOwner else MemberFlagNone);
               ch1 = (if first then ch\<lparr>ownerGUID := playerGUID\<rparr> else ch);
               fl1 = (if rights_moderator (rights ch) playerGUID then fl OR MemberFlagModerator else fl);
               member = \<lparr>PlayerGUID = playerGUID, PlayerName = playerName, Flags = fl1\<rparr>
           in case SaveChannelMember env (channelID ch) member db of
                (db', True) \<Rightarrow> ((ch1\<lparr>members := AList.update playerGUID member (members ch)\<rparr>, db'), None)
              | (db', False) \<Rightarrow> ((ch1, db'), Some DBFailure)))"

text \<open>
  The next owner: the first moderator the iteration meets, or else the first member; loops that look
  for somebody else skip the players in \<open>skip\<close>. Zero means nobody.
\<close>

definition choose_owner :: "chan_env \<Rightarrow> (u64 \<Rightarrow> bool) \<Rightarrow> ActiveChannel \<Rightarrow> u64" where
  "choose_owner env skip ch =
     (let gs = map fst (members ch);
          g1 = (case find (\<lambda>g. \<not> skip g \<and> GetMemberFlags g ch AND MemberFlagModerator \<noteq> 0) (iter env 1 gs) of
                  None \<Rightarrow> 0 | Some g \<Rightarrow> g)
      in if g1 = 0 then (case find (\<lambda>g. \<not> skip g) (iter env 2 gs) of None \<Rightarrow> 0 | Some g \<Rightarrow> g) else g1)"

text \<open>Making somebody the owner; the write of the flag may fail and is only logged then.\<close>

definition make_owner :: "chan_env \<Rightarrow> u64 \<Rightarrow> chan_state \<Rightarrow> chan_state" where
  "make_owner env g s =
     (case s of (ch, db) \<Rightarrow>
        let fl = GetMemberFlags g ch OR MemberFlagOwner;
            ch1 = (set_flags g fl ch)\<lparr>ownerGUID := g\<rparr>
        in (ch1, fst (UpdateMemberFlags env 0 (channelID ch) g fl db)))"

definition LeaveChannel :: "chan_env \<Rightarrow> u64 \<Rightarrow> chan_state \<Rightarrow> chan_state \<times> (chan_error + u64)" where
  "LeaveChannel env playerGUID s =
     (case s of (ch, db) \<Rightarrow>
        case member_of ch playerGUID of
          None \<Rightarrow> (s, Inl ErrNotMember)
        | Some member \<Rightarrow>
            (let wasOwner = Flags member AND MemberFlagOwner \<noteq> 0;
                 ch1 = ch\<lparr>members := AList.delete playerGUID (members ch)\<rparr>
             in case RemoveChannelMember env (channelID ch) playerGUID db of
                  (db', False) \<Rightarrow> ((ch1\<lparr>members := AList.update playerGUID member (members ch1)\<rparr>, db'), Inl DBFailure)
                | (db', True) \<Rightarrow>
                    if wasOwner \<and> members ch1 \<noteq> [] \<and> ownership ch1
                    then let newOwnerGUID = choose_owner env (\<lambda>_. False) ch1
                         in if newOwnerGUID \<noteq> 0 then (make_owner env newOwnerGUID (ch1, db'), Inr newOwnerGUID)
                            else ((ch1, db'), Inr 0)
                    else ((ch1, db'), Inr 0)))"

text \<open>\<open>SetModerator\<close> and \<open>SetMute\<close> set or clear one flag and take it back when the write fails.\<close>

definition write_flag :: "chan_env \<Rightarrow> u64 \<Rightarrow> u8 \<Rightarrow> bool \<Rightarrow> chan_state \<Rightarrow> chan_state \<times> chan_error option" where
  "write_flag env playerGUID flag on s =
     (case s of (ch, db) \<Rightarrow>
        case member_of ch playerGUID of
          None \<Rightarrow> (s, Some ErrNotMember)
        | Some member \<Rightarrow>
            (let oldFlags = Flags member;
                 newFlags = (if on then oldFlags OR flag else oldFlags AND NOT flag);
                 ch1 = set_flags playerGUID newFlags ch
             in case UpdateMemberFlags env 0 (channelID ch) playerGUID newFlags db of
                  (db', False) \<Rightarrow> ((set_flags playerGUID oldFlags ch1, db'), Some DBFailure)
                | (db', True) \<Rightarrow> ((ch1, db'), None)))"

definition SetModerator :: "chan_env \<Rightarrow> u64 \<Rightarrow> bool \<Rightarrow> chan_state \<Rightarrow> chan_state \<times> chan_error option" where
  "SetModerator env playerGUID isModerator s = write_flag env playerGUID MemberFlagModerator isModerator s"

definition SetMute :: "chan_env \<Rightarrow> u64 \<Rightarrow> bool \<Rightarrow> chan_state \<Rightarrow> chan_state \<times> chan_error option" where
  "SetMute env playerGUID isMuted s = write_flag env playerGUID MemberFlagMuted isMuted s"

text \<open>
  A transfer of the ownership by the owner clears the flag of the old owner, then sets the flag of the
  new one. The old owner and the new one may be the same member.
\<close>

definition grant_owner :: "chan_env \<Rightarrow> u64 \<Rightarrow> u64 \<Rightarrow> u8 \<Rightarrow> chan_state \<Rightarrow> chan_state \<times> chan_error option" where
  "grant_owner env newOwnerGUID oldOwnerGUID oldOwnerOldFlags s =
     (case s of (ch, db) \<Rightarrow>
        let newOwnerOldFlags = GetMemberFlags newOwnerGUID ch;
            fl = newOwnerOldFlags OR MemberFlagOwner;
            ch1 = set_flags newOwnerGUID fl ch
        in case UpdateMemberFlags env 1 (channelID ch) newOwnerGUID fl db of
             (db', True) \<Rightarrow> ((ch1\<lparr>ownerGUID := newOwnerGUID\<rparr>, db'), None)
           | (db', False) \<Rightarrow>
               (let ch2 = set_flags newOwnerGUID newOwnerOldFlags ch1
                in ((if oldOwnerGUID \<noteq> 0 then set_flags oldOwnerGUID oldOwnerOldFlags ch2 else ch2, db'), Some DBFailure)))"

definition SetOwner :: "chan_env \<Rightarrow> u64 \<Rightarrow> chan_state \<Rightarrow> chan_state \<times> chan_error option" where
  "SetOwner env newOwnerGUID s =
     (case s of (ch, db) \<Rightarrow>
        let oldOwnerGUID = ownerGUID ch in
        if member_of ch newOwnerGUID = None then (s, Some ErrPlayerNotFound)
        else case (if oldOwnerGUID \<noteq> 0 then member_of ch oldOwnerGUID else None) of
          None \<Rightarrow> grant_owner env newOwnerGUID oldOwnerGUID 0 s
        | Some oldOwner \<Rightarrow>
            (let fl = Flags oldOwner AND NOT MemberFlagOwner;
                 ch1 = set_flags oldOwnerGUID fl ch
             in case UpdateMemberFlags env 0 (channelID ch) oldOwnerGUID fl db of
                  (db', False) \<Rightarrow> ((set_flags oldOwnerGUID (Flags oldOwner) ch1, db'), Some DBFailure)
                | (db', True) \<Rightarrow> grant_owner env newOwnerGUID oldOwnerGUID (Flags oldOwner) (ch1, db')))"

definition ToggleModeration :: "ActiveChannel \<Rightarrow> ActiveChannel \<times> bool" where
  "ToggleModeration ch = (let m = \<not> moderation ch in (ch\<lparr>moderation := m\<rparr>, m))"

definition ToggleAnnouncements :: "ActiveChannel \<Rightarrow> ActiveChannel \<times> bool" where
  "ToggleAnnouncements ch = (let a = \<not> announce ch in (ch\<lparr>announce := a\<rparr>, a))"

definition row_of :: "chan_env \<Rightarrow> ActiveChannel \<Rightarrow> Channel" where
  "row_of env ch = \<lparr>ChannelID = channelID ch, Name = chName ch, Team = team ch, Announce = announce ch,
     Ownership = ownership ch, Password = password ch, LastUsed = now env\<rparr>"

definition PersistToggleAnnouncements :: "chan_env \<Rightarrow> chan_state \<Rightarrow> chan_state \<times> chan_error option" where
  "PersistToggleAnnouncements env s =
     (case s of (ch, db) \<Rightarrow>
        case UpdateChannel env (row_of env ch) db of (db', ok) \<Rightarrow> ((ch, db'), if ok then None else Some DBFailure))"

definition SetPassword :: "chan_env \<Rightarrow> string \<Rightarrow> chan_state \<Rightarrow> chan_state \<times> chan_error option" where
  "SetPassword env pw s =
     (case s of (ch, db) \<Rightarrow>
        let ch1 = ch\<lparr>password := pw\<rparr> in
        case UpdateChannel env (row_of env ch1) db of (db', ok) \<Rightarrow> ((ch1, db'), if ok then None else Some DBFailure))"

definition CanSpeak :: "u64 \<Rightarrow> ActiveChannel \<Rightarrow> bool" where
  "CanSpeak playerGUID ch =
     (case member_of ch playerGUID of
        None \<Rightarrow> False
      | Some member \<Rightarrow>
          if Flags member AND MemberFlagMuted \<noteq> 0 then False
          else if moderation ch \<and>
            Flags member AND (MemberFlagVoiced OR MemberFlagModerator OR MemberFlagOwner) = 0 then False
          else case rights ch of None \<Rightarrow> True | Some r \<Rightarrow> rFlags r AND ChannelRightCantSpeak = 0)"

text \<open>The part of \<^verbatim>\<open>BanPlayer\<close> and \<^verbatim>\<open>UnbanPlayer\<close> after the channel was found.\<close>

definition ban_player :: "chan_env \<Rightarrow> u64 \<Rightarrow> int \<Rightarrow> chan_state \<Rightarrow> chan_state \<times> chan_error option" where
  "ban_player env playerGUID banTime s =
     (case s of (ch, db) \<Rightarrow>
        case AddChannelBan env (channelID ch) playerGUID banTime db of
          (db', ok) \<Rightarrow> ((ch\<lparr>bannedUntil := AList.update playerGUID banTime (bannedUntil ch)\<rparr>, db'),
                        if ok then None else Some DBFailure))"

definition unban_player :: "chan_env \<Rightarrow> u64 \<Rightarrow> chan_state \<Rightarrow> chan_state \<times> chan_error option" where
  "unban_player env playerGUID s =
     (case s of (ch, db) \<Rightarrow>
        case RemoveChannelBan env (channelID ch) playerGUID db of
          (db', ok) \<Rightarrow> ((ch\<lparr>bannedUntil := AList.delete playerGUID (bannedUntil ch)\<rparr>, db'),
                        if ok then None else Some DBFailure))"

text \<open>What the logout of a player does to one channel; the result is the new owner, or zero.\<close>

definition logout_channel :: "chan_env \<Rightarrow> u64 \<Rightarrow> chan_state \<Rightarrow> chan_state \<times> u64" where
  "logout_channel env playerGUID s =
     (case s of (ch, db) \<Rightarrow>
        case member_of ch playerGUID of
          None \<Rightarrow> (s, 0)
        | Some member \<Rightarrow>
            if Flags member AND MemberFlagOwner = 0 \<or> \<not> ownership ch then (s, 0)
            else let newOwnerGUID = choose_owner env (\<lambda>g. g = playerGUID) ch
                 in if newOwnerGUID = 0 then (s, 0)
                    else let fl = Flags member AND NOT MemberFlagOwner;
                             ch1 = set_flags playerGUID fl ch;
                             db1 = fst (UpdateMemberFlags env 0 (channelID ch) playerGUID fl db)
                         in (make_owner env newOwnerGUID (ch1, db1), newOwnerGUID))"

fun prune_members :: "chan_env \<Rightarrow> u64 list \<Rightarrow> chan_state \<Rightarrow> chan_state" where
  "prune_members env [] s = s"
| "prune_members env (g # gs) s =
     (case s of (ch, db) \<Rightarrow>
        prune_members env gs
          (ch\<lparr>members := AList.delete g (members ch)\<rparr>, fst (RemoveChannelMember env (channelID ch) g db)))"

definition PruneOfflineMembers :: "chan_env \<Rightarrow> (u64 \<Rightarrow> bool) \<Rightarrow> chan_state \<Rightarrow> chan_state" where
  "PruneOfflineMembers env online s =
     (case prune_members env (filter (\<lambda>g. \<not> online g) (iter env 0 (map fst (members (fst s))))) s of
        (ch, db) \<Rightarrow>
          if ownerGUID ch \<noteq> 0 \<and> \<not> online (ownerGUID ch)
          then let ch1 = ch\<lparr>ownerGUID := 0\<rparr>
               in if members ch1 \<noteq> [] \<and> ownership ch1
                  then let newOwnerGUID = choose_owner env (\<lambda>_. False) ch1
                       in if newOwnerGUID \<noteq> 0 then make_owner env newOwnerGUID (ch1, db) else (ch1, db)
                  else (ch1, db)
          else (ch, db))"

text \<open>The active channel that \<^verbatim>\<open>GetOrCreateChannel\<close> builds from what it loaded.\<close>

definition load_channel ::
  "chan_env \<Rightarrow> u8 \<Rightarrow> Channel \<Rightarrow> ChannelRights option \<Rightarrow> (u64 \<times> int) list \<Rightarrow> ChannelMember list \<Rightarrow> ActiveChannel" where
  "load_channel env flags c rts bans ms =
     \<lparr>channelID = ChannelID c, chName = Name c, team = Team c, password = Password c,
      announce = Announce c, ownership = Ownership c, moderation = False, chFlags = flags,
      ownerGUID = foldl (\<lambda>o' m. if Flags m AND MemberFlagOwner \<noteq> 0 then PlayerGUID m else o') 0 ms,
      rights = rts,
      members = foldl (\<lambda>acc m. AList.update (PlayerGUID m) m acc) [] ms,
      bannedUntil = foldl (\<lambda>acc (g, t). if now env < t then AList.update g t acc else acc) [] bans\<rparr>"

end
