(* ===== verification/Chat_Ownership.thy ===== *)
theory Chat_Ownership
  imports Chat_Channels
begin

unbundle bit_operations_syntax

text \<open>
  The owner of a chat channel: whatever statements fail, a channel that was created empty has exactly
  one owner while it has members, and its rows are its members as long as the writes of ownership
  transfers succeed.
\<close>

section \<open>The owner of a channel\<close>

text \<open>The owner flag is the lowest bit, so the parity of the flags tells the owner.\<close>

lemma owner_bit: "(fl :: u8) AND 1 = 0 \<longleftrightarrow> even fl"
  by (simp add: and_one_eq even_iff_mod_2_eq_zero)

lemma owner_bit_set [simp]: "odd (fl OR 1 :: u8)" by (simp add: even_or_iff)

lemma owner_bit_cleared [simp]: "even (fl AND NOT 1 :: u8)" by (simp add: even_and_iff)

lemma owner_bit_kept:
  "even (fl OR 2 :: u8) = even fl" "even (fl AND NOT 2 :: u8) = even fl"
  "even (fl OR 8 :: u8) = even fl" "even (fl AND NOT 8 :: u8) = even fl"
  by (simp_all add: even_or_iff even_and_iff)

text \<open>
  The invariant: a member is stored under his own GUID, which is not zero; only the player in
  \<open>ownerGUID\<close> can have the owner flag; and in a channel with ownership that has members he is one of
  them and has it.
\<close>

definition owner_ok :: "(u64 \<rightharpoonup> ChannelMember) \<Rightarrow> u64 \<Rightarrow> bool \<Rightarrow> bool" where
  "owner_ok F o' w \<longleftrightarrow>
     (\<forall>g m. F g = Some m \<longrightarrow> PlayerGUID m = g \<and> g \<noteq> 0 \<and> (odd (Flags m) \<longrightarrow> g = o')) \<and>
     (w \<longrightarrow> (\<forall>g m. F g = Some m \<longrightarrow> (\<exists>m'. F o' = Some m' \<and> odd (Flags m'))))"

definition no_owner :: "(u64 \<rightharpoonup> ChannelMember) \<Rightarrow> bool" where
  "no_owner F \<longleftrightarrow> (\<forall>g m. F g = Some m \<longrightarrow> PlayerGUID m = g \<and> g \<noteq> 0 \<and> even (Flags m))"

abbreviation chan_ok :: "ActiveChannel \<Rightarrow> bool" where
  "chan_ok ch \<equiv> owner_ok (member_of ch) (ownerGUID ch) (ownership ch)"

lemma owner_okI:
  assumes "\<And>g m. F g = Some m \<Longrightarrow> PlayerGUID m = g \<and> g \<noteq> 0 \<and> (odd (Flags m) \<longrightarrow> g = o')"
    and "\<And>g m. w \<Longrightarrow> F g = Some m \<Longrightarrow> \<exists>m'. F o' = Some m' \<and> odd (Flags m')"
  shows "owner_ok F o' w"
  unfolding owner_ok_def using assms by blast

lemma owner_okD:
  "owner_ok F o' w \<Longrightarrow> F g = Some m \<Longrightarrow> PlayerGUID m = g \<and> g \<noteq> 0 \<and> (odd (Flags m) \<longrightarrow> g = o')"
  "owner_ok F o' w \<Longrightarrow> w \<Longrightarrow> F g = Some m \<Longrightarrow> \<exists>m'. F o' = Some m' \<and> odd (Flags m')"
  unfolding owner_ok_def by blast+

lemma no_ownerI:
  "(\<And>g m. F g = Some m \<Longrightarrow> PlayerGUID m = g \<and> g \<noteq> 0 \<and> even (Flags m)) \<Longrightarrow> no_owner F"
  unfolding no_owner_def by blast

lemma no_ownerD: "no_owner F \<Longrightarrow> F g = Some m \<Longrightarrow> PlayerGUID m = g \<and> g \<noteq> 0 \<and> even (Flags m)"
  unfolding no_owner_def by blast

lemma owner_ok_flags:
  assumes "owner_ok F o' w" "F g = Some m" "even fl = even (Flags m)"
  shows "owner_ok (F(g \<mapsto> m\<lparr>Flags := fl\<rparr>)) o' w"
proof (rule owner_okI)
  fix h n assume h: "(F(g \<mapsto> m\<lparr>Flags := fl\<rparr>)) h = Some n"
  then show "PlayerGUID n = h \<and> h \<noteq> 0 \<and> (odd (Flags n) \<longrightarrow> h = o')"
    using owner_okD(1) [OF assms(1,2)] owner_okD(1) [OF assms(1), of h] assms(3)
    by (cases "h = g") auto
  assume w
  from owner_okD(2) [OF assms(1) this assms(2)] show "\<exists>m'. (F(g \<mapsto> m\<lparr>Flags := fl\<rparr>)) o' = Some m' \<and> odd (Flags m')"
    using assms(2,3) by (cases "o' = g") auto
qed

lemma owner_ok_add:
  assumes "owner_ok F o' w" "g \<noteq> 0" "PlayerGUID m = g" "even (Flags m)" "w \<Longrightarrow> F \<noteq> Map.empty" "F g = None"
  shows "owner_ok (F(g \<mapsto> m)) o' w"
proof (rule owner_okI)
  fix h n assume "(F(g \<mapsto> m)) h = Some n"
  then show "PlayerGUID n = h \<and> h \<noteq> 0 \<and> (odd (Flags n) \<longrightarrow> h = o')"
    using assms(2-4) owner_okD(1) [OF assms(1), of h] by (cases "h = g") auto
  assume w
  with assms(5) obtain h' n' where "F h' = Some n'" by fastforce
  from owner_okD(2) [OF assms(1) \<open>w\<close> this] assms(6)
  show "\<exists>m'. (F(g \<mapsto> m)) o' = Some m' \<and> odd (Flags m')" by (cases "o' = g") auto
qed

lemma owner_ok_first:
  assumes "g \<noteq> 0" "PlayerGUID m = g" "odd (Flags m)"
  shows "owner_ok [g \<mapsto> m] g w"
  by (rule owner_okI) (use assms in \<open>auto split: if_splits\<close>)

lemma owner_ok_remove:
  assumes "owner_ok F o' w" "F g = Some m" "even (Flags m)"
  shows "owner_ok (F(g := None)) o' w"
proof (rule owner_okI)
  fix h n assume h: "(F(g := None)) h = Some n"
  then show "PlayerGUID n = h \<and> h \<noteq> 0 \<and> (odd (Flags n) \<longrightarrow> h = o')"
    using owner_okD(1) [OF assms(1), of h] by (auto split: if_splits)
  assume w
  from owner_okD(2) [OF assms(1) this assms(2)] show "\<exists>m'. (F(g := None)) o' = Some m' \<and> odd (Flags m')"
    using assms(2,3) by (cases "o' = g") auto
qed

lemma no_owner_remove:
  assumes "owner_ok F o' w" "F g = Some m" "odd (Flags m)"
  shows "no_owner (F(g := None))"
proof (rule no_ownerI)
  fix h n assume "(F(g := None)) h = Some n"
  then show "PlayerGUID n = h \<and> h \<noteq> 0 \<and> even (Flags n)"
    using owner_okD(1) [OF assms(1,2)] owner_okD(1) [OF assms(1), of h n] assms(3) by (auto split: if_splits)
qed

lemma no_owner_clear:
  assumes "owner_ok F o' w" "F o' = Some m" "even fl"
  shows "no_owner (F(o' \<mapsto> m\<lparr>Flags := fl\<rparr>))"
proof (rule no_ownerI)
  fix h n assume "(F(o' \<mapsto> m\<lparr>Flags := fl\<rparr>)) h = Some n"
  then show "PlayerGUID n = h \<and> h \<noteq> 0 \<and> even (Flags n)"
    using owner_okD(1) [OF assms(1,2)] owner_okD(1) [OF assms(1), of h n] assms(3) by (cases "h = o'") auto
qed

lemma no_owner_ok: "no_owner F \<Longrightarrow> (w \<Longrightarrow> F = Map.empty) \<Longrightarrow> owner_ok F o' w"
  by (rule owner_okI) (auto dest: no_ownerD)

lemma no_owner_grant:
  assumes "no_owner F" "F g = Some m" "odd fl"
  shows "owner_ok (F(g \<mapsto> m\<lparr>Flags := fl\<rparr>)) g w"
proof (rule owner_okI)
  fix h n assume "(F(g \<mapsto> m\<lparr>Flags := fl\<rparr>)) h = Some n"
  then show "PlayerGUID n = h \<and> h \<noteq> 0 \<and> (odd (Flags n) \<longrightarrow> h = g)"
    using no_ownerD [OF assms(1,2)] no_ownerD [OF assms(1), of h n] by (cases "h = g") auto
qed (use assms(3) in simp)

lemma owner_ok_absent:
  assumes "owner_ok F o' w" "F o' = None"
  shows "no_owner F"
proof (rule no_ownerI)
  fix g m assume "F g = Some m"
  with owner_okD(1) [OF assms(1) this] assms(2) show "PlayerGUID m = g \<and> g \<noteq> 0 \<and> even (Flags m)" by auto
qed

lemma owner_ok_subset_keep:
  assumes "owner_ok F o' w" "F' \<subseteq>\<^sub>m F" "F' o' = F o'"
  shows "owner_ok F' o' w"
proof (rule owner_okI)
  fix g m assume g: "F' g = Some m"
  then have "F g = Some m" using assms(2) by (auto simp: map_le_def dom_def)
  from owner_okD(1) [OF assms(1) this] show "PlayerGUID m = g \<and> g \<noteq> 0 \<and> (odd (Flags m) \<longrightarrow> g = o')" .
  assume w
  from owner_okD(2) [OF assms(1) this \<open>F g = Some m\<close>] assms(3) show "\<exists>m'. F' o' = Some m' \<and> odd (Flags m')" by simp
qed

lemma owner_ok_subset_absent:
  assumes "owner_ok F o' w" "F' \<subseteq>\<^sub>m F" "F' o' = None"
  shows "no_owner F'"
proof (rule no_ownerI)
  fix g m assume g: "F' g = Some m"
  then have "F g = Some m" using assms(2) by (auto simp: map_le_def dom_def)
  from owner_okD(1) [OF assms(1) this] show "PlayerGUID m = g \<and> g \<noteq> 0 \<and> even (Flags m)"
    using g assms(3) by auto
qed

section \<open>What the methods do to the members and their rows\<close>

lemma some_member: "members ch \<noteq> [] \<Longrightarrow> \<exists>g m. member_of ch g = Some m"
  by (cases "members ch") auto

lemma member_of_update [simp]:
  "map_of (AList.update g m (members ch)) = (member_of ch)(g \<mapsto> m)"
  "map_of (AList.delete g (members ch)) = (member_of ch)(g := None)"
  by (simp_all add: update_conv' delete_conv')

lemma set_flags_member: "member_of ch g = Some m \<Longrightarrow> member_of (set_flags g fl ch) = (member_of ch)(g \<mapsto> m\<lparr>Flags := fl\<rparr>)"
  by (simp add: set_flags_def)

lemma set_flags_fields [simp]:
  "channelID (set_flags g fl ch) = channelID ch" "ownerGUID (set_flags g fl ch) = ownerGUID ch"
  "ownership (set_flags g fl ch) = ownership ch" "bannedUntil (set_flags g fl ch) = bannedUntil ch"
  "dom (member_of (set_flags g fl ch)) = dom (member_of ch)"
  by (auto simp: set_flags_def split: option.split)

lemma set_flags_back:
  assumes "member_of ch g = Some m"
  shows "member_of (set_flags g (Flags m) (set_flags g fl ch)) = member_of ch"
proof -
  have "member_of (set_flags g fl ch) g = Some (m\<lparr>Flags := fl\<rparr>)" by (simp add: set_flags_member [OF assms])
  from set_flags_member [OF this, of "Flags m"] show ?thesis
    using assms by (simp add: set_flags_member [OF assms] fun_upd_idem)
qed

lemma db_member_Save:
  assumes "SaveChannelMember env c m db = (db', True)"
  shows "db_member c db' = (db_member c db)(PlayerGUID m \<mapsto> m)"
  using assms
  by (auto simp: SaveChannelMember_def db_member_def fun_eq_iff update_conv' Let_def split: if_splits option.splits)

lemma db_member_Remove:
  assumes "RemoveChannelMember env c g db = (db', True)"
  shows "db_member c db' = (db_member c db)(g := None)"
  using assms by (auto simp: RemoveChannelMember_def db_member_def fun_eq_iff delete_conv' split: if_splits)

lemma db_member_Update:
  assumes "UpdateMemberFlags env n c g fl db = (db', True)" "db_member c db g = Some m"
  shows "db_member c db' = (db_member c db)(g \<mapsto> m\<lparr>Flags := fl\<rparr>)"
proof -
  obtain nm fl0 t where row: "map_of (memberRows db) (c, g) = Some (nm, fl0, t)"
    "m = \<lparr>PlayerGUID = g, PlayerName = nm, Flags = fl0\<rparr>"
    using assms(2) by (auto simp: db_member_def)
  then show ?thesis
    using assms(1) by (auto simp: UpdateMemberFlags_def db_member_def fun_eq_iff update_conv' split: if_splits)
qed

lemma failed_write:
  "SaveChannelMember env c m db = (db', False) \<Longrightarrow> db' = db"
  "RemoveChannelMember env c g db = (db', False) \<Longrightarrow> db' = db"
  "UpdateMemberFlags env n c g fl db = (db', False) \<Longrightarrow> db' = db"
  by (auto simp: SaveChannelMember_def RemoveChannelMember_def UpdateMemberFlags_def Let_def split: if_splits)

lemma other_statements [simp]:
  "db_member c (fst (UpdateChannel env r db)) = db_member c db"
  "db_member c (fst (AddChannelBan env c' g t db)) = db_member c db"
  "db_member c (fst (RemoveChannelBan env c' g db)) = db_member c db"
  by (simp_all add: UpdateChannel_def AddChannelBan_def RemoveChannelBan_def db_member_def fun_eq_iff)

text \<open>
  The invariant of a channel and the tables. Its second part, that the rows of the channel are its
  members, is kept only while no write of an ownership transfer fails.
\<close>

definition chan_inv :: "bool \<Rightarrow> chan_state \<Rightarrow> bool" where
  "chan_inv x s \<longleftrightarrow> chan_ok (fst s) \<and> (x \<longrightarrow> db_member (channelID (fst s)) (snd s) = member_of (fst s))"

definition flag_writes_ok :: "chan_env \<Rightarrow> bool" where
  "flag_writes_ok env \<longleftrightarrow> (\<forall>c g n. \<not> stmtFails env StmtUpdateMemberFlags c g n)"

lemma UpdateMemberFlags_ok: "flag_writes_ok env \<Longrightarrow> UpdateMemberFlags env n c g fl db = (fst (UpdateMemberFlags env n c g fl db), True)"
  by (simp add: UpdateMemberFlags_def flag_writes_ok_def)

lemma choose_owner_member:
  assumes "good_iter env" "choose_owner env skip ch \<noteq> 0"
  shows "\<exists>m. member_of ch (choose_owner env skip ch) = Some m" "\<not> skip (choose_owner env skip ch)"
proof -
  have *: "find P (iter env n (map fst (members ch))) = Some g \<Longrightarrow> P g \<and> g \<in> dom (member_of ch)" for P n g
    using assms(1) by (auto simp: good_iter_def find_Some_iff dom_map_of_conv_image_fst dest: nth_mem)
  have "choose_owner env skip ch \<in> dom (member_of ch) \<and> \<not> skip (choose_owner env skip ch)"
    using assms(2) by (auto simp: choose_owner_def Let_def split: option.splits if_splits dest!: *)
  then show "\<exists>m. member_of ch (choose_owner env skip ch) = Some m" "\<not> skip (choose_owner env skip ch)" by auto
qed

lemma choose_owner_found:
  assumes "good_iter env" "member_of ch g = Some m" "g \<noteq> 0" "\<not> skip g" "\<forall>g\<in>dom (member_of ch). g \<noteq> 0"
  shows "choose_owner env skip ch \<noteq> 0"
proof -
  have it: "set (iter env n (map fst (members ch))) = dom (member_of ch)" for n
    using assms(1) by (simp add: good_iter_def dom_map_of_conv_image_fst)
  have "g \<in> dom (member_of ch)" using assms(2) by auto
  then have "find (\<lambda>g. \<not> skip g) (iter env 2 (map fst (members ch))) \<noteq> None"
    using assms(4) by (simp only: find_None_iff it) blast
  then obtain h where h: "find (\<lambda>g. \<not> skip g) (iter env 2 (map fst (members ch))) = Some h" by blast
  then have "h \<in> dom (member_of ch)" using it [of 2] by (auto simp: find_Some_iff dest: nth_mem)
  then show ?thesis using h assms(5) by (auto simp: choose_owner_def Let_def)
qed

definition new_flags :: "u64 \<Rightarrow> ActiveChannel \<Rightarrow> u8" where
  "new_flags g ch =
     (let fl = (if members ch = [] \<and> ownership ch then MemberFlagOwner else MemberFlagNone)
      in if rights_moderator (rights ch) g then fl OR MemberFlagModerator else fl)"

lemma odd_new_flags: "odd (new_flags g ch) \<longleftrightarrow> members ch = [] \<and> ownership ch"
  by (simp add: new_flags_def Let_def owner_bit_kept)

lemma JoinChannel_cases:
  assumes "JoinChannel env g nm pw (ch, db) = (s', r)"
  obtains "s' = (ch, db)"
  | db' where "member_of ch g = None" "SaveChannelMember env (channelID ch) \<lparr>PlayerGUID = g, PlayerName = nm, Flags = new_flags g ch\<rparr> db = (db', True)"
      "s' = (ch\<lparr>ownerGUID := if members ch = [] \<and> ownership ch then g else ownerGUID ch,
                members := AList.update g \<lparr>PlayerGUID = g, PlayerName = nm, Flags = new_flags g ch\<rparr> (members ch)\<rparr>, db')"
  | "members ch = []" "ownership ch" "s' = (ch\<lparr>ownerGUID := g\<rparr>, db)"
proof (cases "SaveChannelMember env (channelID ch) \<lparr>PlayerGUID = g, PlayerName = nm, Flags = new_flags g ch\<rparr> db")
  case (Pair db' b)
  show ?thesis
  proof (cases "banned (now env) g ch \<or> password ch \<noteq> [] \<and> password ch \<noteq> pw \<or> member_of ch g \<noteq> None")
    case True
    with assms have "s' = (ch, db)" by (auto simp: JoinChannel_def split: if_splits)
    then show ?thesis by (rule that(1))
  next
    case False
    then have res: "s' = (case (db', b) of
        (db', True) \<Rightarrow> (if members ch = [] \<and> ownership ch then ch\<lparr>ownerGUID := g\<rparr> else ch)
             \<lparr>members := AList.update g \<lparr>PlayerGUID = g, PlayerName = nm, Flags = new_flags g ch\<rparr> (members ch)\<rparr>
      | (db', False) \<Rightarrow> (if members ch = [] \<and> ownership ch then ch\<lparr>ownerGUID := g\<rparr> else ch), db')"
      using assms Pair unfolding JoinChannel_def new_flags_def Let_def by (cases b) auto
    show ?thesis
    proof (cases b)
      case True
      then show ?thesis using that(2) False Pair res by (cases "members ch = [] \<and> ownership ch") auto
    next
      case b: False
      then have "db' = db" using failed_write(1) [of env "channelID ch" _ db db'] Pair by simp
      then show ?thesis using that(1,3) b res by (cases "members ch = [] \<and> ownership ch") auto
    qed
  qed
qed

lemma JoinChannel_inv:
  assumes "chan_inv x s" "g \<noteq> 0" "JoinChannel env g nm pw s = (s', r)"
  shows "chan_inv x s'"
proof -
  obtain ch db where s: "s = (ch, db)" by force
  have ok: "chan_ok ch" and rows: "x \<Longrightarrow> db_member (channelID ch) db = member_of ch"
    using assms(1) by (simp_all add: chan_inv_def s)
  let ?m = "\<lparr>PlayerGUID = g, PlayerName = nm, Flags = new_flags g ch\<rparr>"
  from assms(3) [unfolded s] show ?thesis
  proof (cases rule: JoinChannel_cases)
    case 1
    then show ?thesis using assms(1) by (simp add: s)
  next
    case (2 db')
    have "owner_ok ((member_of ch)(g \<mapsto> ?m)) (if members ch = [] \<and> ownership ch then g else ownerGUID ch) (ownership ch)"
    proof (cases "members ch = [] \<and> ownership ch")
      case True
      then show ?thesis using owner_ok_first [of g ?m] assms(2) odd_new_flags [of g ch] by simp
    next
      case False
      then show ?thesis using owner_ok_add [OF ok assms(2), of ?m] odd_new_flags [of g ch] 2(1) by auto
    qed
    then show ?thesis using rows db_member_Save [OF 2(2)] by (simp add: chan_inv_def 2(3))
  next
    case 3
    then show ?thesis using ok rows by (simp add: chan_inv_def owner_ok_def)
  qed
qed

lemma make_owner_inv:
  assumes "no_owner (member_of ch)" "member_of ch g = Some m" "x \<Longrightarrow> flag_writes_ok env"
    and "x \<Longrightarrow> db_member (channelID ch) db = member_of ch"
  shows "chan_inv x (make_owner env g (ch, db))"
proof -
  have fl: "GetMemberFlags g ch = Flags m" by (simp add: GetMemberFlags_def assms(2))
  have "owner_ok (member_of (set_flags g (Flags m OR 1) ch)) g (ownership ch)"
    unfolding set_flags_member [OF assms(2)] by (rule no_owner_grant [OF assms(1,2)]) simp
  moreover have "db_member (channelID ch) (fst (UpdateMemberFlags env 0 (channelID ch) g (Flags m OR 1) db)) =
      member_of (set_flags g (Flags m OR 1) ch)" if x
    using db_member_Update [OF UpdateMemberFlags_ok [OF assms(3) [OF that]], of "channelID ch" db g m "0"] assms(2,4) that
    by (simp add: set_flags_member [OF assms(2)])
  ultimately show ?thesis by (simp add: make_owner_def chan_inv_def fl Let_def)
qed

lemma LeaveChannel_inv:
  assumes "chan_inv x s" "good_iter env" "x \<Longrightarrow> flag_writes_ok env" "LeaveChannel env g s = (s', r)"
  shows "chan_inv x s'"
proof (cases "member_of (fst s) g")
  case None
  then show ?thesis using assms(1,4) by (auto simp: LeaveChannel_def split: prod.splits)
next
  case (Some m)
  obtain ch db where s: "s = (ch, db)" by force
  have ok: "chan_ok ch" and rows: "x \<Longrightarrow> db_member (channelID ch) db = member_of ch"
    using assms(1) by (simp_all add: chan_inv_def s)
  obtain db' b where rm: "RemoveChannelMember env (channelID ch) g db = (db', b)" by force
  let ?ch1 = "ch\<lparr>members := AList.delete g (members ch)\<rparr>"
  have m: "member_of ch g = Some m" using Some by (simp add: s)
  show ?thesis
  proof (cases b)
    case False
    then show ?thesis
      using assms(4) ok rows failed_write(2) [of env "channelID ch" g db db'] rm m
      by (auto simp: LeaveChannel_def s chan_inv_def update_conv' delete_conv' fun_upd_idem Let_def)
  next
    case True
    have rows': "x \<Longrightarrow> db_member (channelID ch) db' = (member_of ch)(g := None)"
      using db_member_Remove [of env "channelID ch" g db db'] rm True rows by simp
    show ?thesis
    proof (cases "odd (Flags m) \<and> members ?ch1 \<noteq> [] \<and> ownership ch \<and> choose_owner env (\<lambda>_. False) ?ch1 \<noteq> 0")
      case t: True
      then have "s' = make_owner env (choose_owner env (\<lambda>_. False) ?ch1) (?ch1, db')"
        using assms(4) rm True by (auto simp: LeaveChannel_def s m owner_bit Let_def)
      moreover have "no_owner (member_of ?ch1)" using no_owner_remove [OF ok m] t by (simp add: delete_conv')
      ultimately show ?thesis
        using make_owner_inv [OF _ _ assms(3), of ?ch1 _ _ x db'] choose_owner_member(1) [OF assms(2), of "\<lambda>_. False" ?ch1] t rows'
        by auto
    next
      case f: False
      then have s': "s' = (?ch1, db')"
        using assms(4) rm True by (auto simp: LeaveChannel_def s m owner_bit Let_def split: if_splits)
      have "owner_ok ((member_of ch)(g := None)) (ownerGUID ch) (ownership ch)"
      proof (cases "odd (Flags m)")
        case odd: True
        have no: "no_owner ((member_of ch)(g := None))" using no_owner_remove [OF ok m odd] .
        show ?thesis
        proof (rule no_owner_ok [OF no], rule ccontr)
          assume w: "ownership ch" and ne: "(member_of ch)(g := None) \<noteq> Map.empty"
          then obtain h n where h: "member_of ?ch1 h = Some n" by fastforce
          then have "choose_owner env (\<lambda>_. False) ?ch1 \<noteq> 0"
            using no_ownerD [OF no, of h n] no_ownerD [OF no, of 0]
            by (intro choose_owner_found [OF assms(2) h]) (auto split: if_splits)
          with f odd w h show False by auto
        qed
      qed (use owner_ok_remove [OF ok m] in simp)
      then show ?thesis using rows' by (simp add: s' chan_inv_def)
    qed
  qed
qed

lemma write_flag_inv:
  assumes "chan_inv x s" "flag = MemberFlagModerator \<or> flag = MemberFlagMuted" "write_flag env g flag on s = (s', r)"
  shows "chan_inv x s'"
proof (cases "member_of (fst s) g")
  case None
  then show ?thesis using assms(1,3) by (auto simp: write_flag_def split: prod.splits)
next
  case (Some m)
  obtain ch db where s: "s = (ch, db)" by force
  have m: "member_of ch g = Some m" using Some by (simp add: s)
  let ?fl = "if on then Flags m OR flag else Flags m AND NOT flag"
  obtain db' b where w: "UpdateMemberFlags env 0 (channelID ch) g ?fl db = (db', b)" by force
  show ?thesis
  proof (cases b)
    case True
    have "even ?fl = even (Flags m)" using assms(2) by (auto simp: even_and_iff even_or_iff)
    from owner_ok_flags [of "member_of ch" "ownerGUID ch" "ownership ch", OF _ m this] show ?thesis
      using assms True w m db_member_Update [of env 0 "channelID ch" g ?fl db db' m]
      by (auto simp: write_flag_def s chan_inv_def set_flags_member Let_def)
  next
    case False
    then show ?thesis
      using assms w m failed_write(3) [of env 0 "channelID ch" g ?fl db db'] set_flags_back [OF m]
      by (auto simp: write_flag_def s chan_inv_def Let_def)
  qed
qed

lemma grant_owner_ok:
  assumes "no_owner (member_of ch)" "member_of ch g = Some m" "UpdateMemberFlags env 1 (channelID ch) g (Flags m OR 1) db = (db', True)"
    and "x \<Longrightarrow> db_member (channelID ch) db = member_of ch" "grant_owner env g o' fl (ch, db) = (s', r)"
  shows "chan_inv x s'"
proof -
  have s': "s' = ((set_flags g (Flags m OR 1) ch)\<lparr>ownerGUID := g\<rparr>, db')"
    using assms(2,3,5) by (auto simp: grant_owner_def GetMemberFlags_def Let_def)
  have "owner_ok (member_of (set_flags g (Flags m OR 1) ch)) g (ownership ch)"
    unfolding set_flags_member [OF assms(2)] by (rule no_owner_grant [OF assms(1,2)]) simp
  then show ?thesis
    using assms(4) db_member_Update [OF assms(3), of m] by (auto simp: s' chan_inv_def set_flags_member [OF assms(2)] assms(2))
qed

lemma grant_owner_failed:
  assumes "member_of ch g = Some m" "UpdateMemberFlags env 1 (channelID ch) g (Flags m OR 1) db = (db', False)"
    and "grant_owner env g o' fl (ch, db) = (s', r)"
  shows "\<exists>ch'. s' = (if o' \<noteq> 0 then set_flags o' fl ch' else ch', db) \<and> member_of ch' = member_of ch \<and>
    channelID ch' = channelID ch \<and> ownerGUID ch' = ownerGUID ch \<and> ownership ch' = ownership ch"
proof -
  have "db' = db" using failed_write(3) [OF assms(2)] .
  then show ?thesis
    using assms set_flags_back [OF assms(1), of "Flags m OR 1"]
    by (intro exI [of _ "set_flags g (Flags m) (set_flags g (Flags m OR 1) ch)"])
      (auto simp: grant_owner_def GetMemberFlags_def Let_def)
qed

lemma set_flags_absent: "member_of ch g = None \<Longrightarrow> set_flags g fl ch = ch"
  by (simp add: set_flags_def)

lemma set_flags_chan_inv:
  assumes "chan_inv x (ch, db)" "member_of ch' = member_of ch" "channelID ch' = channelID ch" "ownerGUID ch' = ownerGUID ch"
    "ownership ch' = ownership ch"
  shows "chan_inv x (ch', db)"
  using assms by (simp add: chan_inv_def)

text \<open>A transfer in a channel whose owner is not a member, and one from an owner who is.\<close>

lemma SetOwner_vacant_inv:
  assumes inv: "chan_inv x (ch, db)" and m: "member_of ch g = Some m" and vacant: "member_of ch (ownerGUID ch) = None"
    and set: "SetOwner env g (ch, db) = (s', r)"
  shows "chan_inv x s'"
proof -
  have gr: "grant_owner env g (ownerGUID ch) 0 (ch, db) = (s', r)"
    using set m vacant by (auto simp: SetOwner_def Let_def split: if_splits)
  have rows: "x \<Longrightarrow> db_member (channelID ch) db = member_of ch" and ok: "chan_ok ch"
    using inv by (simp_all add: chan_inv_def)
  show ?thesis
  proof (cases "UpdateMemberFlags env 1 (channelID ch) g (Flags m OR 1) db")
    case (Pair db' b)
    show ?thesis
    proof (cases b)
      case True
      then show ?thesis using grant_owner_ok [OF owner_ok_absent [OF ok vacant] m _ rows gr] Pair by simp
    next
      case False
      then have "UpdateMemberFlags env 1 (channelID ch) g (Flags m OR 1) db = (db', False)" using Pair by simp
      from grant_owner_failed [OF m this gr] obtain ch' where
        "s' = (if ownerGUID ch \<noteq> 0 then set_flags (ownerGUID ch) 0 ch' else ch', db)" "member_of ch' = member_of ch"
        "channelID ch' = channelID ch" "ownerGUID ch' = ownerGUID ch" "ownership ch' = ownership ch" by blast
      then show ?thesis using set_flags_chan_inv inv vacant by (auto simp: set_flags_absent)
    qed
  qed
qed

lemma SetOwner_granted_inv:
  assumes ok: "chan_ok ch" and old: "member_of ch (ownerGUID ch) = Some old"
    and ch1: "ch1 = set_flags (ownerGUID ch) (Flags old AND NOT 1) ch" and n: "member_of ch1 g = Some n"
    and rows: "x \<Longrightarrow> db_member (channelID ch) db1 = member_of ch1" and writes: "x \<Longrightarrow> flag_writes_ok env"
    and gr: "grant_owner env g (ownerGUID ch) (Flags old) (ch1, db1) = (s', r)"
  shows "chan_inv x s'"
proof -
  have no: "no_owner (member_of ch1)"
    unfolding ch1 set_flags_member [OF old] by (rule no_owner_clear [OF ok old owner_bit_cleared])
  show ?thesis
  proof (cases "UpdateMemberFlags env 1 (channelID ch1) g (Flags n OR 1) db1")
    case (Pair db2 b)
    show ?thesis
    proof (cases b)
      case True
      then show ?thesis using grant_owner_ok [OF no n _ _ gr] Pair rows by (simp add: ch1)
    next
      case False
      then have w: "UpdateMemberFlags env 1 (channelID ch1) g (Flags n OR 1) db1 = (db2, False)" using Pair by simp
      from grant_owner_failed [OF n w gr] owner_okD(1) [OF ok old] obtain ch' where
        c: "s' = (set_flags (ownerGUID ch) (Flags old) ch', db1)" "member_of ch' = member_of ch1"
        "ownerGUID ch' = ownerGUID ch" "ownership ch' = ownership ch" by (auto simp: ch1)
      have "member_of ch' (ownerGUID ch) = Some (old\<lparr>Flags := Flags old AND NOT 1\<rparr>)"
        by (simp add: c(2) ch1 set_flags_member [OF old])
      from set_flags_member [OF this, of "Flags old"] have "member_of (fst s') = member_of ch"
        using old by (simp add: c(1,2) ch1 set_flags_member [OF old] fun_upd_idem)
      moreover have "\<not> x" using writes w by (auto simp: UpdateMemberFlags_def flag_writes_ok_def split: if_splits)
      ultimately show ?thesis using ok c by (simp add: chan_inv_def)
    qed
  qed
qed

lemma SetOwner_inv:
  assumes inv: "chan_inv x s" and writes: "x \<Longrightarrow> flag_writes_ok env" and set: "SetOwner env g s = (s', r)"
  shows "chan_inv x s'"
proof -
  obtain ch db where s: "s = (ch, db)" by force
  have ok: "chan_ok ch" and rows: "x \<Longrightarrow> db_member (channelID ch) db = member_of ch"
    using inv by (simp_all add: chan_inv_def s)
  consider (none) "member_of ch g = None" | (vacant) m where "member_of ch g = Some m" "member_of ch (ownerGUID ch) = None"
    | (owned) m old where "member_of ch g = Some m" "member_of ch (ownerGUID ch) = Some old" by (meson not_Some_eq)
  then show ?thesis
  proof cases
    case none
    then show ?thesis using inv set by (auto simp: SetOwner_def s Let_def)
  next
    case vacant
    then show ?thesis using SetOwner_vacant_inv inv set by (simp add: s)
  next
    case owned
    let ?fl = "Flags old AND NOT 1"
    let ?ch1 = "set_flags (ownerGUID ch) ?fl ch"
    have nz: "ownerGUID ch \<noteq> 0" using owner_okD(1) [OF ok owned(2)] by simp
    obtain db1 b1 where w1: "UpdateMemberFlags env 0 (channelID ch) (ownerGUID ch) ?fl db = (db1, b1)" by force
    show ?thesis
    proof (cases b1)
      case False
      then have "s' = (set_flags (ownerGUID ch) (Flags old) ?ch1, db)"
        using set owned nz w1 failed_write(3) [of env 0 "channelID ch" "ownerGUID ch" ?fl db db1]
        by (auto simp: SetOwner_def s Let_def)
      then show ?thesis using inv set_flags_back [OF owned(2)] by (auto simp: s chan_inv_def)
    next
      case True
      have gr: "grant_owner env g (ownerGUID ch) (Flags old) (?ch1, db1) = (s', r)"
        using set owned nz w1 True by (auto simp: SetOwner_def s Let_def)
      have rows1: "x \<Longrightarrow> db_member (channelID ch) db1 = member_of ?ch1"
        using db_member_Update [of env 0 "channelID ch" "ownerGUID ch" ?fl db db1 old] w1 True rows owned(2)
        by (simp add: set_flags_member [OF owned(2)])
      obtain n where "member_of ?ch1 g = Some n" using owned(1) set_flags_fields(5) by blast
      from SetOwner_granted_inv [OF ok owned(2) refl this rows1 writes gr] show ?thesis .
    qed
  qed
qed

lemma logout_channel_inv:
  assumes "chan_inv x s" "good_iter env" "x \<Longrightarrow> flag_writes_ok env" "logout_channel env g s = (s', r)"
  shows "chan_inv x s'"
proof -
  obtain ch db where s: "s = (ch, db)" by force
  have ok: "chan_ok ch" and rows: "x \<Longrightarrow> db_member (channelID ch) db = member_of ch"
    using assms(1) by (simp_all add: chan_inv_def s)
  let ?new = "choose_owner env (\<lambda>h. h = g) ch"
  show ?thesis
  proof (cases "\<exists>m. member_of ch g = Some m \<and> odd (Flags m) \<and> ownership ch \<and> ?new \<noteq> 0")
    case True
    then obtain m where m: "member_of ch g = Some m" "odd (Flags m)" "ownership ch" "?new \<noteq> 0" by blast
    then have own: "g = ownerGUID ch" using owner_okD(1) [OF ok m(1)] by simp
    let ?fl = "Flags m AND NOT 1"
    let ?ch1 = "set_flags g ?fl ch" and ?db1 = "fst (UpdateMemberFlags env 0 (channelID ch) g ?fl db)"
    have s': "s' = make_owner env ?new (?ch1, ?db1)"
      using assms(4) m by (auto simp: logout_channel_def s owner_bit Let_def)
    have "no_owner (member_of ?ch1)"
      unfolding set_flags_member [OF m(1)] using no_owner_clear [OF ok _ owner_bit_cleared] m(1) own by simp
    moreover obtain n where "member_of ?ch1 ?new = Some n"
      using choose_owner_member(1) [OF assms(2) m(4)] set_flags_fields(5) by blast
    moreover have "db_member (channelID ?ch1) ?db1 = member_of ?ch1" if x
      using db_member_Update [OF UpdateMemberFlags_ok [OF assms(3) [OF that]], of "channelID ch" db g m 0] rows that m(1)
      by (simp add: set_flags_member [OF m(1)])
    ultimately show ?thesis unfolding s' by (intro make_owner_inv [OF _ _ assms(3)])
  next
    case False
    then have "s' = s" using assms(4) by (auto simp: logout_channel_def s owner_bit Let_def split: option.splits if_splits)
    then show ?thesis using assms(1) by simp
  qed
qed

definition member_removals_ok :: "chan_env \<Rightarrow> bool" where
  "member_removals_ok env \<longleftrightarrow> (\<forall>c g n. \<not> stmtFails env StmtRemoveChannelMember c g n)"

lemma prune_members_result:
  assumes "prune_members env gs (ch, db) = (ch', db')"
  shows "member_of ch' = (member_of ch) |` (- set gs) \<and> channelID ch' = channelID ch \<and> ownerGUID ch' = ownerGUID ch \<and>
    ownership ch' = ownership ch \<and> bannedUntil ch' = bannedUntil ch \<and>
    (member_removals_ok env \<longrightarrow> db_member (channelID ch) db' = (db_member (channelID ch) db) |` (- set gs))"
  using assms
proof (induction gs arbitrary: ch db)
  case Nil
  then show ?case by (simp add: restrict_map_def)
next
  case (Cons g gs)
  let ?ch1 = "ch\<lparr>members := AList.delete g (members ch)\<rparr>" and ?rm = "RemoveChannelMember env (channelID ch) g db"
  from Cons.prems have "prune_members env gs (?ch1, fst ?rm) = (ch', db')" by simp
  note IH = Cons.IH [OF this]
  have "member_removals_ok env \<Longrightarrow> db_member (channelID ch) (fst ?rm) = (db_member (channelID ch) db)(g := None)"
    using db_member_Remove [of env "channelID ch" g db "fst ?rm"] by (simp add: RemoveChannelMember_def member_removals_ok_def)
  with IH show ?case by (auto simp: restrict_map_def fun_eq_iff delete_conv')
qed

lemma PruneOfflineMembers_inv:
  assumes "chan_inv x s" "good_iter env" "x \<Longrightarrow> flag_writes_ok env \<and> member_removals_ok env"
  shows "chan_inv x (PruneOfflineMembers env online s)"
proof -
  obtain ch db where s: "s = (ch, db)" by force
  let ?gs = "filter (\<lambda>g. \<not> online g) (iter env 0 (map fst (members ch)))"
  obtain ch1 db1 where pr: "prune_members env ?gs (ch, db) = (ch1, db1)" by force
  have ok: "chan_ok ch" and rows: "x \<Longrightarrow> db_member (channelID ch) db = member_of ch"
    using assms(1) by (simp_all add: chan_inv_def s)
  have gs: "set ?gs = {g \<in> dom (member_of ch). \<not> online g}"
    using assms(2) by (auto simp: good_iter_def dom_map_of_conv_image_fst)
  have left: "member_of ch1 = (member_of ch) |` {g. online g}"
    using prune_members_result [OF pr] gs by (auto simp: restrict_map_def fun_eq_iff domIff)
  have same: "channelID ch1 = channelID ch" "ownerGUID ch1 = ownerGUID ch" "ownership ch1 = ownership ch"
    using prune_members_result [OF pr] by simp_all
  have rows1: "db_member (channelID ch1) db1 = member_of ch1" if x
    using prune_members_result [OF pr] rows assms(3) that by simp
  have sub: "member_of ch1 \<subseteq>\<^sub>m member_of ch" unfolding left by (auto simp: map_le_def)
  show ?thesis
  proof (cases "ownerGUID ch \<noteq> 0 \<and> \<not> online (ownerGUID ch)")
    case True
    let ?ch2 = "ch1\<lparr>ownerGUID := 0\<rparr>"
    have no: "no_owner (member_of ?ch2)" using owner_ok_subset_absent [OF ok sub] True by (simp add: left)
    show ?thesis
    proof (cases "members ?ch2 \<noteq> [] \<and> ownership ?ch2")
      case t: True
      then obtain h n where h: "member_of ?ch2 h = Some n" using some_member by blast
      let ?new = "choose_owner env (\<lambda>_. False) ?ch2"
      have new: "?new \<noteq> 0" using no_ownerD [OF no] h by (intro choose_owner_found [OF assms(2) h]) auto
      obtain n' where n': "member_of ?ch2 ?new = Some n'" using choose_owner_member(1) [OF assms(2) new] by blast
      have "PruneOfflineMembers env online s = make_owner env ?new (?ch2, db1)"
        using True t new by (simp add: PruneOfflineMembers_def s pr same Let_def)
      moreover have "chan_inv x (make_owner env ?new (?ch2, db1))"
        using assms(3) rows1 by (intro make_owner_inv [OF no n']) (auto simp: same)
      ultimately show ?thesis by simp
    next
      case f: False
      then have "PruneOfflineMembers env online s = (?ch2, db1)"
        using True by (auto simp: PruneOfflineMembers_def s pr same Let_def)
      then show ?thesis using no_owner_ok [OF no, of "ownership ch1" 0] f rows1 by (auto simp: chan_inv_def)
    qed
  next
    case False
    then have p: "PruneOfflineMembers env online s = (ch1, db1)"
      by (auto simp: PruneOfflineMembers_def s pr same Let_def)
    have "member_of ch1 (ownerGUID ch) = member_of ch (ownerGUID ch)"
      using False owner_okD(1) [OF ok, of 0] by (cases "member_of ch 0") (auto simp: left restrict_map_def)
    with owner_ok_subset_keep [OF ok sub] show ?thesis using rows1 by (simp add: p chan_inv_def same)
  qed
qed

section \<open>Every interleaving of methods\<close>

text \<open>
  A step is one method, by any player and with any failures; \<open>x\<close> excludes the failures of writes that the
  code only logs. The quiet methods are those that neither add a member nor change the bans. Other channels, the clean-up of the tables and other statements change the tables
  without touching the member rows of this channel.
\<close>

inductive quiet_step :: "bool \<Rightarrow> chan_state \<Rightarrow> chan_state \<Rightarrow> bool" for x where
  leave: "good_iter env \<Longrightarrow> (x \<longrightarrow> flag_writes_ok env) \<Longrightarrow> LeaveChannel env g s = (s', r') \<Longrightarrow> quiet_step x s s'"
| moderator: "SetModerator env g on s = (s', r) \<Longrightarrow> quiet_step x s s'"
| mute: "SetMute env g on s = (s', r) \<Longrightarrow> quiet_step x s s'"
| owner: "(x \<longrightarrow> flag_writes_ok env) \<Longrightarrow> SetOwner env g s = (s', r) \<Longrightarrow> quiet_step x s s'"
| password: "SetPassword env pw s = (s', r) \<Longrightarrow> quiet_step x s s'"
| toggle_moderation: "quiet_step x (ch, db) (fst (ToggleModeration ch), db)"
| toggle_announcements: "quiet_step x (ch, db) (fst (ToggleAnnouncements ch), db)"
| persist: "PersistToggleAnnouncements env s = (s', r) \<Longrightarrow> quiet_step x s s'"
| logout: "good_iter env \<Longrightarrow> (x \<longrightarrow> flag_writes_ok env) \<Longrightarrow> logout_channel env g s = (s', n) \<Longrightarrow> quiet_step x s s'"
| prune: "good_iter env \<Longrightarrow> (x \<longrightarrow> flag_writes_ok env \<and> member_removals_ok env) \<Longrightarrow>
    quiet_step x s (PruneOfflineMembers env online s)"
| elsewhere: "db_member (channelID ch) db' = db_member (channelID ch) db \<Longrightarrow> quiet_step x (ch, db) (ch, db')"

inductive chan_step :: "bool \<Rightarrow> chan_state \<Rightarrow> chan_state \<Rightarrow> bool" for x where
  quiet: "quiet_step x s s' \<Longrightarrow> chan_step x s s'"
| join: "g \<noteq> 0 \<Longrightarrow> JoinChannel env g nm pw s = (s', r) \<Longrightarrow> chan_step x s s'"
| ban: "ban_player env g t s = (s', r) \<Longrightarrow> chan_step x s s'"
| unban: "unban_player env g s = (s', r) \<Longrightarrow> chan_step x s s'"

lemma other_methods_inv:
  "SetPassword env pw s = (s', r) \<Longrightarrow> chan_inv x s \<Longrightarrow> chan_inv x s'"
  "PersistToggleAnnouncements env s = (s', r) \<Longrightarrow> chan_inv x s \<Longrightarrow> chan_inv x s'"
  "ban_player env g t s = (s', r) \<Longrightarrow> chan_inv x s \<Longrightarrow> chan_inv x s'"
  "unban_player env g s = (s', r) \<Longrightarrow> chan_inv x s \<Longrightarrow> chan_inv x s'"
  by (cases s; auto simp: chan_inv_def SetPassword_def PersistToggleAnnouncements_def ban_player_def unban_player_def
      Let_def case_prod_unfold)+

lemma quiet_step_inv: "quiet_step x s s' \<Longrightarrow> chan_inv x s \<Longrightarrow> chan_inv x s'"
proof (induction rule: quiet_step.induct)
  case (moderator env g on s s' r)
  then show ?case using write_flag_inv unfolding SetModerator_def by blast
next
  case (mute env g on s s' r)
  then show ?case using write_flag_inv unfolding SetMute_def by blast
next
  case (toggle_moderation ch db)
  then show ?case by (simp add: chan_inv_def ToggleModeration_def Let_def)
next
  case (toggle_announcements ch db)
  then show ?case by (simp add: chan_inv_def ToggleAnnouncements_def Let_def)
next
  case (elsewhere ch db' db)
  then show ?case by (simp add: chan_inv_def)
qed (blast intro: LeaveChannel_inv SetOwner_inv other_methods_inv logout_channel_inv PruneOfflineMembers_inv)+

lemma chan_step_inv: "chan_step x s s' \<Longrightarrow> chan_inv x s \<Longrightarrow> chan_inv x s'"
  by (induction rule: chan_step.induct) (blast intro: quiet_step_inv JoinChannel_inv other_methods_inv)+

lemma chan_steps_inv: "(chan_step x)\<^sup>*\<^sup>* s s' \<Longrightarrow> chan_inv x s \<Longrightarrow> chan_inv x s'"
  by (induction rule: rtranclp_induct) (auto intro: chan_step_inv)

text \<open>Quiet methods keep the bans and add no member.\<close>

definition keeps_out :: "chan_state \<Rightarrow> chan_state \<Rightarrow> bool" where
  "keeps_out s s' \<longleftrightarrow> bannedUntil (fst s') = bannedUntil (fst s) \<and> channelID (fst s') = channelID (fst s) \<and>
     (\<forall>g. member_of (fst s) g = None \<longrightarrow> member_of (fst s') g = None)"

lemma set_flags_none [simp]: "member_of (set_flags h fl ch) g = None \<longleftrightarrow> member_of ch g = None"
  by (auto simp: set_flags_def split: option.split)

lemma make_owner_keeps: "keeps_out s (make_owner env g s)"
  by (cases s) (simp add: keeps_out_def make_owner_def Let_def)

lemma keeps_out_trans: "keeps_out s s1 \<Longrightarrow> keeps_out s1 s2 \<Longrightarrow> keeps_out s s2"
  by (auto simp: keeps_out_def)

lemma LeaveChannel_keeps:
  assumes "LeaveChannel env g s = (s', r)"
  shows "keeps_out s s'"
proof (cases "member_of (fst s) g")
  case None
  then show ?thesis using assms by (auto simp: LeaveChannel_def keeps_out_def split: prod.splits)
next
  case (Some m)
  obtain ch db where s: "s = (ch, db)" by force
  let ?ch1 = "ch\<lparr>members := AList.delete g (members ch)\<rparr>"
  have del: "keeps_out s (?ch1, db')" for db' by (auto simp: keeps_out_def s delete_conv')
  have readd: "keeps_out s (?ch1\<lparr>members := AList.update g m (members ?ch1)\<rparr>, db')" for db'
    using Some by (auto simp: keeps_out_def s delete_conv' update_conv')
  show ?thesis
    using assms Some del readd keeps_out_trans [OF del make_owner_keeps]
    by (auto simp: LeaveChannel_def s Let_def split: prod.splits bool.splits if_splits)
qed

lemma grant_owner_keeps: "grant_owner env g o' fl s = (s', r) \<Longrightarrow> keeps_out s s'"
  by (cases s) (auto simp: grant_owner_def keeps_out_def Let_def split: prod.splits bool.splits if_splits)

lemma SetOwner_keeps:
  assumes "SetOwner env g s = (s', r)"
  shows "keeps_out s s'"
proof -
  obtain ch db where s: "s = (ch, db)" by force
  have clear: "keeps_out s (set_flags o' fl ch, db')" for o' fl db' by (simp add: keeps_out_def s)
  have "keeps_out s (set_flags o' fl (set_flags o'' fl' ch), db')" for o' fl o'' fl' db'
    by (simp add: keeps_out_def s)
  then show ?thesis
    using assms grant_owner_keeps keeps_out_trans [OF clear grant_owner_keeps] unfolding SetOwner_def s prod.case Let_def
    by (auto simp: keeps_out_def [of "(ch, db)" "(ch, db)"] split: if_splits option.splits prod.splits bool.splits)
qed

lemma write_flag_keeps: "write_flag env g flag on s = (s', r) \<Longrightarrow> keeps_out s s'"
  by (cases s) (auto simp: write_flag_def keeps_out_def Let_def split: option.splits prod.splits bool.splits)

lemma logout_channel_keeps:
  assumes "logout_channel env g s = (s', n)"
  shows "keeps_out s s'"
proof -
  obtain ch db where s: "s = (ch, db)" by force
  have refl: "keeps_out s s" by (simp add: keeps_out_def)
  have "keeps_out s (set_flags g fl ch, db')" for fl db' by (simp add: keeps_out_def s)
  from keeps_out_trans [OF this make_owner_keeps] refl assms show ?thesis
    by (auto simp: logout_channel_def s Let_def split: option.splits if_splits)
qed

lemma PruneOfflineMembers_keeps: "keeps_out s (PruneOfflineMembers env online s)"
proof -
  obtain ch db where s: "s = (ch, db)" by force
  obtain ch1 db1 where pr: "prune_members env (filter (\<lambda>g. \<not> online g) (iter env 0 (map fst (members ch)))) (ch, db) = (ch1, db1)"
    by force
  have "keeps_out s (ch1, db1)" "keeps_out s (ch1\<lparr>ownerGUID := 0\<rparr>, db1)"
    using prune_members_result [OF pr] by (auto simp: keeps_out_def s restrict_map_def split: if_splits)
  with keeps_out_trans [OF this(2) make_owner_keeps] show ?thesis
    by (auto simp: PruneOfflineMembers_def s pr Let_def)
qed

lemma quiet_step_keeps: "quiet_step x s s' \<Longrightarrow> keeps_out s s'"
proof (induction rule: quiet_step.induct)
  case (password env pw s s' r)
  then show ?case by (cases s) (auto simp: SetPassword_def keeps_out_def Let_def case_prod_unfold)
next
  case (persist env s s' r)
  then show ?case by (cases s) (auto simp: PersistToggleAnnouncements_def keeps_out_def case_prod_unfold)
next
  case (toggle_moderation ch db)
  then show ?case by (simp add: keeps_out_def ToggleModeration_def Let_def)
next
  case (toggle_announcements ch db)
  then show ?case by (simp add: keeps_out_def ToggleAnnouncements_def Let_def)
next
  case (elsewhere ch db' db)
  then show ?case by (simp add: keeps_out_def)
qed (auto simp: SetModerator_def SetMute_def
    intro: LeaveChannel_keeps write_flag_keeps SetOwner_keeps logout_channel_keeps PruneOfflineMembers_keeps)

text \<open>A channel as \<open>GetOrCreateChannel\<close> makes it for a new row: no members, nobody owns it.\<close>

definition new_channel :: "chan_env \<Rightarrow> u8 \<Rightarrow> Channel \<Rightarrow> ChannelRights option \<Rightarrow> ActiveChannel" where
  "new_channel env flags c rts = load_channel env flags c rts [] []"

lemma new_channel_inv:
  "(x \<Longrightarrow> \<forall>g. db_member (ChannelID c) db g = None) \<Longrightarrow> chan_inv x (new_channel env flags c rts, db)"
  by (auto simp: chan_inv_def new_channel_def load_channel_def owner_ok_def fun_eq_iff)

text \<open>
  C4: One owner. Take a new channel and any sequence of joins, leaves, kicks, changes of moderators, mutes,
  ownership transfers, bans, logouts and prunings, by any players and with any failures of statements.
  Then every member is stored under his GUID, and if the channel has ownership and somebody is in it,
  exactly one member has the owner flag, and he is the player in \<open>ownerGUID\<close>.
\<close>

theorem channel_single_owner:
  assumes "(chan_step False)\<^sup>*\<^sup>* (new_channel env flags c rts, db) (ch, db')"
  shows "(\<forall>g m. member_of ch g = Some m \<longrightarrow> PlayerGUID m = g \<and> (Flags m AND MemberFlagOwner \<noteq> 0 \<longrightarrow> g = ownerGUID ch)) \<and>
    (ownership ch \<and> members ch \<noteq> [] \<longrightarrow>
       (\<exists>m. member_of ch (ownerGUID ch) = Some m \<and> Flags m AND MemberFlagOwner \<noteq> 0))"
proof -
  have ok: "chan_ok ch" using chan_steps_inv [OF assms new_channel_inv] by (simp add: chan_inv_def)
  show ?thesis
    using owner_okD [OF ok] some_member [of ch] by (auto simp: owner_bit)
qed

lemma load_members:
  "map_of (foldl (\<lambda>acc m. AList.update (PlayerGUID m) m acc) acc ms) g =
     (case find (\<lambda>m. PlayerGUID m = g) (rev ms) of Some m \<Rightarrow> Some m | None \<Rightarrow> map_of acc g)"
  by (induction ms arbitrary: acc) (auto simp: update_conv' find_append split: option.split)

lemma load_owner:
  "foldl (\<lambda>o' m. if Flags m AND MemberFlagOwner \<noteq> 0 then PlayerGUID m else o') o0 ms =
     (case find (\<lambda>m. odd (Flags m)) (rev ms) of Some m \<Rightarrow> PlayerGUID m | None \<Rightarrow> o0)"
  by (induction ms arbitrary: o0) (auto simp: owner_bit find_append split: option.split)

lemma set_map_filter: "set (List.map_filter f xs) = {y. \<exists>x\<in>set xs. f x = Some y}"
  by (induction xs) (auto simp: List.map_filter_simps split: option.splits)

lemma LoadChannelMembers_set:
  assumes "good_iter env" "LoadChannelMembers env c db = Some ms"
  shows "set ms = {m. \<exists>g. db_member c db g = Some m}"
proof -
  let ?gs = "remdups (map (\<lambda>((c, g), _). g) (filter (\<lambda>((c', g), _). c' = c) (memberRows db)))"
  have gs: "set (iter env 0 ?gs) = {g. \<exists>v. ((c, g), v) \<in> set (memberRows db)}"
    using assms(1) by (force simp: good_iter_def)
  have *: "\<exists>v. ((c, g), v) \<in> set (memberRows db)" if "db_member c db g = Some m" for g m
    using that by (auto simp: db_member_def dest: map_of_SomeD)
  have ms: "ms = List.map_filter (db_member c db) (iter env 0 ?gs)"
    using assms(2) by (simp add: LoadChannelMembers_def split: if_splits)
  show ?thesis unfolding ms set_map_filter gs using * by blast
qed

lemma find_unique_key:
  assumes "x \<in> set xs" "P x" "\<And>y. y \<in> set xs \<Longrightarrow> P y \<Longrightarrow> f y = f x"
  shows "\<exists>y. find P xs = Some y \<and> f y = f x"
proof (cases "find P xs")
  case None
  with assms(1,2) show ?thesis by (simp add: find_None_iff)
next
  case (Some y)
  then have "y \<in> set xs" "P y" by (auto simp: find_Some_iff)
  with Some assms(3) show ?thesis by blast
qed

text \<open>
  C13: The tables hold the channel. As long as the writes of ownership transfers and prunings succeed, and
  whatever other statements fail, the rows of a channel are its members: loading it again, in any order
  of the rows, gives the same members with the same flags, and the same owner.
\<close>

theorem channel_reload:
  assumes steps: "(chan_step True)\<^sup>*\<^sup>* (new_channel env flags c rts, db) (ch, db')"
    and new: "\<forall>g. db_member (ChannelID c) db g = None"
    and load: "good_iter env'" "LoadChannelMembers env' (channelID ch) db' = Some ms"
  shows "member_of (load_channel env' flags' c' rts' bans ms) = member_of ch \<and>
    (ownership ch \<and> members ch \<noteq> [] \<longrightarrow> ownerGUID (load_channel env' flags' c' rts' bans ms) = ownerGUID ch)"
proof -
  have ok: "chan_ok ch" and rows: "db_member (channelID ch) db' = member_of ch"
    using chan_steps_inv [OF steps new_channel_inv] new by (simp_all add: chan_inv_def)
  have ms: "set (rev ms) = {m. \<exists>g. member_of ch g = Some m}" using LoadChannelMembers_set [OF load] rows by simp
  have guid: "member_of ch g = Some m \<Longrightarrow> PlayerGUID m = g" for g m using owner_okD(1) [OF ok] by blast
  have "member_of (load_channel env' flags' c' rts' bans ms) g = member_of ch g" for g
  proof (cases "member_of ch g")
    case None
    then have "find (\<lambda>m. PlayerGUID m = g) (rev ms) = None" using ms guid by (auto simp: find_None_iff)
    then show ?thesis by (simp add: load_channel_def load_members None)
  next
    case (Some m)
    then have "\<exists>y. find (\<lambda>m. PlayerGUID m = g) (rev ms) = Some y \<and> y = m"
      using ms guid by (intro find_unique_key [where f = "\<lambda>x. x"]) auto
    then show ?thesis by (auto simp: load_channel_def load_members Some)
  qed
  moreover have "ownerGUID (load_channel env' flags' c' rts' bans ms) = ownerGUID ch" if "ownership ch" "members ch \<noteq> []"
  proof -
    obtain m where m: "member_of ch (ownerGUID ch) = Some m" "odd (Flags m)"
      using owner_okD(2) [OF ok \<open>ownership ch\<close>] some_member [OF \<open>members ch \<noteq> []\<close>] by blast
    have "\<exists>y. find (\<lambda>m. odd (Flags m)) (rev ms) = Some y \<and> PlayerGUID y = PlayerGUID m"
    proof (rule find_unique_key)
      show "m \<in> set (rev ms)" unfolding ms using m(1) by blast
      fix y assume y: "y \<in> set (rev ms)" "odd (Flags y)"
      then obtain g where "member_of ch g = Some y" unfolding ms by blast
      with owner_okD(1) [OF ok this] y(2) m(1) show "PlayerGUID y = PlayerGUID m" by simp
    qed (rule m(2))
    then show ?thesis using guid [OF m(1)] by (auto simp: load_channel_def load_owner)
  qed
  ultimately show ?thesis by (auto simp: fun_eq_iff)
qed

section \<open>An example run\<close>

text \<open>Player 5 creates the channel by joining, player 7 joins, player 5 leaves and the flag of player 7 is not written.\<close>

definition ex_row :: Channel where
  "ex_row = \<lparr>ChannelID = 1, Name = ''world'', Team = 0, Announce = True, Ownership = True, Password = [], LastUsed = 0\<rparr>"

definition ex_run :: "chan_env \<Rightarrow> chan_state" where
  "ex_run env =
     (let s0 = (new_channel env ChannelFlagCustom ex_row None, empty_db);
          s1 = fst (JoinChannel env 5 ''Ann'' [] s0);
          s2 = fst (JoinChannel env 7 ''Bob'' [] s1)
      in fst (LeaveChannel env 5 s2))"

definition failing_flags :: chan_env where
  "failing_flags = ex_cenv\<lparr>stmtFails := \<lambda>st _ _ _. st = StmtUpdateMemberFlags\<rparr>"

lemma ex_run_steps:
  assumes "good_iter env" "x \<longrightarrow> flag_writes_ok env"
  shows "(chan_step x)\<^sup>*\<^sup>* (new_channel env ChannelFlagCustom ex_row None, empty_db) (ex_run env)"
proof -
  let ?s0 = "(new_channel env ChannelFlagCustom ex_row None, empty_db)"
  let ?s1 = "fst (JoinChannel env 5 ''Ann'' [] ?s0)"
  let ?s2 = "fst (JoinChannel env 7 ''Bob'' [] ?s1)"
  have "chan_step x ?s0 ?s1" by (rule chan_step.join [OF _ prod.collapse [symmetric]]) simp
  moreover have "chan_step x ?s1 ?s2" by (rule chan_step.join [OF _ prod.collapse [symmetric]]) simp
  moreover have "chan_step x ?s2 (ex_run env)"
    unfolding ex_run_def Let_def by (rule chan_step.quiet [OF quiet_step.leave [OF assms prod.collapse [symmetric]]])
  ultimately show ?thesis by (meson converse_rtranclp_into_rtranclp rtranclp.rtrancl_refl)
qed

lemma good_iter_ex: "good_iter ex_cenv" "good_iter failing_flags" "flag_writes_ok ex_cenv"
  by (simp_all add: good_iter_def ex_cenv_def failing_flags_def flag_writes_ok_def)

theorem channel_single_owner_witness:
  "(let ch = fst (ex_run failing_flags) in ownership ch \<and> members ch \<noteq> [] \<and> ownerGUID ch = 7 \<and>
     (\<exists>m. member_of ch 7 = Some m \<and> Flags m AND MemberFlagOwner \<noteq> 0))"
proof -
  have "ownership (fst (ex_run failing_flags)) \<and> members (fst (ex_run failing_flags)) \<noteq> [] \<and>
    ownerGUID (fst (ex_run failing_flags)) = 7" by code_simp
  moreover have "(chan_step False)\<^sup>*\<^sup>* (new_channel failing_flags ChannelFlagCustom ex_row None, empty_db)
      (fst (ex_run failing_flags), snd (ex_run failing_flags))"
    using ex_run_steps [OF good_iter_ex(2), of False] by simp
  note channel_single_owner [OF this]
  ultimately show ?thesis by (simp add: Let_def)
qed

theorem channel_reload_witness:
  "(case LoadChannelMembers ex_cenv 1 (snd (ex_run ex_cenv)) of
      None \<Rightarrow> False
    | Some ms \<Rightarrow> member_of (load_channel ex_cenv 1 ex_row None [] ms) = member_of (fst (ex_run ex_cenv)))"
proof -
  have id: "channelID (fst (ex_run ex_cenv)) = 1" by code_simp
  have new: "\<forall>g. db_member (ChannelID ex_row) empty_db g = None" by (simp add: db_member_def empty_db_def)
  obtain ms where ms: "LoadChannelMembers ex_cenv 1 (snd (ex_run ex_cenv)) = Some ms"
    by (simp add: LoadChannelMembers_def ex_cenv_def)
  have "(chan_step True)\<^sup>*\<^sup>* (new_channel ex_cenv ChannelFlagCustom ex_row None, empty_db) (fst (ex_run ex_cenv), snd (ex_run ex_cenv))"
    using ex_run_steps [OF good_iter_ex(1), of True] good_iter_ex(3) by simp
  from channel_reload [OF this new good_iter_ex(1), of ms 1 ex_row None "[]"] show ?thesis by (simp add: id ms)
qed

text \<open>
  A failed write of a transfer separates the tables from the channel: after player 5 hands the channel
  to player 7 and the second write fails, the channel is still owned by player 5, but no row has the
  owner flag, so that the channel has no owner when it is loaded again.
\<close>

definition second_flag_fails :: chan_env where
  "second_flag_fails = ex_cenv\<lparr>stmtFails := \<lambda>st _ _ n. st = StmtUpdateMemberFlags \<and> n = 1\<rparr>"

lemma SetOwner_failure_loses_owner:
  "(let s0 = (new_channel ex_cenv ChannelFlagCustom ex_row None, empty_db);
        s1 = fst (JoinChannel ex_cenv 5 ''Ann'' [] s0);
        s2 = fst (JoinChannel ex_cenv 7 ''Bob'' [] s1);
        (s3, err) = SetOwner second_flag_fails 7 s2
    in err = Some DBFailure \<and> ownerGUID (fst s3) = 5 \<and> map_option Flags (member_of (fst s3) 5) = Some 1 \<and>
       map_option (map Flags) (LoadChannelMembers ex_cenv 1 (snd s3)) = Some [0, 0] \<and>
       map_option (\<lambda>ms. ownerGUID (load_channel ex_cenv 1 ex_row None [] ms)) (LoadChannelMembers ex_cenv 1 (snd s3)) = Some 0)"
  by code_simp

end
