(* ===== verification/Chat_Manager.thy ===== *)
theory Chat_Manager
  imports Chat_Ownership
begin

unbundle bit_operations_syntax

text \<open>
  The channel manager, \<open>ChannelManager\<close> of \<^verbatim>\<open>apps/chatserver/service/channel-manager.go\<close>, and the listener
  that repeats joins and leaves of other instances, \<^verbatim>\<open>channels-listener.go\<close>: the map of active channels, their
  creation from the tables, and the operations that check permissions, find a member by name and call the
  methods of the channel. A channel the code holds by pointer is named by its key here.
\<close>

section \<open>State\<close>

record ChannelManager =
  channels :: "(string \<times> ActiveChannel) list"
  chanDB :: "u32 \<Rightarrow> channels_db"

definition itoa :: "int \<Rightarrow> string" where
  "itoa i = (if i < 0 then CHR ''-'' # dec (nat (- i)) else dec (nat i))"

definition realmPrefix :: "u32 \<Rightarrow> string" where
  "realmPrefix realmID = dec (unat realmID) @ '':''"

definition channelKey :: "u32 \<Rightarrow> string \<Rightarrow> u32 \<Rightarrow> string" where
  "channelKey realmID channelName tm = dec (unat realmID) @ '':'' @ ToLower channelName @ '':'' @ itoa (sint tm)"

definition GetChannel :: "u32 \<Rightarrow> string \<Rightarrow> u32 \<Rightarrow> ChannelManager \<Rightarrow> ActiveChannel option" where
  "GetChannel realmID channelName tm s = map_of (channels s) (channelKey realmID channelName tm)"

text \<open>A method of the channel under a key, on that channel and the tables of the realm.\<close>

definition put_channel :: "u32 \<Rightarrow> string \<Rightarrow> chan_state \<Rightarrow> ChannelManager \<Rightarrow> ChannelManager" where
  "put_channel realmID key c s =
     s\<lparr>channels := AList.update key (fst c) (channels s), chanDB := (chanDB s)(realmID := snd c)\<rparr>"

definition call ::
  "u32 \<Rightarrow> string \<Rightarrow> (chan_state \<Rightarrow> chan_state \<times> 'r) \<Rightarrow> ActiveChannel \<Rightarrow> ChannelManager \<Rightarrow> ChannelManager \<times> 'r" where
  "call realmID key f ch s = (case f (ch, chanDB s realmID) of (c, r) \<Rightarrow> (put_channel realmID key c s, r))"

section \<open>Creating channels\<close>

definition GetOrCreateChannel ::
  "chan_env \<Rightarrow> u32 \<Rightarrow> string \<Rightarrow> u32 \<Rightarrow> u32 \<Rightarrow> string \<Rightarrow> u8 \<Rightarrow> ChannelManager \<Rightarrow> ChannelManager \<times> (chan_error + string)" where
  "GetOrCreateChannel env realmID channelName wantedID tm pw flags s =
     (let key = channelKey realmID channelName tm; db = chanDB s realmID in
      if map_of (channels s) key \<noteq> None then (s, Inr key)
      else case (if wantedID \<noteq> 0 \<and> flags AND ChannelFlagCustom \<noteq> 0 then GetChannelByID env wantedID db
                 else GetChannelByName env channelName tm db) of
        None \<Rightarrow> (s, Inl DBFailure)
      | Some found \<Rightarrow>
          (let (db1, row) = (case found of
                 Some c \<Rightarrow> (db, Some c)
               | None \<Rightarrow> CreateChannel env \<lparr>ChannelID = 0, Name = channelName, Team = tm, Announce = True,
                   Ownership = True, Password = pw, LastUsed = now env\<rparr> db);
               s1 = s\<lparr>chanDB := (chanDB s)(realmID := db1)\<rparr>
           in case row of
                None \<Rightarrow> (s1, Inl DBFailure)
              | Some c \<Rightarrow>
                  (case (GetChannelRights env channelName db1, GetChannelBans env (ChannelID c) db1,
                         LoadChannelMembers env (ChannelID c) db1) of
                     (Some rts, Some bans, Some ms) \<Rightarrow>
                       (s1\<lparr>channels := AList.update key (load_channel env flags c rts bans ms) (channels s1)\<rparr>, Inr key)
                   | _ \<Rightarrow> (s1, Inl DBFailure))))"

fun preload :: "chan_env \<Rightarrow> u32 \<Rightarrow> Channel list \<Rightarrow> ChannelManager \<Rightarrow> ChannelManager" where
  "preload env realmID [] s = s"
| "preload env realmID (c # cs) s =
     preload env realmID cs (fst (GetOrCreateChannel env realmID (Name c) (ChannelID c) (Team c) [] ChannelFlagCustom s))"

definition PreloadChannels :: "chan_env \<Rightarrow> u32 \<Rightarrow> ChannelManager \<Rightarrow> ChannelManager \<times> chan_error option" where
  "PreloadChannels env realmID s =
     (case GetAllChannels env (chanDB s realmID) of
        None \<Rightarrow> (s, Some DBFailure)
      | Some cs \<Rightarrow> (preload env realmID cs s, None))"

section \<open>Operations by name\<close>

abbreviation manager_flags :: u8 where "manager_flags \<equiv> MemberFlagModerator OR MemberFlagOwner"

definition BanPlayer ::
  "chan_env \<Rightarrow> u32 \<Rightarrow> string \<Rightarrow> u32 \<Rightarrow> u64 \<Rightarrow> int \<Rightarrow> ChannelManager \<Rightarrow> ChannelManager \<times> chan_error option" where
  "BanPlayer env realmID channelName tm playerGUID banTime s =
     (case GetChannel realmID channelName tm s of
        None \<Rightarrow> (s, Some ErrChannelNotFound)
      | Some ch \<Rightarrow> call realmID (channelKey realmID channelName tm) (ban_player env playerGUID banTime) ch s)"

definition UnbanPlayer ::
  "chan_env \<Rightarrow> u32 \<Rightarrow> string \<Rightarrow> u32 \<Rightarrow> u64 \<Rightarrow> ChannelManager \<Rightarrow> ChannelManager \<times> chan_error option" where
  "UnbanPlayer env realmID channelName tm playerGUID s =
     (case GetChannel realmID channelName tm s of
        None \<Rightarrow> (s, Some ErrChannelNotFound)
      | Some ch \<Rightarrow> call realmID (channelKey realmID channelName tm) (unban_player env playerGUID) ch s)"

definition UpdateLastUsed :: "chan_env \<Rightarrow> u32 \<Rightarrow> string \<Rightarrow> u32 \<Rightarrow> ChannelManager \<Rightarrow> ChannelManager \<times> chan_error option" where
  "UpdateLastUsed env realmID channelName tm s =
     (case GetChannel realmID channelName tm s of
        None \<Rightarrow> (s, None)
      | Some ch \<Rightarrow>
          if channelID ch = 0 then (s, None)
          else case UpdateChannelLastUsed env (channelID ch) (chanDB s realmID) of
                 (db, ok) \<Rightarrow> (s\<lparr>chanDB := (chanDB s)(realmID := db)\<rparr>, if ok then None else Some DBFailure))"

definition KickPlayer ::
  "chan_env \<Rightarrow> u32 \<Rightarrow> string \<Rightarrow> u32 \<Rightarrow> u64 \<Rightarrow> string \<Rightarrow> ChannelManager \<Rightarrow> ChannelManager \<times> (chan_error + u64)" where
  "KickPlayer env realmID channelName tm kickerGUID targetName s =
     (case GetChannel realmID channelName tm s of
        None \<Rightarrow> (s, Inl ErrChannelNotFound)
      | Some ch \<Rightarrow>
          if \<not> IsMember kickerGUID ch then (s, Inl ErrNotMember)
          else if GetMemberFlags kickerGUID ch AND manager_flags = 0 then (s, Inl ErrNotModerator)
          else let targetGUID = FindMemberByName env targetName ch
               in if targetGUID = 0 then (s, Inl ErrPlayerNotFound)
                  else case call realmID (channelKey realmID channelName tm) (LeaveChannel env targetGUID) ch s of
                         (s', Inl e) \<Rightarrow> (s', Inl e)
                       | (s', Inr _) \<Rightarrow> (s', Inr targetGUID))"

definition ban_years :: int where
  "ban_years = 100 * 365 * 24 * 3600 * second"

text \<open>A kick that fails is logged; the ban is written in either case.\<close>

definition BanPlayerByName ::
  "chan_env \<Rightarrow> u32 \<Rightarrow> string \<Rightarrow> u32 \<Rightarrow> u64 \<Rightarrow> string \<Rightarrow> ChannelManager \<Rightarrow> ChannelManager \<times> (chan_error + u64)" where
  "BanPlayerByName env realmID channelName tm bannerGUID targetName s =
     (case GetChannel realmID channelName tm s of
        None \<Rightarrow> (s, Inl ErrChannelNotFound)
      | Some ch \<Rightarrow>
          if \<not> IsMember bannerGUID ch then (s, Inl ErrNotMember)
          else if GetMemberFlags bannerGUID ch AND manager_flags = 0 then (s, Inl ErrNotModerator)
          else let targetGUID = FindMemberByName env targetName ch
               in if targetGUID = 0 then (s, Inl ErrPlayerNotFound)
                  else let s1 = fst (call realmID (channelKey realmID channelName tm) (LeaveChannel env targetGUID) ch s)
                       in case BanPlayer env realmID channelName tm targetGUID (now env + ban_years) s1 of
                            (s2, Some e) \<Rightarrow> (s2, Inl e)
                          | (s2, None) \<Rightarrow> (s2, Inr targetGUID))"

definition UnbanPlayerByName ::
  "chan_env \<Rightarrow> u32 \<Rightarrow> string \<Rightarrow> u32 \<Rightarrow> u64 \<Rightarrow> string \<Rightarrow> ChannelManager \<Rightarrow> ChannelManager \<times> (chan_error + u64)" where
  "UnbanPlayerByName env realmID channelName tm unbannerGUID targetName s =
     (case GetChannel realmID channelName tm s of
        None \<Rightarrow> (s, Inl ErrChannelNotFound)
      | Some ch \<Rightarrow>
          if GetMemberFlags unbannerGUID ch AND manager_flags = 0 then (s, Inl ErrNotModerator)
          else let targetGUID = FindMemberByName env targetName ch
               in if targetGUID = 0 then (s, Inl ErrPlayerNotFound)
                  else case UnbanPlayer env realmID channelName tm targetGUID s of
                         (s', Some e) \<Rightarrow> (s', Inl e)
                       | (s', None) \<Rightarrow> (s', Inr targetGUID))"

definition SetModeratorByName ::
  "chan_env \<Rightarrow> u32 \<Rightarrow> string \<Rightarrow> u32 \<Rightarrow> u64 \<Rightarrow> string \<Rightarrow> bool \<Rightarrow> ChannelManager \<Rightarrow> ChannelManager \<times> (chan_error + u64)" where
  "SetModeratorByName env realmID channelName tm setterGUID targetName isModerator s =
     (case GetChannel realmID channelName tm s of
        None \<Rightarrow> (s, Inl ErrChannelNotFound)
      | Some ch \<Rightarrow>
          if \<not> IsMember setterGUID ch then (s, Inl ErrNotMember)
          else if GetMemberFlags setterGUID ch AND MemberFlagOwner = 0 then (s, Inl ErrNotOwner)
          else let targetGUID = FindMemberByName env targetName ch
               in if targetGUID = 0 then (s, Inl ErrPlayerNotFound)
                  else case call realmID (channelKey realmID channelName tm) (SetModerator env targetGUID isModerator) ch s of
                         (s', Some e) \<Rightarrow> (s', Inl e)
                       | (s', None) \<Rightarrow> (s', Inr targetGUID))"

definition SetMuteByName ::
  "chan_env \<Rightarrow> u32 \<Rightarrow> string \<Rightarrow> u32 \<Rightarrow> u64 \<Rightarrow> string \<Rightarrow> bool \<Rightarrow> ChannelManager \<Rightarrow> ChannelManager \<times> (chan_error + u64)" where
  "SetMuteByName env realmID channelName tm muterGUID targetName isMuted s =
     (case GetChannel realmID channelName tm s of
        None \<Rightarrow> (s, Inl ErrChannelNotFound)
      | Some ch \<Rightarrow>
          if \<not> IsMember muterGUID ch then (s, Inl ErrNotMember)
          else if GetMemberFlags muterGUID ch AND manager_flags = 0 then (s, Inl ErrNotModerator)
          else let targetGUID = FindMemberByName env targetName ch
               in if targetGUID = 0 then (s, Inl ErrPlayerNotFound)
                  else case call realmID (channelKey realmID channelName tm) (SetMute env targetGUID isMuted) ch s of
                         (s', Some e) \<Rightarrow> (s', Inl e)
                       | (s', None) \<Rightarrow> (s', Inr targetGUID))"

definition SetOwnerByName ::
  "chan_env \<Rightarrow> u32 \<Rightarrow> string \<Rightarrow> u32 \<Rightarrow> u64 \<Rightarrow> string \<Rightarrow> ChannelManager \<Rightarrow> ChannelManager \<times> (chan_error + u64)" where
  "SetOwnerByName env realmID channelName tm setterGUID targetName s =
     (case GetChannel realmID channelName tm s of
        None \<Rightarrow> (s, Inl ErrChannelNotFound)
      | Some ch \<Rightarrow>
          if GetMemberFlags setterGUID ch AND MemberFlagOwner = 0 then (s, Inl ErrNotOwner)
          else let targetGUID = FindMemberByName env targetName ch
               in if targetGUID = 0 then (s, Inl ErrPlayerNotFound)
                  else case call realmID (channelKey realmID channelName tm) (SetOwner env targetGUID) ch s of
                         (s', Some e) \<Rightarrow> (s', Inl e)
                       | (s', None) \<Rightarrow> (s', Inr targetGUID))"

definition SetChannelPassword ::
  "chan_env \<Rightarrow> u32 \<Rightarrow> string \<Rightarrow> u32 \<Rightarrow> u64 \<Rightarrow> string \<Rightarrow> ChannelManager \<Rightarrow> ChannelManager \<times> chan_error option" where
  "SetChannelPassword env realmID channelName tm setterGUID pw s =
     (case GetChannel realmID channelName tm s of
        None \<Rightarrow> (s, Some ErrChannelNotFound)
      | Some ch \<Rightarrow>
          if GetMemberFlags setterGUID ch AND MemberFlagOwner = 0 then (s, Some ErrNotOwner)
          else call realmID (channelKey realmID channelName tm) (SetPassword env pw) ch s)"

definition ToggleChannelModeration ::
  "u32 \<Rightarrow> string \<Rightarrow> u32 \<Rightarrow> u64 \<Rightarrow> ChannelManager \<Rightarrow> ChannelManager \<times> (chan_error + bool)" where
  "ToggleChannelModeration realmID channelName tm togglerGUID s =
     (case GetChannel realmID channelName tm s of
        None \<Rightarrow> (s, Inl ErrChannelNotFound)
      | Some ch \<Rightarrow>
          if \<not> IsMember togglerGUID ch then (s, Inl ErrNotMember)
          else if GetMemberFlags togglerGUID ch AND manager_flags = 0 then (s, Inl ErrNotModerator)
          else call realmID (channelKey realmID channelName tm)
                 (\<lambda>(ch, db). case ToggleModeration ch of (ch', enabled) \<Rightarrow> ((ch', db), Inr enabled)) ch s)"

definition ToggleChannelAnnouncements ::
  "chan_env \<Rightarrow> u32 \<Rightarrow> string \<Rightarrow> u32 \<Rightarrow> u64 \<Rightarrow> ChannelManager \<Rightarrow> ChannelManager \<times> bool \<times> chan_error option" where
  "ToggleChannelAnnouncements env realmID channelName tm togglerGUID s =
     (case GetChannel realmID channelName tm s of
        None \<Rightarrow> (s, False, Some ErrChannelNotFound)
      | Some ch \<Rightarrow>
          if \<not> IsMember togglerGUID ch then (s, False, Some ErrNotMember)
          else if GetMemberFlags togglerGUID ch AND manager_flags = 0 then (s, False, Some ErrNotModerator)
          else call realmID (channelKey realmID channelName tm)
                 (\<lambda>(ch, db). case ToggleAnnouncements ch of (ch', enabled) \<Rightarrow>
                    (case PersistToggleAnnouncements env (ch', db) of (c, err) \<Rightarrow> (c, enabled, err))) ch s)"

definition LeaveChannelByGUID ::
  "chan_env \<Rightarrow> u32 \<Rightarrow> string \<Rightarrow> u32 \<Rightarrow> u64 \<Rightarrow> ChannelManager \<Rightarrow> ChannelManager \<times> (chan_error + string \<times> bool \<times> u64)" where
  "LeaveChannelByGUID env realmID channelName tm playerGUID s =
     (case GetChannel realmID channelName tm s of
        None \<Rightarrow> (s, Inl ErrChannelNotFound)
      | Some ch \<Rightarrow>
          (let playerName = (case find (\<lambda>m. PlayerGUID m = playerGUID) (GetMembers env ch) of
                 Some m \<Rightarrow> PlayerName m | None \<Rightarrow> [])
           in case call realmID (channelKey realmID channelName tm) (LeaveChannel env playerGUID) ch s of
                (s', Inl e) \<Rightarrow> (s', Inl e)
              | (s', Inr newOwnerGUID) \<Rightarrow> (s', Inr (playerName, chFlags ch AND ChannelFlagCustom \<noteq> 0, newOwnerGUID))))"

definition ValidateSendMessage ::
  "u32 \<Rightarrow> string \<Rightarrow> u32 \<Rightarrow> u64 \<Rightarrow> ChannelManager \<Rightarrow> chan_error + ActiveChannel" where
  "ValidateSendMessage realmID channelName tm senderGUID s =
     (case GetChannel realmID channelName tm s of
        None \<Rightarrow> Inl ErrNotMember
      | Some ch \<Rightarrow>
          if \<not> IsMember senderGUID ch then Inl ErrNotMember
          else if \<not> CanSpeak senderGUID ch then Inl ErrMuted else Inr ch)"

section \<open>Operations on all channels of a realm\<close>

definition HasPrefix :: "string \<Rightarrow> string \<Rightarrow> bool" where
  "HasPrefix s p \<longleftrightarrow> take (length p) s = p"

text \<open>\<open>order\<close> is the order in which the map of channels is visited.\<close>

definition realm_keys :: "(string list \<Rightarrow> string list) \<Rightarrow> u32 \<Rightarrow> ChannelManager \<Rightarrow> string list" where
  "realm_keys order realmID s = filter (\<lambda>k. HasPrefix k (realmPrefix realmID)) (order (map fst (channels s)))"

record OwnershipTransfer =
  trChannelName :: string
  trChannelID :: u32
  trTeamID :: u32
  NewOwnerGUID :: u64

fun transfer_ownership ::
  "chan_env \<Rightarrow> u32 \<Rightarrow> u64 \<Rightarrow> string list \<Rightarrow> ChannelManager \<Rightarrow> ChannelManager \<times> OwnershipTransfer list" where
  "transfer_ownership env realmID playerGUID [] s = (s, [])"
| "transfer_ownership env realmID playerGUID (k # ks) s =
     (case map_of (channels s) k of
        None \<Rightarrow> transfer_ownership env realmID playerGUID ks s
      | Some ch \<Rightarrow>
          (case call realmID k (logout_channel env playerGUID) ch s of
             (s1, newOwnerGUID) \<Rightarrow>
               (case transfer_ownership env realmID playerGUID ks s1 of
                  (s2, ts) \<Rightarrow>
                    (s2, if newOwnerGUID = 0 then ts
                         else \<lparr>trChannelName = chName ch, trChannelID = channelID ch, trTeamID = team ch,
                                NewOwnerGUID = newOwnerGUID\<rparr> # ts))))"

definition TransferOwnershipOnLogout ::
  "chan_env \<Rightarrow> (string list \<Rightarrow> string list) \<Rightarrow> u32 \<Rightarrow> u64 \<Rightarrow> ChannelManager \<Rightarrow> ChannelManager \<times> OwnershipTransfer list" where
  "TransferOwnershipOnLogout env order realmID playerGUID s =
     transfer_ownership env realmID playerGUID (realm_keys order realmID s) s"

fun prune_channels :: "chan_env \<Rightarrow> u32 \<Rightarrow> (u64 \<Rightarrow> bool) \<Rightarrow> string list \<Rightarrow> ChannelManager \<Rightarrow> ChannelManager" where
  "prune_channels env realmID online [] s = s"
| "prune_channels env realmID online (k # ks) s =
     (case map_of (channels s) k of
        None \<Rightarrow> prune_channels env realmID online ks s
      | Some ch \<Rightarrow> prune_channels env realmID online ks
          (fst (call realmID k (\<lambda>c. (PruneOfflineMembers env online c, ())) ch s)))"

definition PruneOfflineMembersFromAllChannels ::
  "chan_env \<Rightarrow> (string list \<Rightarrow> string list) \<Rightarrow> u32 \<Rightarrow> (u64 \<Rightarrow> bool) \<Rightarrow> ChannelManager \<Rightarrow> ChannelManager" where
  "PruneOfflineMembersFromAllChannels env order realmID online s =
     prune_channels env realmID online (realm_keys order realmID s) s"

definition cleanupLocalMemory :: "u32 \<Rightarrow> ChannelManager \<Rightarrow> ChannelManager \<times> nat" where
  "cleanupLocalMemory realmID s =
     (let keysToRemove = map fst (filter (\<lambda>(k, ch). HasPrefix k (realmPrefix realmID) \<and> members ch = []) (channels s))
      in (s\<lparr>channels := filter (\<lambda>(k, ch). k \<notin> set keysToRemove) (channels s)\<rparr>, length keysToRemove))"

definition CleanupStaleChannels ::
  "chan_env \<Rightarrow> u32 \<Rightarrow> int \<Rightarrow> ChannelManager \<Rightarrow> ChannelManager \<times> chan_error option" where
  "CleanupStaleChannels env realmID inactiveDuration s =
     (let (s1, removedCount) = cleanupLocalMemory realmID s;
          (db1, ok1) = CleanOldChannels env (now env - inactiveDuration) (chanDB s1 realmID)
      in if \<not> ok1 then (s1, Some DBFailure)
         else let (db2, ok2) = CleanExpiredBans env db1;
                  s2 = s1\<lparr>chanDB := (chanDB s1)(realmID := db2)\<rparr>
              in (s2, if ok2 then None else Some DBFailure))"

section \<open>Events of other instances\<close>

text \<open>Joins and leaves that another instance has announced are repeated with team 0 and an empty password.\<close>

definition on_ChannelJoined ::
  "string \<Rightarrow> chan_env \<Rightarrow> string \<Rightarrow> u32 \<Rightarrow> string \<Rightarrow> u32 \<Rightarrow> u64 \<Rightarrow> string \<Rightarrow> ChannelManager \<Rightarrow> ChannelManager" where
  "on_ChannelJoined ownID env serviceID realmID channelName cid playerGUID playerName s =
     (if serviceID = ownID then s
      else case GetOrCreateChannel env realmID channelName cid 0 [] ChannelFlagCustom s of
        (s1, Inl e) \<Rightarrow> s1
      | (s1, Inr key) \<Rightarrow>
          (case map_of (channels s1) key of
             None \<Rightarrow> s1
           | Some ch \<Rightarrow> fst (call realmID key (JoinChannel env playerGUID playerName []) ch s1)))"

definition on_ChannelLeft ::
  "string \<Rightarrow> chan_env \<Rightarrow> string \<Rightarrow> u32 \<Rightarrow> string \<Rightarrow> u64 \<Rightarrow> ChannelManager \<Rightarrow> ChannelManager" where
  "on_ChannelLeft ownID env serviceID realmID channelName playerGUID s =
     (if serviceID = ownID then s
      else case GetChannel realmID channelName 0 s of
        None \<Rightarrow> s
      | Some ch \<Rightarrow> fst (call realmID (channelKey realmID channelName 0) (LeaveChannel env playerGUID) ch s))"

section \<open>Keys\<close>

lemma itoa_no_colon: "CHR '':'' \<notin> set (itoa i)"
  using dec_no_colon by (auto simp: itoa_def)

lemma itoa_inject [simp]: "itoa i = itoa j \<longleftrightarrow> i = j"
proof -
  have *: "CHR ''-'' # xs \<noteq> dec n" for xs n
  proof
    assume "CHR ''-'' # xs = dec n"
    then have "is_digit CHR ''-''" using dec_digits [of "CHR ''-''" n] by (metis list.set_intros(1))
    then show False by (simp add: is_digit_def)
  qed
  show ?thesis
    using * * [symmetric] by (auto simp: itoa_def)
qed

text \<open>Names are compared without case, realms and teams exactly, and a colon in a name does no harm.\<close>

lemma channelKey_inject:
  "channelKey r n t = channelKey r' n' t' \<longleftrightarrow> r = r' \<and> ToLower n = ToLower n' \<and> t = t'"
proof -
  have "xs @ CHR '':'' # itoa i = ys @ CHR '':'' # itoa j \<longleftrightarrow> xs = ys \<and> i = j" for xs ys i j
    using split_at_sep [of "CHR '':''" "rev (itoa i)" "rev (itoa j)" "rev xs" "rev ys"] itoa_no_colon
    by (metis (no_types, lifting) append.assoc append_Cons append_Nil itoa_inject rev.simps(2) rev_append rev_rev_ident set_rev)
  then have "ToLower n @ '':'' @ itoa (sint t) = ToLower n' @ '':'' @ itoa (sint t') \<longleftrightarrow> ToLower n = ToLower n' \<and> sint t = sint t'"
    by simp
  moreover have "sint t = sint t' \<longleftrightarrow> t = t'" by (auto intro: word_eq_iff_signed [THEN iffD2])
  ultimately show ?thesis by (auto simp: channelKey_def word_unat_eq_iff [of r r'])
qed

lemma realm_prefix: "HasPrefix (channelKey r n t) (realmPrefix r') \<longleftrightarrow> r = r'"
proof
  assume "HasPrefix (channelKey r n t) (realmPrefix r')"
  then have "channelKey r n t = realmPrefix r' @ drop (length (realmPrefix r')) (channelKey r n t)"
    unfolding HasPrefix_def by (metis append_take_drop_id)
  then show "r = r'" by (auto simp: channelKey_def realmPrefix_def word_unat_eq_iff)
qed (simp add: HasPrefix_def channelKey_def realmPrefix_def)

section \<open>Logging out\<close>

text \<open>A player does not own a channel that somebody else could own.\<close>

definition hands_over :: "u64 \<Rightarrow> ActiveChannel \<Rightarrow> bool" where
  "hands_over g ch \<longleftrightarrow> (ownership ch \<and> (\<exists>h m. h \<noteq> g \<and> member_of ch h = Some m) \<longrightarrow>
     GetMemberFlags g ch AND MemberFlagOwner = 0)"

lemma make_owner_fields:
  "ownership (fst (make_owner env g (ch, db))) = ownership ch"
  "dom (member_of (fst (make_owner env g (ch, db)))) = dom (member_of ch)"
  "h \<noteq> g \<Longrightarrow> GetMemberFlags h (fst (make_owner env g (ch, db))) = GetMemberFlags h ch"
  by (auto simp: make_owner_def Let_def set_flags_def GetMemberFlags_def split: option.splits)

lemma logout_channel_hands_over:
  assumes "good_iter env" "chan_ok ch" "logout_channel env g (ch, db) = ((ch', db'), n)"
  shows "hands_over g ch' \<and> ownership ch' = ownership ch \<and> dom (member_of ch') = dom (member_of ch)"
proof (cases "GetMemberFlags g ch AND MemberFlagOwner = 0 \<or> \<not> ownership ch")
  case True
  then have "ch' = ch" using assms(3)
    by (auto simp: logout_channel_def GetMemberFlags_def Let_def split: option.splits if_splits)
  with True show ?thesis by (auto simp: hands_over_def)
next
  case False
  then obtain m where m: "member_of ch g = Some m" "Flags m AND 1 \<noteq> 0"
    by (auto simp: GetMemberFlags_def split: option.splits)
  let ?new = "choose_owner env (\<lambda>h. h = g) ch"
  show ?thesis
  proof (cases "?new = 0")
    case True
    have "h = g" if "member_of ch h = Some k" for h k
    proof (rule ccontr)
      assume "h \<noteq> g"
      have "\<forall>g\<in>dom (member_of ch). g \<noteq> 0" using owner_okD(1) [OF assms(2)] by blast
      with choose_owner_found [OF assms(1) that] \<open>h \<noteq> g\<close> owner_okD(1) [OF assms(2) that] True show False by simp
    qed
    moreover have "ch' = ch" using assms(3) True by (auto simp: logout_channel_def Let_def split: option.splits if_splits)
    ultimately show ?thesis by (auto simp: hands_over_def)
  next
    case new: False
    let ?ch1 = "set_flags g (Flags m AND NOT 1) ch"
    have ch': "ch' = fst (make_owner env ?new (?ch1, fst (UpdateMemberFlags env 0 (channelID ch) g (Flags m AND NOT 1) db)))"
      using assms(3) m False new by (auto simp: logout_channel_def Let_def split: if_splits intro: arg_cong [where f = fst, OF sym, simplified])
    have "GetMemberFlags g ch' = GetMemberFlags g ?ch1"
      unfolding ch' using choose_owner_member(2) [OF assms(1) new] by (intro make_owner_fields(3)) simp
    also have "\<dots> = Flags m AND NOT 1" by (simp add: GetMemberFlags_def set_flags_member [OF m(1)])
    finally have "GetMemberFlags g ch' AND 1 = 0" using owner_bit owner_bit_cleared by metis
    then show ?thesis by (simp add: hands_over_def ch' make_owner_fields)
  qed
qed

lemma call_channels:
  "map_of (channels (fst (call r k f ch s))) j = (if j = k then Some (fst (fst (f (ch, chanDB s r)))) else map_of (channels s) j)"
  "chanDB (fst (call r k f ch s)) = (chanDB s)(r := snd (fst (f (ch, chanDB s r))))"
  by (simp_all add: call_def put_channel_def case_prod_unfold update_conv')

lemma transfer_ownership_result:
  assumes "good_iter env" "\<forall>k ch. map_of (channels s) k = Some ch \<longrightarrow> chan_ok ch"
    and "transfer_ownership env r g ks s = (s', ts)"
  shows "map_of (channels s') k = None \<and> map_of (channels s) k = None \<or>
    (\<exists>ch ch'. map_of (channels s) k = Some ch \<and> map_of (channels s') k = Some ch' \<and>
       chan_ok ch' \<and> dom (member_of ch') = dom (member_of ch) \<and> ownership ch' = ownership ch \<and>
       (k \<in> set ks \<longrightarrow> hands_over g ch') \<and> (k \<notin> set ks \<longrightarrow> ch' = ch))"
  using assms(2,3)
proof (induction ks arbitrary: s ts)
  case Nil
  then show ?case by (cases "map_of (channels s) k") auto
next
  case (Cons j ks)
  show ?case
  proof (cases "map_of (channels s) j")
    case None
    then have "transfer_ownership env r g ks s = (s', ts)" using Cons.prems(2) by simp
    from Cons.IH [OF Cons.prems(1) this] None show ?thesis by (cases "k = j") auto
  next
    case (Some c)
    obtain c' db' n where lo: "logout_channel env g (c, chanDB s r) = ((c', db'), n)" by (metis surj_pair)
    let ?s1 = "fst (call r j (logout_channel env g) c s)"
    obtain ts' where rest: "transfer_ownership env r g ks ?s1 = (s', ts')"
      using Cons.prems(2) Some by (auto split: prod.splits)
    have c: "chan_ok c" using Cons.prems(1) Some by blast
    have c': "chan_ok c'" using logout_channel_inv [of False "(c, chanDB s r)", OF _ assms(1) _ lo] c by (simp add: chan_inv_def)
    note over = logout_channel_hands_over [OF assms(1) c lo]
    have s1: "map_of (channels ?s1) k = (if k = j then Some c' else map_of (channels s) k)" for k
      by (simp add: call_channels lo)
    have "\<forall>k ch. map_of (channels ?s1) k = Some ch \<longrightarrow> chan_ok ch" using Cons.prems(1) c' by (auto simp: s1)
    from Cons.IH [OF this rest] show ?thesis using over Some by (cases "k = j") (auto simp: s1)
  qed
qed

text \<open>
  C30: Logging out hands channels over. When a player logs out, in whatever order the channels and the
  members are visited and whatever writes fail, he stays a member of every channel, the channels of
  other realms do not change, and of no channel of his realm that has ownership and another member is
  he the owner afterwards; each such channel has an owner among its members.
\<close>

theorem logout_hands_over:
  assumes "good_iter env" "\<forall>xs. set (order xs) = set xs" "\<forall>k ch. map_of (channels s) k = Some ch \<longrightarrow> chan_ok ch"
    and "TransferOwnershipOnLogout env order r g s = (s', ts)"
    and "GetChannel r' name tm s = Some ch"
  shows "\<exists>ch'. GetChannel r' name tm s' = Some ch' \<and> dom (member_of ch') = dom (member_of ch) \<and>
    (r' \<noteq> r \<longrightarrow> ch' = ch) \<and>
    (r' = r \<and> ownership ch \<and> (\<exists>h\<in>dom (member_of ch). h \<noteq> g) \<longrightarrow>
       GetMemberFlags g ch' AND MemberFlagOwner = 0 \<and> ownerGUID ch' \<in> dom (member_of ch') \<and>
       GetMemberFlags (ownerGUID ch') ch' AND MemberFlagOwner \<noteq> 0)"
proof -
  let ?k = "channelKey r' name tm"
  have key: "?k \<in> set (realm_keys order r s) \<longleftrightarrow> r' = r"
    using assms(2,5) by (auto simp: realm_keys_def realm_prefix GetChannel_def dest: map_of_SomeD intro: rev_image_eqI)
  have "transfer_ownership env r g (realm_keys order r s) s = (s', ts)"
    using assms(4) by (simp add: TransferOwnershipOnLogout_def)
  from transfer_ownership_result [OF assms(1,3) this, of ?k] key assms(5) obtain ch' where
    ch': "map_of (channels s') ?k = Some ch'" "chan_ok ch'" "dom (member_of ch') = dom (member_of ch)"
      "ownership ch' = ownership ch" "r' = r \<longrightarrow> hands_over g ch'" "r' \<noteq> r \<longrightarrow> ch' = ch"
    by (auto simp: GetChannel_def)
  have "\<exists>m. member_of ch' (ownerGUID ch') = Some m \<and> odd (Flags m)" if "ownership ch" "h \<in> dom (member_of ch)" for h
    using owner_okD(2) [OF ch'(2)] that ch'(3,4) by blast
  then show ?thesis
    using ch' by (fastforce simp: GetChannel_def hands_over_def owner_bit GetMemberFlags_def)
qed

section \<open>Bans\<close>

text \<open>
  What the service does to a channel while a ban runs: players join before the ban ends, and bans and
  their removal concern players who were found among the members by name.
\<close>

inductive managed_step :: "int \<Rightarrow> chan_state \<Rightarrow> chan_state \<Rightarrow> bool" for until where
  quiet: "quiet_step False s s' \<Longrightarrow> managed_step until s s'"
| join: "g \<noteq> 0 \<Longrightarrow> now env < until \<Longrightarrow> JoinChannel env g nm pw s = (s', r) \<Longrightarrow> managed_step until s s'"
| ban: "good_iter env \<Longrightarrow> g = FindMemberByName env nm (fst s) \<Longrightarrow> g \<noteq> 0 \<Longrightarrow> ban_player env g t s = (s', r) \<Longrightarrow> managed_step until s s'"
| unban: "good_iter env \<Longrightarrow> g = FindMemberByName env nm (fst s) \<Longrightarrow> g \<noteq> 0 \<Longrightarrow> unban_player env g s = (s', r) \<Longrightarrow> managed_step until s s'"

lemma managed_chan_step: "managed_step until s s' \<Longrightarrow> chan_step False s s'"
  by (induction rule: managed_step.induct) (auto intro: chan_step.intros)

lemma GetMembers_set: "good_iter env \<Longrightarrow> set (GetMembers env ch) = {m. \<exists>g. member_of ch g = Some m}"
proof -
  assume "good_iter env"
  then have "set (iter env 0 (map fst (members ch))) = dom (member_of ch)"
    by (simp add: good_iter_def dom_map_of_conv_image_fst)
  then show ?thesis unfolding GetMembers_def set_map_filter by blast
qed

lemma FindMemberByName_member:
  assumes "good_iter env" "chan_ok ch" "FindMemberByName env nm ch \<noteq> 0"
  shows "\<exists>m. member_of ch (FindMemberByName env nm ch) = Some m \<and> PlayerName m = nm"
proof -
  obtain m where m: "find (\<lambda>m. PlayerName m = nm) (GetMembers env ch) = Some m" "FindMemberByName env nm ch = PlayerGUID m"
    using assms(3) by (auto simp: FindMemberByName_def split: option.splits)
  then have "m \<in> set (GetMembers env ch)" "PlayerName m = nm" by (auto simp: find_Some_iff)
  then obtain g where "member_of ch g = Some m" "PlayerName m = nm" using GetMembers_set [OF assms(1)] by blast
  with owner_okD(1) [OF assms(2)] m(2) show ?thesis by metis
qed

definition banned_out :: "u64 \<Rightarrow> int \<Rightarrow> chan_state \<Rightarrow> bool" where
  "banned_out g until s \<longleftrightarrow> chan_ok (fst s) \<and> map_of (bannedUntil (fst s)) g = Some until \<and> member_of (fst s) g = None"

lemma banned_out_join:
  "banned_out g until s \<Longrightarrow> now env < until \<Longrightarrow> JoinChannel env g nm pw s = (s, Some ErrPlayerBanned)"
  by (cases s) (simp add: banned_out_def JoinChannel_def banned_def)

lemma JoinChannel_other:
  assumes "JoinChannel env h nm pw s = (s', r)" "h \<noteq> g"
  shows "bannedUntil (fst s') = bannedUntil (fst s) \<and> member_of (fst s') g = member_of (fst s) g"
proof -
  obtain ch db where s: "s = (ch, db)" by force
  from assms(1) [unfolded s] show ?thesis
    by (cases rule: JoinChannel_cases) (use assms(2) in \<open>auto simp: s update_conv'\<close>)
qed

lemma managed_step_banned:
  assumes "managed_step until s s'" "banned_out g until s"
  shows "banned_out g until s'"
proof -
  have ok: "chan_ok (fst s')"
    using chan_step_inv [OF managed_chan_step [OF assms(1)]] assms(2) by (simp add: chan_inv_def banned_out_def)
  from assms(1) show ?thesis
  proof cases
    case quiet
    then show ?thesis using quiet_step_keeps [OF quiet] assms(2) ok by (simp add: keeps_out_def banned_out_def)
  next
    case (join h env nm pw r)
    show ?thesis
    proof (cases "h = g")
      case True
      then show ?thesis using banned_out_join [OF assms(2) join(2)] join(3) assms(2) by simp
    next
      case False
      then show ?thesis using JoinChannel_other [OF join(3) False] assms(2) ok by (simp add: banned_out_def)
    qed
  next
    case (ban env h nm t r)
    then have "h \<noteq> g" using FindMemberByName_member [of env "fst s" nm] assms(2) by (auto simp: banned_out_def)
    then show ?thesis
      using ban(4) assms(2) ok by (cases s) (auto simp: banned_out_def ban_player_def update_conv' case_prod_unfold)
  next
    case (unban env h nm r)
    then have "h \<noteq> g" using FindMemberByName_member [of env "fst s" nm] assms(2) by (auto simp: banned_out_def)
    then show ?thesis
      using unban(4) assms(2) ok by (cases s) (auto simp: banned_out_def unban_player_def delete_conv' case_prod_unfold)
  qed
qed

lemma managed_steps_banned: "(managed_step until)\<^sup>*\<^sup>* s s' \<Longrightarrow> banned_out g until s \<Longrightarrow> banned_out g until s'"
  by (induction rule: rtranclp_induct) (auto intro: managed_step_banned)

lemma LeaveChannel_removes:
  assumes "LeaveChannel env g (ch, db) = ((ch', db'), r)" "\<not> stmtFails env StmtRemoveChannelMember (channelID ch) g 0"
  shows "member_of ch' g = None"
proof (cases "member_of ch g")
  case None
  then show ?thesis using assms(1) by (simp add: LeaveChannel_def)
next
  case (Some m)
  let ?ch1 = "ch\<lparr>members := AList.delete g (members ch)\<rparr>"
  have "member_of (fst (make_owner env h (?ch1, d))) g = None" for h d
    by (simp add: make_owner_def Let_def delete_conv')
  then show ?thesis
    using assms Some by (auto simp: LeaveChannel_def RemoveChannelMember_def Let_def delete_conv' split: if_splits) (metis fst_conv)+
qed

lemma banned_on_load:
  assumes "map_of (banRows db) (c, g) = Some u" "distinct (map fst (banRows db))" "GetChannelBans env c db = Some bans" "now env < u * second"
  shows "map_of (bannedUntil (load_channel env flags row rts bans ms)) g = Some (u * second)"
proof -
  have upd: "map_of (foldl (\<lambda>acc (g, t). if now env < t then AList.update g t acc else acc) acc bs) g =
    (case find (\<lambda>(h, t). h = g \<and> now env < t) (rev bs) of Some (h, t) \<Rightarrow> Some t | None \<Rightarrow> map_of acc g)" for acc bs
    by (induction bs arbitrary: acc) (auto simp: update_conv' find_append split: option.split if_splits)
  have bans: "set (rev bans) = {(h, t * second) |h t. ((c, h), t) \<in> set (banRows db)}"
    using assms(3) by (force simp: GetChannelBans_def split: if_splits)
  have "((c, g), u) \<in> set (banRows db)" using assms(1) by (rule map_of_SomeD)
  then have "\<exists>y. find (\<lambda>(h, t). h = g \<and> now env < t) (rev bans) = Some y \<and> snd y = snd (g, u * second)"
  proof (intro find_unique_key)
    show "(g, u * second) \<in> set (rev bans)" unfolding bans using \<open>((c, g), u) \<in> set (banRows db)\<close> by blast
    show "case (g, u * second) of (h, t) \<Rightarrow> h = g \<and> now env < t" using assms(4) by simp
    fix y assume "y \<in> set (rev bans)" "case y of (h, t) \<Rightarrow> h = g \<and> now env < t"
    then obtain t where t: "((c, g), t) \<in> set (banRows db)" "y = (g, t * second)" unfolding bans by auto
    then have "map_of (banRows db) (c, g) = Some t" using assms(2) by (simp add: map_of_eq_Some_iff)
    with t(2) assms(1) show "snd y = snd (g, u * second)" by simp
  qed
  then show ?thesis by (auto simp: load_channel_def upd)
qed

text \<open>
  C23: A ban keeps the player out. When a moderator bans a member by name and no statement fails, the member
  is out of the channel, and as long as the ban runs, that is for a hundred years, he cannot join
  again, whatever the others do in the meantime: no name they could give to the command that lifts
  bans finds him. The ban is in the tables too, to the second.
\<close>

theorem ban_keeps_out:
  assumes "good_iter env" "\<forall>st c g n. \<not> stmtFails env st c g n"
    and "GetChannel r name tm s = Some ch0" "chan_ok ch0"
    and "BanPlayerByName env r name tm banner target s = (s1, Inr g)"
  shows "\<exists>ch m. GetChannel r name tm s1 = Some ch \<and> member_of ch0 g = Some m \<and> PlayerName m = target \<and>
    map_of (banRows (chanDB s1 r)) (channelID ch, g) = Some ((now env + ban_years) div second) \<and>
    (\<forall>ch' db' env' nm pw. (managed_step (now env + ban_years))\<^sup>*\<^sup>* (ch, chanDB s1 r) (ch', db') \<and> now env' < now env + ban_years \<longrightarrow>
       member_of ch' g = None \<and> JoinChannel env' g nm pw (ch', db') = ((ch', db'), Some ErrPlayerBanned) \<and>
       (good_iter env' \<longrightarrow> FindMemberByName env' nm ch' \<noteq> g))"
proof -
  let ?k = "channelKey r name tm" and ?g = "FindMemberByName env target ch0"
  have g: "?g \<noteq> 0" "g = ?g"
    using assms(3,5) by (auto simp: BanPlayerByName_def Let_def split: if_splits prod.splits option.splits)
  from FindMemberByName_member [OF assms(1,4) g(1)] obtain m where m: "member_of ch0 g = Some m" "PlayerName m = target"
    using g(2) by blast
  obtain ch1 db1 res where lv: "LeaveChannel env g (ch0, chanDB s r) = ((ch1, db1), res)" by (metis surj_pair)
  let ?s1 = "fst (call r ?k (LeaveChannel env g) ch0 s)"
  have c1: "GetChannel r name tm ?s1 = Some ch1" "chanDB ?s1 r = db1" by (simp_all add: GetChannel_def call_channels lv)
  have s1: "s1 = fst (call r ?k (ban_player env g (now env + ban_years)) ch1 ?s1)"
    using assms(3,5) g c1(1) by (auto simp: BanPlayerByName_def BanPlayer_def Let_def split: if_splits prod.splits option.splits)
  let ?b = "ban_player env g (now env + ban_years) (ch1, db1)"
  have ch: "GetChannel r name tm s1 = Some (fst (fst ?b))" "chanDB s1 r = snd (fst ?b)"
    by (simp_all add: s1 GetChannel_def call_channels lv)
  have ok1: "chan_ok ch1"
    using LeaveChannel_inv [of False "(ch0, chanDB s r)", OF _ assms(1) _ lv] assms(4) by (simp add: chan_inv_def)
  have out: "banned_out g (now env + ban_years) (fst (fst ?b), d)" for d
    using LeaveChannel_removes [OF lv] assms(2) ok1 by (simp add: banned_out_def ban_player_def case_prod_unfold update_conv')
  have "map_of (banRows (chanDB s1 r)) (channelID (fst (fst ?b)), g) = Some ((now env + ban_years) div second)"
    using assms(2) by (simp add: ch(2) ban_player_def AddChannelBan_def update_conv')
  moreover have "member_of ch' g = None \<and> JoinChannel env' g nm pw (ch', db') = ((ch', db'), Some ErrPlayerBanned) \<and>
      (good_iter env' \<longrightarrow> FindMemberByName env' nm ch' \<noteq> g)"
    if "(managed_step (now env + ban_years))\<^sup>*\<^sup>* (fst (fst ?b), chanDB s1 r) (ch', db')" "now env' < now env + ban_years" for ch' db' env' nm pw
    using managed_steps_banned [OF that(1) out] banned_out_join [OF _ that(2), of g "(ch', db')" nm pw]
      FindMemberByName_member [of env' ch' nm] g
    by (auto simp: banned_out_def)
  ultimately show ?thesis using ch(1) m by blast
qed

section \<open>Permissions\<close>

text \<open>The commands that manage a channel, with the flags of which the caller needs one.\<close>

inductive manages :: "u32 \<Rightarrow> string \<Rightarrow> u32 \<Rightarrow> u64 \<Rightarrow> u8 \<Rightarrow> ChannelManager \<Rightarrow> ChannelManager \<Rightarrow> bool" for r n t caller where
  kick: "manages r n t caller manager_flags s (fst (KickPlayer env r n t caller target s))"
| ban: "manages r n t caller manager_flags s (fst (BanPlayerByName env r n t caller target s))"
| unban: "manages r n t caller manager_flags s (fst (UnbanPlayerByName env r n t caller target s))"
| mute: "manages r n t caller manager_flags s (fst (SetMuteByName env r n t caller target on s))"
| moderation: "manages r n t caller manager_flags s (fst (ToggleChannelModeration r n t caller s))"
| announcements: "manages r n t caller manager_flags s (fst (ToggleChannelAnnouncements env r n t caller s))"
| moderator: "manages r n t caller MemberFlagOwner s (fst (SetModeratorByName env r n t caller target on s))"
| owner: "manages r n t caller MemberFlagOwner s (fst (SetOwnerByName env r n t caller target s))"
| password: "manages r n t caller MemberFlagOwner s (fst (SetChannelPassword env r n t caller pw s))"

text \<open>What a command may touch: the channel it names and the tables of the realm.\<close>

definition only_touches :: "u32 \<Rightarrow> string \<Rightarrow> ChannelManager \<Rightarrow> ChannelManager \<Rightarrow> bool" where
  "only_touches r k s s' \<longleftrightarrow> (\<forall>j. j \<noteq> k \<longrightarrow> map_of (channels s') j = map_of (channels s) j) \<and>
     (\<forall>r'. r' \<noteq> r \<longrightarrow> chanDB s' r' = chanDB s r')"

lemma only_touches_call: "only_touches r k s (fst (call r k f ch s))"
  by (simp add: only_touches_def call_channels)

lemma only_touches_refl: "only_touches r k s s"
  by (simp add: only_touches_def)

lemma only_touches_trans: "only_touches r k s s1 \<Longrightarrow> only_touches r k s1 s2 \<Longrightarrow> only_touches r k s s2"
  by (simp add: only_touches_def)

lemma call_pair: "(case call r k f ch s of (s', Inl e) \<Rightarrow> (s', Inl e) | (s', Inr v) \<Rightarrow> (s', Inr (w v))) =
    (fst (call r k f ch s), case snd (call r k f ch s) of Inl e \<Rightarrow> Inl e | Inr v \<Rightarrow> Inr (w v))"
  "(case call r k f' ch s of (s', Some e) \<Rightarrow> (s', Inl e) | (s', None) \<Rightarrow> (s', Inr x)) =
    (fst (call r k f' ch s), case snd (call r k f' ch s) of Some e \<Rightarrow> Inl e | None \<Rightarrow> Inr x)"
  by (simp_all add: case_prod_unfold split: sum.split option.split)

lemma BanPlayer_touches: "only_touches r (channelKey r n t) s (fst (BanPlayer env r n t g u s))"
  by (auto simp: BanPlayer_def only_touches_call only_touches_refl split: option.split)

lemma UnbanPlayer_touches: "only_touches r (channelKey r n t) s (fst (UnbanPlayer env r n t g s))"
  by (auto simp: UnbanPlayer_def only_touches_call only_touches_refl split: option.split)

definition permitted :: "u32 \<Rightarrow> string \<Rightarrow> u32 \<Rightarrow> u64 \<Rightarrow> u8 \<Rightarrow> ChannelManager \<Rightarrow> ChannelManager \<Rightarrow> bool" where
  "permitted r n t caller role s s' \<longleftrightarrow>
     (\<exists>ch m. GetChannel r n t s = Some ch \<and> member_of ch caller = Some m \<and> Flags m AND role \<noteq> 0 \<and>
        only_touches r (channelKey r n t) s s')"

lemma permittedI:
  assumes "GetChannel r n t s = Some ch" "GetMemberFlags caller ch AND role \<noteq> 0" "only_touches r (channelKey r n t) s s'"
  shows "permitted r n t caller role s s'"
  using assms by (auto simp: permitted_def GetMemberFlags_def split: option.splits)

lemma BanPlayerByName_touches:
  "only_touches r (channelKey r n t) s (fst (BanPlayer env r n t g u (fst (call r (channelKey r n t) f ch s))))"
  using only_touches_trans [OF only_touches_call BanPlayer_touches] .

lemma manages_permitted:
  assumes "manages r n t caller role s s'" "s' \<noteq> s"
  shows "permitted r n t caller role s s'"
  using assms
proof cases
  case (kick env target)
  then show ?thesis using assms(2)
    by (auto simp: KickPlayer_def Let_def call_pair(1) [where w = "\<lambda>_. _"] split: option.splits if_splits
        intro!: permittedI only_touches_call)
next
  case (ban env target)
  then show ?thesis using assms(2)
    by (auto simp: BanPlayerByName_def Let_def case_prod_unfold split: option.splits if_splits
        intro!: permittedI BanPlayerByName_touches)
next
  case (unban env target)
  then show ?thesis using assms(2)
    by (auto simp: UnbanPlayerByName_def Let_def case_prod_unfold split: option.splits if_splits
        intro!: permittedI UnbanPlayer_touches)
qed (use assms(2) in \<open>auto simp: SetMuteByName_def ToggleChannelModeration_def ToggleChannelAnnouncements_def
    SetModeratorByName_def SetOwnerByName_def SetChannelPassword_def Let_def call_pair split: option.splits if_splits
    intro!: permittedI only_touches_call\<close>)

text \<open>
  C28: Only managers manage. A command that changes anything was given by a member of the channel it names,
  who is a moderator or the owner, and the owner where it appoints moderators, gives the channel away
  or sets the password. It changes that channel and the tables of its realm, and nothing else.
\<close>

theorem only_managers_manage:
  assumes "manages r n t caller role s s'" "s' \<noteq> s"
  shows "\<exists>ch m. GetChannel r n t s = Some ch \<and> member_of ch caller = Some m \<and> Flags m AND role \<noteq> 0 \<and>
    (\<forall>j. j \<noteq> channelKey r n t \<longrightarrow> map_of (channels s') j = map_of (channels s) j) \<and>
    (\<forall>r'. r' \<noteq> r \<longrightarrow> chanDB s' r' = chanDB s r')"
  using manages_permitted [OF assms] by (simp only: permitted_def only_touches_def)

section \<open>Examples\<close>

text \<open>A channel owned by player 5, with players 7 and 9, as creating and joining it makes it.\<close>

definition ex_start :: ChannelManager where
  "ex_start = \<lparr>channels = [], chanDB = \<lambda>_. empty_db\<rparr>"

definition ex_join :: "u64 \<Rightarrow> string \<Rightarrow> ChannelManager \<Rightarrow> ChannelManager" where
  "ex_join g nm s =
     (case GetOrCreateChannel ex_cenv 1 ''World'' 0 0 [] ChannelFlagCustom s of
        (s1, Inr key) \<Rightarrow> (case map_of (channels s1) key of
            Some ch \<Rightarrow> fst (call 1 key (JoinChannel ex_cenv g nm []) ch s1) | None \<Rightarrow> s1)
      | (s1, Inl _) \<Rightarrow> s1)"

definition ex_chat :: ChannelManager where
  "ex_chat = ex_join 9 ''Cid'' (ex_join 7 ''Bob'' (ex_join 5 ''Ann'' ex_start))"

definition ex_channel :: ActiveChannel where
  "ex_channel = \<lparr>channelID = 1, chName = ''World'', team = 0, password = [], announce = True, ownership = True,
     moderation = False, chFlags = 1, ownerGUID = 5, rights = None,
     members = [(5, \<lparr>PlayerGUID = 5, PlayerName = ''Ann'', Flags = 1\<rparr>), (7, \<lparr>PlayerGUID = 7, PlayerName = ''Bob'', Flags = 0\<rparr>),
       (9, \<lparr>PlayerGUID = 9, PlayerName = ''Cid'', Flags = 0\<rparr>)],
     bannedUntil = []\<rparr>"

lemma ex_chat_channels: "channels ex_chat = [(''1:world:0'', ex_channel)]"
  by code_simp

lemma ex_key: "channelKey 1 ''World'' 0 = ''1:world:0''"
  by code_simp

lemma GetChannel_ex: "GetChannel 1 ''World'' 0 ex_chat = Some ex_channel"
  by (simp add: GetChannel_def ex_chat_channels ex_key)

lemma chan_ok_ex: "chan_ok ex_channel"
  by (simp add: owner_ok_def ex_channel_def)

theorem logout_hands_over_witness:
  "\<exists>ch'. GetChannel 1 ''World'' 0 (fst (TransferOwnershipOnLogout ex_cenv rev 1 5 ex_chat)) = Some ch' \<and>
     5 \<in> dom (member_of ch') \<and> GetMemberFlags 5 ch' AND MemberFlagOwner = 0 \<and>
     GetMemberFlags (ownerGUID ch') ch' AND MemberFlagOwner \<noteq> 0"
proof -
  have ok: "\<forall>k ch. map_of (channels ex_chat) k = Some ch \<longrightarrow> chan_ok ch"
    using chan_ok_ex by (simp add: ex_chat_channels)
  have d: "dom (member_of ex_channel) = {5, 7, 9}" by (auto simp: ex_channel_def split: if_splits)
  have "ownership ex_channel" by (simp add: ex_channel_def)
  with logout_hands_over [OF good_iter_ex(1) _ ok prod.collapse [symmetric] GetChannel_ex, of rev 1 5] show ?thesis
    unfolding d by fastforce
qed

theorem ban_keeps_out_witness:
  "\<exists>ch. GetChannel 1 ''World'' 0 (fst (BanPlayerByName ex_cenv 1 ''World'' 0 5 ''Cid'' ex_chat)) = Some ch \<and>
     JoinChannel (ex_cenv\<lparr>now := 3000000000 * second\<rparr>) 9 ''Cid'' [] (ch, chanDB (fst (BanPlayerByName ex_cenv 1 ''World'' 0 5 ''Cid'' ex_chat)) 1) =
       ((ch, chanDB (fst (BanPlayerByName ex_cenv 1 ''World'' 0 5 ''Cid'' ex_chat)) 1), Some ErrPlayerBanned)"
proof -
  have "snd (BanPlayerByName ex_cenv 1 ''World'' 0 5 ''Cid'' ex_chat) = Inr 9" by code_simp
  then have res: "BanPlayerByName ex_cenv 1 ''World'' 0 5 ''Cid'' ex_chat = (fst (BanPlayerByName ex_cenv 1 ''World'' 0 5 ''Cid'' ex_chat), Inr 9)"
    by (metis prod.collapse)
  have early: "now (ex_cenv\<lparr>now := 3000000000 * second\<rparr>) < now ex_cenv + ban_years" by (simp add: ban_years_def second_def ex_cenv_def)
  have "\<forall>st c g n. \<not> stmtFails ex_cenv st c g n" by (simp add: ex_cenv_def)
  from ban_keeps_out [OF good_iter_ex(1) this GetChannel_ex chan_ok_ex res] early show ?thesis by blast
qed

theorem only_managers_manage_witness:
  "\<exists>ch m. GetChannel 1 ''World'' 0 ex_chat = Some ch \<and> member_of ch 5 = Some m \<and> Flags m AND manager_flags \<noteq> 0"
proof -
  let ?s = "fst (KickPlayer ex_cenv 1 ''World'' 0 5 ''Bob'' ex_chat)"
  have "length (members (snd (hd (channels ?s)))) = 2" by code_simp
  then have "?s \<noteq> ex_chat" by (auto simp: ex_chat_channels ex_channel_def)
  from only_managers_manage [OF manages.kick this] show ?thesis by blast
qed

text \<open>
  Joins of other instances are repeated with an empty password, so that the copy of a channel with a
  password refuses them: player 11, who joined elsewhere, is not known here.
\<close>

lemma sync_join_needs_password:
  "(let s = fst (SetChannelPassword ex_cenv 1 ''World'' 0 5 ''secret'' ex_chat);
        s' = on_ChannelJoined ''here'' ex_cenv ''there'' 1 ''World'' 1 11 ''Dan'' s
    in map_option (IsMember 11) (GetChannel 1 ''World'' 0 s') = Some False)"
  by code_simp

text \<open>
  They are also repeated with team 0. A join of a channel of team 1 makes a second copy of it under the
  key of team 0, beside the one that the players of this instance use.
\<close>

lemma sync_join_ignores_team:
  "(let s = fst (GetOrCreateChannel ex_cenv 1 ''Horde'' 0 1 [] ChannelFlagCustom ex_start);
        s' = on_ChannelJoined ''here'' ex_cenv ''there'' 1 ''Horde'' 1 11 ''Dan'' s
    in map_option (IsMember 11) (GetChannel 1 ''Horde'' 1 s') = Some False \<and>
       map_option (\<lambda>ch. (channelID ch, IsMember 11 ch)) (GetChannel 1 ''Horde'' 0 s') = Some (1, True))"
  by code_simp

end
