(* ===== verification/Auction_House.thy ===== *)
theory Auction_House
  imports Go_Strings "HOL-Library.AList"
begin

text \<open>
  The auction house, \<^verbatim>\<open>apps/auctionhouse\<close>: the table of auctions (\<^verbatim>\<open>repo/auction.go\<close>,
  \<^verbatim>\<open>auction_mysql.go\<close>, \<^verbatim>\<open>stmts.go\<close>), the filters of item templates (\<^verbatim>\<open>itemtemplate.go\<close>), the service with
  its cache and its mails (\<^verbatim>\<open>service/auction.go\<close>) and the handlers of events of other instances
  (\<^verbatim>\<open>auction_events.go\<close>). Prices are 32 bit words. The mail service, the event bus, the clock and the
  iteration order of maps are parameters; the mails and events that were sent are part of the state.
\<close>

section \<open>Auctions and their table\<close>

record AuctionEntry =
  ID :: u32
  HouseID :: u8
  ItemGUID :: u32
  ItemOwner :: u32
  BuyoutPrice :: u32
  Time :: u32
  BuyGUID :: u32
  LastBid :: u32
  StartBid :: u32
  Deposit :: u32
  ItemEntry :: u32
  ItemCount :: u32
  Charges :: int
  RandomPropertyID :: int
  SuffixFactor :: u32
  Enchantments :: string
  Flags :: u32

datatype CharsPreparedStatements =
  StmtLoadAllAuctions | StmtInsertAuction | StmtUpdateBid | StmtDeleteAuction | StmtLoadAuctionByID

text \<open>What a join with \<^verbatim>\<open>item_instance\<close> adds to the columns of an auction.\<close>

record item_instance =
  iEntry :: u32
  iCount :: u32
  iCharges :: int
  iRandomPropertyID :: int
  iEnchantments :: string
  iFlags :: u32

definition join_item :: "item_instance option \<Rightarrow> AuctionEntry \<Rightarrow> AuctionEntry" where
  "join_item it a =
     (case it of
        None \<Rightarrow> a\<lparr>ItemEntry := 0, ItemCount := 0, Charges := 0, RandomPropertyID := 0, SuffixFactor := 0,
                  Enchantments := [], Flags := 0\<rparr>
      | Some i \<Rightarrow> a\<lparr>ItemEntry := iEntry i, ItemCount := iCount i, Charges := iCharges i,
                    RandomPropertyID := iRandomPropertyID i, SuffixFactor := 0,
                    Enchantments := iEnchantments i, Flags := iFlags i\<rparr>)"

text \<open>The columns of \<^verbatim>\<open>auctionhouse\<close>: an auction without what is joined.\<close>

definition auction_row :: "AuctionEntry \<Rightarrow> AuctionEntry" where
  "auction_row = join_item None"

section \<open>State\<close>

record SendRequest =
  ReceiverGuid :: u64
  Subject :: string
  Body :: string
  MoneyToSend :: "32 word"
  Attachments :: "(u64 \<times> u32 \<times> u32) list"
  DeliveryTimestamp :: int
  ExpirationTimestamp :: int

datatype ah_event =
    AuctionCreated u32 AuctionEntry
  | BidPlaced u32 u32 u32 u32 bool u32 u32
  | AuctionCanceled u32 u32
  | AuctionExpired u32 u32

text \<open>
  One instance with the table of every realm. \<open>auctions\<close> is the cache, \<open>None\<close> for a realm whose map was
  never made.
\<close>

record auction_house =
  auctions :: "u32 \<Rightarrow> (u32 \<times> AuctionEntry) list option"
  nextID :: u32
  auctionTable :: "u32 \<Rightarrow> (u32 \<times> AuctionEntry) list"
  mails :: "(u32 \<times> SendRequest) list"
  published :: "ah_event list"

record ah_env =
  nowUnix :: int
  dbFails :: "CharsPreparedStatements \<Rightarrow> u32 \<Rightarrow> bool"
  mailFails :: "nat \<Rightarrow> u32 \<Rightarrow> bool"
  natsFails :: bool
  itemInstance :: "u32 \<Rightarrow> item_instance option"
  auctionOrder :: "u32 list \<Rightarrow> u32 list"

datatype ah_error = ErrAuctionNotFound | ErrBidOwnAuction | ErrBidTooLow | ErrBidIncrementTooLow
  | ErrNotAuctionOwner | ErrDatabase | ErrMail

abbreviation AuctionMailOutbidded :: nat where "AuctionMailOutbidded \<equiv> 0"
abbreviation AuctionMailWon :: nat where "AuctionMailWon \<equiv> 1"
abbreviation AuctionMailSuccessful :: nat where "AuctionMailSuccessful \<equiv> 2"
abbreviation AuctionMailExpired :: nat where "AuctionMailExpired \<equiv> 3"
abbreviation AuctionMailCancelledBidder :: nat where "AuctionMailCancelledBidder \<equiv> 4"
abbreviation AuctionMailCanceled :: nat where "AuctionMailCanceled \<equiv> 5"
abbreviation AuctionHouseNeutral :: u8 where "AuctionHouseNeutral \<equiv> 7"

definition publish :: "ah_env \<Rightarrow> ah_event \<Rightarrow> auction_house \<Rightarrow> auction_house" where
  "publish env e w = (if natsFails env then w else w\<lparr>published := published w @ [e]\<rparr>)"

section \<open>Statements\<close>

definition LoadAllAuctions :: "ah_env \<Rightarrow> u32 \<Rightarrow> auction_house \<Rightarrow> AuctionEntry list option" where
  "LoadAllAuctions env realmID w =
     (if dbFails env StmtLoadAllAuctions 0 then None
      else Some (map (\<lambda>(k, a). join_item (itemInstance env (ItemGUID a)) a) (auctionTable w realmID)))"

definition InsertAuction :: "ah_env \<Rightarrow> u32 \<Rightarrow> AuctionEntry \<Rightarrow> auction_house \<Rightarrow> auction_house \<times> bool" where
  "InsertAuction env realmID a w =
     (if dbFails env StmtInsertAuction (ID a) \<or> map_of (auctionTable w realmID) (ID a) \<noteq> None then (w, False)
      else (w\<lparr>auctionTable := (auctionTable w)(realmID := auctionTable w realmID @ [(ID a, auction_row a)])\<rparr>, True))"

definition UpdateBid :: "ah_env \<Rightarrow> u32 \<Rightarrow> u32 \<Rightarrow> u32 \<Rightarrow> u32 \<Rightarrow> auction_house \<Rightarrow> auction_house \<times> bool" where
  "UpdateBid env realmID auctionID buyGUID lastBid w =
     (if dbFails env StmtUpdateBid auctionID then (w, False)
      else (case map_of (auctionTable w realmID) auctionID of
              None \<Rightarrow> w
            | Some a \<Rightarrow> w\<lparr>auctionTable := (auctionTable w)(realmID :=
                AList.update auctionID (a\<lparr>BuyGUID := buyGUID, LastBid := lastBid\<rparr>) (auctionTable w realmID))\<rparr>, True))"

definition delete_row :: "u32 \<Rightarrow> u32 \<Rightarrow> auction_house \<Rightarrow> auction_house" where
  "delete_row realmID auctionID w =
     w\<lparr>auctionTable := (auctionTable w)(realmID := AList.delete auctionID (auctionTable w realmID))\<rparr>"

definition DeleteAuction :: "ah_env \<Rightarrow> u32 \<Rightarrow> u32 \<Rightarrow> auction_house \<Rightarrow> auction_house \<times> bool" where
  "DeleteAuction env realmID auctionID w =
     (if dbFails env StmtDeleteAuction auctionID then (w, False) else (delete_row realmID auctionID w, True))"

text \<open>
  \<^verbatim>\<open>DeleteAuctionIfExists\<close> reads the row and then deletes it; whoever deletes a row has claimed the
  auction. Other instances can act between the two statements.
\<close>

definition select_auction :: "ah_env \<Rightarrow> u32 \<Rightarrow> u32 \<Rightarrow> auction_house \<Rightarrow> AuctionEntry option" where
  "select_auction env realmID auctionID w =
     (if dbFails env StmtLoadAuctionByID auctionID then None
      else map_option (\<lambda>a. join_item (itemInstance env (ItemGUID a)) a) (map_of (auctionTable w realmID) auctionID))"

definition claim_auction :: "ah_env \<Rightarrow> u32 \<Rightarrow> u32 \<Rightarrow> auction_house \<Rightarrow> auction_house \<times> bool" where
  "claim_auction env realmID auctionID w =
     (if dbFails env StmtDeleteAuction auctionID \<or> map_of (auctionTable w realmID) auctionID = None then (w, False)
      else (delete_row realmID auctionID w, True))"

definition DeleteAuctionIfExists :: "ah_env \<Rightarrow> u32 \<Rightarrow> u32 \<Rightarrow> auction_house \<Rightarrow> auction_house \<times> AuctionEntry option" where
  "DeleteAuctionIfExists env realmID auctionID w =
     (case select_auction env realmID auctionID w of
        None \<Rightarrow> (w, None)
      | Some a \<Rightarrow> (case claim_auction env realmID auctionID w of
           (w', True) \<Rightarrow> (w', Some a) | (w', False) \<Rightarrow> (w', None)))"

section \<open>Fees\<close>

definition calculateOutBid :: "u32 \<Rightarrow> u32" where
  "calculateOutBid currentBid = (let outbid = currentBid * 5 div 100 in if outbid = 0 then 1 else outbid)"

definition calculateAuctionCut :: "u8 \<Rightarrow> u32 \<Rightarrow> u32" where
  "calculateAuctionCut houseID bid =
     (let cutPct = (if houseID = AuctionHouseNeutral then 15 else 5) in bid * cutPct div 100)"

section \<open>Mails\<close>

text \<open>\<^verbatim>\<open>%016x\<close>\<close>

definition hex_digit :: "nat \<Rightarrow> char" where
  "hex_digit n = char_of (if n < 10 then 48 + n else 87 + n)"

fun hex :: "nat \<Rightarrow> string" where
  "hex n = (if n < 16 then [hex_digit n] else hex (n div 16) @ [hex_digit (n mod 16)])"

declare hex.simps [simp del]

definition hex16 :: "nat \<Rightarrow> string" where
  "hex16 n = replicate (16 - length (hex n)) CHR ''0'' @ hex n"

definition buildAuctionMailSubject :: "u32 \<Rightarrow> u32 \<Rightarrow> nat \<Rightarrow> string" where
  "buildAuctionMailSubject itemEntry itemCount response =
     dec (unat itemEntry) @ '':0:'' @ dec response @ '':0:'' @ dec (unat itemCount)"

definition buildAuctionMailBody :: "u64 \<Rightarrow> u32 \<Rightarrow> u32 \<Rightarrow> u32 \<Rightarrow> u32 \<Rightarrow> string" where
  "buildAuctionMailBody guid bid buyout deposit auctionCut =
     hex16 (unat guid) @ '':'' @ dec (unat bid) @ '':'' @ dec (unat buyout) @ '':'' @ dec (unat deposit) @
       '':'' @ dec (unat auctionCut) @ '':0:0''"

definition auction_mail ::
  "ah_env \<Rightarrow> nat \<Rightarrow> AuctionEntry \<Rightarrow> u32 \<Rightarrow> string \<Rightarrow> 32 word \<Rightarrow> bool \<Rightarrow> SendRequest" where
  "auction_mail env kind a receiver body money item =
     \<lparr>ReceiverGuid = ucast receiver, Subject = buildAuctionMailSubject (ItemEntry a) (ItemCount a) kind, Body = body,
      MoneyToSend = money,
      Attachments = (if item then [(ucast (ItemGUID a), ItemEntry a, ItemCount a)] else []),
      DeliveryTimestamp = nowUnix env, ExpirationTimestamp = nowUnix env + 30 * 24 * 3600\<rparr>"

definition send :: "ah_env \<Rightarrow> nat \<Rightarrow> u32 \<Rightarrow> AuctionEntry \<Rightarrow> SendRequest \<Rightarrow> auction_house \<Rightarrow> auction_house \<times> bool" where
  "send env kind realmID a m w =
     (if mailFails env kind (ID a) then (w, False) else (w\<lparr>mails := mails w @ [(realmID, m)]\<rparr>, True))"

definition sendAuctionWonMail :: "ah_env \<Rightarrow> u32 \<Rightarrow> AuctionEntry \<Rightarrow> auction_house \<Rightarrow> auction_house \<times> bool" where
  "sendAuctionWonMail env realmID a w =
     send env AuctionMailWon realmID a
       (auction_mail env AuctionMailWon a (BuyGUID a)
          (buildAuctionMailBody (ucast (ItemOwner a)) (LastBid a) (BuyoutPrice a) 0 0) 0 True) w"

text \<open>The profit is computed on \<^verbatim>\<open>uint32\<close>, read as an \<^verbatim>\<open>int32\<close>, and clipped at zero.\<close>

definition auction_profit :: "AuctionEntry \<Rightarrow> 32 word" where
  "auction_profit a =
     (let profit = LastBid a + Deposit a - calculateAuctionCut (HouseID a) (LastBid a)
      in if sint profit < 0 then 0 else profit)"

definition sendAuctionSuccessfulMail :: "ah_env \<Rightarrow> u32 \<Rightarrow> AuctionEntry \<Rightarrow> auction_house \<Rightarrow> auction_house \<times> bool" where
  "sendAuctionSuccessfulMail env realmID a w =
     (let auctionCut = calculateAuctionCut (HouseID a) (LastBid a)
      in send env AuctionMailSuccessful realmID a
           (auction_mail env AuctionMailSuccessful a (ItemOwner a)
              (buildAuctionMailBody (ucast (BuyGUID a)) (LastBid a) (BuyoutPrice a) (Deposit a) auctionCut) (auction_profit a) False) w)"

definition sendAuctionExpiredMail :: "ah_env \<Rightarrow> u32 \<Rightarrow> AuctionEntry \<Rightarrow> auction_house \<Rightarrow> auction_house \<times> bool" where
  "sendAuctionExpiredMail env realmID a w =
     send env AuctionMailExpired realmID a
       (auction_mail env AuctionMailExpired a (ItemOwner a)
          (buildAuctionMailBody 0 0 (BuyoutPrice a) (Deposit a) 0) 0 True) w"

definition sendAuctionOutbidMail :: "ah_env \<Rightarrow> u32 \<Rightarrow> AuctionEntry \<Rightarrow> u32 \<Rightarrow> u32 \<Rightarrow> auction_house \<Rightarrow> auction_house" where
  "sendAuctionOutbidMail env realmID a oldBidder oldBid w =
     fst (send env AuctionMailOutbidded realmID a
       (auction_mail env AuctionMailOutbidded a oldBidder
          (buildAuctionMailBody (ucast (ItemOwner a)) (LastBid a) (BuyoutPrice a) (Deposit a) 0) oldBid False) w)"

definition sendAuctionCancelledToBidderMail :: "ah_env \<Rightarrow> u32 \<Rightarrow> AuctionEntry \<Rightarrow> auction_house \<Rightarrow> auction_house" where
  "sendAuctionCancelledToBidderMail env realmID a w =
     fst (send env AuctionMailCancelledBidder realmID a
       (auction_mail env AuctionMailCancelledBidder a (BuyGUID a)
          (buildAuctionMailBody (ucast (ItemOwner a)) (LastBid a) (BuyoutPrice a) (Deposit a) 0) (LastBid a) False) w)"

definition sendAuctionCancelledMail :: "ah_env \<Rightarrow> u32 \<Rightarrow> AuctionEntry \<Rightarrow> auction_house \<Rightarrow> auction_house" where
  "sendAuctionCancelledMail env realmID a w =
     fst (send env AuctionMailCanceled realmID a
       (auction_mail env AuctionMailCanceled a (ItemOwner a)
          (buildAuctionMailBody 0 0 (BuyoutPrice a) (Deposit a) 0) 0 True) w)"

section \<open>The service\<close>

definition put_auction :: "u32 \<Rightarrow> AuctionEntry \<Rightarrow> auction_house \<Rightarrow> auction_house" where
  "put_auction realmID a w =
     w\<lparr>auctions := (auctions w)(realmID \<mapsto>
         AList.update (ID a) a (case auctions w realmID of None \<Rightarrow> [] | Some al \<Rightarrow> al))\<rparr>"

definition drop_auction :: "u32 \<Rightarrow> u32 \<Rightarrow> auction_house \<Rightarrow> auction_house" where
  "drop_auction realmID auctionID w =
     (case auctions w realmID of
        None \<Rightarrow> w
      | Some al \<Rightarrow> w\<lparr>auctions := (auctions w)(realmID \<mapsto> AList.delete auctionID al)\<rparr>)"

definition cached_auction :: "u32 \<Rightarrow> u32 \<Rightarrow> auction_house \<Rightarrow> AuctionEntry option" where
  "cached_auction realmID auctionID w =
     (case auctions w realmID of None \<Rightarrow> None | Some al \<Rightarrow> map_of al auctionID)"

definition LoadAuctions :: "ah_env \<Rightarrow> u32 \<Rightarrow> auction_house \<Rightarrow> auction_house \<times> ah_error option" where
  "LoadAuctions env realmID w =
     (case LoadAllAuctions env realmID w of
        None \<Rightarrow> (w, Some ErrDatabase)
      | Some entries \<Rightarrow>
          (let w1 = (if auctions w realmID = None then w\<lparr>auctions := (auctions w)(realmID \<mapsto> [])\<rparr> else w);
               w2 = foldl (\<lambda>w a. put_auction realmID a w) w1 entries;
               maxID = foldl (\<lambda>m a. if m < ID a then ID a else m) 0 entries
           in (w2\<lparr>nextID := maxID + 1\<rparr>, None)))"

definition generateAuctionID :: "auction_house \<Rightarrow> auction_house \<times> u32" where
  "generateAuctionID w = (w\<lparr>nextID := nextID w + 1\<rparr>, nextID w)"

definition SellItem :: "ah_env \<Rightarrow> u32 \<Rightarrow> u64 \<Rightarrow> AuctionEntry \<Rightarrow> auction_house \<Rightarrow> auction_house \<times> (ah_error + u32)" where
  "SellItem env realmID playerGUID entry w =
     (case generateAuctionID w of
        (w1, auctionID) \<Rightarrow>
          (let entry1 = entry\<lparr>ID := auctionID, ItemOwner := ucast playerGUID\<rparr>
           in case InsertAuction env realmID entry1 w1 of
                (w2, False) \<Rightarrow> (w2, Inl ErrDatabase)
              | (w2, True) \<Rightarrow>
                  (publish env (AuctionCreated realmID entry1) (put_auction realmID entry1 w2), Inr auctionID)))"

subsection \<open>Bids\<close>

text \<open>
  The part of \<^verbatim>\<open>PlaceBid\<close> under the lock either rejects the bid, or writes a bid into the cache, or decides on a
  buyout without changing anything. The result carries the copy of the auction the rest works on.
\<close>

datatype bid_decision =
    Rejected ah_error
  | NormalBid AuctionEntry u32 u32 u32
  | Buyout AuctionEntry u32 u32 u32

definition check_bid :: "u32 \<Rightarrow> u32 \<Rightarrow> AuctionEntry \<Rightarrow> ah_error option" where
  "check_bid player price auction =
     (if ItemOwner auction = player then Some ErrBidOwnAuction
      else if price \<le> LastBid auction \<or> price < StartBid auction then Some ErrBidTooLow
      else if (price < BuyoutPrice auction \<or> BuyoutPrice auction = 0) \<and>
              price < LastBid auction + calculateOutBid (LastBid auction) then Some ErrBidIncrementTooLow
      else None)"

definition PlaceBid_locked :: "u32 \<Rightarrow> u32 \<Rightarrow> u32 \<Rightarrow> u32 \<Rightarrow> auction_house \<Rightarrow> auction_house \<times> bid_decision" where
  "PlaceBid_locked realmID player auctionID price w =
     (case cached_auction realmID auctionID w of
        None \<Rightarrow> (w, Rejected ErrAuctionNotFound)
      | Some auction \<Rightarrow>
          (case check_bid player price auction of
             Some e \<Rightarrow> (w, Rejected e)
           | None \<Rightarrow>
               (let oldBidder = BuyGUID auction; oldBid = LastBid auction;
                    isBuyout = BuyoutPrice auction \<le> price \<and> 0 < BuyoutPrice auction
                in if \<not> isBuyout
                   then let money = (if BuyGUID auction \<noteq> 0 \<and> BuyGUID auction = player then price - LastBid auction else price);
                            a = auction\<lparr>BuyGUID := player, LastBid := price\<rparr>
                        in (w\<lparr>auctions := (auctions w)(realmID := map_option (AList.update auctionID a) (auctions w realmID))\<rparr>,
                            NormalBid a oldBidder oldBid money)
                   else let money = (if player = BuyGUID auction then BuyoutPrice auction - LastBid auction else BuyoutPrice auction)
                        in (w, Buyout (auction\<lparr>BuyGUID := player, LastBid := BuyoutPrice auction\<rparr>) oldBidder oldBid money))))"

definition finish_bid ::
  "ah_env \<Rightarrow> u32 \<Rightarrow> u32 \<Rightarrow> u32 \<Rightarrow> AuctionEntry \<Rightarrow> u32 \<Rightarrow> u32 \<Rightarrow> u32 \<Rightarrow> auction_house \<Rightarrow> auction_house \<times> bool \<times> u32 \<times> ah_error option" where
  "finish_bid env realmID player auctionID a oldBidder oldBid money w =
     (case UpdateBid env realmID auctionID player (LastBid a) w of
        (w1, False) \<Rightarrow> (w1, False, money, Some ErrDatabase)
      | (w1, True) \<Rightarrow>
          (let w2 = (if oldBidder \<noteq> 0 \<and> oldBidder \<noteq> player then sendAuctionOutbidMail env realmID a oldBidder oldBid w1 else w1)
           in (publish env (BidPlaced realmID auctionID player (LastBid a) False oldBidder oldBid) w2, False, money, None)))"

definition finish_buyout ::
  "ah_env \<Rightarrow> u32 \<Rightarrow> u32 \<Rightarrow> u32 \<Rightarrow> AuctionEntry \<Rightarrow> u32 \<Rightarrow> u32 \<Rightarrow> u32 \<Rightarrow> auction_house \<Rightarrow> auction_house \<times> bool \<times> u32 \<times> ah_error option" where
  "finish_buyout env realmID player auctionID a oldBidder oldBid money w =
     (case sendAuctionSuccessfulMail env realmID a w of
        (w1, False) \<Rightarrow> (w1, True, 0, Some ErrMail)
      | (w1, True) \<Rightarrow>
          (case sendAuctionWonMail env realmID a w1 of
             (w2, False) \<Rightarrow> (w2, True, 0, Some ErrMail)
           | (w2, True) \<Rightarrow>
               (let w3 = (if oldBidder \<noteq> 0 then sendAuctionOutbidMail env realmID a oldBidder oldBid w2 else w2)
                in case DeleteAuction env realmID auctionID w3 of
                     (w4, False) \<Rightarrow> (w4, True, 0, Some ErrDatabase)
                   | (w4, True) \<Rightarrow>
                       (publish env (BidPlaced realmID auctionID player (LastBid a) True oldBidder oldBid)
                          (drop_auction realmID auctionID w4), True, money, None))))"

definition PlaceBid :: "ah_env \<Rightarrow> u32 \<Rightarrow> u64 \<Rightarrow> u32 \<Rightarrow> u32 \<Rightarrow> auction_house \<Rightarrow> auction_house \<times> bool \<times> u32 \<times> ah_error option" where
  "PlaceBid env realmID playerGUID auctionID price w =
     (let player = ucast playerGUID in
      case PlaceBid_locked realmID player auctionID price w of
        (w1, Rejected e) \<Rightarrow> (w1, False, 0, Some e)
      | (w1, NormalBid a oldBidder oldBid money) \<Rightarrow> finish_bid env realmID player auctionID a oldBidder oldBid money w1
      | (w1, Buyout a oldBidder oldBid money) \<Rightarrow> finish_buyout env realmID player auctionID a oldBidder oldBid money w1)"

subsection \<open>Cancelling and expiry\<close>

definition CancelAuction :: "ah_env \<Rightarrow> u32 \<Rightarrow> u64 \<Rightarrow> u32 \<Rightarrow> auction_house \<Rightarrow> auction_house \<times> u32 \<times> ah_error option" where
  "CancelAuction env realmID playerGUID auctionID w =
     (case cached_auction realmID auctionID w of
        None \<Rightarrow> (w, 0, Some ErrAuctionNotFound)
      | Some a \<Rightarrow>
          if ItemOwner a \<noteq> ucast playerGUID then (w, 0, Some ErrNotAuctionOwner)
          else
            (let w1 = drop_auction realmID auctionID w;
                 auctionCut = (if BuyGUID a \<noteq> 0 then calculateAuctionCut (HouseID a) (LastBid a) else 0);
                 w2 = (if BuyGUID a \<noteq> 0 then sendAuctionCancelledToBidderMail env realmID a w1 else w1);
                 w3 = sendAuctionCancelledMail env realmID a w2
             in case DeleteAuction env realmID auctionID w3 of
                  (w4, True) \<Rightarrow> (publish env (AuctionCanceled realmID auctionID) w4, auctionCut, None)
                | (w4, False) \<Rightarrow> (w4, auctionCut, Some ErrDatabase)))"

definition expiry_mails :: "ah_env \<Rightarrow> u32 \<Rightarrow> AuctionEntry \<Rightarrow> auction_house \<Rightarrow> auction_house" where
  "expiry_mails env realmID a w =
     (if BuyGUID a = 0 then fst (sendAuctionExpiredMail env realmID a w)
      else fst (sendAuctionWonMail env realmID a (fst (sendAuctionSuccessfulMail env realmID a w))))"

definition expire_auction :: "ah_env \<Rightarrow> u32 \<Rightarrow> u32 \<Rightarrow> auction_house \<Rightarrow> auction_house" where
  "expire_auction env realmID auctionID w =
     (case DeleteAuctionIfExists env realmID auctionID w of
        (w1, None) \<Rightarrow> drop_auction realmID auctionID w1
      | (w1, Some a) \<Rightarrow>
          publish env (AuctionExpired realmID auctionID) (expiry_mails env realmID a (drop_auction realmID auctionID w1)))"

definition ProcessExpiredAuctions :: "ah_env \<Rightarrow> u32 \<Rightarrow> auction_house \<Rightarrow> auction_house" where
  "ProcessExpiredAuctions env realmID w =
     (let deadline = (of_int (nowUnix env) :: u32) + 60;
          al = (case auctions w realmID of None \<Rightarrow> [] | Some al \<Rightarrow> al);
          candidates = map (\<lambda>k. ID (the (map_of al k)))
            (filter (\<lambda>k. Time (the (map_of al k)) \<le> deadline) (auctionOrder env (map fst al)))
      in foldl (\<lambda>w auctionID. expire_auction env realmID auctionID w) w candidates)"

section \<open>Events of other instances\<close>

text \<open>An auction that another instance created is cached without bids.\<close>

definition HandleAuctionCreated :: "u32 \<Rightarrow> AuctionEntry \<Rightarrow> auction_house \<Rightarrow> auction_house" where
  "HandleAuctionCreated realmID a w =
     (if cached_auction realmID (ID a) w \<noteq> None then w
      else put_auction realmID (a\<lparr>BuyGUID := 0, LastBid := 0\<rparr>) w)"

definition HandleBidPlaced :: "u32 \<Rightarrow> u32 \<Rightarrow> u32 \<Rightarrow> u32 \<Rightarrow> bool \<Rightarrow> auction_house \<Rightarrow> auction_house" where
  "HandleBidPlaced realmID auctionID buyGUID lastBid isBuyout w =
     (case cached_auction realmID auctionID w of
        None \<Rightarrow> w
      | Some a \<Rightarrow>
          if isBuyout then drop_auction realmID auctionID w
          else w\<lparr>auctions := (auctions w)(realmID :=
                 map_option (AList.update auctionID (a\<lparr>BuyGUID := buyGUID, LastBid := lastBid\<rparr>)) (auctions w realmID))\<rparr>)"

definition HandleAuctionCanceled :: "u32 \<Rightarrow> u32 \<Rightarrow> auction_house \<Rightarrow> auction_house" where
  "HandleAuctionCanceled realmID auctionID w = drop_auction realmID auctionID w"

definition HandleAuctionExpired :: "u32 \<Rightarrow> u32 \<Rightarrow> auction_house \<Rightarrow> auction_house" where
  "HandleAuctionExpired realmID auctionID w = drop_auction realmID auctionID w"

section \<open>Listings\<close>

record ItemTemplate =
  tEntry :: u32
  tClass :: u32
  tSubClass :: u32
  tQuality :: u32
  tInventoryType :: u32
  tItemLevel :: u32
  tRequiredLevel :: u32
  tName :: string

abbreviation no_filter :: u32 where "no_filter \<equiv> 0xFFFFFFFF"

definition MatchesFilters ::
  "(u32 \<Rightarrow> ItemTemplate option) \<Rightarrow> u32 \<Rightarrow> string \<Rightarrow> u32 \<Rightarrow> u32 \<Rightarrow> u32 \<Rightarrow> u32 \<Rightarrow> u32 \<Rightarrow> u32 \<Rightarrow> bool" where
  "MatchesFilters templates entry searchedName levelMin levelMax inventoryType itemClass itemSubClass quality =
     (case templates entry of
        None \<Rightarrow> False
      | Some t \<Rightarrow>
          if searchedName \<noteq> [] \<and> \<not> Contains (ToLower (tName t)) searchedName then False
          else if 0 < levelMin \<and> tItemLevel t < levelMin then False
          else if 0 < levelMax \<and> levelMax < tItemLevel t then False
          else if inventoryType \<noteq> no_filter \<and> tInventoryType t \<noteq> inventoryType then False
          else if itemClass \<noteq> no_filter \<and> tClass t \<noteq> itemClass then False
          else if itemSubClass \<noteq> no_filter \<and> tSubClass t \<noteq> itemSubClass then False
          else if quality \<noteq> no_filter \<and> tQuality t \<noteq> quality then False
          else True)"

definition MatchesUsableFilter :: "(u32 \<Rightarrow> ItemTemplate option) \<Rightarrow> u32 \<Rightarrow> u32 \<Rightarrow> bool" where
  "MatchesUsableFilter templates entry playerLevel =
     (case templates entry of None \<Rightarrow> False | Some t \<Rightarrow> tRequiredLevel t \<le> playerLevel)"

abbreviation diff64 :: "u32 \<Rightarrow> u32 \<Rightarrow> int" where
  "diff64 a b \<equiv> int (unat a) - int (unat b)"

definition compareAuctions :: "AuctionEntry \<Rightarrow> AuctionEntry \<Rightarrow> u32 \<Rightarrow> int" where
  "compareAuctions a b column =
     (if column = 0 then diff64 (ItemEntry a) (ItemEntry b)
      else if column = 2 \<or> column = 10
      then (if BuyoutPrice a \<noteq> BuyoutPrice b then diff64 (BuyoutPrice a) (BuyoutPrice b) else diff64 (LastBid a) (LastBid b))
      else if column = 3 then diff64 (Time a) (Time b)
      else if column = 8
      then diff64 (if LastBid a = 0 then StartBid a else LastBid a) (if LastBid b = 0 then StartBid b else LastBid b)
      else if column = 9 then diff64 (ItemCount a) (ItemCount b)
      else 0)"

fun auction_less :: "(u32 \<times> bool) list \<Rightarrow> AuctionEntry \<Rightarrow> AuctionEntry \<Rightarrow> bool" where
  "auction_less [] a b = False"
| "auction_less ((column, isDesc) # sorting) a b =
     (let c = compareAuctions a b column
      in if c = 0 then auction_less sorting a b else if isDesc then c < 0 else 0 < c)"

text \<open>The auctions of a realm in the order the map is visited.\<close>

definition visited :: "ah_env \<Rightarrow> (u32 \<times> AuctionEntry) list \<Rightarrow> AuctionEntry list" where
  "visited env al = map (\<lambda>k. the (map_of al k)) (auctionOrder env (map fst al))"

text \<open>\<^verbatim>\<open>sort.Slice\<close> is not stable; \<open>sortSlice\<close> stands for it.\<close>

definition ListItems ::
  "ah_env \<Rightarrow> ((AuctionEntry \<Rightarrow> AuctionEntry \<Rightarrow> bool) \<Rightarrow> AuctionEntry list \<Rightarrow> AuctionEntry list) \<Rightarrow>
   (u32 \<Rightarrow> ItemTemplate option) \<Rightarrow> u32 \<Rightarrow> u32 \<Rightarrow> u32 \<Rightarrow> string \<Rightarrow> u32 \<Rightarrow> u32 \<Rightarrow> u32 \<Rightarrow> u32 \<Rightarrow> u32 \<Rightarrow> u32 \<Rightarrow> bool \<Rightarrow>
   (u32 \<times> bool) list \<Rightarrow> auction_house \<Rightarrow> AuctionEntry list \<times> u32" where
  "ListItems env sortSlice templates realmID houseID listFrom searchedName levelMin levelMax inventoryType itemClass
     itemSubClass quality getAll sorting w =
     (case auctions w realmID of
        None \<Rightarrow> ([], 0)
      | Some al \<Rightarrow>
          if getAll
          then (take 55000 (filter (\<lambda>a. ucast (HouseID a) = houseID) (visited env al)), of_nat (length al))
          else
            (let matched = filter (\<lambda>a. ucast (HouseID a) = houseID \<and>
                   MatchesFilters templates (ItemEntry a) (ToLower searchedName) levelMin levelMax inventoryType
                     itemClass itemSubClass quality) (visited env al);
                 totalCount = of_nat (length matched);
                 matched1 = (if 0 < length sorting \<and> 50 < length matched then sortSlice (auction_less sorting) matched
                             else matched)
             in if of_nat (length matched1) \<le> listFrom then ([], totalCount)
                else (take 50 (drop (unat listFrom) matched1), totalCount)))"

definition ListOwnerItems :: "ah_env \<Rightarrow> u32 \<Rightarrow> u64 \<Rightarrow> u32 \<Rightarrow> auction_house \<Rightarrow> AuctionEntry list" where
  "ListOwnerItems env realmID playerGUID houseID w =
     (case auctions w realmID of
        None \<Rightarrow> []
      | Some al \<Rightarrow> filter (\<lambda>a. ucast (HouseID a) = houseID \<and> ItemOwner a = ucast playerGUID) (visited env al))"

definition ListBidderItems :: "ah_env \<Rightarrow> u32 \<Rightarrow> u64 \<Rightarrow> u32 \<Rightarrow> u32 list \<Rightarrow> auction_house \<Rightarrow> AuctionEntry list" where
  "ListBidderItems env realmID playerGUID houseID outbiddedIDs w =
     (case auctions w realmID of
        None \<Rightarrow> []
      | Some al \<Rightarrow>
          (let outbid = filter (\<lambda>i. case map_of al i of None \<Rightarrow> False | Some a \<Rightarrow> ucast (HouseID a) = houseID) outbiddedIDs
           in map (\<lambda>i. the (map_of al i)) outbid @
              filter (\<lambda>a. ucast (HouseID a) = houseID \<and> BuyGUID a = ucast playerGUID \<and> ID a \<notin> set outbid) (visited env al)))"

end
