(* ===== verification/Auction_Ledger.thy ===== *)
theory Auction_Ledger
  imports Auction_House
begin

text \<open>
  What an instance of the auction house owes: the money bidders paid is in the current bids, in the mails, or
  kept as the cut, and the cache agrees with the table, as long as no call of the database or the mail service
  fails and the calls do not overlap.
\<close>

section \<open>Money held by auctions\<close>

definition held :: "AuctionEntry \<Rightarrow> int" where
  "held a = int (unat (LastBid a))"

definition escrow :: "(u32 \<rightharpoonup> AuctionEntry) \<Rightarrow> int" where
  "escrow m = (\<Sum>k\<in>dom m. held (the (m k)))"

lemma escrow_remove:
  assumes "finite (dom m)" "m k = Some a"
  shows "escrow (m(k := None)) = escrow m - held a"
proof -
  have "escrow m = held a + (\<Sum>j\<in>dom m - {k}. held (the (m j)))"
    unfolding escrow_def using assms by (subst sum.remove [of _ k]) auto
  moreover have "escrow (m(k := None)) = (\<Sum>j\<in>dom m - {k}. held (the (m j)))"
    unfolding escrow_def by (intro sum.cong) auto
  ultimately show ?thesis by simp
qed

lemma escrow_absent: "m k = None \<Longrightarrow> escrow (m(k := None)) = escrow m"
  by (simp add: fun_upd_idem)

lemma escrow_put:
  assumes "finite (dom m)"
  shows "escrow (m(k \<mapsto> a)) = escrow (m(k := None)) + held a"
  using escrow_remove [of "m(k \<mapsto> a)" k a] assms by simp

lemma escrow_empty [simp]: "escrow Map.empty = 0"
  by (simp add: escrow_def)

definition mailed :: "u32 \<Rightarrow> auction_house \<Rightarrow> int" where
  "mailed r w = (\<Sum>m\<leftarrow>filter (\<lambda>m. fst m = r) (mails w). sint (MoneyToSend (snd m)))"

section \<open>The books\<close>

text \<open>Beside the state of the instance, what bidders were charged and what the house kept of the sales.\<close>

record books =
  house :: auction_house
  charged :: int
  kept :: int

definition kept_of :: "AuctionEntry \<Rightarrow> int" where
  "kept_of a = int (unat (calculateAuctionCut (HouseID a) (LastBid a))) - int (unat (Deposit a))"

definition no_failures :: "ah_env \<Rightarrow> bool" where
  "no_failures env \<longleftrightarrow> (\<forall>st k. \<not> dbFails env st k) \<and> (\<forall>n k. \<not> mailFails env n k)"

abbreviation price_limit :: u32 where "price_limit \<equiv> 0x40000000"

text \<open>
  The calls of one realm. A buyout is by somebody who does not hold the highest bid, prices and deposits
  are below \<open>2 ^ 30\<close>, and no player has a GUID whose lower half is zero.
\<close>

inductive ah_step :: "u32 \<Rightarrow> books \<Rightarrow> books \<Rightarrow> bool" for r where
  sell: "no_failures env \<Longrightarrow> BuyGUID e = 0 \<Longrightarrow> LastBid e = 0 \<Longrightarrow> Deposit e < price_limit \<Longrightarrow> BuyoutPrice e < price_limit \<Longrightarrow>
    SellItem env r p e (house b) = (w', res) \<Longrightarrow> ah_step r b (b\<lparr>house := w'\<rparr>)"
| bid: "no_failures env \<Longrightarrow> (ucast p :: u32) \<noteq> 0 \<Longrightarrow> price < price_limit \<Longrightarrow>
    PlaceBid_locked r (ucast p) i price (house b) = (w1, NormalBid a ob obid m) \<Longrightarrow>
    PlaceBid env r p i price (house b) = (w', buyout, money, err) \<Longrightarrow>
    ah_step r b (b\<lparr>house := w', charged := charged b + (if err = None then int (unat money) else 0)\<rparr>)"
| buyout: "no_failures env \<Longrightarrow> (ucast p :: u32) \<noteq> 0 \<Longrightarrow> price < price_limit \<Longrightarrow>
    PlaceBid_locked r (ucast p) i price (house b) = (w1, Buyout a ob obid m) \<Longrightarrow> ob \<noteq> ucast p \<Longrightarrow>
    PlaceBid env r p i price (house b) = (w', bo, money, err) \<Longrightarrow>
    ah_step r b (b\<lparr>house := w', charged := charged b + (if err = None then int (unat money) else 0),
                   kept := kept b + kept_of a\<rparr>)"
| rejected: "PlaceBid_locked r (ucast p) i price (house b) = (w1, Rejected e) \<Longrightarrow>
    PlaceBid env r p i price (house b) = (w', bo, money, err) \<Longrightarrow>
    ah_step r b (b\<lparr>house := w', charged := charged b + (if err = None then int (unat money) else 0)\<rparr>)"
| cancel: "no_failures env \<Longrightarrow> CancelAuction env r p i (house b) = (w', fee, err) \<Longrightarrow> ah_step r b (b\<lparr>house := w'\<rparr>)"
| expire: "no_failures env \<Longrightarrow>
    kept' = (case cached_auction r i (house b) of Some a \<Rightarrow> if BuyGUID a \<noteq> 0 then kept b + kept_of a else kept b | None \<Rightarrow> kept b) \<Longrightarrow>
    ah_step r b (b\<lparr>house := expire_auction env r i (house b), kept := kept'\<rparr>)"

section \<open>The invariant\<close>

definition auction_ok :: "u32 \<Rightarrow> AuctionEntry \<Rightarrow> bool" where
  "auction_ok i a \<longleftrightarrow> ID a = i \<and> LastBid a < price_limit \<and> Deposit a < price_limit \<and> BuyoutPrice a < price_limit \<and>
     (BuyGUID a = 0 \<longrightarrow> LastBid a = 0)"

definition ah_inv :: "u32 \<Rightarrow> books \<Rightarrow> bool" where
  "ah_inv r b \<longleftrightarrow>
     auctions (house b) r \<noteq> None \<and>
     (\<forall>i a. cached_auction r i (house b) = Some a \<longrightarrow> auction_ok i a) \<and>
     (\<forall>i. map_of (auctionTable (house b) r) i = map_option auction_row (cached_auction r i (house b))) \<and>
     charged b = escrow (\<lambda>i. cached_auction r i (house b)) + mailed r (house b) + kept b"

lemma finite_cached [simp]: "finite (dom (\<lambda>i. cached_auction r i w))"
proof (cases "auctions w r")
  case (Some al)
  then show ?thesis by (simp add: cached_auction_def dom_map_of_conv_image_fst)
qed (simp add: cached_auction_def)

lemma cached_put [simp]: "(\<lambda>i. cached_auction r i (put_auction r a w)) = (\<lambda>i. cached_auction r i w)(ID a \<mapsto> a)"
  by (rule ext) (simp add: cached_auction_def put_auction_def update_conv' split: option.split)

lemma cached_drop [simp]: "(\<lambda>i. cached_auction r i (drop_auction r k w)) = (\<lambda>i. cached_auction r i w)(k := None)"
  by (rule ext) (simp add: cached_auction_def drop_auction_def delete_conv' split: option.split)

section \<open>What the statements, mails and events change\<close>

lemma mailed_send:
  "no_failures env \<Longrightarrow> mailed r (fst (send env n r a m w)) = mailed r w + sint (MoneyToSend m)"
  "no_failures env \<Longrightarrow> snd (send env n r a m w)"
  "auctions (fst (send env n r' a m w)) = auctions w" "auctionTable (fst (send env n r' a m w)) = auctionTable w"
  by (simp_all add: send_def no_failures_def mailed_def)

lemma publish_fields [simp]:
  "auctions (publish env e w) = auctions w" "auctionTable (publish env e w) = auctionTable w" "mails (publish env e w) = mails w"
  by (simp_all add: publish_def)

lemma cached_same: "auctions w' = auctions w \<Longrightarrow> cached_auction r i w' = cached_auction r i w"
  by (simp add: cached_auction_def)

lemma mailed_same: "mails w' = mails w \<Longrightarrow> mailed r w' = mailed r w"
  by (simp add: mailed_def)

lemma drop_fields [simp]:
  "auctionTable (drop_auction r i w) = auctionTable w" "mails (drop_auction r i w) = mails w"
  "auctions (drop_auction r i w) r = None \<longleftrightarrow> auctions w r = None"
  "(\<exists>al. auctions (drop_auction r i w) r = Some al) \<longleftrightarrow> (\<exists>al. auctions w r = Some al)"
  by (simp_all add: drop_auction_def split: option.split)

lemma put_fields [simp]:
  "auctionTable (put_auction r a w) = auctionTable w" "mails (put_auction r a w) = mails w"
  "auctions (put_auction r a w) r \<noteq> None"
  by (simp_all add: put_auction_def)

lemma delete_row_fields [simp]:
  "auctions (delete_row r i w) = auctions w" "mails (delete_row r i w) = mails w"
  "map_of (auctionTable (delete_row r i w) r) = (map_of (auctionTable w r))(i := None)"
  by (simp_all add: delete_row_def delete_conv')

section \<open>Amounts\<close>

lemma sint_small:
  assumes "unat (x :: u32) < 2 ^ 31"
  shows "sint x = int (unat x)"
proof -
  have "int (unat x) < int (2 ^ 31)" using assms by (simp only: of_nat_less_iff)
  then have "uint x < 2 ^ 31" by simp
  moreover have "- (2 ^ 31) \<le> uint x" by (rule order_trans [of _ 0]) simp_all
  ultimately have "signed_take_bit 31 (uint x) = uint x" by (intro signed_take_bit_int_eq_self)
  then show ?thesis by (simp add: sint_uint)
qed

lemma price_limit_unat: "(x :: u32) < price_limit \<longleftrightarrow> unat x < 2 ^ 30"
  by (simp add: word_less_nat_alt)

lemma auction_cut_le: "unat (calculateAuctionCut h bid) \<le> unat bid"
proof -
  have *: "unat (bid * c) div 100 \<le> unat bid" if "unat c \<le> 100" for c :: u32
  proof -
    have "unat (bid * c) \<le> unat bid * unat c" by (simp add: unat_word_ariths)
    also have "\<dots> \<le> unat bid * 100" using that by simp
    finally show ?thesis by simp
  qed
  show ?thesis using * [of 5] * [of 15] by (simp add: calculateAuctionCut_def Let_def unat_div)
qed

lemma profit_amount:
  assumes "LastBid a < price_limit" "Deposit a < price_limit"
  shows "sint (auction_profit a) = int (unat (LastBid a)) - kept_of a"
proof -
  let ?c = "calculateAuctionCut (HouseID a) (LastBid a)"
  have c: "unat ?c \<le> unat (LastBid a)" by (rule auction_cut_le)
  have b: "unat (LastBid a) < 2 ^ 30" "unat (Deposit a) < 2 ^ 30" using assms by (simp_all add: price_limit_unat)
  have add: "unat (LastBid a + Deposit a) = unat (LastBid a) + unat (Deposit a)"
    using b by (intro unat_add_no_wrap) simp
  have "unat (LastBid a + Deposit a - ?c) = unat (LastBid a) + unat (Deposit a) - unat ?c"
    using c by (subst unat_sub) (simp_all add: word_le_nat_alt add)
  moreover from this have "sint (LastBid a + Deposit a - ?c) = int (unat (LastBid a + Deposit a - ?c))"
    using b by (intro sint_small) simp
  ultimately have "sint (LastBid a + Deposit a - ?c) = int (unat (LastBid a)) + int (unat (Deposit a)) - int (unat ?c)"
    using c by (simp add: of_nat_diff)
  moreover have "int (unat ?c) \<le> int (unat (LastBid a))" using c by (simp only: of_nat_le_iff)
  moreover have "0 \<le> int (unat (Deposit a))" by (rule of_nat_0_le_iff)
  ultimately have s: "sint (LastBid a + Deposit a - ?c) = int (unat (LastBid a)) - kept_of a"
      "\<not> sint (LastBid a + Deposit a - ?c) < 0"
    unfolding kept_of_def by linarith+
  show ?thesis using s by (simp only: auction_profit_def Let_def if_False)
qed

section \<open>The calls keep the books\<close>

lemma ah_invD:
  assumes "ah_inv r b"
  shows "auctions (house b) r \<noteq> None" "cached_auction r i (house b) = Some a \<Longrightarrow> auction_ok i a"
    "map_of (auctionTable (house b) r) i = map_option auction_row (cached_auction r i (house b))"
    "charged b = escrow (\<lambda>i. cached_auction r i (house b)) + mailed r (house b) + kept b"
  using assms by (auto simp: ah_inv_def)

lemma no_failuresD: "no_failures env \<Longrightarrow> \<not> dbFails env st k" "no_failures env \<Longrightarrow> \<not> mailFails env n k"
  by (simp_all add: no_failures_def)

lemma auction_row_fields:
  "LastBid (auction_row a) = LastBid a" "Deposit (auction_row a) = Deposit a" "BuyGUID (auction_row a) = BuyGUID a"
  "HouseID (auction_row a) = HouseID a"
  by (simp_all add: auction_row_def join_item_def)

lemma auction_row_same: "auction_row (join_item it (auction_row a)) = auction_row a"
  by (simp add: auction_row_def join_item_def split: option.split)

lemma ah_inv_same:
  assumes "ah_inv r b" "auctions w' r = auctions (house b) r" "auctionTable w' r = auctionTable (house b) r"
    "mails w' = mails (house b)"
  shows "ah_inv r \<lparr>house = w', charged = charged b, kept = kept b\<rparr>"
  using assms by (simp add: ah_inv_def cached_auction_def mailed_def)

lemma drop_absent: "cached_auction r i w = None \<Longrightarrow> auctions (drop_auction r i w) = auctions w"
  by (auto simp: cached_auction_def drop_auction_def fun_eq_iff map_of_eq_None_iff AList.delete_id split: option.splits)

lemma SellItem_inv:
  assumes inv: "ah_inv r b" and env: "no_failures env"
    and e: "BuyGUID e = 0" "LastBid e = 0" "Deposit e < price_limit" "BuyoutPrice e < price_limit"
    and sell: "SellItem env r p e (house b) = (w', res)"
  shows "ah_inv r (b\<lparr>house := w'\<rparr>)"
proof -
  let ?w1 = "(house b)\<lparr>nextID := nextID (house b) + 1\<rparr>"
  let ?e = "e\<lparr>ID := nextID (house b), ItemOwner := ucast p\<rparr>"
  show ?thesis
  proof (cases "map_of (auctionTable (house b) r) (nextID (house b))")
    case (Some x)
    then have "w' = ?w1"
      using sell by (simp add: SellItem_def generateAuctionID_def InsertAuction_def Let_def)
    then show ?thesis using inv by (simp add: ah_inv_def cached_auction_def mailed_def)
  next
    case None
    let ?w2 = "?w1\<lparr>auctionTable := (auctionTable ?w1)(r := auctionTable ?w1 r @ [(ID ?e, auction_row ?e)])\<rparr>"
    have w': "w' = publish env (AuctionCreated r ?e) (put_auction r ?e ?w2)"
      using sell None no_failuresD(1) [OF env] by (simp add: SellItem_def generateAuctionID_def InsertAuction_def Let_def)
    have c: "cached_auction r (nextID (house b)) (house b) = None" using ah_invD(3) [OF inv, of "nextID (house b)"] None by simp
    have cache: "(\<lambda>i. cached_auction r i w') = (\<lambda>i. cached_auction r i (house b))(nextID (house b) \<mapsto> ?e)"
      unfolding w' by (simp add: cached_same [of "publish _ _ _"]) (simp add: cached_auction_def)
    have "escrow (\<lambda>i. cached_auction r i w') = escrow (\<lambda>i. cached_auction r i (house b))"
      unfolding cache using c e(2) by (simp add: escrow_put escrow_absent held_def)
    moreover have "mailed r w' = mailed r (house b)" by (simp add: w' mailed_def)
    moreover have "auction_ok i a" if "cached_auction r i w' = Some a" for i a
      using that ah_invD(2) [OF inv, of i a] e fun_cong [OF cache, of i] by (auto simp: auction_ok_def split: if_splits)
    moreover have "map_of (auctionTable w' r) i = map_option auction_row (cached_auction r i w')" for i
      using ah_invD(3) [OF inv, of i] fun_cong [OF cache, of i] None
      by (auto simp: w' map_add_def split: option.split)
    ultimately show ?thesis using ah_invD(1,4) [OF inv] by (simp add: ah_inv_def w')
  qed
qed

lemma PlaceBid_locked_cases:
  assumes "PlaceBid_locked r p i price w = (w1, d)"
  shows "(\<exists>e. d = Rejected e \<and> w1 = w) \<or>
    (\<exists>a. cached_auction r i w = Some a \<and> check_bid p price a = None \<and>
       (BuyoutPrice a \<le> price \<and> 0 < BuyoutPrice a \<and> w1 = w \<and>
          d = Buyout (a\<lparr>BuyGUID := p, LastBid := BuyoutPrice a\<rparr>) (BuyGUID a) (LastBid a)
            (if p = BuyGUID a then BuyoutPrice a - LastBid a else BuyoutPrice a) \<or>
        \<not> (BuyoutPrice a \<le> price \<and> 0 < BuyoutPrice a) \<and>
          w1 = w\<lparr>auctions := (auctions w)(r := map_option (AList.update i (a\<lparr>BuyGUID := p, LastBid := price\<rparr>)) (auctions w r))\<rparr> \<and>
          d = NormalBid (a\<lparr>BuyGUID := p, LastBid := price\<rparr>) (BuyGUID a) (LastBid a)
            (if BuyGUID a \<noteq> 0 \<and> BuyGUID a = p then price - LastBid a else price)))"
  using assms unfolding PlaceBid_locked_def Let_def
  by (cases "cached_auction r i w"; cases "check_bid p price (the (cached_auction r i w))") (auto split: if_splits)

lemma check_bid_price: "check_bid p price a = None \<Longrightarrow> LastBid a < price \<and> StartBid a \<le> price \<and> ItemOwner a \<noteq> p"
  by (auto simp: check_bid_def not_le not_less split: if_splits)

lemma cached_bid:
  assumes "cached_auction r i w = Some a"
  shows "(\<lambda>j. cached_auction r j (w\<lparr>auctions := (auctions w)(r := map_option (AList.update i a') (auctions w r))\<rparr>)) =
    (\<lambda>j. cached_auction r j w)(i \<mapsto> a')"
  using assms by (auto simp: cached_auction_def fun_eq_iff update_conv' split: option.splits)

lemma money_of_bid:
  assumes "LastBid a < price" "BuyGUID a = 0 \<longrightarrow> LastBid a = 0"
  shows "int (unat (if BuyGUID a \<noteq> 0 \<and> BuyGUID a = p then price - LastBid a else price)) =
    int (unat price) - (if BuyGUID a \<noteq> 0 \<and> BuyGUID a = p then held a else 0)"
proof -
  have "unat (price - LastBid a) = unat price - unat (LastBid a)" "unat (LastBid a) \<le> unat price"
    using assms(1) by (simp_all add: unat_sub word_le_nat_alt word_less_nat_alt)
  then show ?thesis by (simp add: held_def of_nat_diff del: of_nat_unat unat_eq_nat_uint)
qed

text \<open>The refund of a bidder is exactly what he had bid.\<close>

lemma refund_amount:
  assumes "no_failures env" "LastBid a0 < price_limit"
  shows "mailed r (sendAuctionOutbidMail env r a ob (LastBid a0) w) = mailed r w + held a0"
proof -
  have "unat (LastBid a0) < 2 ^ 31" using assms(2) by (simp add: price_limit_unat)
  from sint_small [OF this] show ?thesis
    by (simp add: sendAuctionOutbidMail_def mailed_send(1) [OF assms(1)] auction_mail_def held_def)
qed

lemma outbid_fields [simp]:
  "auctions (sendAuctionOutbidMail env r a ob bd w) = auctions w"
  "auctionTable (sendAuctionOutbidMail env r a ob bd w) = auctionTable w"
  by (simp_all add: sendAuctionOutbidMail_def mailed_send)

lemma UpdateBid_row:
  assumes "no_failures env" "map_of (auctionTable w r) i = Some x"
  shows "snd (UpdateBid env r i p price w)" "mails (fst (UpdateBid env r i p price w)) = mails w"
    "auctions (fst (UpdateBid env r i p price w)) = auctions w"
    "map_of (auctionTable (fst (UpdateBid env r i p price w)) r) = (map_of (auctionTable w r))(i \<mapsto> x\<lparr>BuyGUID := p, LastBid := price\<rparr>)"
  using assms by (simp_all add: UpdateBid_def no_failuresD update_conv')

lemma auction_row_bid: "auction_row (a\<lparr>BuyGUID := p, LastBid := q\<rparr>) = (auction_row a)\<lparr>BuyGUID := p, LastBid := q\<rparr>"
  by (simp add: auction_row_def join_item_def)

lemma finish_bid_inv:
  assumes inv: "ah_inv r b" and env: "no_failures env" and p: "p \<noteq> 0" "price < price_limit"
    and a: "cached_auction r i (house b) = Some a" "check_bid p price a = None"
    and w1: "w1 = (house b)\<lparr>auctions := (auctions (house b))(r := map_option (AList.update i (a\<lparr>BuyGUID := p, LastBid := price\<rparr>)) (auctions (house b) r))\<rparr>"
    and m: "money = (if BuyGUID a \<noteq> 0 \<and> BuyGUID a = p then price - LastBid a else price)"
    and fin: "finish_bid env r p i (a\<lparr>BuyGUID := p, LastBid := price\<rparr>) (BuyGUID a) (LastBid a) money w1 = (w', bo, money', err)"
  shows "err = None \<and> money' = money \<and> ah_inv r (b\<lparr>house := w', charged := charged b + int (unat money)\<rparr>)"
proof -
  let ?a = "a\<lparr>BuyGUID := p, LastBid := price\<rparr>" and ?F = "\<lambda>i. cached_auction r i (house b)"
  have aok: "auction_ok i a" using ah_invD(2) [OF inv a(1)] .
  have row: "map_of (auctionTable w1 r) i = Some (auction_row a)"
    using ah_invD(3) [OF inv, of i] a(1) by (simp add: w1)
  note up = UpdateBid_row [OF env row, of p price]
  have cache1: "(\<lambda>j. cached_auction r j w1) = ?F(i \<mapsto> ?a)" unfolding w1 by (rule cached_bid [OF a(1)])
  define refund where "refund = (BuyGUID a \<noteq> 0 \<and> BuyGUID a \<noteq> p)"
  let ?w2 = "fst (UpdateBid env r i p price w1)"
  let ?w3 = "if refund then sendAuctionOutbidMail env r ?a (BuyGUID a) (LastBid a) ?w2 else ?w2"
  have w': "w' = publish env (BidPlaced r i p price False (BuyGUID a) (LastBid a)) ?w3" "err = None" "money' = money"
    using fin up(1) by (auto simp: finish_bid_def refund_def Let_def split: prod.splits bool.splits)
  have cache: "(\<lambda>j. cached_auction r j w') = ?F(i \<mapsto> ?a)"
    unfolding cache1 [symmetric] by (rule ext, rule cached_same) (simp add: w'(1) up(3))
  have table: "map_of (auctionTable w' r) = (map_of (auctionTable (house b) r))(i \<mapsto> auction_row ?a)"
    using up(4) by (simp add: w'(1) auction_row_bid) (simp add: w1)
  have mails': "mailed r w' = mailed r (house b) + (if refund then held a else 0)"
  proof -
    have "mailed r w' = mailed r ?w3" by (rule mailed_same) (simp add: w'(1))
    also have "\<dots> = mailed r ?w2 + (if refund then held a else 0)"
      using refund_amount [OF env, of a] aok by (simp add: auction_ok_def)
    also have "mailed r ?w2 = mailed r w1" by (rule mailed_same) (rule up(2))
    also have "\<dots> = mailed r (house b)" by (rule mailed_same) (simp add: w1)
    finally show ?thesis .
  qed
  have "escrow (\<lambda>j. cached_auction r j w') = escrow ?F - held a + int (unat price)"
    unfolding cache using escrow_put [of ?F i ?a] escrow_remove [of ?F i a] a(1) by (simp add: held_def)
  moreover have "int (unat money) = int (unat price) - (if refund then 0 else held a)"
    using money_of_bid [of a price p] check_bid_price [OF a(2)] aok
    by (auto simp: m refund_def auction_ok_def held_def)
  moreover have "auction_ok j x" if "cached_auction r j w' = Some x" for j x
    using that fun_cong [OF cache, of j] ah_invD(2) [OF inv, of j x] aok p by (auto simp: auction_ok_def split: if_splits)
  moreover have "map_of (auctionTable w' r) j = map_option auction_row (cached_auction r j w')" for j
    using table fun_cong [OF cache, of j] ah_invD(3) [OF inv, of j] by auto
  moreover have "auctions w' r \<noteq> None" using ah_invD(1) [OF inv] by (simp add: w'(1) up(3)) (simp add: w1)
  ultimately show ?thesis using mails' w'(2,3) ah_invD(4) [OF inv] by (simp add: ah_inv_def)
qed

text \<open>The mails of a sale: what the seller gets is the price without what the house keeps.\<close>

lemma send_fields [simp]:
  "auctions (fst (sendAuctionSuccessfulMail env r a w)) = auctions w"
  "auctionTable (fst (sendAuctionSuccessfulMail env r a w)) = auctionTable w"
  "auctions (fst (sendAuctionWonMail env r a w)) = auctions w"
  "auctionTable (fst (sendAuctionWonMail env r a w)) = auctionTable w"
  "auctions (fst (sendAuctionExpiredMail env r a w)) = auctions w"
  "auctionTable (fst (sendAuctionExpiredMail env r a w)) = auctionTable w"
  "auctions (sendAuctionCancelledToBidderMail env r a w) = auctions w"
  "auctionTable (sendAuctionCancelledToBidderMail env r a w) = auctionTable w"
  "auctions (sendAuctionCancelledMail env r a w) = auctions w"
  "auctionTable (sendAuctionCancelledMail env r a w) = auctionTable w"
  by (simp_all add: sendAuctionSuccessfulMail_def sendAuctionWonMail_def sendAuctionExpiredMail_def
      sendAuctionCancelledToBidderMail_def sendAuctionCancelledMail_def Let_def mailed_send)

lemma sale_mails:
  assumes "no_failures env" "LastBid a < price_limit" "Deposit a < price_limit"
  shows "mailed r (fst (sendAuctionSuccessfulMail env r a w)) = mailed r w + held a - kept_of a"
    "snd (sendAuctionSuccessfulMail env r a w)"
    "mailed r (fst (sendAuctionWonMail env r a w)) = mailed r w" "snd (sendAuctionWonMail env r a w)"
    "mailed r (fst (sendAuctionExpiredMail env r a w)) = mailed r w"
    "mailed r (sendAuctionCancelledMail env r a w) = mailed r w"
  using profit_amount [OF assms(2,3)]
  by (simp_all add: sendAuctionSuccessfulMail_def sendAuctionWonMail_def sendAuctionExpiredMail_def
      sendAuctionCancelledMail_def Let_def mailed_send(1,2) [OF assms(1)] auction_mail_def held_def)

lemma cancel_refund:
  assumes "no_failures env" "LastBid a < price_limit"
  shows "mailed r (sendAuctionCancelledToBidderMail env r a w) = mailed r w + held a"
proof -
  have "unat (LastBid a) < 2 ^ 31" using assms(2) by (simp add: price_limit_unat)
  from sint_small [OF this] show ?thesis
    by (simp add: sendAuctionCancelledToBidderMail_def mailed_send(1) [OF assms(1)] auction_mail_def held_def)
qed

text \<open>An auction leaves the cache and the table, and its bid goes to a mail or to the house.\<close>

lemma remove_auction_inv:
  assumes inv: "ah_inv r b" and a: "cached_auction r i (house b) = Some a"
    and cache: "(\<lambda>j. cached_auction r j w') = (\<lambda>j. cached_auction r j (house b))(i := None)" and some: "auctions w' r \<noteq> None"
    and table: "map_of (auctionTable w' r) = (map_of (auctionTable (house b) r))(i := None)"
    and money: "c' = charged b + mailed r w' - mailed r (house b) - held a + (k' - kept b)"
  shows "ah_inv r \<lparr>house = w', charged = c', kept = k'\<rparr>"
proof -
  let ?F = "\<lambda>j. cached_auction r j (house b)"
  have "escrow (\<lambda>j. cached_auction r j w') = escrow ?F - held a"
    unfolding cache using a by (simp add: escrow_remove)
  moreover have "auction_ok j x" if "cached_auction r j w' = Some x" for j x
    using that fun_cong [OF cache, of j] ah_invD(2) [OF inv, of j x] by (simp split: if_splits)
  moreover have "map_of (auctionTable w' r) j = map_option auction_row (cached_auction r j w')" for j
    using fun_cong [OF cache, of j] ah_invD(3) [OF inv, of j] by (simp add: table)
  ultimately show ?thesis using some money ah_invD(4) [OF inv] by (simp add: ah_inv_def)
qed

lemma finish_buyout_effect:
  assumes env: "no_failures env" and aok: "auction_ok i a" and some: "auctions w r \<noteq> None"
    and fin: "finish_buyout env r p i (a\<lparr>BuyGUID := p, LastBid := BuyoutPrice a\<rparr>) (BuyGUID a) (LastBid a) m w = (w', bo, money, err)"
  shows "err = None" "money = m"
    "mailed r w' = mailed r w + held (a\<lparr>BuyGUID := p, LastBid := BuyoutPrice a\<rparr>)
      - kept_of (a\<lparr>BuyGUID := p, LastBid := BuyoutPrice a\<rparr>) + held a"
    "(\<lambda>j. cached_auction r j w') = (\<lambda>j. cached_auction r j w)(i := None)" "auctions w' r \<noteq> None"
    "map_of (auctionTable w' r) = (map_of (auctionTable w r))(i := None)"
proof -
  let ?a = "a\<lparr>BuyGUID := p, LastBid := BuyoutPrice a\<rparr>"
  have lim: "LastBid ?a < price_limit" "Deposit ?a < price_limit" using aok by (simp_all add: auction_ok_def)
  note mails = sale_mails [OF env lim]
  obtain w1 where w1: "sendAuctionSuccessfulMail env r ?a w = (w1, True)"
    using mails(2) [of r w] by (metis prod.collapse)
  obtain w2 where w2: "sendAuctionWonMail env r ?a w1 = (w2, True)"
    using mails(4) [of r w1] by (metis prod.collapse)
  let ?w3 = "if BuyGUID a \<noteq> 0 then sendAuctionOutbidMail env r ?a (BuyGUID a) (LastBid a) w2 else w2"
  let ?w4 = "drop_auction r i (delete_row r i ?w3)"
  have "finish_buyout env r p i ?a (BuyGUID a) (LastBid a) m w =
      (publish env (BidPlaced r i p (BuyoutPrice a) True (BuyGUID a) (LastBid a)) ?w4, True, m, None)"
    using no_failuresD(1) [OF env] unfolding finish_buyout_def DeleteAuction_def Let_def by (simp add: w1 w2)
  from trans [OF fin [symmetric] this]
  have w': "w' = publish env (BidPlaced r i p (BuyoutPrice a) True (BuyGUID a) (LastBid a)) ?w4" "err = None" "money = m"
    by (simp_all only: prod.inject)
  have same: "auctions w2 = auctions w" "auctionTable w2 = auctionTable w" "mailed r w2 = mailed r w + (held ?a - kept_of ?a)"
    using send_fields(1-4) [of env r ?a] mails(1) [of r w] mails(3) [of r w1] w1 w2
    by (metis fst_conv, metis fst_conv, simp)
  show "err = None" "money = m" by (fact w'(2), fact w'(3))
  have "mailed r w' = mailed r ?w3" by (rule mailed_same) (simp add: w'(1))
  also have "\<dots> = mailed r w2 + held a"
    using refund_amount [OF env, of a] aok by (simp add: auction_ok_def held_def)
  finally show "mailed r w' = mailed r w + held ?a - kept_of ?a + held a" by (simp only: same(3))
  have "(\<lambda>j. cached_auction r j w') = (\<lambda>j. cached_auction r j ?w4)" by (rule ext, rule cached_same) (simp add: w'(1))
  also have "\<dots> = (\<lambda>j. cached_auction r j (delete_row r i ?w3))(i := None)" by (rule cached_drop)
  also have "(\<lambda>j. cached_auction r j (delete_row r i ?w3)) = (\<lambda>j. cached_auction r j w)"
    by (rule ext, rule cached_same) (simp add: same(1))
  finally show "(\<lambda>j. cached_auction r j w') = (\<lambda>j. cached_auction r j w)(i := None)" .
  show "auctions w' r \<noteq> None" using some by (simp add: w'(1) same(1))
  show "map_of (auctionTable w' r) = (map_of (auctionTable w r))(i := None)"
    by (simp add: w'(1) delete_row_def delete_conv' same(2))
qed

lemma finish_buyout_inv:
  assumes inv: "ah_inv r b" and env: "no_failures env"
    and a: "cached_auction r i (house b) = Some a"
    and fin: "finish_buyout env r p i (a\<lparr>BuyGUID := p, LastBid := BuyoutPrice a\<rparr>) (BuyGUID a) (LastBid a) (BuyoutPrice a) (house b)
      = (w', bo, money, err)"
  shows "err = None \<and> money = BuyoutPrice a \<and> ah_inv r \<lparr>house = w', charged = charged b + int (unat (BuyoutPrice a)),
    kept = kept b + kept_of (a\<lparr>BuyGUID := p, LastBid := BuyoutPrice a\<rparr>)\<rparr>"
proof -
  note eff = finish_buyout_effect [OF env ah_invD(2) [OF inv a] ah_invD(1) [OF inv] fin]
  have "ah_inv r \<lparr>house = w', charged = charged b + int (unat (BuyoutPrice a)),
      kept = kept b + kept_of (a\<lparr>BuyGUID := p, LastBid := BuyoutPrice a\<rparr>)\<rparr>"
    by (rule remove_auction_inv [OF inv a eff(4,5,6)]) (use eff(3) in \<open>simp add: held_def\<close>)
  then show ?thesis using eff(1,2) by simp
qed

text \<open>
  Whoever buys out an auction on which he has the highest bid is charged the difference and is mailed his bid
  back on top, which is paid by nobody: for normal bids \<^verbatim>\<open>PlaceBid\<close> compares the old bidder with the
  player, for buyouts it does not.
\<close>

lemma buyout_refunds_own_bid:
  assumes env: "no_failures env" and a: "cached_auction r i w = Some a" "auction_ok i a" "check_bid (ucast p) price a = None"
    and bo: "BuyGUID a = ucast p" "BuyoutPrice a \<le> price" "0 < BuyoutPrice a"
    and fin: "PlaceBid env r p i price w = (w', isBuyout, money, err)"
  shows "err = None \<and> money = BuyoutPrice a - LastBid a \<and>
    mailed r w' = mailed r w + (held (a\<lparr>LastBid := BuyoutPrice a\<rparr>) - kept_of (a\<lparr>LastBid := BuyoutPrice a\<rparr>)) + held a"
proof -
  have locked: "PlaceBid_locked r (ucast p) i price w =
      (w, Buyout (a\<lparr>BuyGUID := ucast p, LastBid := BuyoutPrice a\<rparr>) (BuyGUID a) (LastBid a) (BuyoutPrice a - LastBid a))"
    using a bo by (simp add: PlaceBid_locked_def Let_def)
  have "finish_buyout env r (ucast p) i (a\<lparr>BuyGUID := ucast p, LastBid := BuyoutPrice a\<rparr>) (BuyGUID a) (LastBid a)
      (BuyoutPrice a - LastBid a) w = (w', isBuyout, money, err)"
    using fin by (simp add: PlaceBid_def Let_def locked)
  moreover have "auctions w r \<noteq> None" using a(1) by (auto simp: cached_auction_def split: option.splits)
  ultimately show ?thesis using finish_buyout_effect(1,2,3) [OF env a(2)] by (simp add: held_def kept_of_def)
qed

lemma CancelAuction_inv:
  assumes inv: "ah_inv r b" and env: "no_failures env" and c: "CancelAuction env r p i (house b) = (w', fee, err)"
  shows "ah_inv r (b\<lparr>house := w'\<rparr>)"
proof (cases "cached_auction r i (house b)")
  case None
  then have "house b = w'" using c by (simp add: CancelAuction_def)
  then show ?thesis using inv by auto
next
  case (Some a)
  have aok: "auction_ok i a" using ah_invD(2) [OF inv Some] .
  show ?thesis
  proof (cases "ItemOwner a = ucast p")
    case False
    then have "house b = w'" using c Some by (simp add: CancelAuction_def)
    then show ?thesis using inv by auto
  next
    case True
    let ?w1 = "drop_auction r i (house b)"
    let ?w2 = "if BuyGUID a \<noteq> 0 then sendAuctionCancelledToBidderMail env r a ?w1 else ?w1"
    let ?w3 = "sendAuctionCancelledMail env r a ?w2"
    have lim: "LastBid a < price_limit" "Deposit a < price_limit" using aok by (simp_all add: auction_ok_def)
    have w': "w' = publish env (AuctionCanceled r i) (delete_row r i ?w3)"
      using c Some True no_failuresD(1) [OF env] unfolding CancelAuction_def DeleteAuction_def Let_def by auto
    have mail: "mailed r w' = mailed r (house b) + held a"
    proof -
      have "mailed r w' = mailed r ?w3" by (rule mailed_same) (simp add: w')
      also have "\<dots> = mailed r ?w2" by (rule sale_mails(6) [OF env lim])
      also have "\<dots> = mailed r ?w1 + held a"
        using cancel_refund [OF env lim(1)] aok by (simp add: auction_ok_def held_def)
      also have "mailed r ?w1 = mailed r (house b)" by (rule mailed_same) simp
      finally show ?thesis .
    qed
    have "ah_inv r \<lparr>house = w', charged = charged b, kept = kept b\<rparr>"
    proof (rule remove_auction_inv [OF inv Some])
      have "(\<lambda>j. cached_auction r j w') = (\<lambda>j. cached_auction r j ?w1)" by (rule ext, rule cached_same) (simp add: w')
      then show "(\<lambda>j. cached_auction r j w') = (\<lambda>j. cached_auction r j (house b))(i := None)" by simp
      show "auctions w' r \<noteq> None" using ah_invD(1) [OF inv] by (simp add: w')
      show "map_of (auctionTable w' r) = (map_of (auctionTable (house b) r))(i := None)"
        by (simp add: w' delete_row_def delete_conv')
    qed (simp add: mail)
    then show ?thesis by (cases b) simp
  qed
qed

lemma expiry_mails_amount:
  assumes "no_failures env" "auction_ok i a" "auction_row a' = auction_row a"
  shows "mailed r (expiry_mails env r a' w) = mailed r w + held a - (if BuyGUID a \<noteq> 0 then kept_of a else 0)"
    "auctions (expiry_mails env r a' w) = auctions w" "auctionTable (expiry_mails env r a' w) = auctionTable w"
proof -
  have same: "LastBid a' = LastBid a" "Deposit a' = Deposit a" "BuyGUID a' = BuyGUID a" "HouseID a' = HouseID a"
    using assms(3) by (metis auction_row_fields)+
  then have lim: "LastBid a' < price_limit" "Deposit a' < price_limit" using assms(2) by (simp_all add: auction_ok_def)
  have k: "kept_of a' = kept_of a" "held a' = held a" by (simp_all add: kept_of_def held_def same)
  show "mailed r (expiry_mails env r a' w) = mailed r w + held a - (if BuyGUID a \<noteq> 0 then kept_of a else 0)"
    using assms(2) by (simp add: expiry_mails_def sale_mails [OF assms(1) lim] k same) (simp add: auction_ok_def held_def)
qed (simp_all add: expiry_mails_def)

lemma expire_auction_inv:
  assumes inv: "ah_inv r b" and env: "no_failures env"
  shows "ah_inv r \<lparr>house = expire_auction env r i (house b), charged = charged b,
    kept = (case cached_auction r i (house b) of Some a \<Rightarrow> if BuyGUID a \<noteq> 0 then kept b + kept_of a else kept b | None \<Rightarrow> kept b)\<rparr>"
proof (cases "cached_auction r i (house b)")
  case None
  then have "expire_auction env r i (house b) = drop_auction r i (house b)"
    using ah_invD(3) [OF inv, of i] no_failuresD(1) [OF env]
    by (simp add: expire_auction_def DeleteAuctionIfExists_def select_auction_def)
  then show ?thesis using None ah_inv_same [OF inv] by (simp add: drop_absent)
next
  case (Some a)
  have aok: "auction_ok i a" using ah_invD(2) [OF inv Some] .
  let ?a = "join_item (itemInstance env (ItemGUID (auction_row a))) (auction_row a)"
  let ?w1 = "drop_auction r i (delete_row r i (house b))"
  have w': "expire_auction env r i (house b) = publish env (AuctionExpired r i) (expiry_mails env r ?a ?w1)"
    using ah_invD(3) [OF inv, of i] no_failuresD(1) [OF env] Some
    by (simp add: expire_auction_def DeleteAuctionIfExists_def select_auction_def claim_auction_def)
  have row: "auction_row ?a = auction_row a" by (rule auction_row_same)
  note mails = expiry_mails_amount [OF env aok row, of r ?w1]
  let ?w' = "expire_auction env r i (house b)"
  have m1: "mailed r ?w1 = mailed r (house b)" by (rule mailed_same) simp
  have m': "mailed r ?w' = mailed r (house b) + held a - (if BuyGUID a \<noteq> 0 then kept_of a else 0)"
    using mails(1) m1 mailed_same [of "publish env (AuctionExpired r i) (expiry_mails env r ?a ?w1)" "expiry_mails env r ?a ?w1" r]
    by (simp only: w' publish_fields)
  show ?thesis
  proof (rule remove_auction_inv [OF inv Some])
    have "(\<lambda>j. cached_auction r j ?w') = (\<lambda>j. cached_auction r j ?w1)" by (rule ext, rule cached_same) (simp only: w' publish_fields mails(2))
    also have "\<dots> = (\<lambda>j. cached_auction r j (delete_row r i (house b)))(i := None)" by (rule cached_drop)
    also have "(\<lambda>j. cached_auction r j (delete_row r i (house b))) = (\<lambda>j. cached_auction r j (house b))" by (rule ext, rule cached_same) simp
    finally show "(\<lambda>j. cached_auction r j ?w') = (\<lambda>j. cached_auction r j (house b))(i := None)" .
    show "auctions ?w' r \<noteq> None" using ah_invD(1) [OF inv] by (simp add: w' mails(2))
    show "map_of (auctionTable ?w' r) = (map_of (auctionTable (house b) r))(i := None)"
      by (simp add: w' mails(3))
  qed (simp add: m' Some)
qed

lemma ah_step_inv: "ah_step r b b' \<Longrightarrow> ah_inv r b \<Longrightarrow> ah_inv r b'"
proof (induction rule: ah_step.induct)
  case (sell env e p b w' res)
  then show ?case using SellItem_inv by blast
next
  case (bid env p price i b w1 a ob obid m w' buyout money err)
  from PlaceBid_locked_cases [OF bid(4)] obtain a0 where a0: "cached_auction r i (house b) = Some a0"
      "check_bid (ucast p) price a0 = None"
      "w1 = (house b)\<lparr>auctions := (auctions (house b))(r := map_option (AList.update i (a0\<lparr>BuyGUID := ucast p, LastBid := price\<rparr>)) (auctions (house b) r))\<rparr>"
      "a = a0\<lparr>BuyGUID := ucast p, LastBid := price\<rparr>" "ob = BuyGUID a0" "obid = LastBid a0"
      "m = (if BuyGUID a0 \<noteq> 0 \<and> BuyGUID a0 = ucast p then price - LastBid a0 else price)"
    by auto
  have "finish_bid env r (ucast p) i a ob obid m w1 = (w', buyout, money, err)"
    using bid(4,5) by (simp add: PlaceBid_def Let_def)
  from finish_bid_inv [OF bid(6,1,2,3) a0(1,2,3,7) this [unfolded a0(4,5,6)]] show ?case by auto
next
  case (buyout env p price i b w1 a ob obid m w' bo money err)
  from PlaceBid_locked_cases [OF buyout(4)] buyout(5) obtain a0 where a0: "cached_auction r i (house b) = Some a0" "w1 = house b"
      "a = a0\<lparr>BuyGUID := ucast p, LastBid := BuyoutPrice a0\<rparr>" "ob = BuyGUID a0" "obid = LastBid a0" "m = BuyoutPrice a0"
    by auto
  have "finish_buyout env r (ucast p) i a ob obid m (house b) = (w', bo, money, err)"
    using buyout(4,6) by (simp add: PlaceBid_def Let_def a0(2))
  then have "err = None \<and> money = BuyoutPrice a0 \<and> ah_inv r \<lparr>house = w', charged = charged b + int (unat (BuyoutPrice a0)),
      kept = kept b + kept_of a\<rparr>"
    using finish_buyout_inv [OF buyout(7,1) a0(1)] unfolding a0(3,4,5,6) by blast
  then show ?case by (cases b) auto
next
  case (rejected p i price b w1 e env w' bo money err)
  have "w1 = house b" using PlaceBid_locked_cases [OF rejected(1)] by auto
  then have "w' = house b" "err = Some e" using rejected(1,2) by (auto simp: PlaceBid_def Let_def)
  then show ?case using rejected(3) by (cases b) simp
next
  case (cancel env p i b w' fee err)
  then show ?case using CancelAuction_inv by blast
next
  case (expire env kept' i b)
  then show ?case using expire_auction_inv [OF expire(3,1), of i] by (cases b) simp
qed

definition ah_start :: "u32 \<Rightarrow> books \<Rightarrow> bool" where
  "ah_start r b \<longleftrightarrow> auctions (house b) r = Some [] \<and> auctionTable (house b) r = [] \<and> mails (house b) = [] \<and>
     charged b = 0 \<and> kept b = 0"

lemma ah_start_inv: "ah_start r b \<Longrightarrow> ah_inv r b"
  by (simp add: ah_start_def ah_inv_def cached_auction_def mailed_def escrow_def)

lemma ah_reach_inv: "(ah_step r)\<^sup>*\<^sup>* b b' \<Longrightarrow> ah_start r b \<Longrightarrow> ah_inv r b'"
  by (induction rule: rtranclp_induct) (auto intro: ah_start_inv ah_step_inv)

section \<open>Properties\<close>

text \<open>
  C7: The auction house neither makes nor loses money: after any sequence of calls (sales, bids, buyouts by others than the highest
  bidder, cancellations, expiries) without failures, what bidders were charged is what the running auctions
  hold as bids, plus what was mailed as refunds and profits, plus what the house kept; and the cache and the
  table hold the same auctions.
\<close>

theorem auction_conserves_money:
  assumes "(ah_step r)\<^sup>*\<^sup>* b b'" "ah_start r b"
  shows "charged b' = escrow (\<lambda>i. cached_auction r i (house b')) + mailed r (house b') + kept b' \<and>
    (\<forall>i. map_of (auctionTable (house b') r) i = map_option auction_row (cached_auction r i (house b')))"
  using ah_reach_inv [OF assms] by (simp add: ah_inv_def)

text \<open>A seller puts up an auction and two players bid on it; the first gets his bid back.\<close>

definition demo_env :: ah_env where
  "demo_env = \<lparr>nowUnix = 1000, dbFails = (\<lambda>_ _. False), mailFails = (\<lambda>_ _. False), natsFails = False,
     itemInstance = (\<lambda>_. None), auctionOrder = (\<lambda>l. l)\<rparr>"

definition demo_auction :: AuctionEntry where
  "demo_auction = \<lparr>ID = 0, HouseID = 7, ItemGUID = 5, ItemOwner = 0, BuyoutPrice = 1000, Time = 5000, BuyGUID = 0, LastBid = 0,
     StartBid = 50, Deposit = 20, ItemEntry = 25, ItemCount = 1, Charges = 0, RandomPropertyID = 0, SuffixFactor = 0,
     Enchantments = [], Flags = 0\<rparr>"

definition demo_house :: auction_house where
  "demo_house = \<lparr>auctions = (\<lambda>_. Some []), nextID = 1, auctionTable = (\<lambda>_. []), mails = [], published = []\<rparr>"

lemmas demo_simps = demo_env_def demo_auction_def demo_house_def SellItem_def generateAuctionID_def InsertAuction_def
  publish_def put_auction_def auction_row_def join_item_def PlaceBid_def PlaceBid_locked_def cached_auction_def check_bid_def
  calculateOutBid_def finish_bid_def UpdateBid_def sendAuctionOutbidMail_def send_def auction_mail_def Let_def

lemma demo_no_failures: "no_failures demo_env"
  by (simp add: no_failures_def demo_env_def)

definition demo_sold :: auction_house where
  "demo_sold = fst (SellItem demo_env 1 3 demo_auction demo_house)"

definition demo_bid1 :: auction_house where
  "demo_bid1 = fst (PlaceBid demo_env 1 8 1 100 demo_sold)"

definition demo_bid2 :: auction_house where
  "demo_bid2 = fst (PlaceBid demo_env 1 9 1 200 demo_bid1)"

definition demo_auction_bid :: "u32 \<Rightarrow> u32 \<Rightarrow> AuctionEntry" where
  "demo_auction_bid p price = demo_auction\<lparr>ID := 1, ItemOwner := 3, BuyGUID := p, LastBid := price\<rparr>"

lemma demo_sold_cached:
  "auctions demo_sold 1 = Some [(1, demo_auction_bid 0 0)]" "auctionTable demo_sold 1 = [(1, demo_auction_bid 0 0\<lparr>ItemEntry := 0, ItemCount := 0\<rparr>)]"
  by (simp_all add: demo_sold_def demo_auction_bid_def demo_simps)

lemma demo_bid1:
  "\<exists>w1 a. PlaceBid_locked 1 8 1 100 demo_sold = (w1, NormalBid a 0 0 100)"
  "snd (PlaceBid demo_env 1 8 1 100 demo_sold) = (False, 100, None)"
  "auctions demo_bid1 1 = Some [(1, demo_auction_bid 8 100)]"
  "auctionTable demo_bid1 1 = [(1, demo_auction_bid 8 100\<lparr>ItemEntry := 0, ItemCount := 0\<rparr>)]"
  using demo_sold_cached by (simp_all add: demo_bid1_def demo_auction_bid_def demo_simps)

lemma demo_bid2:
  "\<exists>w1 a. PlaceBid_locked 1 9 1 200 demo_bid1 = (w1, NormalBid a 8 100 200)"
  "snd (PlaceBid demo_env 1 9 1 200 demo_bid1) = (False, 200, None)"
  "cached_auction 1 1 demo_bid2 = Some (demo_auction_bid 9 200)"
  using demo_bid1(3,4) by (simp_all add: demo_bid2_def demo_auction_bid_def demo_simps)

lemma demo_run:
  "(ah_step 1)\<^sup>*\<^sup>* \<lparr>house = demo_house, charged = 0, kept = 0\<rparr> \<lparr>house = demo_bid2, charged = 300, kept = 0\<rparr>"
proof -
  have 1: "ah_step 1 \<lparr>house = demo_house, charged = 0, kept = 0\<rparr> \<lparr>house = demo_sold, charged = 0, kept = 0\<rparr>"
    using ah_step.sell [OF demo_no_failures, of demo_auction 1 3 "\<lparr>house = demo_house, charged = 0, kept = 0\<rparr>" demo_sold
      "snd (SellItem demo_env 1 3 demo_auction demo_house)"]
    by (simp add: demo_sold_def) (simp add: demo_auction_def)
  have 2: "ah_step 1 \<lparr>house = demo_sold, charged = 0, kept = 0\<rparr> \<lparr>house = demo_bid1, charged = 100, kept = 0\<rparr>"
  proof -
    obtain w1 a where "PlaceBid_locked 1 8 1 100 demo_sold = (w1, NormalBid a 0 0 100)" using demo_bid1(1) by blast
    moreover have "PlaceBid demo_env 1 8 1 100 demo_sold = (demo_bid1, False, 100, None)"
      using demo_bid1(2) by (simp add: demo_bid1_def prod_eq_iff)
    ultimately show ?thesis
      using ah_step.bid [OF demo_no_failures, of 8 100 1 1 "\<lparr>house = demo_sold, charged = 0, kept = 0\<rparr>"] by force
  qed
  have 3: "ah_step 1 \<lparr>house = demo_bid1, charged = 100, kept = 0\<rparr> \<lparr>house = demo_bid2, charged = 300, kept = 0\<rparr>"
  proof -
    obtain w1 a where "PlaceBid_locked 1 9 1 200 demo_bid1 = (w1, NormalBid a 8 100 200)" using demo_bid2(1) by blast
    moreover have "PlaceBid demo_env 1 9 1 200 demo_bid1 = (demo_bid2, False, 200, None)"
      using demo_bid2(2) by (simp add: demo_bid2_def prod_eq_iff)
    ultimately show ?thesis
      using ah_step.bid [OF demo_no_failures, of 9 200 1 1 "\<lparr>house = demo_bid1, charged = 100, kept = 0\<rparr>"] by force
  qed
  from 1 2 3 show ?thesis by (meson converse_rtranclp_into_rtranclp rtranclp.rtrancl_refl)
qed

theorem auction_conserves_money_witness:
  "(300::int) = escrow (\<lambda>i. cached_auction 1 i demo_bid2) + mailed 1 demo_bid2 + 0 \<and> escrow (\<lambda>i. cached_auction 1 i demo_bid2) = 200"
proof -
  have "ah_start 1 \<lparr>house = demo_house, charged = 0, kept = 0\<rparr>" by (simp add: ah_start_def demo_house_def)
  from auction_conserves_money [OF demo_run this] have "(300::int) = escrow (\<lambda>i. cached_auction 1 i demo_bid2) + mailed 1 demo_bid2 + 0"
    by simp
  moreover have "mailed 1 demo_bid2 = 100"
  proof -
    have "mails demo_house = []" by (simp add: demo_house_def)
    then have "mails demo_sold = []" by (simp add: demo_sold_def demo_simps)
    then have "mails demo_bid1 = []" using demo_sold_cached by (simp add: demo_bid1_def demo_auction_bid_def demo_simps)
    then have "map (\<lambda>m. (fst m, MoneyToSend (snd m))) (mails demo_bid2) = [(1, 100)]"
      using demo_bid1(3,4) by (simp add: demo_bid2_def demo_auction_bid_def demo_simps)
    then show ?thesis by (auto simp: mailed_def)
  qed
  ultimately show ?thesis by simp
qed

end
