(* ===== verification/Auction_Instances.thy ===== *)
theory Auction_Instances
  imports Auction_Ledger
begin

text \<open>
  Calls of the auction house that overlap or fail: several instances that expire the auctions of one table, two
  buyouts at once, failures of the database, the counter of auction IDs, and the arithmetic of the fees.
\<close>

section \<open>Expiry by several instances\<close>

text \<open>
  The table of a realm is shared; \<open>expiring\<close> is the auction an instance has read and not yet deleted, \<open>claims\<close>
  the auctions whose mails an instance goes on to send.
\<close>

record auction_instances =
  shared_db :: auction_house
  expiring :: "nat \<Rightarrow> (u32 \<times> AuctionEntry) option"
  claims :: "(nat \<times> u32 \<times> AuctionEntry) list"

definition claimed_ids :: "auction_instances \<Rightarrow> u32 list" where
  "claimed_ids c = map (\<lambda>(n, i, a). i) (claims c)"

text \<open>
  \<open>read\<close> and \<open>claim\<close>/\<open>lose\<close> are the two statements of \<^verbatim>\<open>DeleteAuctionIfExists\<close>. Meanwhile players bid, cancel
  and buy, and sell under IDs that were not used before.
\<close>

inductive instances_step :: "u32 \<Rightarrow> auction_instances \<Rightarrow> auction_instances \<Rightarrow> bool" for r where
  read: "expiring c n = None \<Longrightarrow> select_auction env r i (shared_db c) = Some a \<Longrightarrow>
    instances_step r c (c\<lparr>expiring := (expiring c)(n \<mapsto> (i, a))\<rparr>)"
| claim: "expiring c n = Some (i, a) \<Longrightarrow> claim_auction env r i (shared_db c) = (w', True) \<Longrightarrow>
    instances_step r c (c\<lparr>shared_db := w', expiring := (expiring c)(n := None), claims := claims c @ [(n, i, a)]\<rparr>)"
| lose: "expiring c n = Some (i, a) \<Longrightarrow> claim_auction env r i (shared_db c) = (w', False) \<Longrightarrow>
    instances_step r c (c\<lparr>shared_db := w', expiring := (expiring c)(n := None)\<rparr>)"
| bid: "UpdateBid env r i p price (shared_db c) = (w', ok) \<Longrightarrow> instances_step r c (c\<lparr>shared_db := w'\<rparr>)"
| remove: "DeleteAuction env r i (shared_db c) = (w', ok) \<Longrightarrow> instances_step r c (c\<lparr>shared_db := w'\<rparr>)"
| insert: "ID a \<notin> set (claimed_ids c) \<Longrightarrow> InsertAuction env r a (shared_db c) = (w', ok) \<Longrightarrow> instances_step r c (c\<lparr>shared_db := w'\<rparr>)"

definition instances_inv :: "u32 \<Rightarrow> auction_instances \<Rightarrow> bool" where
  "instances_inv r c \<longleftrightarrow> distinct (claimed_ids c) \<and> (\<forall>i\<in>set (claimed_ids c). map_of (auctionTable (shared_db c) r) i = None)"

lemma claimed_ids_simps [simp]:
  "claimed_ids (c\<lparr>shared_db := w\<rparr>) = claimed_ids c" "claimed_ids (c\<lparr>expiring := e\<rparr>) = claimed_ids c"
  "claimed_ids (d\<lparr>claims := claims c @ [(n, i, a)]\<rparr>) = claimed_ids c @ [i]"
  by (simp_all add: claimed_ids_def)

lemma claim_auction_table:
  "claim_auction env r i w = (w', True) \<Longrightarrow>
    map_of (auctionTable w r) i \<noteq> None \<and> map_of (auctionTable w' r) = (map_of (auctionTable w r))(i := None)"
  "claim_auction env r i w = (w', False) \<Longrightarrow> w' = w"
  by (auto simp: claim_auction_def split: if_splits)

lemma UpdateBid_absent:
  "UpdateBid env r i p price w = (w', ok) \<Longrightarrow> map_of (auctionTable w r) k = None \<Longrightarrow> map_of (auctionTable w' r) k = None"
  by (auto simp: UpdateBid_def update_conv' split: if_splits option.splits)

lemma DeleteAuction_absent:
  "DeleteAuction env r i w = (w', ok) \<Longrightarrow> map_of (auctionTable w r) k = None \<Longrightarrow> map_of (auctionTable w' r) k = None"
  by (auto simp: DeleteAuction_def split: if_splits)

lemma InsertAuction_absent:
  "InsertAuction env r a w = (w', ok) \<Longrightarrow> map_of (auctionTable w r) k = None \<Longrightarrow> k \<noteq> ID a \<Longrightarrow> map_of (auctionTable w' r) k = None"
  by (auto simp: InsertAuction_def map_add_def split: if_splits)

lemma instances_step_inv: "instances_step r c c' \<Longrightarrow> instances_inv r c \<Longrightarrow> instances_inv r c'"
proof (induction rule: instances_step.induct)
  case (claim c n i a env w')
  then show ?case using claim_auction_table(1) [OF claim(2)] by (auto simp: instances_inv_def)
next
  case (insert a c env w' ok)
  then show ?case unfolding instances_inv_def by (metis InsertAuction_absent claimed_ids_simps(1) auction_instances.select_convs(1) auction_instances.update_convs(1) auction_instances.surjective)
qed (auto simp: instances_inv_def dest: claim_auction_table(2) intro: UpdateBid_absent DeleteAuction_absent)

lemma instances_reach_inv: "(instances_step r)\<^sup>*\<^sup>* c c' \<Longrightarrow> instances_inv r c \<Longrightarrow> instances_inv r c'"
  by (induction rule: rtranclp_induct) (auto intro: instances_step_inv)

text \<open>
  C14: However the instances interleave, each expired auction is processed at most once: deleting the row decides
  who sends the mails, and no two deletions of one auction succeed.
\<close>

theorem expired_claimed_once:
  assumes "(instances_step r)\<^sup>*\<^sup>* c c'" "claims c = []"
  shows "distinct (claimed_ids c')"
  using instances_reach_inv [OF assms(1)] assms(2) by (simp add: instances_inv_def claimed_ids_def)

definition demo_row :: AuctionEntry where
  "demo_row = demo_auction\<lparr>ID := 1, BuyGUID := 8, LastBid := 100\<rparr>"

definition demo_instances :: auction_instances where
  "demo_instances = \<lparr>shared_db = demo_house\<lparr>auctionTable := (\<lambda>_. [(1, demo_row)])\<rparr>, expiring = (\<lambda>_. None), claims = []\<rparr>"

text \<open>Two instances read the auction, both try to delete it, and only the first sends mails.\<close>

lemma demo_race:
  "\<exists>c'. (instances_step 1)\<^sup>*\<^sup>* demo_instances c' \<and> claimed_ids c' = [1] \<and> expiring c' 0 = None \<and> expiring c' 1 = None"
proof -
  let ?a = "join_item None demo_row"
  let ?c1 = "demo_instances\<lparr>expiring := (expiring demo_instances)(0 \<mapsto> (1, ?a))\<rparr>"
  let ?c2 = "?c1\<lparr>expiring := (expiring ?c1)(1 \<mapsto> (1, ?a))\<rparr>"
  let ?w = "delete_row 1 1 (shared_db demo_instances)"
  let ?c3 = "?c2\<lparr>shared_db := ?w, expiring := (expiring ?c2)(0 := None), claims := claims ?c2 @ [(0, 1, ?a)]\<rparr>"
  let ?c4 = "?c3\<lparr>shared_db := ?w, expiring := (expiring ?c3)(1 := None)\<rparr>"
  have sel: "select_auction demo_env 1 1 (shared_db demo_instances) = Some ?a"
    by (simp add: select_auction_def demo_env_def demo_instances_def)
  have "instances_step 1 demo_instances ?c1" by (rule instances_step.read [OF _ sel]) (simp add: demo_instances_def)
  moreover have "instances_step 1 ?c1 ?c2"
    by (rule instances_step.read [where env = demo_env]) (use sel in \<open>simp_all add: demo_instances_def\<close>)
  moreover have "instances_step 1 ?c2 ?c3"
    by (rule instances_step.claim [where env = demo_env]) (simp_all add: claim_auction_def demo_env_def demo_instances_def)
  moreover have "instances_step 1 ?c3 ?c4"
    by (rule instances_step.lose [where env = demo_env and i = 1 and a = ?a])
      (simp_all add: claim_auction_def delete_row_def delete_conv')
  ultimately have "(instances_step 1)\<^sup>*\<^sup>* demo_instances ?c4"
    by (meson converse_rtranclp_into_rtranclp rtranclp.rtrancl_refl)
  moreover have "claimed_ids ?c4 = [1]" by (simp add: claimed_ids_def demo_instances_def)
  moreover have "expiring ?c4 0 = None" "expiring ?c4 1 = None" by simp_all
  ultimately show ?thesis by blast
qed

theorem expired_claimed_once_witness:
  "\<exists>c'. (instances_step 1)\<^sup>*\<^sup>* demo_instances c' \<and> claimed_ids c' = [1] \<and> distinct (claimed_ids c')"
proof -
  obtain c' where c': "(instances_step 1)\<^sup>*\<^sup>* demo_instances c'" "claimed_ids c' = [1]" using demo_race by blast
  have "claims demo_instances = []" by (simp add: demo_instances_def)
  from expired_claimed_once [OF c'(1) this] c' show ?thesis by blast
qed

text \<open>
  A bid between the two statements is lost: the auction is settled with the bid that was read, so the last
  bidder has paid and gets neither the item nor his money.
\<close>

lemma bid_during_expiry_lost:
  assumes row: "map_of (auctionTable w r) i = Some a" and env: "no_failures env"
    and read: "select_auction env r i w = Some a'" and bid: "UpdateBid env r i p price w = (w1, ok)"
  shows "snd (claim_auction env r i w1) \<and> BuyGUID a' = BuyGUID a \<and> LastBid a' = LastBid a \<and>
    map_of (auctionTable w1 r) i = Some (a\<lparr>BuyGUID := p, LastBid := price\<rparr>)"
  using assms by (auto simp: select_auction_def UpdateBid_def no_failures_def claim_auction_def update_conv' join_item_def
      split: option.splits)

text \<open>When the database fails, the auction leaves the cache as if another instance had processed it.\<close>

lemma expiry_failure_drops_auction:
  assumes "dbFails env StmtLoadAuctionByID i"
  shows "cached_auction r i (expire_auction env r i w) = None \<and> auctionTable (expire_auction env r i w) = auctionTable w"
proof -
  have w': "expire_auction env r i w = drop_auction r i w"
    using assms by (simp add: expire_auction_def DeleteAuctionIfExists_def select_auction_def)
  show ?thesis using fun_cong [OF cached_drop [of r i w], of i] by (simp add: w')
qed

section \<open>Overlapping calls\<close>

text \<open>
  The lock is released between the check and the deletion, and \<^verbatim>\<open>DeleteAuction\<close> does not look at the number of
  deleted rows: two buyouts of one auction both succeed. The seller is paid twice, the item is mailed twice
  and the old bidder refunded twice.
\<close>

lemma double_buyout:
  assumes env: "no_failures env" and a: "cached_auction r i w = Some a" "auction_ok i a" "0 < BuyoutPrice a" "BuyoutPrice a \<le> price"
    and p: "check_bid p price a = None" "check_bid q price a = None" "BuyGUID a \<noteq> p" "BuyGUID a \<noteq> q"
    and locked: "PlaceBid_locked r p i price w = (w1, Buyout ap obp bidp mp)" "PlaceBid_locked r q i price w1 = (w2, Buyout aq obq bidq mq)"
    and fin: "finish_buyout env r p i ap obp bidp mp w2 = (w3, bo3, money3, err3)"
      "finish_buyout env r q i aq obq bidq mq w3 = (w4, bo4, money4, err4)"
  shows "err3 = None \<and> err4 = None \<and>
    mailed r w4 = mailed r w + 2 * (held (a\<lparr>LastBid := BuyoutPrice a\<rparr>) - kept_of (a\<lparr>LastBid := BuyoutPrice a\<rparr>)) + 2 * held a"
proof -
  have w: "w1 = w" "w2 = w" "ap = a\<lparr>BuyGUID := p, LastBid := BuyoutPrice a\<rparr>" "aq = a\<lparr>BuyGUID := q, LastBid := BuyoutPrice a\<rparr>"
      "obp = BuyGUID a" "obq = BuyGUID a" "bidp = LastBid a" "bidq = LastBid a"
    using locked a p by (auto simp: PlaceBid_locked_def Let_def)
  have some: "auctions w r \<noteq> None" using a(1) by (auto simp: cached_auction_def split: option.splits)
  note first = finish_buyout_effect [OF env a(2) some fin(1) [unfolded w]]
  note second = finish_buyout_effect [OF env a(2) first(5) fin(2) [unfolded w]]
  show ?thesis using first(1,3) second(1,3) by (simp add: held_def kept_of_def)
qed

section \<open>Failures\<close>

text \<open>
  When the update of the bid fails, the caller gets an error and the player is not charged, but the bid stays
  in the cache; whoever bids next refunds it.
\<close>

lemma failed_bid_stays:
  assumes a: "cached_auction r i w = Some a" "check_bid (ucast p) price a = None" "BuyoutPrice a = 0 \<or> price < BuyoutPrice a"
    and fail: "dbFails env StmtUpdateBid i" and res: "PlaceBid env r p i price w = (w', bo, money, err)"
  shows "err = Some ErrDatabase \<and> auctionTable w' = auctionTable w \<and>
    cached_auction r i w' = Some (a\<lparr>BuyGUID := ucast p, LastBid := price\<rparr>)"
proof -
  let ?a = "a\<lparr>BuyGUID := ucast p, LastBid := price\<rparr>"
  have nb: "\<not> (BuyoutPrice a \<le> price \<and> 0 < BuyoutPrice a)" using a(3) by auto
  have w': "w' = w\<lparr>auctions := (auctions w)(r := map_option (AList.update i ?a) (auctions w r))\<rparr>" "err = Some ErrDatabase"
    using res a(1,2) nb fail by (auto simp: PlaceBid_def PlaceBid_locked_def Let_def finish_bid_def UpdateBid_def)
  show ?thesis using fun_cong [OF cached_bid [OF a(1), of ?a], of i] w'(2) by (simp add: w'(1))
qed

text \<open>
  There is one counter for the auctions of all realms, and loading a realm sets it from that realm alone: it
  can go back below the IDs of a realm loaded before, whose next sales fail.
\<close>

lemma LoadAuctions_resets_counter:
  assumes "auctionTable w r = []" "\<not> dbFails env StmtLoadAllAuctions 0"
  shows "nextID (fst (LoadAuctions env r w)) = 1"
  using assms by (simp add: LoadAuctions_def LoadAllAuctions_def Let_def)

lemma SellItem_id_taken:
  assumes "map_of (auctionTable w r) (nextID w) \<noteq> None"
  shows "snd (SellItem env r p e w) = Inl ErrDatabase"
  using assms by (auto simp: SellItem_def generateAuctionID_def InsertAuction_def Let_def)

section \<open>Fees\<close>

text \<open>The cut and the step of a bid are right as long as the product fits into 32 bits.\<close>

lemma auction_cut_exact:
  assumes "bid \<le> 0x11111111"
  shows "unat (calculateAuctionCut h bid) = unat bid * (if h = AuctionHouseNeutral then 15 else 5) div 100"
proof -
  have b: "unat bid \<le> 286331153" using assms by (simp add: word_le_nat_alt)
  have "unat (bid * 15) = unat bid * 15" "unat (bid * 5) = unat bid * 5"
    using b by (simp_all add: unat_word_ariths)
  then show ?thesis by (simp add: calculateAuctionCut_def Let_def unat_div)
qed

text \<open>For a bid of 53687 gold in a neutral house the product wraps: the cut is 3758 gold instead of 8053.\<close>

lemma auction_cut_wraps: "calculateAuctionCut 7 0x20000000 = 37580963" "0x20000000 * 15 div 100 = (80530636 :: nat)"
  by (simp_all add: calculateAuctionCut_def Let_def)

text \<open>A sale above \<open>2 ^ 31\<close> copper pays the seller nothing: the profit is read as a negative number.\<close>

lemma large_sale_pays_nothing: "HouseID a = 1 \<Longrightarrow> LastBid a = 0x90000000 \<Longrightarrow> Deposit a = 0 \<Longrightarrow> auction_profit a = 0"
  by (simp add: auction_profit_def Let_def calculateAuctionCut_def)

end
