(* ===== verification/Auction_Listing.thy ===== *)
theory Auction_Listing
  imports Auction_House "HOL-Library.Multiset"
begin

text \<open>The pages of \<^verbatim>\<open>ListItems\<close>: when the order of the listing does not change, they show each match once.\<close>

section \<open>Pages\<close>

lemma concat_pages:
  "concat (map (\<lambda>k. take m (drop (m * k) xs)) [0..<n]) = take (m * n) xs"
proof (induction n)
  case (Suc n)
  have "take (m * n) xs @ take m (drop (m * n) xs) = take (m * n + m) xs" by (simp add: take_add)
  then show ?case using Suc by (simp add: add.commute)
qed simp

lemma unat_of_nat_u32: "n < 2 ^ 32 \<Longrightarrow> unat (of_nat n :: u32) = n"
  by (simp add: unsigned_of_nat take_bit_nat_eq_self)

definition matches ::
  "(u32 \<Rightarrow> ItemTemplate option) \<Rightarrow> u32 \<Rightarrow> string \<Rightarrow> u32 \<Rightarrow> u32 \<Rightarrow> u32 \<Rightarrow> u32 \<Rightarrow> u32 \<Rightarrow> u32 \<Rightarrow> AuctionEntry \<Rightarrow> bool" where
  "matches templates houseID name lmin lmax it ic isc q a \<longleftrightarrow>
     ucast (HouseID a) = houseID \<and> MatchesFilters templates (ItemEntry a) (ToLower name) lmin lmax it ic isc q"

definition listed ::
  "((AuctionEntry \<Rightarrow> AuctionEntry \<Rightarrow> bool) \<Rightarrow> AuctionEntry list \<Rightarrow> AuctionEntry list) \<Rightarrow> (u32 \<times> bool) list \<Rightarrow> AuctionEntry list \<Rightarrow> AuctionEntry list" where
  "listed sortSlice sorting xs = (if 0 < length sorting \<and> 50 < length xs then sortSlice (auction_less sorting) xs else xs)"

lemma ListItems_page:
  assumes "auctions w r = Some al" "length (listed srt sorting xs) < 2 ^ 32"
    "xs = filter (matches templates h name lmin lmax it ic isc q) (visited env al)"
  shows "fst (ListItems env srt templates r h from name lmin lmax it ic isc q False sorting w) =
    take 50 (drop (unat from) (listed srt sorting xs))"
proof -
  let ?l = "listed srt sorting xs"
  have len: "unat (of_nat (length ?l) :: u32) = length ?l" using assms(2) by (intro unat_of_nat_u32) simp
  have ge: "(of_nat (length ?l) :: u32) \<le> from \<longleftrightarrow> length ?l \<le> unat from" by (simp only: word_le_nat_alt len)
  have eq: "ListItems env srt templates r h from name lmin lmax it ic isc q False sorting w =
      (if (of_nat (length ?l) :: u32) \<le> from then ([], of_nat (length xs)) else (take 50 (drop (unat from) ?l), of_nat (length xs)))"
    unfolding ListItems_def assms(1,3) matches_def listed_def Let_def by simp
  show ?thesis by (simp only: eq ge) simp
qed

text \<open>
  Paging through a listing shows every matching auction of the house exactly once and nothing else, if the auctions are
  visited in the same order for every page: the pages that start at 0, 50, 100, \<open>\<dots>\<close> are disjoint and cover.
\<close>

lemma ListItems_pages_cover:
  assumes "auctions w r = Some al" "\<And>le xs. mset (sortSlice le xs) = mset xs"
    "length (filter (matches templates h name lmin lmax it ic isc q) (visited env al)) \<le> 50 * n" "50 * n < 2 ^ 32"
  shows "mset (concat (map (\<lambda>k. fst (ListItems env sortSlice templates r h (of_nat (50 * k)) name lmin lmax it ic isc q False sorting w)) [0..<n])) =
    mset (filter (matches templates h name lmin lmax it ic isc q) (visited env al))"
proof -
  let ?xs = "filter (matches templates h name lmin lmax it ic isc q) (visited env al)"
  let ?l = "listed sortSlice sorting ?xs"
  have ml: "mset ?l = mset ?xs" by (simp add: listed_def assms(2))
  then have len: "length ?l = length ?xs" by (metis size_mset)
  have page: "fst (ListItems env sortSlice templates r h (of_nat (50 * k)) name lmin lmax it ic isc q False sorting w) =
      take 50 (drop (50 * k) ?l)" if "k < n" for k
  proof -
    have "unat (of_nat (50 * k) :: u32) = 50 * k" using assms(4) that by (intro unat_of_nat_u32) simp
    moreover have "length ?l < 2 ^ 32" using len assms(3,4) by linarith
    ultimately show ?thesis by (simp only: ListItems_page [OF assms(1) _ refl])
  qed
  have "concat (map (\<lambda>k. fst (ListItems env sortSlice templates r h (of_nat (50 * k)) name lmin lmax it ic isc q False sorting w)) [0..<n]) =
      concat (map (\<lambda>k. take 50 (drop (50 * k) ?l)) [0..<n])"
    by (intro arg_cong [of _ _ concat] map_cong refl page) simp
  also have "\<dots> = take (50 * n) ?l" by (rule concat_pages)
  also have "\<dots> = ?l" using len assms(3) by simp
  finally show ?thesis by (simp only: ml)
qed

definition demo_entry :: "u32 \<Rightarrow> AuctionEntry" where
  "demo_entry i = \<lparr>ID = i, HouseID = 7, ItemGUID = i, ItemOwner = 3, BuyoutPrice = 1000, Time = 5000, BuyGUID = 0, LastBid = 0,
     StartBid = 50, Deposit = 20, ItemEntry = 25, ItemCount = 1, Charges = 0, RandomPropertyID = 0, SuffixFactor = 0,
     Enchantments = [], Flags = 0\<rparr>"

definition listing_env :: ah_env where
  "listing_env = \<lparr>nowUnix = 1000, dbFails = (\<lambda>_ _. False), mailFails = (\<lambda>_ _. False), natsFails = False,
     itemInstance = (\<lambda>_. None), auctionOrder = (\<lambda>l. l)\<rparr>"

definition listing_house :: auction_house where
  "listing_house = \<lparr>auctions = (\<lambda>_. Some [(1, demo_entry 1), (2, demo_entry 2\<lparr>HouseID := 6\<rparr>)]), nextID = 3,
     auctionTable = (\<lambda>_. []), mails = [], published = []\<rparr>"

definition listing_templates :: "u32 \<Rightarrow> ItemTemplate option" where
  "listing_templates = [25 \<mapsto> \<lparr>tEntry = 25, tClass = 2, tSubClass = 7, tQuality = 1, tInventoryType = 21, tItemLevel = 2,
     tRequiredLevel = 1, tName = ''Worn Shortsword''\<rparr>]"

theorem ListItems_pages_cover_witness:
  "mset (concat (map (\<lambda>k. fst (ListItems listing_env (\<lambda>_ xs. xs) listing_templates 1 7 (of_nat (50 * k)) ''Sword'' 0 0
      no_filter no_filter no_filter no_filter False [] listing_house)) [0..<2])) = {#demo_entry 1#}"
proof -
  let ?al = "[(1, demo_entry 1), (2, demo_entry 2\<lparr>HouseID := 6\<rparr>)]"
  have lower: "ToLower ''Sword'' = ''sword''" "ToLower ''Worn Shortsword'' = ''worn shortsword''" by code_simp+
  have f: "filter (matches listing_templates 7 ''Sword'' 0 0 no_filter no_filter no_filter no_filter) (visited listing_env ?al) = [demo_entry 1]"
    by (simp add: matches_def visited_def listing_env_def demo_entry_def MatchesFilters_def listing_templates_def lower)
  have "auctions listing_house 1 = Some ?al" by (simp add: listing_house_def)
  from ListItems_pages_cover [where sortSlice = "\<lambda>_ xs. xs" and n = 2 and sorting = "[]", OF this refl, of listing_templates 7 "''Sword''" 0 0
    no_filter no_filter no_filter no_filter listing_env] f show ?thesis by simp
qed

end
