(* ===== verification/Gateway_Events.thy ===== *)
theory Gateway_Events
  imports Cloud9_Prelude
begin

text \<open>
  Payloads that the gateway publishes about characters (\<^verbatim>\<open>shared/events/events-gateway.go\<close>), which the guild,
  group and character servers consume. A field of an update that did not change is \<open>None\<close>.
  Coordinates are the bits of a \<^verbatim>\<open>float32\<close>.
\<close>

record CharacterUpdate =
  uID :: u64
  uLvl :: "u8 option"
  uMap :: "u32 option"
  uArea :: "u32 option"
  uZone :: "u32 option"
  uCurHP :: "u32 option"
  uMaxHP :: "u32 option"
  uPowerType :: "u8 option"
  uCurPower :: "u32 option"
  uMaxPower :: "u32 option"

record GWLoggedIn =
  inRealmID :: u32
  inGatewayID :: string
  inCharGUID :: u64
  inCharName :: string
  inCharRace :: u8
  inCharClass :: u8
  inCharGender :: u8
  inCharLevel :: u8
  inCharZone :: u32
  inCharMap :: u32
  inCharPosX :: u32
  inCharPosY :: u32
  inCharPosZ :: u32
  inCharGuildID :: u32
  inAccountID :: u32

record GWLoggedOut =
  outRealmID :: u32
  outGatewayID :: string
  outCharGUID :: u64
  outCharName :: string
  outCharGuildID :: u32
  outAccountID :: u32

end
