(* ===== verification/Guild_Cache.thy ===== *)
theory Guild_Cache
  imports Gateway_Events
begin

text \<open>
  Guilds: \<^verbatim>\<open>apps/guildserver/repo/guilds.go\<close>, the MySQL repository \<^verbatim>\<open>repo/guilds_mysql.go\<close> with its statements
  and the write-through cache \<^verbatim>\<open>service/guilds-cache_inmem.go\<close>.

  The state is that of one realm: its tables, and the two maps of the cache, which are \<open>None\<close> until the realm is
  warmed up. The member lists of guilds and the map of members hold pointers to the same members; a pointer is
  an index into \<open>members_heap\<close>, and a new member is allocated at its end.
\<close>

unbundle bit_operations_syntax

section \<open>Guilds\<close>

record GuildEmblem =
  Style :: u8
  Color :: u8
  BorderStyle :: u8
  BorderColor :: u8
  BackgroundColor :: u8

record GuildRank =
  rGuildID :: u64
  Rank :: u8
  rName :: string
  Rights :: u32
  MoneyPerDay :: u32

record GuildMember =
  gmGuildID :: u64
  PlayerGUID :: u64
  mRank :: u8
  PublicNote :: string
  OfficerNote :: string
  gmName :: string
  Race :: u8
  Class :: u8
  Lvl :: u8
  Gender :: u8
  AreaID :: u32
  Account :: u64
  LogoutTime :: int
  gmStatus :: u8

record Guild =
  gRealmID :: u32
  guildID :: u64
  guildName :: string
  CrateTimeUnix :: int
  LeaderGUID :: u64
  Emblem :: GuildEmblem
  Info :: string
  MessageOfTheDay :: string
  BankMoney :: u64
  GuildRanks :: "GuildRank list"
  GuildMembers :: "nat list"

abbreviation GuildRankGuildMaster :: u8 where "GuildRankGuildMaster \<equiv> 0"
abbreviation GuildRankMax :: nat where "GuildRankMax \<equiv> 10"
abbreviation GuildMemberStatusOffline :: u8 where "GuildMemberStatusOffline \<equiv> 0"
abbreviation GuildMemberStatusOnline :: u8 where "GuildMemberStatusOnline \<equiv> 1"

abbreviation RightEmpty :: u32 where "RightEmpty \<equiv> 0x40"
abbreviation RightInvite :: u32 where "RightInvite \<equiv> 0x50"
abbreviation RightRemove :: u32 where "RightRemove \<equiv> 0x60"
abbreviation RightPromote :: u32 where "RightPromote \<equiv> 0xC0"
abbreviation RightDemote :: u32 where "RightDemote \<equiv> 0x140"
abbreviation RightSetMessageOfTheDay :: u32 where "RightSetMessageOfTheDay \<equiv> 0x1040"
abbreviation RightEditPublicNote :: u32 where "RightEditPublicNote \<equiv> 0x2040"
abbreviation RightEditOfficersNote :: u32 where "RightEditOfficersNote \<equiv> 0x8040"
abbreviation RightModifyGuildInfo :: u32 where "RightModifyGuildInfo \<equiv> 0x10040"

definition HasRight :: "GuildRank \<Rightarrow> u32 \<Rightarrow> bool" where
  "HasRight r right \<longleftrightarrow> Rights r AND right \<noteq> RightEmpty"

section \<open>The state of a realm\<close>

datatype guild_stmt = StmtAddGuildInvite | StmtGetGuildInvite | StmtRemoveGuildInvite | StmtAddGuildMember | StmtRemoveGuildMember
  | StmtUpdateGuildMessageOfTheDay | StmtUpdateGuildMemberPublicNote | StmtUpdateGuildMemberOfficersNote
  | StmtUpdateGuildMemberRank | StmtUpdateGuildInfo | StmtUpdateGuildRank | StmtAddGuildRank | StmtDeleteGuildRank
  | QueryGuilds | QueryRanks | QueryMembers

datatype guild_error = GuildDB | GuildNoRows | ErrNotEnoughRight | ErrGuildNotFound | ErrLeaderCantLeave | ErrAlreadyInGuild
  | ErrNoRank | ErrNoInvite | ErrRankLimit | ErrLowestRank | ErrGuildEvent | GuildPanic

text \<open>What the row of a character adds to that of a member.\<close>

record character_row =
  cName :: string
  cLevel :: u8
  cClass :: u8
  cGender :: u8
  cZone :: u32
  cAccount :: u64
  cOnline :: u8
  cLogoutTime :: int

record guilds_realm =
  dbGuildRows :: "u64 \<rightharpoonup> Guild"
  dbGuildRanks :: "GuildRank list"
  dbGuildMembers :: "GuildMember list"
  dbGuildInvites :: "u64 \<rightharpoonup> u64"
  members_heap :: "GuildMember list"
  guildsCache :: "(u64 \<rightharpoonup> Guild) option"
  guildMembersCache :: "(u64 \<rightharpoonup> nat) option"

text \<open>
  The rows the schema of the world server rejects, the order of an unordered result, the characters joined to
  the members, the clock and failures are parameters.
\<close>

record guild_env =
  guildDbFails :: "guild_stmt \<Rightarrow> bool"
  memberRejected :: "GuildMember list \<Rightarrow> GuildMember \<Rightarrow> bool"
  rankRejected :: "GuildRank list \<Rightarrow> GuildRank \<Rightarrow> bool"
  memberOrder :: "GuildMember list \<Rightarrow> GuildMember list"
  charactersTable :: "u64 \<Rightarrow> character_row option"
  timeNow :: int
  guildEventFails :: bool

definition guild_row :: "Guild \<Rightarrow> Guild" where
  "guild_row g = g\<lparr>gRealmID := 0, GuildRanks := [], GuildMembers := []\<rparr>"

definition guild_member_row :: "GuildMember \<Rightarrow> GuildMember" where
  "guild_member_row m = m\<lparr>gmName := [], Race := 0, Class := 0, Lvl := 0, Gender := 0, AreaID := 0, Account := 0,
     LogoutTime := 0, gmStatus := 0\<rparr>"

section \<open>The MySQL repository\<close>

definition mysql_AddGuildInvite :: "guild_env \<Rightarrow> u64 \<Rightarrow> u64 \<Rightarrow> guilds_realm \<Rightarrow> guilds_realm \<times> bool" where
  "mysql_AddGuildInvite env charGUID gid s =
     (if guildDbFails env StmtAddGuildInvite then (s, False)
      else (s\<lparr>dbGuildInvites := (dbGuildInvites s)(charGUID \<mapsto> gid)\<rparr>, True))"

definition mysql_GuildIDByCharInvite :: "guild_env \<Rightarrow> u64 \<Rightarrow> guilds_realm \<Rightarrow> guild_error + u64" where
  "mysql_GuildIDByCharInvite env charGUID s =
     (if guildDbFails env StmtGetGuildInvite then Inl GuildDB
      else case dbGuildInvites s charGUID of None \<Rightarrow> Inl GuildNoRows | Some gid \<Rightarrow> Inr gid)"

definition mysql_RemoveGuildInvite :: "guild_env \<Rightarrow> u64 \<Rightarrow> guilds_realm \<Rightarrow> guilds_realm \<times> bool" where
  "mysql_RemoveGuildInvite env charGUID s =
     (if guildDbFails env StmtRemoveGuildInvite then (s, False)
      else (s\<lparr>dbGuildInvites := (dbGuildInvites s)(charGUID := None)\<rparr>, True))"

definition mysql_AddGuildMember :: "guild_env \<Rightarrow> GuildMember \<Rightarrow> guilds_realm \<Rightarrow> guilds_realm \<times> bool" where
  "mysql_AddGuildMember env m s =
     (if guildDbFails env StmtAddGuildMember \<or> memberRejected env (dbGuildMembers s) (guild_member_row m) then (s, False)
      else (s\<lparr>dbGuildMembers := dbGuildMembers s @ [guild_member_row m]\<rparr>, True))"

definition mysql_RemoveGuildMember :: "guild_env \<Rightarrow> u64 \<Rightarrow> guilds_realm \<Rightarrow> guilds_realm \<times> bool" where
  "mysql_RemoveGuildMember env guid s =
     (if guildDbFails env StmtRemoveGuildMember then (s, False)
      else (s\<lparr>dbGuildMembers := filter (\<lambda>m. PlayerGUID m \<noteq> guid) (dbGuildMembers s)\<rparr>, True))"

definition update_guild_row :: "u64 \<Rightarrow> (Guild \<Rightarrow> Guild) \<Rightarrow> guilds_realm \<Rightarrow> guilds_realm" where
  "update_guild_row gid f s = s\<lparr>dbGuildRows := (dbGuildRows s)(gid := map_option f (dbGuildRows s gid))\<rparr>"

definition update_member_row :: "u64 \<Rightarrow> (GuildMember \<Rightarrow> GuildMember) \<Rightarrow> guilds_realm \<Rightarrow> guilds_realm" where
  "update_member_row guid f s =
     s\<lparr>dbGuildMembers := map (\<lambda>m. if PlayerGUID m = guid then f m else m) (dbGuildMembers s)\<rparr>"

definition mysql_SetMessageOfTheDay :: "guild_env \<Rightarrow> u64 \<Rightarrow> string \<Rightarrow> guilds_realm \<Rightarrow> guilds_realm \<times> bool" where
  "mysql_SetMessageOfTheDay env gid msg s =
     (if guildDbFails env StmtUpdateGuildMessageOfTheDay then (s, False)
      else (update_guild_row gid (\<lambda>g. g\<lparr>MessageOfTheDay := msg\<rparr>) s, True))"

definition mysql_SetGuildInfo :: "guild_env \<Rightarrow> u64 \<Rightarrow> string \<Rightarrow> guilds_realm \<Rightarrow> guilds_realm \<times> bool" where
  "mysql_SetGuildInfo env gid info s =
     (if guildDbFails env StmtUpdateGuildInfo then (s, False)
      else (update_guild_row gid (\<lambda>g. g\<lparr>Info := info\<rparr>) s, True))"

definition mysql_SetMemberPublicNote :: "guild_env \<Rightarrow> u64 \<Rightarrow> string \<Rightarrow> guilds_realm \<Rightarrow> guilds_realm \<times> bool" where
  "mysql_SetMemberPublicNote env guid note s =
     (if guildDbFails env StmtUpdateGuildMemberPublicNote then (s, False)
      else (update_member_row guid (\<lambda>m. m\<lparr>PublicNote := note\<rparr>) s, True))"

definition mysql_SetMemberOfficerNote :: "guild_env \<Rightarrow> u64 \<Rightarrow> string \<Rightarrow> guilds_realm \<Rightarrow> guilds_realm \<times> bool" where
  "mysql_SetMemberOfficerNote env guid note s =
     (if guildDbFails env StmtUpdateGuildMemberOfficersNote then (s, False)
      else (update_member_row guid (\<lambda>m. m\<lparr>OfficerNote := note\<rparr>) s, True))"

definition mysql_SetMemberRank :: "guild_env \<Rightarrow> u64 \<Rightarrow> u8 \<Rightarrow> guilds_realm \<Rightarrow> guilds_realm \<times> bool" where
  "mysql_SetMemberRank env guid rank s =
     (if guildDbFails env StmtUpdateGuildMemberRank then (s, False)
      else (update_member_row guid (\<lambda>m. m\<lparr>mRank := rank\<rparr>) s, True))"

definition mysql_UpdateGuildRank ::
  "guild_env \<Rightarrow> u64 \<Rightarrow> u8 \<Rightarrow> string \<Rightarrow> u32 \<Rightarrow> u32 \<Rightarrow> guilds_realm \<Rightarrow> guilds_realm \<times> bool" where
  "mysql_UpdateGuildRank env gid rank name rights moneyPerDay s =
     (if guildDbFails env StmtUpdateGuildRank then (s, False)
      else (s\<lparr>dbGuildRanks := map (\<lambda>r. if Rank r = rank \<and> rGuildID r = gid
               then r\<lparr>rName := name, Rights := rights, MoneyPerDay := moneyPerDay\<rparr> else r) (dbGuildRanks s)\<rparr>, True))"

definition mysql_AddGuildRank ::
  "guild_env \<Rightarrow> u64 \<Rightarrow> u8 \<Rightarrow> string \<Rightarrow> u32 \<Rightarrow> u32 \<Rightarrow> guilds_realm \<Rightarrow> guilds_realm \<times> bool" where
  "mysql_AddGuildRank env gid rank name rights moneyPerDay s =
     (let row = \<lparr>rGuildID = gid, Rank = rank, rName = name, Rights = rights, MoneyPerDay = moneyPerDay\<rparr>
      in if guildDbFails env StmtAddGuildRank \<or> rankRejected env (dbGuildRanks s) row then (s, False)
         else (s\<lparr>dbGuildRanks := dbGuildRanks s @ [row]\<rparr>, True))"

definition mysql_DeleteLowestGuildRank :: "guild_env \<Rightarrow> u64 \<Rightarrow> u8 \<Rightarrow> guilds_realm \<Rightarrow> guilds_realm \<times> bool" where
  "mysql_DeleteLowestGuildRank env gid rank s =
     (if guildDbFails env StmtDeleteGuildRank then (s, False)
      else (s\<lparr>dbGuildRanks := filter (\<lambda>r. \<not> (rGuildID r = gid \<and> rank \<le> Rank r)) (dbGuildRanks s)\<rparr>, True))"

text \<open>
  The ranks come in the order of their ids. A member whose character is missing cannot be scanned, and fails
  the whole load.
\<close>

definition ranks_of :: "u64 \<Rightarrow> GuildRank list \<Rightarrow> GuildRank list" where
  "ranks_of gid rows = sort_key (\<lambda>r. unat (Rank r)) (filter (\<lambda>r. rGuildID r = gid) rows)"

definition scan_member :: "guild_env \<Rightarrow> GuildMember \<Rightarrow> GuildMember" where
  "scan_member env m =
     (case charactersTable env (PlayerGUID m) of
        None \<Rightarrow> m
      | Some c \<Rightarrow> m\<lparr>gmName := cName c, Lvl := cLevel c, Class := cClass c, Gender := cGender c, AreaID := cZone c,
                     Account := cAccount c, gmStatus := cOnline c, LogoutTime := cLogoutTime c\<rparr>)"

definition scanned_members :: "guild_env \<Rightarrow> guilds_realm \<Rightarrow> GuildMember list" where
  "scanned_members env s =
     filter (\<lambda>m. dbGuildRows s (gmGuildID m) \<noteq> None) (map (scan_member env) (memberOrder env (dbGuildMembers s)))"

definition LoadAllForRealm :: "guild_env \<Rightarrow> guilds_realm \<Rightarrow> ((u64 \<rightharpoonup> Guild) \<times> GuildMember list) option" where
  "LoadAllForRealm env s =
     (if guildDbFails env QueryGuilds \<or> guildDbFails env QueryRanks \<or> guildDbFails env QueryMembers \<or>
         (\<exists>m\<in>set (dbGuildMembers s). charactersTable env (PlayerGUID m) = None) then None
      else
        let ms = scanned_members env s;
            base = length (members_heap s);
            heap = members_heap s @ ms
        in Some (\<lambda>i. map_option (\<lambda>g. g\<lparr>gRealmID := 0, GuildRanks := ranks_of i (dbGuildRanks s),
                   GuildMembers := filter (\<lambda>p. gmGuildID (heap ! p) = i) [base..<base + length ms]\<rparr>) (dbGuildRows s i), heap))"

section \<open>The cache\<close>

definition Warmup :: "guild_env \<Rightarrow> guilds_realm \<Rightarrow> guilds_realm \<times> guild_error option" where
  "Warmup env s =
     (case LoadAllForRealm env s of
        None \<Rightarrow> (s, Some GuildDB)
      | Some (guilds, heap) \<Rightarrow>
          (s\<lparr>members_heap := heap, guildsCache := Some guilds,
             guildMembersCache := Some (map_of (rev (map (\<lambda>p. (PlayerGUID (heap ! p), p)) [length (members_heap s)..<length heap])))\<rparr>, None))"

definition cached_guild :: "u64 \<Rightarrow> guilds_realm \<Rightarrow> Guild option" where
  "cached_guild gid s = (case guildsCache s of None \<Rightarrow> None | Some c \<Rightarrow> c gid)"

definition member_ptr :: "u64 \<Rightarrow> guilds_realm \<Rightarrow> nat option" where
  "member_ptr guid s = (case guildMembersCache s of None \<Rightarrow> None | Some c \<Rightarrow> c guid)"

definition GuildIDByRealmAndMemberGUID :: "u64 \<Rightarrow> guilds_realm \<Rightarrow> u64" where
  "GuildIDByRealmAndMemberGUID guid s =
     (case member_ptr guid s of None \<Rightarrow> 0 | Some p \<Rightarrow> gmGuildID (members_heap s ! p))"

definition put_guild :: "u64 \<Rightarrow> (Guild \<Rightarrow> Guild) \<Rightarrow> guilds_realm \<Rightarrow> guilds_realm" where
  "put_guild gid f s = s\<lparr>guildsCache := map_option (\<lambda>c. c(gid := map_option f (c gid))) (guildsCache s)\<rparr>"

definition put_member :: "u64 \<Rightarrow> (GuildMember \<Rightarrow> GuildMember) \<Rightarrow> guilds_realm \<Rightarrow> guilds_realm" where
  "put_member guid f s =
     (case member_ptr guid s of None \<Rightarrow> s | Some p \<Rightarrow> s\<lparr>members_heap := (members_heap s)[p := f (members_heap s ! p)]\<rparr>)"

definition cache_AddGuildMember :: "guild_env \<Rightarrow> GuildMember \<Rightarrow> guilds_realm \<Rightarrow> guilds_realm \<times> guild_error option" where
  "cache_AddGuildMember env m s =
     (case mysql_AddGuildMember env m s of
        (s1, False) \<Rightarrow> (s1, Some GuildDB)
      | (s1, True) \<Rightarrow>
          (case guildMembersCache s1 of
             None \<Rightarrow> (s1, Some GuildPanic)
           | Some c \<Rightarrow>
               (let p = length (members_heap s1);
                    s2 = s1\<lparr>members_heap := members_heap s1 @ [m], guildMembersCache := Some (c(PlayerGUID m \<mapsto> p))\<rparr>
                in if cached_guild (gmGuildID m) s2 = None then (s2, Some GuildPanic)
                   else (put_guild (gmGuildID m) (\<lambda>g. g\<lparr>GuildMembers := GuildMembers g @ [p]\<rparr>) s2, None))))"

definition cache_RemoveGuildMember :: "guild_env \<Rightarrow> u64 \<Rightarrow> guilds_realm \<Rightarrow> guilds_realm \<times> guild_error option" where
  "cache_RemoveGuildMember env guid s =
     (case mysql_RemoveGuildMember env guid s of
        (s1, False) \<Rightarrow> (s1, Some GuildDB)
      | (s1, True) \<Rightarrow>
          (case member_ptr guid s1 of
             None \<Rightarrow> (s1, None)
           | Some p \<Rightarrow>
               (let s2 = s1\<lparr>guildMembersCache := map_option (\<lambda>c. c(guid := None)) (guildMembersCache s1)\<rparr>;
                    gid = gmGuildID (members_heap s1 ! p)
                in if cached_guild gid s2 = None then (s2, Some GuildPanic)
                   else (put_guild gid (\<lambda>g. g\<lparr>GuildMembers :=
                           remove_first (\<lambda>q. PlayerGUID (members_heap s1 ! q) = guid) (GuildMembers g)\<rparr>) s2, None))))"

text \<open>The other operations write the table first and, if that worked, the cached guild or member.\<close>

definition after_write :: "guilds_realm \<times> bool \<Rightarrow> (guilds_realm \<Rightarrow> guilds_realm) \<Rightarrow> guilds_realm \<times> guild_error option" where
  "after_write r f = (case r of (s, ok) \<Rightarrow> if ok then (f s, None) else (s, Some GuildDB))"

definition cache_SetMessageOfTheDay :: "guild_env \<Rightarrow> u64 \<Rightarrow> string \<Rightarrow> guilds_realm \<Rightarrow> guilds_realm \<times> guild_error option" where
  "cache_SetMessageOfTheDay env gid msg s =
     after_write (mysql_SetMessageOfTheDay env gid msg s) (put_guild gid (\<lambda>g. g\<lparr>MessageOfTheDay := msg\<rparr>))"

definition cache_SetGuildInfo :: "guild_env \<Rightarrow> u64 \<Rightarrow> string \<Rightarrow> guilds_realm \<Rightarrow> guilds_realm \<times> guild_error option" where
  "cache_SetGuildInfo env gid info s =
     after_write (mysql_SetGuildInfo env gid info s) (put_guild gid (\<lambda>g. g\<lparr>Info := info\<rparr>))"

definition cache_SetMemberPublicNote :: "guild_env \<Rightarrow> u64 \<Rightarrow> string \<Rightarrow> guilds_realm \<Rightarrow> guilds_realm \<times> guild_error option" where
  "cache_SetMemberPublicNote env guid note s =
     after_write (mysql_SetMemberPublicNote env guid note s) (put_member guid (\<lambda>m. m\<lparr>PublicNote := note\<rparr>))"

definition cache_SetMemberOfficerNote :: "guild_env \<Rightarrow> u64 \<Rightarrow> string \<Rightarrow> guilds_realm \<Rightarrow> guilds_realm \<times> guild_error option" where
  "cache_SetMemberOfficerNote env guid note s =
     after_write (mysql_SetMemberOfficerNote env guid note s) (put_member guid (\<lambda>m. m\<lparr>OfficerNote := note\<rparr>))"

definition cache_SetMemberRank :: "guild_env \<Rightarrow> u64 \<Rightarrow> u8 \<Rightarrow> guilds_realm \<Rightarrow> guilds_realm \<times> guild_error option" where
  "cache_SetMemberRank env guid rank s =
     after_write (mysql_SetMemberRank env guid rank s) (put_member guid (\<lambda>m. m\<lparr>mRank := rank\<rparr>))"

fun replace_rank :: "GuildRank \<Rightarrow> GuildRank list \<Rightarrow> GuildRank list" where
  "replace_rank r [] = []"
| "replace_rank r (x # xs) = (if Rank x = Rank r then r # xs else x # replace_rank r xs)"

definition cache_UpdateGuildRank ::
  "guild_env \<Rightarrow> u64 \<Rightarrow> u8 \<Rightarrow> string \<Rightarrow> u32 \<Rightarrow> u32 \<Rightarrow> guilds_realm \<Rightarrow> guilds_realm \<times> guild_error option" where
  "cache_UpdateGuildRank env gid rank name rights moneyPerDay s =
     after_write (mysql_UpdateGuildRank env gid rank name rights moneyPerDay s)
       (put_guild gid (\<lambda>g. g\<lparr>GuildRanks := replace_rank
          \<lparr>rGuildID = gid, Rank = rank, rName = name, Rights = rights, MoneyPerDay = moneyPerDay\<rparr> (GuildRanks g)\<rparr>))"

definition cache_AddGuildRank ::
  "guild_env \<Rightarrow> u64 \<Rightarrow> u8 \<Rightarrow> string \<Rightarrow> u32 \<Rightarrow> u32 \<Rightarrow> guilds_realm \<Rightarrow> guilds_realm \<times> guild_error option" where
  "cache_AddGuildRank env gid rank name rights moneyPerDay s =
     after_write (mysql_AddGuildRank env gid rank name rights moneyPerDay s)
       (put_guild gid (\<lambda>g. g\<lparr>GuildRanks := GuildRanks g @
          [\<lparr>rGuildID = gid, Rank = rank, rName = name, Rights = rights, MoneyPerDay = moneyPerDay\<rparr>]\<rparr>))"

text \<open>The cached ranks are cut at the index that equals the id of the deleted rank.\<close>

definition cache_DeleteLowestGuildRank :: "guild_env \<Rightarrow> u64 \<Rightarrow> u8 \<Rightarrow> guilds_realm \<Rightarrow> guilds_realm \<times> guild_error option" where
  "cache_DeleteLowestGuildRank env gid rank s =
     after_write (mysql_DeleteLowestGuildRank env gid rank s)
       (put_guild gid (\<lambda>g. if length (GuildRanks g) < unat rank then g else g\<lparr>GuildRanks := take (unat rank) (GuildRanks g)\<rparr>))"

subsection \<open>Events of the gateway\<close>

definition HandleCharacterLoggedIn :: "u64 \<Rightarrow> guilds_realm \<Rightarrow> guilds_realm" where
  "HandleCharacterLoggedIn guid s = put_member guid (\<lambda>m. m\<lparr>gmStatus := GuildMemberStatusOnline\<rparr>) s"

definition HandleCharacterLoggedOut :: "guild_env \<Rightarrow> u64 \<Rightarrow> guilds_realm \<Rightarrow> guilds_realm" where
  "HandleCharacterLoggedOut env guid s =
     put_member guid (\<lambda>m. m\<lparr>gmStatus := GuildMemberStatusOffline, LogoutTime := timeNow env\<rparr>) s"

definition applyCharUpdate :: "CharacterUpdate \<Rightarrow> GuildMember \<Rightarrow> GuildMember" where
  "applyCharUpdate upd m =
     (let m1 = (case uArea upd of None \<Rightarrow> m | Some a \<Rightarrow> m\<lparr>AreaID := a\<rparr>)
      in case uLvl upd of None \<Rightarrow> m1 | Some l \<Rightarrow> m1\<lparr>Lvl := l\<rparr>)"

definition HandleCharactersUpdates :: "CharacterUpdate list \<Rightarrow> guilds_realm \<Rightarrow> guilds_realm" where
  "HandleCharactersUpdates updates s = foldl (\<lambda>s upd. put_member (uID upd) (applyCharUpdate upd) s) s updates"

definition handleDisconnectedChars :: "guild_env \<Rightarrow> u64 list \<Rightarrow> guilds_realm \<Rightarrow> guilds_realm" where
  "handleDisconnectedChars env chars s = foldl (\<lambda>s guid. HandleCharacterLoggedOut env guid s) s chars"

end
