(* ===== verification/Guild_Handlers.thy ===== *)
theory Guild_Handlers
  imports Guild_Cache
begin

text \<open>
  The handlers of \<^verbatim>\<open>apps/guildserver/service/guilds.go\<close>. A handler reads the cached guild of the caller, checks
  ranks and rights, changes the guild through the cache and publishes an event. The event's list of online
  members is read from the guild after the change, except where the code builds the payload first.
\<close>

section \<open>Looking up members and ranks\<close>

definition guildMemberForMemberGuid :: "guilds_realm \<Rightarrow> Guild \<Rightarrow> u64 \<Rightarrow> GuildMember option" where
  "guildMemberForMemberGuid s g guid =
     map_option (\<lambda>p. members_heap s ! p) (find (\<lambda>p. PlayerGUID (members_heap s ! p) = guid) (GuildMembers g))"

definition rankWithID :: "Guild \<Rightarrow> u8 \<Rightarrow> GuildRank option" where
  "rankWithID g i = find (\<lambda>r. Rank r = i) (GuildRanks g)"

definition rankForMember :: "guilds_realm \<Rightarrow> Guild \<Rightarrow> u64 \<Rightarrow> GuildRank option" where
  "rankForMember s g guid =
     (case guildMemberForMemberGuid s g guid of None \<Rightarrow> None | Some m \<Rightarrow> find (\<lambda>r. Rank r = mRank m) (GuildRanks g))"

definition lowestRankInGuild :: "Guild \<Rightarrow> u8" where
  "lowestRankInGuild g = foldl (\<lambda>h r. if h < Rank r then Rank r else h) 0 (GuildRanks g)"

definition guildByMemberGUID :: "u64 \<Rightarrow> guilds_realm \<Rightarrow> Guild option" where
  "guildByMemberGUID guid s =
     (let gid = GuildIDByRealmAndMemberGUID guid s in if gid = 0 then None else cached_guild gid s)"

section \<open>Events\<close>

record GenericGuildEvent =
  evRealmID :: u32
  evGuildID :: u64
  evGuildName :: string
  MembersOnline :: "u64 list"

datatype guild_event =
    InviteCreated u32 u64 string u64 string u64 string
  | MemberAdded GenericGuildEvent u64 string
  | MemberLeft GenericGuildEvent u64 string
  | MemberKicked GenericGuildEvent u64 string u64 string
  | MOTDUpdated GenericGuildEvent string
  | GuildInfoUpdated GenericGuildEvent string
  | MemberNoteUpdated GenericGuildEvent u64 string u64 string string
  | MemberOfficerNoteUpdated GenericGuildEvent u64 string u64 string string
  | RankUpdated GenericGuildEvent u8 string u32 u32 u8
  | RankCreated GenericGuildEvent u8 string u8
  | RankDeleted GenericGuildEvent u8 string u8
  | MemberPromote GenericGuildEvent u8 string u64 string u64 string
  | MemberDemote GenericGuildEvent u8 string u64 string u64 string
  | NewMessage u32 u64 u64 string u32 string bool "u64 list"

text \<open>What a handler leaves: the realm, the error it returns and the events it published.\<close>

type_synonym guild_result = "guilds_realm \<times> guild_error option \<times> guild_event list"

definition online :: "guilds_realm \<Rightarrow> Guild \<Rightarrow> u64 list" where
  "online s g = map PlayerGUID (filter (\<lambda>m. gmStatus m = GuildMemberStatusOnline) (map (\<lambda>p. members_heap s ! p) (GuildMembers g)))"

definition buildGenericEventPayload :: "guilds_realm \<Rightarrow> Guild \<Rightarrow> GenericGuildEvent" where
  "buildGenericEventPayload s g =
     \<lparr>evRealmID = gRealmID g, evGuildID = guildID g, evGuildName = guildName g, MembersOnline = online s g\<rparr>"

text \<open>The guild a pointer shows now.\<close>

definition current :: "guilds_realm \<Rightarrow> Guild \<Rightarrow> Guild" where
  "current s g = (case cached_guild (guildID g) s of None \<Rightarrow> g | Some g' \<Rightarrow> g')"

definition produce :: "guild_env \<Rightarrow> guild_event \<Rightarrow> guilds_realm \<Rightarrow> guild_result" where
  "produce env e s = (if guildEventFails env then (s, Some ErrGuildEvent, []) else (s, None, [e]))"

definition and_then :: "guilds_realm \<times> guild_error option \<Rightarrow> (guilds_realm \<Rightarrow> guild_result) \<Rightarrow> guild_result" where
  "and_then r f = (case r of (s, Some e) \<Rightarrow> (s, Some e, []) | (s, None) \<Rightarrow> f s)"

section \<open>Handlers\<close>

definition GuildNamesByIDs :: "u64 list \<Rightarrow> guilds_realm \<Rightarrow> (u64 \<rightharpoonup> string)" where
  "GuildNamesByIDs ids s =
     foldl (\<lambda>names i. if names i \<noteq> None then names
                      else case cached_guild i s of None \<Rightarrow> names | Some g \<Rightarrow> names(i \<mapsto> guildName g)) Map.empty ids"

definition GuildByRealmAndID :: "u64 \<Rightarrow> guilds_realm \<Rightarrow> guild_error + Guild" where
  "GuildByRealmAndID gid s = (case cached_guild gid s of None \<Rightarrow> Inl ErrGuildNotFound | Some g \<Rightarrow> Inr g)"

definition InviteMember :: "guild_env \<Rightarrow> u32 \<Rightarrow> u64 \<Rightarrow> u64 \<Rightarrow> string \<Rightarrow> guilds_realm \<Rightarrow> guild_result" where
  "InviteMember env realmID inviter invitee inviteeName s =
     (let gid = GuildIDByRealmAndMemberGUID inviter s
      in if gid = 0 then (s, Some ErrGuildNotFound, [])
         else if GuildIDByRealmAndMemberGUID invitee s \<noteq> 0 then (s, Some ErrAlreadyInGuild, [])
         else (case cached_guild gid s of
                 None \<Rightarrow> (s, Some ErrGuildNotFound, [])
               | Some g \<Rightarrow>
                   (case rankForMember s g inviter of
                      None \<Rightarrow> (s, Some ErrNoRank, [])
                    | Some rank \<Rightarrow>
                        if \<not> HasRight rank RightInvite then (s, Some ErrNotEnoughRight, [])
                        else (case mysql_AddGuildInvite env invitee gid s of
                                (s1, False) \<Rightarrow> (s1, Some GuildDB, [])
                              | (s1, True) \<Rightarrow>
                                  (case guildMemberForMemberGuid s1 g inviter of
                                     None \<Rightarrow> (s1, Some GuildPanic, [])
                                   | Some m \<Rightarrow> produce env (InviteCreated realmID gid (guildName g) inviter (gmName m) invitee inviteeName) s1)))))"

record InviteAcceptedParams =
  CharGUID :: u64
  CharName :: string
  CharRace :: u8
  CharClass :: u8
  CharLvl :: u8
  CharGender :: u8
  CharAreaID :: u32
  CharAccount :: u64

definition accepted_member :: "u64 \<Rightarrow> u8 \<Rightarrow> InviteAcceptedParams \<Rightarrow> GuildMember" where
  "accepted_member gid rank p =
     \<lparr>gmGuildID = gid, PlayerGUID = CharGUID p, mRank = rank, PublicNote = [], OfficerNote = [], gmName = CharName p,
      Race = CharRace p, Class = CharClass p, Lvl = CharLvl p, Gender = CharGender p, AreaID = CharAreaID p,
      Account = CharAccount p, LogoutTime = 0, gmStatus = GuildMemberStatusOnline\<rparr>"

definition InviteAccepted :: "guild_env \<Rightarrow> InviteAcceptedParams \<Rightarrow> guilds_realm \<Rightarrow> guild_result" where
  "InviteAccepted env params s =
     (case mysql_GuildIDByCharInvite env (CharGUID params) s of
        Inl e \<Rightarrow> (s, Some e, [])
      | Inr gid \<Rightarrow>
          if gid = 0 then (s, Some ErrNoInvite, [])
          else (case cached_guild gid s of
                  None \<Rightarrow> (s, Some ErrGuildNotFound, [])
                | Some g \<Rightarrow>
                    (case mysql_RemoveGuildInvite env (CharGUID params) s of
                       (s1, False) \<Rightarrow> (s1, Some GuildDB, [])
                     | (s1, True) \<Rightarrow>
                         and_then (cache_AddGuildMember env (accepted_member gid (lowestRankInGuild g) params) s1)
                           (\<lambda>s2. case cached_guild gid s2 of
                                   None \<Rightarrow> (s2, Some GuildPanic, [])
                                 | Some g2 \<Rightarrow> produce env (MemberAdded (buildGenericEventPayload s2 g2) (CharGUID params) (CharName params)) s2))))"

definition Leave :: "guild_env \<Rightarrow> u64 \<Rightarrow> guilds_realm \<Rightarrow> guild_result" where
  "Leave env guid s =
     (case guildByMemberGUID guid s of
        None \<Rightarrow> (s, Some ErrGuildNotFound, [])
      | Some g \<Rightarrow>
          (case (rankForMember s g guid, guildMemberForMemberGuid s g guid) of
             (Some rank, Some m) \<Rightarrow>
               if Rank rank = GuildRankGuildMaster then (s, Some ErrLeaderCantLeave, [])
               else and_then (cache_RemoveGuildMember env guid s)
                      (produce env (MemberLeft (buildGenericEventPayload s g) (PlayerGUID m) (gmName m)))
           | _ \<Rightarrow> (s, Some GuildPanic, [])))"

definition Kick :: "guild_env \<Rightarrow> u64 \<Rightarrow> u64 \<Rightarrow> guilds_realm \<Rightarrow> guild_result" where
  "Kick env kicker target s =
     (case guildByMemberGUID kicker s of
        None \<Rightarrow> (s, Some ErrGuildNotFound, [])
      | Some g \<Rightarrow>
          if guildID g \<noteq> GuildIDByRealmAndMemberGUID target s then (s, Some ErrNotEnoughRight, [])
          else
            (case rankForMember s g kicker of
               None \<Rightarrow> (s, Some GuildPanic, [])
             | Some rk \<Rightarrow>
                 if \<not> HasRight rk RightRemove then (s, Some ErrNotEnoughRight, [])
                 else
                   (case (rankForMember s g target, guildMemberForMemberGuid s g kicker, guildMemberForMemberGuid s g target) of
                      (Some rt, Some mk, Some mt) \<Rightarrow>
                        if Rank rt \<le> Rank rk then (s, Some ErrNotEnoughRight, [])
                        else and_then (cache_RemoveGuildMember env target s)
                               (produce env (MemberKicked (buildGenericEventPayload s g) (PlayerGUID mt) (gmName mt) (PlayerGUID mk) (gmName mk)))
                    | _ \<Rightarrow> (s, Some GuildPanic, []))))"

text \<open>
  \<open>with_rank\<close> is the beginning that the handlers of the caller's own guild share: the guild, the caller's rank
  (a nil pointer if he has none), and the check of the rank.
\<close>

definition with_rank ::
  "u64 \<Rightarrow> (GuildRank \<Rightarrow> bool) \<Rightarrow> guilds_realm \<Rightarrow> (Guild \<Rightarrow> GuildRank \<Rightarrow> guild_result) \<Rightarrow> guild_result" where
  "with_rank updater allowed s f =
     (case guildByMemberGUID updater s of
        None \<Rightarrow> (s, Some ErrGuildNotFound, [])
      | Some g \<Rightarrow>
          (case rankForMember s g updater of
             None \<Rightarrow> (s, Some GuildPanic, [])
           | Some rank \<Rightarrow> if allowed rank then f g rank else (s, Some ErrNotEnoughRight, [])))"

abbreviation is_master :: "GuildRank \<Rightarrow> bool" where
  "is_master rank \<equiv> Rank rank = GuildRankGuildMaster"

definition SetMessageOfTheDay :: "guild_env \<Rightarrow> u64 \<Rightarrow> string \<Rightarrow> guilds_realm \<Rightarrow> guild_result" where
  "SetMessageOfTheDay env updater msg s =
     with_rank updater (\<lambda>r. HasRight r RightSetMessageOfTheDay) s (\<lambda>g _.
       and_then (cache_SetMessageOfTheDay env (guildID g) msg s)
         (\<lambda>s1. produce env (MOTDUpdated (buildGenericEventPayload s1 (current s1 g)) msg) s1))"

definition SetGuildInfo :: "guild_env \<Rightarrow> u64 \<Rightarrow> string \<Rightarrow> guilds_realm \<Rightarrow> guild_result" where
  "SetGuildInfo env updater info s =
     with_rank updater (\<lambda>r. HasRight r RightModifyGuildInfo) s (\<lambda>g _.
       and_then (cache_SetGuildInfo env (guildID g) info s)
         (\<lambda>s1. produce env (GuildInfoUpdated (buildGenericEventPayload s1 (current s1 g)) info) s1))"

text \<open>The checks of both handlers of notes, up to the two members.\<close>

definition note_checks ::
  "u64 \<Rightarrow> u64 \<Rightarrow> u32 \<Rightarrow> guilds_realm \<Rightarrow> (Guild \<Rightarrow> GuildMember \<Rightarrow> GuildMember \<Rightarrow> guild_result) \<Rightarrow> guild_result" where
  "note_checks updater target right s f =
     (let ugid = GuildIDByRealmAndMemberGUID updater s; tgid = GuildIDByRealmAndMemberGUID target s
      in if ugid = 0 then (s, Some ErrGuildNotFound, [])
         else if tgid = 0 then (s, Some ErrGuildNotFound, [])
         else if tgid \<noteq> ugid then (s, Some ErrNotEnoughRight, [])
         else (case cached_guild ugid s of
                 None \<Rightarrow> (s, Some GuildPanic, [])
               | Some g \<Rightarrow>
                   if (case rankForMember s g updater of None \<Rightarrow> True | Some rank \<Rightarrow> \<not> HasRight rank right)
                   then (s, Some ErrNotEnoughRight, [])
                   else (case (guildMemberForMemberGuid s g target, guildMemberForMemberGuid s g updater) of
                           (Some t, Some u) \<Rightarrow> f g t u
                         | _ \<Rightarrow> (s, Some ErrGuildNotFound, []))))"

definition SetMemberPublicNote :: "guild_env \<Rightarrow> u64 \<Rightarrow> u64 \<Rightarrow> string \<Rightarrow> guilds_realm \<Rightarrow> guild_result" where
  "SetMemberPublicNote env updater target note s =
     note_checks updater target RightEditPublicNote s (\<lambda>g t u.
       and_then (cache_SetMemberPublicNote env target note s)
         (\<lambda>s1. produce env (MemberNoteUpdated (buildGenericEventPayload s1 (current s1 g)) target (gmName t) updater (gmName u) note) s1))"

definition SetMemberOfficerNote :: "guild_env \<Rightarrow> u64 \<Rightarrow> u64 \<Rightarrow> string \<Rightarrow> guilds_realm \<Rightarrow> guild_result" where
  "SetMemberOfficerNote env updater target note s =
     note_checks updater target RightEditOfficersNote s (\<lambda>g t u.
       and_then (cache_SetMemberOfficerNote env target note s)
         (\<lambda>s1. produce env (MemberOfficerNoteUpdated (buildGenericEventPayload s1 (current s1 g)) target (gmName t) updater (gmName u) note) s1))"

definition UpdateGuildRank :: "guild_env \<Rightarrow> u64 \<Rightarrow> u8 \<Rightarrow> string \<Rightarrow> u32 \<Rightarrow> u32 \<Rightarrow> guilds_realm \<Rightarrow> guild_result" where
  "UpdateGuildRank env updater rankID name rights moneyPerDay s =
     with_rank updater is_master s (\<lambda>g _.
       and_then (cache_UpdateGuildRank env (guildID g) rankID name rights moneyPerDay s)
         (\<lambda>s1. produce env (RankUpdated (buildGenericEventPayload s1 (current s1 g)) rankID name rights moneyPerDay
            (of_nat (length (GuildRanks (current s1 g))))) s1))"

definition AddGuildRank :: "guild_env \<Rightarrow> u64 \<Rightarrow> string \<Rightarrow> guilds_realm \<Rightarrow> guild_result" where
  "AddGuildRank env updater name s =
     with_rank updater is_master s (\<lambda>g _.
       if GuildRankMax \<le> length (GuildRanks g) then (s, Some ErrRankLimit, [])
       else (let rankID = lowestRankInGuild g + 1
             in and_then (cache_AddGuildRank env (guildID g) rankID name RightEmpty 0 s)
                  (\<lambda>s1. produce env (RankCreated (buildGenericEventPayload s1 (current s1 g)) rankID name
                     (of_nat (length (GuildRanks (current s1 g))))) s1)))"

text \<open>The event of a deletion carries the rank of the caller where the deleted rank is meant.\<close>

definition DeleteLastGuildRank :: "guild_env \<Rightarrow> u64 \<Rightarrow> guilds_realm \<Rightarrow> guild_result" where
  "DeleteLastGuildRank env updater s =
     with_rank updater is_master s (\<lambda>g rank.
       let lowest = lowestRankInGuild g;
           name = (case rankWithID g lowest of None \<Rightarrow> [] | Some r \<Rightarrow> rName r)
       in and_then (cache_DeleteLowestGuildRank env (guildID g) lowest s)
            (\<lambda>s1. produce env (RankDeleted (buildGenericEventPayload s1 (current s1 g)) (Rank rank) name
               (of_nat (length (GuildRanks (current s1 g))))) s1))"

text \<open>The event of a changed rank; the ranks and members are read through pointers that may be nil.\<close>

definition announce_rank :: "guild_env \<Rightarrow> bool \<Rightarrow> Guild \<Rightarrow> u8 \<Rightarrow> u64 \<Rightarrow> u64 \<Rightarrow> guilds_realm \<Rightarrow> guild_result" where
  "announce_rank env promote g newRank updater target s =
     (case (rankWithID g newRank, guildMemberForMemberGuid s g updater, guildMemberForMemberGuid s g target) of
        (Some nr, Some u, Some t) \<Rightarrow>
          produce env ((if promote then MemberPromote else MemberDemote) (buildGenericEventPayload s (current s g))
            (Rank nr) (rName nr) (PlayerGUID u) (gmName u) (PlayerGUID t) (gmName t)) s
      | _ \<Rightarrow> (s, Some GuildPanic, []))"

definition updateRank :: "guild_env \<Rightarrow> u64 \<Rightarrow> u64 \<Rightarrow> bool \<Rightarrow> guilds_realm \<Rightarrow> guild_result" where
  "updateRank env updater target promote s =
     (case guildByMemberGUID updater s of
        None \<Rightarrow> (s, Some ErrGuildNotFound, [])
      | Some g \<Rightarrow>
          (let tgid = GuildIDByRealmAndMemberGUID target s
           in if tgid = 0 then (s, Some ErrGuildNotFound, [])
              else if tgid \<noteq> guildID g then (s, Some ErrNotEnoughRight, [])
              else
                (case rankForMember s g updater of
                   None \<Rightarrow> (s, Some GuildPanic, [])
                 | Some rank \<Rightarrow>
                     if \<not> HasRight rank (if promote then RightPromote else RightDemote) then (s, Some ErrNotEnoughRight, [])
                     else
                       (case rankForMember s g target of
                          None \<Rightarrow> (s, Some GuildPanic, [])
                        | Some targetRank \<Rightarrow>
                            (let newRank = (if promote then Rank targetRank - 1 else Rank targetRank + 1)
                             in if promote \<and> newRank \<le> Rank rank then (s, Some ErrNotEnoughRight, [])
                                else if \<not> promote \<and> Rank targetRank \<le> Rank rank then (s, Some ErrNotEnoughRight, [])
                                else if \<not> promote \<and> lowestRankInGuild g < newRank then (s, Some ErrLowestRank, [])
                                else
                                  and_then (cache_SetMemberRank env target newRank s)
                                    (announce_rank env promote g newRank updater target))))))"

definition PromoteMember :: "guild_env \<Rightarrow> u64 \<Rightarrow> u64 \<Rightarrow> guilds_realm \<Rightarrow> guild_result" where
  "PromoteMember env updater target s = updateRank env updater target True s"

definition DemoteMember :: "guild_env \<Rightarrow> u64 \<Rightarrow> u64 \<Rightarrow> guilds_realm \<Rightarrow> guild_result" where
  "DemoteMember env updater target s = updateRank env updater target False s"

definition SendGuildMessage :: "guild_env \<Rightarrow> u32 \<Rightarrow> u64 \<Rightarrow> string \<Rightarrow> u32 \<Rightarrow> bool \<Rightarrow> guilds_realm \<Rightarrow> guild_result" where
  "SendGuildMessage env realmID sender message lang isOfficers s =
     (case guildByMemberGUID sender s of
        None \<Rightarrow> (s, Some ErrGuildNotFound, [])
      | Some g \<Rightarrow>
          (case guildMemberForMemberGuid s g sender of
             None \<Rightarrow> (s, Some ErrGuildNotFound, [])
           | Some m \<Rightarrow>
               produce env (NewMessage realmID (guildID g) sender (gmName m) lang message isOfficers
                 (filter (\<lambda>guid. guid \<noteq> sender) (online s g))) s))"

end
