(* ===== verification/Guild_Invariant.thy ===== *)
theory Guild_Invariant
  imports Guild_Handlers
begin

text \<open>
  What the guild server keeps true: the two maps of the cache describe the same members, nobody is in two guilds,
  the ranks of a guild are numbered from zero, and the tables hold what the cache holds, whatever statements fail.
\<close>

section \<open>The invariant\<close>

definition members_ok :: "guilds_realm \<Rightarrow> bool" where
  "members_ok s \<longleftrightarrow> guildsCache s \<noteq> None \<and> guildMembersCache s \<noteq> None \<and>
     (\<forall>guid p. member_ptr guid s = Some p \<longrightarrow> p < length (members_heap s) \<and> PlayerGUID (members_heap s ! p) = guid \<and>
        (\<exists>g. cached_guild (gmGuildID (members_heap s ! p)) s = Some g \<and> p \<in> set (GuildMembers g))) \<and>
     (\<forall>i g. cached_guild i s = Some g \<longrightarrow> guildID g = i \<and> distinct (GuildMembers g) \<and>
        (\<forall>p\<in>set (GuildMembers g). p < length (members_heap s) \<and> gmGuildID (members_heap s ! p) = i \<and>
           member_ptr (PlayerGUID (members_heap s ! p)) s = Some p))"

definition rows_ok :: "guilds_realm \<Rightarrow> bool" where
  "rows_ok s \<longleftrightarrow> distinct (map PlayerGUID (dbGuildMembers s)) \<and>
     (\<forall>guid p. member_ptr guid s = Some p \<longrightarrow> guild_member_row (members_heap s ! p) \<in> set (dbGuildMembers s)) \<and>
     (\<forall>r\<in>set (dbGuildMembers s). dbGuildRows s (gmGuildID r) \<noteq> None \<longrightarrow> member_ptr (PlayerGUID r) s \<noteq> None)"

definition contiguous :: "GuildRank list \<Rightarrow> bool" where
  "contiguous rs \<longleftrightarrow> map (\<lambda>r. unat (Rank r)) rs = [0..<length rs] \<and> length rs \<le> GuildRankMax"

definition guilds_ok :: "guilds_realm \<Rightarrow> bool" where
  "guilds_ok s \<longleftrightarrow> (\<forall>i. dbGuildRows s i = map_option guild_row (cached_guild i s)) \<and>
     (\<forall>i g. cached_guild i s = Some g \<longrightarrow> GuildRanks g = ranks_of i (dbGuildRanks s) \<and> contiguous (GuildRanks g))"

definition guild_inv :: "guilds_realm \<Rightarrow> bool" where
  "guild_inv s \<longleftrightarrow> members_ok s \<and> rows_ok s \<and> guilds_ok s"

lemma members_okD:
  assumes "members_ok s"
  shows "guildsCache s \<noteq> None" "guildMembersCache s \<noteq> None"
    "member_ptr guid s = Some p \<Longrightarrow> p < length (members_heap s)"
    "member_ptr guid s = Some p \<Longrightarrow> PlayerGUID (members_heap s ! p) = guid"
    "member_ptr guid s = Some p \<Longrightarrow> \<exists>g. cached_guild (gmGuildID (members_heap s ! p)) s = Some g \<and> p \<in> set (GuildMembers g)"
    "cached_guild i s = Some g \<Longrightarrow> guildID g = i" "cached_guild i s = Some g \<Longrightarrow> distinct (GuildMembers g)"
    "cached_guild i s = Some g \<Longrightarrow> p \<in> set (GuildMembers g) \<Longrightarrow> p < length (members_heap s)"
    "cached_guild i s = Some g \<Longrightarrow> p \<in> set (GuildMembers g) \<Longrightarrow> gmGuildID (members_heap s ! p) = i"
    "cached_guild i s = Some g \<Longrightarrow> p \<in> set (GuildMembers g) \<Longrightarrow> member_ptr (PlayerGUID (members_heap s ! p)) s = Some p"
  using assms unfolding members_ok_def by blast+

lemma guilds_okD:
  assumes "guilds_ok s"
  shows "dbGuildRows s i = map_option guild_row (cached_guild i s)"
    "cached_guild i s = Some g \<Longrightarrow> GuildRanks g = ranks_of i (dbGuildRanks s)"
    "cached_guild i s = Some g \<Longrightarrow> contiguous (GuildRanks g)"
  using assms unfolding guilds_ok_def by blast+

lemma guilds_okI:
  assumes "\<And>i. dbGuildRows s i = map_option guild_row (cached_guild i s)"
    "\<And>i g. cached_guild i s = Some g \<Longrightarrow> GuildRanks g = ranks_of i (dbGuildRanks s)"
    "\<And>i g. cached_guild i s = Some g \<Longrightarrow> contiguous (GuildRanks g)"
  shows "guilds_ok s"
  using assms unfolding guilds_ok_def by blast

lemma guilds_ok_same:
  assumes "guilds_ok s" "\<And>i. cached_guild i s' = cached_guild i s" "dbGuildRows s' = dbGuildRows s" "dbGuildRanks s' = dbGuildRanks s"
  shows "guilds_ok s'"
  by (rule guilds_okI) (use guilds_okD [OF assms(1)] in \<open>simp_all only: assms(2-4)\<close>)

section \<open>What the building blocks change\<close>

lemma cached_put_guild [simp]:
  "cached_guild i (put_guild gid f s) = (if i = gid then map_option f (cached_guild gid s) else cached_guild i s)"
  by (auto simp: cached_guild_def put_guild_def split: option.split)

lemma put_guild_fields [simp]:
  "member_ptr guid (put_guild gid f s) = member_ptr guid s" "members_heap (put_guild gid f s) = members_heap s"
  "dbGuildMembers (put_guild gid f s) = dbGuildMembers s" "dbGuildRows (put_guild gid f s) = dbGuildRows s"
  "dbGuildRanks (put_guild gid f s) = dbGuildRanks s" "guildMembersCache (put_guild gid f s) = guildMembersCache s"
  "guildsCache (put_guild gid f s) = None \<longleftrightarrow> guildsCache s = None"
  by (simp_all add: put_guild_def member_ptr_def)

lemma put_member_fields [simp]:
  "member_ptr k (put_member guid f s) = member_ptr k s" "cached_guild i (put_member guid f s) = cached_guild i s"
  "dbGuildMembers (put_member guid f s) = dbGuildMembers s" "dbGuildRows (put_member guid f s) = dbGuildRows s"
  "dbGuildRanks (put_member guid f s) = dbGuildRanks s" "guildsCache (put_member guid f s) = guildsCache s"
  "guildMembersCache (put_member guid f s) = guildMembersCache s"
  "length (members_heap (put_member guid f s)) = length (members_heap s)"
  by (simp_all add: put_member_def member_ptr_def cached_guild_def split: option.split)

lemma put_member_heap:
  "members_ok s \<Longrightarrow> p < length (members_heap s) \<Longrightarrow>
    members_heap (put_member guid f s) ! p = (if member_ptr guid s = Some p then f (members_heap s ! p) else members_heap s ! p)"
  by (auto simp: put_member_def split: option.split)

lemma update_row_fields [simp]:
  "member_ptr k (update_member_row guid f s) = member_ptr k s" "cached_guild i (update_member_row guid f s) = cached_guild i s"
  "members_heap (update_member_row guid f s) = members_heap s" "dbGuildRows (update_member_row guid f s) = dbGuildRows s"
  "dbGuildRanks (update_member_row guid f s) = dbGuildRanks s" "guildsCache (update_member_row guid f s) = guildsCache s"
  "guildMembersCache (update_member_row guid f s) = guildMembersCache s"
  "member_ptr k (update_guild_row gid h s) = member_ptr k s" "cached_guild i (update_guild_row gid h s) = cached_guild i s"
  "members_heap (update_guild_row gid h s) = members_heap s" "dbGuildMembers (update_guild_row gid h s) = dbGuildMembers s"
  "dbGuildRanks (update_guild_row gid h s) = dbGuildRanks s" "guildsCache (update_guild_row gid h s) = guildsCache s"
  "guildMembersCache (update_guild_row gid h s) = guildMembersCache s"
  by (simp_all add: update_member_row_def update_guild_row_def member_ptr_def cached_guild_def)

lemma update_guild_row_rows [simp]:
  "dbGuildRows (update_guild_row gid h s) i = (if i = gid then map_option h (dbGuildRows s gid) else dbGuildRows s i)"
  by (simp add: update_guild_row_def)

section \<open>Writes of one member and of one guild\<close>

definition keeps_ids :: "(GuildMember \<Rightarrow> GuildMember) \<Rightarrow> bool" where
  "keeps_ids f \<longleftrightarrow> (\<forall>m. PlayerGUID (f m) = PlayerGUID m \<and> gmGuildID (f m) = gmGuildID m)"

lemma put_member_ok:
  assumes ok: "members_ok s" and f: "keeps_ids f"
  shows "members_ok (put_member guid f s)"
proof -
  let ?s = "put_member guid f s"
  have ids: "PlayerGUID (members_heap ?s ! p) = PlayerGUID (members_heap s ! p)" "gmGuildID (members_heap ?s ! p) = gmGuildID (members_heap s ! p)"
    if "p < length (members_heap s)" for p
    using put_member_heap [OF ok that, of guid f] f by (simp_all add: keeps_ids_def)
  show ?thesis unfolding members_ok_def using members_okD [OF ok] by (auto simp: ids)
qed

lemma put_member_same_row:
  assumes inv: "guild_inv s" and f: "keeps_ids f" "\<And>m. guild_member_row (f m) = guild_member_row m"
  shows "guild_inv (put_member guid f s)"
proof -
  have ok: "members_ok s" and rows: "rows_ok s" and g: "guilds_ok s" using inv by (auto simp: guild_inv_def)
  have "guild_member_row (members_heap (put_member guid f s) ! p) = guild_member_row (members_heap s ! p)"
    if "member_ptr k s = Some p" for k p
    using put_member_heap [OF ok members_okD(3) [OF ok that], of guid f] f(2) by simp
  then have "rows_ok (put_member guid f s)" using rows by (simp add: rows_ok_def)
  moreover have "guilds_ok (put_member guid f s)" by (rule guilds_ok_same [OF g]) simp_all
  ultimately show ?thesis using put_member_ok [OF ok f(1)] by (simp add: guild_inv_def)
qed

lemma update_member_row_set:
  "keeps_ids f \<Longrightarrow> map PlayerGUID (dbGuildMembers (update_member_row guid f s)) = map PlayerGUID (dbGuildMembers s)"
  by (simp add: update_member_row_def keeps_ids_def)

lemma write_member_inv:
  assumes inv: "guild_inv s" and f: "keeps_ids f" "\<And>m. guild_member_row (f m) = f (guild_member_row m)"
  shows "guild_inv (put_member guid f (update_member_row guid f s))"
proof -
  let ?u = "update_member_row guid f s" and ?s = "put_member guid f (update_member_row guid f s)"
  have ok: "members_ok s" and rows: "rows_ok s" and g: "guilds_ok s" using inv by (auto simp: guild_inv_def)
  have oku: "members_ok ?u" using ok by (simp add: members_ok_def)
  have heap: "members_heap ?s ! p = (if k = guid then f (members_heap s ! p) else members_heap s ! p)"
    if "member_ptr k s = Some p" for k p
  proof -
    have "members_heap ?s ! p = (if member_ptr guid s = Some p then f (members_heap s ! p) else members_heap s ! p)"
      using put_member_heap [OF oku, of p guid f] members_okD(3) [OF ok that] by simp
    moreover have "member_ptr guid s = Some p \<longleftrightarrow> k = guid" using that members_okD(4) [OF ok] by metis
    ultimately show ?thesis by simp
  qed
  have "guild_member_row (members_heap ?s ! p) \<in> set (dbGuildMembers ?s)" if p: "member_ptr k s = Some p" for k p
  proof -
    have r: "guild_member_row (members_heap s ! p) \<in> set (dbGuildMembers s)" using rows p by (simp add: rows_ok_def)
    have "PlayerGUID (guild_member_row (members_heap s ! p)) = k"
      using members_okD(4) [OF ok p] by (simp add: guild_member_row_def)
    then have "guild_member_row (members_heap ?s ! p) =
        (\<lambda>m. if PlayerGUID m = guid then f m else m) (guild_member_row (members_heap s ! p))"
      using heap [OF p] f(2) by simp
    moreover have "dbGuildMembers ?s = map (\<lambda>m. if PlayerGUID m = guid then f m else m) (dbGuildMembers s)"
      by (simp add: update_member_row_def)
    ultimately show ?thesis using r by (simp only: set_map image_eqI)
  qed
  moreover have "dbGuildRows s (gmGuildID r) = None \<or> member_ptr (PlayerGUID r) s \<noteq> None" if "r \<in> set (dbGuildMembers ?s)" for r
    using that rows f(1) by (fastforce simp: update_member_row_def rows_ok_def keeps_ids_def split: if_splits)
  moreover have "distinct (map PlayerGUID (dbGuildMembers ?s))"
    using rows f(1) by (simp add: update_member_row_set rows_ok_def)
  ultimately have "rows_ok ?s" unfolding rows_ok_def by (metis put_member_fields(1,3,4) update_row_fields(1,4))
  moreover have "guilds_ok ?s" by (rule guilds_ok_same [OF g]) simp_all
  ultimately show ?thesis using put_member_ok [OF oku f(1)] by (simp add: guild_inv_def)
qed

definition keeps_guild :: "(Guild \<Rightarrow> Guild) \<Rightarrow> bool" where
  "keeps_guild f \<longleftrightarrow> (\<forall>g. guildID (f g) = guildID g \<and> GuildMembers (f g) = GuildMembers g)"

lemma put_guild_ok: "members_ok s \<Longrightarrow> keeps_guild f \<Longrightarrow> members_ok (put_guild gid f s)"
  unfolding members_ok_def keeps_guild_def by (auto split: if_splits) (metis option.sel)+

lemma write_guild_inv:
  assumes inv: "guild_inv s" and f: "keeps_guild f" "\<And>g. GuildRanks (f g) = GuildRanks g" "\<And>g. guild_row (f g) = f (guild_row g)"
  shows "guild_inv (put_guild gid f (update_guild_row gid f s))"
proof -
  have ok: "members_ok s" and rows: "rows_ok s" and g: "guilds_ok s" using inv by (auto simp: guild_inv_def)
  let ?u = "update_guild_row gid f s" and ?s = "put_guild gid f (update_guild_row gid f s)"
  have "members_ok ?u" using ok by (simp add: members_ok_def)
  from put_guild_ok [OF this f(1)] have "members_ok ?s" .
  moreover have "rows_ok ?s" using rows unfolding rows_ok_def by (simp split: if_split)
  moreover have "guilds_ok ?s"
  proof (rule guilds_okI)
    fix i h assume h: "cached_guild i ?s = Some h"
    then obtain h0 where h0: "cached_guild i s = Some h0" "GuildRanks h = GuildRanks h0"
      using f(2) by (auto split: if_splits)
    show "GuildRanks h = ranks_of i (dbGuildRanks ?s)" "contiguous (GuildRanks h)"
      using guilds_okD(2,3) [OF g h0(1)] h0(2) by simp_all
  qed (use guilds_okD(1) [OF g] f(3) in \<open>auto simp: option.map_comp comp_def\<close>)
  ultimately show ?thesis by (simp add: guild_inv_def)
qed

end
