(* ===== verification/Guild_Members.thy ===== *)
theory Guild_Members
  imports Guild_Invariant
begin

text \<open>Members that join and leave keep the invariant of the guild server.\<close>

section \<open>Members come and go\<close>

definition unique_guids :: "guild_env \<Rightarrow> bool" where
  "unique_guids env \<longleftrightarrow> (\<forall>rows m. PlayerGUID m \<in> PlayerGUID ` set rows \<longrightarrow> memberRejected env rows m)"

lemma guild_member_row_ids [simp]:
  "PlayerGUID (guild_member_row m) = PlayerGUID m" "gmGuildID (guild_member_row m) = gmGuildID m" "mRank (guild_member_row m) = mRank m"
  "guild_member_row (guild_member_row m) = guild_member_row m"
  by (simp_all add: guild_member_row_def)

lemma rows_okD:
  assumes "rows_ok s"
  shows "distinct (map PlayerGUID (dbGuildMembers s))"
    "member_ptr guid s = Some p \<Longrightarrow> guild_member_row (members_heap s ! p) \<in> set (dbGuildMembers s)"
    "r \<in> set (dbGuildMembers s) \<Longrightarrow> dbGuildRows s (gmGuildID r) \<noteq> None \<Longrightarrow> member_ptr (PlayerGUID r) s \<noteq> None"
  using assms unfolding rows_ok_def by blast+

lemma guild_invD: "guild_inv s \<Longrightarrow> members_ok s" "guild_inv s \<Longrightarrow> rows_ok s" "guild_inv s \<Longrightarrow> guilds_ok s"
  by (simp_all add: guild_inv_def)

lemma add_member_inv:
  assumes inv: "guild_inv s" and g: "cached_guild (gmGuildID m) s = Some g" and new: "PlayerGUID m \<notin> PlayerGUID ` set (dbGuildMembers s)"
    and s': "s' = put_guild (gmGuildID m) (\<lambda>g. g\<lparr>GuildMembers := GuildMembers g @ [length (members_heap s)]\<rparr>)
      (s\<lparr>dbGuildMembers := dbGuildMembers s @ [guild_member_row m], members_heap := members_heap s @ [m],
         guildMembersCache := map_option (\<lambda>c. c(PlayerGUID m \<mapsto> length (members_heap s))) (guildMembersCache s)\<rparr>)"
  shows "guild_inv s'"
proof -
  note ok = members_okD [OF guild_invD(1) [OF inv]] and rows = rows_okD [OF guild_invD(2) [OF inv]] and gs = guilds_okD [OF guild_invD(3) [OF inv]]
  let ?n = "length (members_heap s)"
  have absent: "member_ptr (PlayerGUID m) s = None"
  proof (rule ccontr)
    assume "member_ptr (PlayerGUID m) s \<noteq> None"
    then obtain p where p: "member_ptr (PlayerGUID m) s = Some p" by blast
    show False using rows(2) [OF p] ok(4) [OF p] new by (metis guild_member_row_ids(1) image_eqI)
  qed
  have ptr: "member_ptr k s' = (if k = PlayerGUID m then Some ?n else member_ptr k s)" for k
    using ok(2) by (auto simp: s' member_ptr_def)
  have guild: "cached_guild i s' = (if i = gmGuildID m then Some (g\<lparr>GuildMembers := GuildMembers g @ [?n]\<rparr>) else cached_guild i s)" for i
    using g by (simp add: s') (simp add: cached_guild_def)
  have heap: "members_heap s' ! p = (if p = ?n then m else members_heap s ! p)" if "p \<le> ?n" for p
    using that by (auto simp: s' nth_append)
  have flds: "length (members_heap s') = Suc ?n" "dbGuildRows s' = dbGuildRows s" "dbGuildRanks s' = dbGuildRanks s"
      "dbGuildMembers s' = dbGuildMembers s @ [guild_member_row m]" "guildsCache s' \<noteq> None" "guildMembersCache s' \<noteq> None"
    using ok(1,2) by (simp_all add: s')
  have P: "p < length (members_heap s') \<and> PlayerGUID (members_heap s' ! p) = k \<and>
      (\<exists>g. cached_guild (gmGuildID (members_heap s' ! p)) s' = Some g \<and> p \<in> set (GuildMembers g))"
    if k: "member_ptr k s' = Some p" for k p
  proof (cases "k = PlayerGUID m")
    case True
    then have "p = ?n" using k by (simp add: ptr)
    then show ?thesis using True by (simp add: flds(1) heap guild)
  next
    case False
    then have k': "member_ptr k s = Some p" using k by (simp add: ptr)
    obtain h where h: "cached_guild (gmGuildID (members_heap s ! p)) s = Some h" "p \<in> set (GuildMembers h)" using ok(5) [OF k'] by blast
    have hp: "members_heap s' ! p = members_heap s ! p" "p < ?n" using ok(3) [OF k'] heap [of p] by simp_all
    show ?thesis using ok(4) [OF k'] h hp(2) g by (auto simp: hp(1) flds(1) guild)
  qed
  have G: "guildID h = i \<and> distinct (GuildMembers h)" if h: "cached_guild i s' = Some h" for i h
  proof (cases "i = gmGuildID m")
    case True
    then have "h = g\<lparr>GuildMembers := GuildMembers g @ [?n]\<rparr>" using h by (simp add: guild)
    moreover have "?n \<notin> set (GuildMembers g)" using ok(8) [OF g] by blast
    ultimately show ?thesis using True ok(6,7) [OF g] by simp
  next
    case False
    then show ?thesis using h ok(6,7) by (simp add: guild)
  qed
  have M: "p < length (members_heap s') \<and> gmGuildID (members_heap s' ! p) = i \<and> member_ptr (PlayerGUID (members_heap s' ! p)) s' = Some p"
    if h: "cached_guild i s' = Some h" "p \<in> set (GuildMembers h)" for i h p
  proof (cases "p = ?n \<and> i = gmGuildID m")
    case True
    then show ?thesis by (simp add: flds(1) heap ptr)
  next
    case False
    then obtain h0 where h0: "cached_guild i s = Some h0" "p \<in> set (GuildMembers h0)"
      using h g by (cases "i = gmGuildID m") (auto simp: guild)
    have hp: "members_heap s' ! p = members_heap s ! p" "p < ?n" using ok(8) [OF h0] heap [of p] by simp_all
    have "PlayerGUID (members_heap s ! p) \<noteq> PlayerGUID m" using ok(10) [OF h0] absent by auto
    then show ?thesis using ok(9,10) [OF h0] hp(2) by (simp add: hp(1) flds(1) ptr)
  qed
  have "members_ok s'" unfolding members_ok_def using P G M flds(5,6) by blast
  moreover have "rows_ok s'"
    unfolding rows_ok_def
  proof (intro conjI allI impI ballI)
    show "distinct (map PlayerGUID (dbGuildMembers s'))" using rows(1) new by (simp add: flds)
  next
    fix k p assume "member_ptr k s' = Some p"
    then show "guild_member_row (members_heap s' ! p) \<in> set (dbGuildMembers s')"
      using rows(2) [of k p] ok(3) [of k p] heap [of p] by (auto simp: ptr flds split: if_splits)
  next
    fix r assume "r \<in> set (dbGuildMembers s')" "dbGuildRows s' (gmGuildID r) \<noteq> None"
    then show "member_ptr (PlayerGUID r) s' \<noteq> None" using rows(3) [of r] by (auto simp: ptr flds)
  qed
  moreover have "guilds_ok s'"
  proof (rule guilds_okI)
    show "dbGuildRows s' i = map_option guild_row (cached_guild i s')" for i
      using gs(1) [of i] g by (simp add: flds guild guild_row_def)
    fix i h assume "cached_guild i s' = Some h"
    then obtain h0 where h0: "cached_guild i s = Some h0" "GuildRanks h = GuildRanks h0" using g by (auto simp: guild split: if_splits)
    show "GuildRanks h = ranks_of i (dbGuildRanks s')" "contiguous (GuildRanks h)" using gs(2,3) [OF h0(1)] h0(2) by (simp_all add: flds)
  qed
  ultimately show ?thesis by (simp add: guild_inv_def)
qed

lemma cache_AddGuildMember_inv:
  assumes inv: "guild_inv s" and u: "unique_guids env" and g: "cached_guild (gmGuildID m) s = Some g"
    and add: "cache_AddGuildMember env m s = (s', err)"
  shows "guild_inv s' \<and> (err = None \<or> err = Some GuildDB)"
proof (cases "guildDbFails env StmtAddGuildMember \<or> memberRejected env (dbGuildMembers s) (guild_member_row m)")
  case True
  then show ?thesis using add inv by (simp add: cache_AddGuildMember_def mysql_AddGuildMember_def)
next
  case False
  then have new: "PlayerGUID m \<notin> PlayerGUID ` set (dbGuildMembers s)"
    using u unfolding unique_guids_def by (metis guild_member_row_ids(1))
  obtain c where c: "guildMembersCache s = Some c" using members_okD(2) [OF guild_invD(1) [OF inv]] by blast
  have "s' = put_guild (gmGuildID m) (\<lambda>g. g\<lparr>GuildMembers := GuildMembers g @ [length (members_heap s)]\<rparr>)
      (s\<lparr>dbGuildMembers := dbGuildMembers s @ [guild_member_row m], members_heap := members_heap s @ [m],
         guildMembersCache := map_option (\<lambda>c. c(PlayerGUID m \<mapsto> length (members_heap s))) (guildMembersCache s)\<rparr>) \<and> err = None"
    using add False c g by (auto simp: cache_AddGuildMember_def mysql_AddGuildMember_def Let_def cached_guild_def split: if_splits)
  then show ?thesis using add_member_inv [OF inv g new] by blast
qed

lemma remove_first_cong: "(\<And>x. x \<in> set xs \<Longrightarrow> P x = Q x) \<Longrightarrow> remove_first P xs = remove_first Q xs"
  by (induction xs) auto

lemma guid_pointer:
  assumes "members_ok s" "member_ptr guid s = Some p" "cached_guild i s = Some g" "q \<in> set (GuildMembers g)"
  shows "PlayerGUID (members_heap s ! q) = guid \<longleftrightarrow> q = p"
proof
  assume "PlayerGUID (members_heap s ! q) = guid"
  with members_okD(10) [OF assms(1,3,4)] have "member_ptr guid s = Some q" by (simp only:)
  with assms(2) show "q = p" by (simp only: option.inject)
qed (use members_okD(4) [OF assms(1,2)] in \<open>simp only:\<close>)

lemma remove_member_inv:
  assumes inv: "guild_inv s" and p: "member_ptr guid s = Some p"
    and s': "s' = put_guild (gmGuildID (members_heap s ! p)) (\<lambda>g. g\<lparr>GuildMembers :=
        remove_first (\<lambda>q. PlayerGUID (members_heap s ! q) = guid) (GuildMembers g)\<rparr>)
      (s\<lparr>dbGuildMembers := filter (\<lambda>m. PlayerGUID m \<noteq> guid) (dbGuildMembers s),
         guildMembersCache := map_option (\<lambda>c. c(guid := None)) (guildMembersCache s)\<rparr>)"
  shows "guild_inv s'"
proof -
  note ok = members_okD [OF guild_invD(1) [OF inv]] and rows = rows_okD [OF guild_invD(2) [OF inv]] and gs = guilds_okD [OF guild_invD(3) [OF inv]]
  let ?i = "gmGuildID (members_heap s ! p)"
  obtain g where g: "cached_guild ?i s = Some g" "p \<in> set (GuildMembers g)" using ok(5) [OF p] by blast
  have "remove_first (\<lambda>q. PlayerGUID (members_heap s ! q) = guid) (GuildMembers g) = remove_first (\<lambda>q. q = p) (GuildMembers g)"
  proof (rule remove_first_cong)
    fix q assume q: "q \<in> set (GuildMembers g)"
    show "(PlayerGUID (members_heap s ! q) = guid) = (q = p)" by (rule guid_pointer [OF guild_invD(1) [OF inv] p g(1) q])
  qed
  then have rem: "remove_first (\<lambda>q. PlayerGUID (members_heap s ! q) = guid) (GuildMembers g) = filter (\<lambda>q. q \<noteq> p) (GuildMembers g)"
    by (simp only: remove_first_distinct [OF ok(7) [OF g(1)]])
  have ptr: "member_ptr k s' = (if k = guid then None else member_ptr k s)" for k
    using ok(2) by (auto simp: s' member_ptr_def)
  have guild: "cached_guild i s' = (if i = ?i then Some (g\<lparr>GuildMembers := filter (\<lambda>q. q \<noteq> p) (GuildMembers g)\<rparr>) else cached_guild i s)" for i
    using g rem by (simp add: s') (simp add: cached_guild_def)
  have flds: "members_heap s' = members_heap s" "dbGuildRows s' = dbGuildRows s" "dbGuildRanks s' = dbGuildRanks s"
      "dbGuildMembers s' = filter (\<lambda>m. PlayerGUID m \<noteq> guid) (dbGuildMembers s)" "guildsCache s' \<noteq> None" "guildMembersCache s' \<noteq> None"
    using ok(1,2) by (simp_all add: s')
  have P: "k < length (members_heap s') \<and> PlayerGUID (members_heap s' ! k) = j \<and>
      (\<exists>g. cached_guild (gmGuildID (members_heap s' ! k)) s' = Some g \<and> k \<in> set (GuildMembers g))"
    if k: "member_ptr j s' = Some k" for j k
  proof -
    have k': "member_ptr j s = Some k" "j \<noteq> guid" using k by (auto simp: ptr split: if_splits)
    have "k \<noteq> p" using ok(4) [OF k'(1)] ok(4) [OF p] k'(2) by auto
    obtain h where h: "cached_guild (gmGuildID (members_heap s ! k)) s = Some h" "k \<in> set (GuildMembers h)" using ok(5) [OF k'(1)] by blast
    then show ?thesis using ok(3,4) [OF k'(1)] \<open>k \<noteq> p\<close> g
      by (cases "gmGuildID (members_heap s ! k) = ?i") (simp_all add: flds(1) guild)
  qed
  have G: "guildID h = i \<and> distinct (GuildMembers h)" if h: "cached_guild i s' = Some h" for i h
  proof -
    obtain h0 where h0: "cached_guild i s = Some h0" "guildID h = guildID h0"
        "GuildMembers h = GuildMembers h0 \<or> GuildMembers h = filter (\<lambda>q. q \<noteq> p) (GuildMembers h0)"
      using h g by (cases "i = ?i") (auto simp: guild)
    show ?thesis using ok(6,7) [OF h0(1)] h0(2,3) by auto
  qed
  have M: "q < length (members_heap s') \<and> gmGuildID (members_heap s' ! q) = i \<and> member_ptr (PlayerGUID (members_heap s' ! q)) s' = Some q"
    if h: "cached_guild i s' = Some h" "q \<in> set (GuildMembers h)" for i h q
  proof -
    obtain h0 where h0: "cached_guild i s = Some h0" "q \<in> set (GuildMembers h0)" "i = ?i \<longrightarrow> q \<noteq> p"
      using h g by (cases "i = ?i") (auto simp: guild)
    have "q \<noteq> p" using h0(3) ok(9) [OF h0(1,2)] by blast
    then have "PlayerGUID (members_heap s ! q) \<noteq> guid" using ok(10) [OF h0(1,2)] p by auto
    then show ?thesis using ok(8-10) [OF h0(1,2)] by (simp add: flds(1) ptr)
  qed
  have "members_ok s'" unfolding members_ok_def using P G M flds(5,6) by blast
  moreover have "rows_ok s'"
    unfolding rows_ok_def
  proof (intro conjI allI impI ballI)
    show "distinct (map PlayerGUID (dbGuildMembers s'))" using rows(1) by (simp add: flds distinct_map_filter)
  next
    fix k q assume q: "member_ptr k s' = Some q"
    then have q': "member_ptr k s = Some q" "k \<noteq> guid" by (auto simp: ptr split: if_splits)
    then show "guild_member_row (members_heap s' ! q) \<in> set (dbGuildMembers s')"
      using rows(2) [OF q'(1)] ok(4) [OF q'(1)] by (simp add: flds)
  next
    fix r assume "r \<in> set (dbGuildMembers s')" "dbGuildRows s' (gmGuildID r) \<noteq> None"
    then show "member_ptr (PlayerGUID r) s' \<noteq> None" using rows(3) [of r] by (simp add: ptr flds)
  qed
  moreover have "guilds_ok s'"
  proof (rule guilds_okI)
    show "dbGuildRows s' i = map_option guild_row (cached_guild i s')" for i
      using gs(1) [of i] g by (simp add: flds guild guild_row_def)
    fix i h assume "cached_guild i s' = Some h"
    then obtain h0 where h0: "cached_guild i s = Some h0" "GuildRanks h = GuildRanks h0" using g by (auto simp: guild split: if_splits)
    show "GuildRanks h = ranks_of i (dbGuildRanks s')" "contiguous (GuildRanks h)" using gs(2,3) [OF h0(1)] h0(2) by (simp_all add: flds)
  qed
  ultimately show ?thesis by (simp add: guild_inv_def)
qed

text \<open>A row without a cached member belongs to a guild that does not exist.\<close>

lemma remove_row_inv:
  assumes inv: "guild_inv s" and p: "member_ptr guid s = None"
  shows "guild_inv (s\<lparr>dbGuildMembers := filter (\<lambda>m. PlayerGUID m \<noteq> guid) (dbGuildMembers s)\<rparr>)"
proof -
  let ?s = "s\<lparr>dbGuildMembers := filter (\<lambda>m. PlayerGUID m \<noteq> guid) (dbGuildMembers s)\<rparr>"
  have same [simp]: "member_ptr k ?s = member_ptr k s" "cached_guild i ?s = cached_guild i s" for k i
    by (simp_all add: member_ptr_def cached_guild_def)
  note rows = rows_okD [OF guild_invD(2) [OF inv]]
  have "members_ok ?s" using guild_invD(1) [OF inv] by (simp add: members_ok_def)
  moreover have "rows_ok ?s"
    unfolding rows_ok_def
  proof (intro conjI allI impI ballI)
    fix k q assume q: "member_ptr k ?s = Some q"
    then have "k \<noteq> guid" using p by auto
    then show "guild_member_row (members_heap ?s ! q) \<in> set (dbGuildMembers ?s)"
      using rows(2) [of k q] q members_okD(4) [OF guild_invD(1) [OF inv], of k q] by simp
  qed (use rows(1,3) in \<open>auto simp: distinct_map_filter\<close>)
  moreover have "guilds_ok ?s" by (rule guilds_ok_same [OF guild_invD(3) [OF inv]]) simp_all
  ultimately show ?thesis by (simp add: guild_inv_def)
qed

lemma cache_RemoveGuildMember_inv:
  assumes inv: "guild_inv s" and rem: "cache_RemoveGuildMember env guid s = (s', err)"
  shows "guild_inv s' \<and> (err = None \<or> err = Some GuildDB)"
proof (cases "guildDbFails env StmtRemoveGuildMember")
  case True
  then show ?thesis using rem inv by (simp add: cache_RemoveGuildMember_def mysql_RemoveGuildMember_def)
next
  case False
  let ?s1 = "s\<lparr>dbGuildMembers := filter (\<lambda>m. PlayerGUID m \<noteq> guid) (dbGuildMembers s)\<rparr>"
  have same: "member_ptr guid ?s1 = member_ptr guid s" "members_heap ?s1 = members_heap s" by (simp_all add: member_ptr_def)
  show ?thesis
  proof (cases "member_ptr guid s")
    case None
    then have "s' = ?s1" "err = None" using rem False same by (simp_all add: cache_RemoveGuildMember_def mysql_RemoveGuildMember_def)
    then show ?thesis using remove_row_inv [OF inv None] by simp
  next
    case (Some p)
    obtain g where g: "cached_guild (gmGuildID (members_heap s ! p)) s = Some g"
      using members_okD(5) [OF guild_invD(1) [OF inv] Some] by blast
    have "s' = put_guild (gmGuildID (members_heap s ! p)) (\<lambda>g. g\<lparr>GuildMembers :=
        remove_first (\<lambda>q. PlayerGUID (members_heap s ! q) = guid) (GuildMembers g)\<rparr>)
      (s\<lparr>dbGuildMembers := filter (\<lambda>m. PlayerGUID m \<noteq> guid) (dbGuildMembers s),
         guildMembersCache := map_option (\<lambda>c. c(guid := None)) (guildMembersCache s)\<rparr>) \<and> err = None"
      using rem False same Some g
      by (auto simp: cache_RemoveGuildMember_def mysql_RemoveGuildMember_def Let_def cached_guild_def split: if_splits)
    then show ?thesis using remove_member_inv [OF inv Some] by blast
  qed
qed

end
