(* ===== verification/Guild_Ranks.thy ===== *)
theory Guild_Ranks
  imports Guild_Members "HOL-Library.Multiset"
begin

text \<open>The operations on ranks keep the invariant of the guild server, and loading a realm establishes it.\<close>

section \<open>Ranks\<close>

lemma insort_key_append:
  "f a \<le> f x \<Longrightarrow> insort_key f a (zs @ [x]) = insort_key f a zs @ [x]"
  for f :: "'a \<Rightarrow> nat"
  by (induction zs) auto

lemma sort_key_append_last:
  "\<forall>y\<in>set ys. f y \<le> f x \<Longrightarrow> sort_key f (ys @ [x]) = sort_key f ys @ [x]"
  for f :: "'a \<Rightarrow> nat"
  by (induction ys) (auto simp: insort_key_append)

lemma insort_key_map: "(\<And>x. f (h x) = f x) \<Longrightarrow> insort_key f (h a) (map h zs) = map h (insort_key f a zs)"
  by (induction zs) auto

lemma sort_key_map: "(\<And>x. f (h x) = f x) \<Longrightarrow> sort_key f (map h ys) = map h (sort_key f ys)"
  by (induction ys) (auto simp: insort_key_map)

lemma set_ranks_of: "set (ranks_of i rows) = {r \<in> set rows. rGuildID r = i}"
  by (simp add: ranks_of_def)

lemma contiguous_Rank:
  assumes "contiguous rs" "r \<in> set rs"
  shows "unat (Rank r) < length rs"
proof -
  have "unat (Rank r) \<in> set (map (\<lambda>r. unat (Rank r)) rs)" using assms(2) by simp
  then show ?thesis using assms(1) by (simp only: contiguous_def) simp
qed

lemma contiguous_nth: "contiguous rs \<Longrightarrow> k < length rs \<Longrightarrow> unat (Rank (rs ! k)) = k"
  using nth_map [of k rs "\<lambda>r. unat (Rank r)"] by (simp add: contiguous_def)

lemma contiguous_append:
  "contiguous rs \<Longrightarrow> length rs < GuildRankMax \<Longrightarrow> unat (Rank r) = length rs \<Longrightarrow> contiguous (rs @ [r])"
  by (simp add: contiguous_def)

lemma contiguous_take: "contiguous rs \<Longrightarrow> contiguous (take k rs)"
  by (auto simp: contiguous_def take_map [symmetric] min_def)

lemma contiguous_map:
  "contiguous rs \<Longrightarrow> (\<And>r. Rank (h r) = Rank r) \<Longrightarrow> contiguous (map h rs)"
  by (simp add: contiguous_def comp_def)

lemma contiguous_cut:
  assumes "contiguous rs"
  shows "filter (\<lambda>r. \<not> k \<le> Rank r) rs = take (unat k) rs"
proof -
  have "filter (\<lambda>r. \<not> k \<le> Rank r) (take (unat k) rs) = take (unat k) rs"
  proof (rule filter_True, rule ballI)
    fix r assume r: "r \<in> set (take (unat k) rs)"
    then obtain j where j: "j < unat k" "j < length rs" "r = rs ! j" by (auto simp: in_set_conv_nth)
    then show "\<not> k \<le> Rank r" using contiguous_nth [OF assms j(2)] by (simp add: word_le_nat_alt)
  qed
  moreover have "filter (\<lambda>r. \<not> k \<le> Rank r) (drop (unat k) rs) = []"
  proof (rule filter_False, rule ballI)
    fix r assume r: "r \<in> set (drop (unat k) rs)"
    then obtain j where "j < length (drop (unat k) rs)" "r = drop (unat k) rs ! j" by (auto simp: in_set_conv_nth simp del: nth_drop)
    then have j: "unat k + j < length rs" "r = rs ! (unat k + j)" by simp_all
    then show "\<not> \<not> k \<le> Rank r" using contiguous_nth [OF assms j(1)] by (simp add: word_le_nat_alt)
  qed
  ultimately show ?thesis
    using filter_append [of "\<lambda>r. \<not> k \<le> Rank r" "take (unat k) rs" "drop (unat k) rs"] by simp
qed

lemma lowest_contiguous:
  assumes "contiguous rs"
  shows "foldl (\<lambda>h r. if h < Rank r then Rank r else h) 0 rs = of_nat (length rs - 1)"
  using assms
proof (induction rs rule: rev_induct)
  case (snoc r rs)
  have c: "contiguous rs" using contiguous_take [OF snoc.prems, of "length rs"] by simp
  have r: "unat (Rank r) = length rs" using contiguous_nth [OF snoc.prems, of "length rs"] by simp
  have l: "length rs \<le> 10" using snoc.prems by (simp add: contiguous_def)
  from r have R: "Rank r = of_nat (length rs)" using word_unat_eq_iff [of "Rank r" "of_nat (length rs)"] l by (simp add: unat_of_nat)
  have u: "unat (of_nat (length rs - 1) :: u8) = length rs - 1" using l by (simp add: unat_of_nat)
  have "(of_nat (length rs - 1) :: u8) < Rank r \<or> length rs = 0"
    using r u by (cases "length rs") (simp_all add: word_less_nat_alt)
  then show ?case using snoc.IH [OF c] R by auto
qed simp

lemma write_ranks_inv:
  assumes inv: "guild_inv s" and s': "s' = put_guild gid (\<lambda>g. g\<lparr>GuildRanks := F (GuildRanks g)\<rparr>) (s\<lparr>dbGuildRanks := rows\<rparr>)"
    and other: "\<And>i. i \<noteq> gid \<Longrightarrow> ranks_of i rows = ranks_of i (dbGuildRanks s)"
    and own: "\<And>g. cached_guild gid s = Some g \<Longrightarrow> ranks_of gid rows = F (GuildRanks g) \<and> contiguous (F (GuildRanks g))"
  shows "guild_inv s'"
proof -
  let ?u = "s\<lparr>dbGuildRanks := rows\<rparr>"
  have same [simp]: "member_ptr k ?u = member_ptr k s" "cached_guild i ?u = cached_guild i s" for k i
    by (simp_all add: member_ptr_def cached_guild_def)
  have "members_ok ?u" using guild_invD(1) [OF inv] by (simp add: members_ok_def)
  then have "members_ok s'" unfolding s' by (rule put_guild_ok) (simp add: keeps_guild_def)
  moreover have "rows_ok s'" using guild_invD(2) [OF inv] by (simp add: s' rows_ok_def)
  moreover have "guilds_ok s'"
  proof (rule guilds_okI)
    show "dbGuildRows s' i = map_option guild_row (cached_guild i s')" for i
      using guilds_okD(1) [OF guild_invD(3) [OF inv], of i] 
      by (simp add: s' guild_row_def [abs_def] option.map_comp comp_def)
    fix i h assume h: "cached_guild i s' = Some h"
    show "GuildRanks h = ranks_of i (dbGuildRanks s')" "contiguous (GuildRanks h)"
      using h guilds_okD(2,3) [OF guild_invD(3) [OF inv], of i h] other [of i] own by (auto simp: s' split: if_splits)
  qed
  ultimately show ?thesis by (simp add: guild_inv_def)
qed

lemma distinct_contiguous: "contiguous rs \<Longrightarrow> distinct (map Rank rs)"
  using distinct_map [of unat "map Rank rs"] by (simp add: contiguous_def comp_def)

lemma replace_rank_map:
  "distinct (map Rank rs) \<Longrightarrow> replace_rank r rs = map (\<lambda>x. if Rank x = Rank r then r else x) rs"
proof (induction rs)
  case (Cons x xs)
  then have "map (\<lambda>x. if Rank x = Rank r then r else x) xs = xs" if "Rank x = Rank r"
    using Cons.prems that by (intro map_idI) (auto simp: image_iff)
  with Cons show ?case by (auto simp: image_iff)
qed simp

lemma update_rank_inv:
  assumes inv: "guild_inv s"
  shows "guild_inv (fst (cache_UpdateGuildRank env gid rank name rights money s))"
proof (cases "guildDbFails env StmtUpdateGuildRank")
  case True
  then show ?thesis using inv by (simp add: cache_UpdateGuildRank_def mysql_UpdateGuildRank_def after_write_def)
next
  case False
  let ?r = "\<lparr>rGuildID = gid, Rank = rank, rName = name, Rights = rights, MoneyPerDay = money\<rparr>"
  let ?h = "\<lambda>r. if Rank r = rank \<and> rGuildID r = gid then r\<lparr>rName := name, Rights := rights, MoneyPerDay := money\<rparr> else r"
  have h: "Rank (?h r) = Rank r" "rGuildID (?h r) = rGuildID r" for r by simp_all
  have rk: "ranks_of i (map ?h rows) = map ?h (ranks_of i rows)" for i rows
  proof -
    have "filter (\<lambda>r. rGuildID r = i) (map ?h rows) = map ?h (filter (\<lambda>r. rGuildID r = i) rows)"
      unfolding filter_map comp_def h(2) ..
    then show ?thesis unfolding ranks_of_def by (simp only: sort_key_map [of "\<lambda>r. unat (Rank r)" ?h] h(1))
  qed
  have "guild_inv (put_guild gid (\<lambda>g. g\<lparr>GuildRanks := replace_rank ?r (GuildRanks g)\<rparr>) (s\<lparr>dbGuildRanks := map ?h (dbGuildRanks s)\<rparr>))"
  proof (rule write_ranks_inv [OF inv refl])
    fix i assume "i \<noteq> gid"
    then show "ranks_of i (map ?h (dbGuildRanks s)) = ranks_of i (dbGuildRanks s)"
      unfolding rk by (intro map_idI) (auto simp: set_ranks_of)
  next
    fix g assume g: "cached_guild gid s = Some g"
    note rs = guilds_okD(2,3) [OF guild_invD(3) [OF inv] g]
    have "replace_rank ?r (GuildRanks g) = map ?h (GuildRanks g)"
      unfolding replace_rank_map [OF distinct_contiguous [OF rs(2)]] by (intro map_cong) (auto simp: rs(1) set_ranks_of)
    moreover have "contiguous (map ?h (GuildRanks g))" by (rule contiguous_map [OF rs(2)]) simp
    ultimately show "ranks_of gid (map ?h (dbGuildRanks s)) = replace_rank ?r (GuildRanks g) \<and> contiguous (replace_rank ?r (GuildRanks g))"
      unfolding rk by (simp add: rs(1) [symmetric])
  qed
  then show ?thesis using False by (simp add: cache_UpdateGuildRank_def mysql_UpdateGuildRank_def after_write_def)
qed

lemma add_rank_inv:
  assumes inv: "guild_inv s" and g: "cached_guild gid s = Some g" "length (GuildRanks g) < GuildRankMax" "GuildRanks g \<noteq> []"
  shows "guild_inv (fst (cache_AddGuildRank env gid (lowestRankInGuild g + 1) name rights money s))"
proof -
  let ?r = "\<lparr>rGuildID = gid, Rank = lowestRankInGuild g + 1, rName = name, Rights = rights, MoneyPerDay = money\<rparr>"
  note rs = guilds_okD(2,3) [OF guild_invD(3) [OF inv] g(1)]
  have "lowestRankInGuild g = of_nat (length (GuildRanks g) - 1)"
    unfolding lowestRankInGuild_def by (rule lowest_contiguous [OF rs(2)])
  then have "Rank ?r = of_nat (length (GuildRanks g))"
    using g(3) by (cases "GuildRanks g") (simp_all add: add.commute)
  then have rank: "unat (Rank ?r) = length (GuildRanks g)" using g(2) by (simp add: unat_of_nat)
  have own: "ranks_of gid (dbGuildRanks s @ [?r]) = ranks_of gid (dbGuildRanks s) @ [?r]"
  proof -
    have "\<forall>y\<in>set (filter (\<lambda>r. rGuildID r = gid) (dbGuildRanks s)). unat (Rank y) \<le> unat (Rank ?r)"
      using contiguous_Rank [OF rs(2)] rank by (auto simp: rs(1) set_ranks_of less_imp_le)
    from sort_key_append_last [OF this] show ?thesis by (simp add: ranks_of_def)
  qed
  have other: "ranks_of i (dbGuildRanks s @ [?r]) = ranks_of i (dbGuildRanks s)" if "i \<noteq> gid" for i
    using that by (simp add: ranks_of_def)
  have "guild_inv (put_guild gid (\<lambda>g. g\<lparr>GuildRanks := GuildRanks g @ [?r]\<rparr>) (s\<lparr>dbGuildRanks := dbGuildRanks s @ [?r]\<rparr>))"
    by (rule write_ranks_inv [OF inv refl other])
      (use g contiguous_append [OF rs(2) g(2) rank] own rs(1) in simp_all)
  then show ?thesis using inv by (simp add: cache_AddGuildRank_def mysql_AddGuildRank_def after_write_def Let_def)
qed

lemma delete_rank_inv:
  assumes inv: "guild_inv s" and g: "cached_guild gid s = Some g"
  shows "guild_inv (fst (cache_DeleteLowestGuildRank env gid (lowestRankInGuild g) s))"
proof -
  note rs = guilds_okD(2,3) [OF guild_invD(3) [OF inv] g]
  let ?k = "lowestRankInGuild g"
  let ?rows = "filter (\<lambda>r. \<not> (rGuildID r = gid \<and> ?k \<le> Rank r)) (dbGuildRanks s)"
  let ?F = "\<lambda>l. if length l < unat ?k then l else take (unat ?k) l"
  have "length (GuildRanks g) \<le> 10" using rs(2) by (simp add: contiguous_def)
  then have "unat ?k = length (GuildRanks g) - 1"
    unfolding lowestRankInGuild_def lowest_contiguous [OF rs(2)] by (simp add: unat_of_nat)
  then have "\<not> length (GuildRanks g) < unat ?k" by linarith
  then have F: "?F (GuildRanks g) = take (unat ?k) (GuildRanks g)" by (simp only: if_False)
  have "filter (\<lambda>r. rGuildID r = gid) ?rows = filter (\<lambda>r. \<not> ?k \<le> Rank r) (filter (\<lambda>r. rGuildID r = gid) (dbGuildRanks s))"
    unfolding filter_filter by (rule filter_cong) auto
  then have own: "ranks_of gid ?rows = take (unat ?k) (GuildRanks g)"
    unfolding ranks_of_def
    by (simp only: filter_sort [of "\<lambda>r. \<not> ?k \<le> Rank r", symmetric])
      (simp only: ranks_of_def [symmetric] rs(1) [symmetric] contiguous_cut [OF rs(2)])
  have other: "ranks_of i ?rows = ranks_of i (dbGuildRanks s)" if "i \<noteq> gid" for i
    unfolding ranks_of_def filter_filter using that by (intro arg_cong [of _ _ "sort_key _"] filter_cong) auto
  have "guild_inv (put_guild gid (\<lambda>g. g\<lparr>GuildRanks := ?F (GuildRanks g)\<rparr>) (s\<lparr>dbGuildRanks := ?rows\<rparr>))"
  proof (rule write_ranks_inv [OF inv refl other])
    fix h assume "cached_guild gid s = Some h"
    then have "h = g" using g by simp
    then show "ranks_of gid ?rows = ?F (GuildRanks h) \<and> contiguous (?F (GuildRanks h))"
      using contiguous_take [OF rs(2)] by (simp only: own F simp_thms)
  qed
  moreover have "put_guild gid (\<lambda>g. if length (GuildRanks g) < unat ?k then g else g\<lparr>GuildRanks := take (unat ?k) (GuildRanks g)\<rparr>) =
      put_guild gid (\<lambda>g. g\<lparr>GuildRanks := ?F (GuildRanks g)\<rparr>)"
    by (intro arg_cong [of _ _ "put_guild gid"] ext) simp
  ultimately show ?thesis using inv
    by (simp add: cache_DeleteLowestGuildRank_def mysql_DeleteLowestGuildRank_def after_write_def)
qed

section \<open>Loading a realm\<close>

definition db_ok :: "guilds_realm \<Rightarrow> bool" where
  "db_ok s \<longleftrightarrow> distinct (map PlayerGUID (dbGuildMembers s)) \<and> (\<forall>r\<in>set (dbGuildMembers s). guild_member_row r = r) \<and>
     (\<forall>i g. dbGuildRows s i = Some g \<longrightarrow> guildID g = i \<and> guild_row g = g) \<and>
     (\<forall>i. dbGuildRows s i \<noteq> None \<longrightarrow> contiguous (ranks_of i (dbGuildRanks s)))"

definition reorders :: "guild_env \<Rightarrow> bool" where
  "reorders env \<longleftrightarrow> (\<forall>rows. mset (memberOrder env rows) = mset rows)"

lemma scan_member_row [simp]:
  "PlayerGUID (scan_member env r) = PlayerGUID r" "gmGuildID (scan_member env r) = gmGuildID r"
  "guild_member_row (scan_member env r) = guild_member_row r"
  by (simp_all add: scan_member_def guild_member_row_def split: option.split)

lemma Warmup_inv:
  assumes db: "db_ok s" and ord: "reorders env" and w: "Warmup env s = (s', None)"
  shows "guild_inv s'"
proof -
  let ?ms = "scanned_members env s" and ?b = "length (members_heap s)"
  let ?heap = "members_heap s @ scanned_members env s"
  have perm: "set (memberOrder env rows) = set rows" "distinct (map PlayerGUID (memberOrder env rows)) = distinct (map PlayerGUID rows)" for rows
    using ord mset_eq_setD [of "memberOrder env rows" rows] mset_eq_imp_distinct_iff [of "map PlayerGUID (memberOrder env rows)" "map PlayerGUID rows"]
    by (simp_all add: reorders_def)
  have dist: "distinct (map PlayerGUID ?ms)"
    using db perm(2) [of "dbGuildMembers s"]
    by (simp add: scanned_members_def db_ok_def filter_map comp_def distinct_map_filter)
  have ms: "m \<in> set ?ms \<longleftrightarrow> (\<exists>r\<in>set (dbGuildMembers s). m = scan_member env r \<and> dbGuildRows s (gmGuildID r) \<noteq> None)" for m
    by (auto simp: scanned_members_def perm(1))
  have hp: "p \<in> set [?b..<?b + length ?ms] \<Longrightarrow> ?heap ! p \<in> set ?ms" for p by (auto simp: nth_append)
  have inj: "p = q" if pq: "p \<in> set [?b..<?b + length ?ms]" "q \<in> set [?b..<?b + length ?ms]" "PlayerGUID (?heap ! p) = PlayerGUID (?heap ! q)" for p q
  proof -
    obtain i j where ij: "p = ?b + i" "q = ?b + j" "i < length ?ms" "j < length ?ms"
      using pq(1,2) by (auto simp: le_iff_add)
    have "map PlayerGUID ?ms ! i = map PlayerGUID ?ms ! j" using pq(3) ij by (simp add: nth_append)
    then show ?thesis using nth_eq_iff_index_eq [OF dist, of i j] ij by simp
  qed
  have s': "members_heap s' = ?heap" "dbGuildRows s' = dbGuildRows s" "dbGuildRanks s' = dbGuildRanks s" "dbGuildMembers s' = dbGuildMembers s"
      "guildsCache s' \<noteq> None" "guildMembersCache s' \<noteq> None"
      "\<And>i. cached_guild i s' = map_option (\<lambda>g. g\<lparr>gRealmID := 0, GuildRanks := ranks_of i (dbGuildRanks s),
         GuildMembers := filter (\<lambda>p. gmGuildID (?heap ! p) = i) [?b..<?b + length ?ms]\<rparr>) (dbGuildRows s i)"
      "\<And>guid. member_ptr guid s' = map_of (rev (map (\<lambda>p. (PlayerGUID (?heap ! p), p)) [?b..<?b + length ?ms])) guid"
    using w by (auto simp: Warmup_def LoadAllForRealm_def Let_def cached_guild_def member_ptr_def split: if_splits)
  have ptr: "member_ptr guid s' = Some p \<longleftrightarrow> p \<in> set [?b..<?b + length ?ms] \<and> PlayerGUID (?heap ! p) = guid" for guid p
  proof -
    have "distinct (map fst (rev (map (\<lambda>p. (PlayerGUID (?heap ! p), p)) [?b..<?b + length ?ms])))"
      unfolding rev_map [symmetric] map_map by (simp add: comp_def distinct_map inj_on_def) (use inj in auto)
    from map_of_eq_Some_iff [OF this] show ?thesis unfolding s'(8) by auto
  qed
  have "members_ok s'"
    unfolding members_ok_def
  proof (intro conjI allI impI ballI)
    fix guid p assume p: "member_ptr guid s' = Some p"
    then have q: "p \<in> set [?b..<?b + length ?ms]" "PlayerGUID (?heap ! p) = guid" by (simp_all only: ptr)
    show "p < length (members_heap s')" "PlayerGUID (members_heap s' ! p) = guid" using q by (simp_all add: s'(1))
    have "dbGuildRows s (gmGuildID (?heap ! p)) \<noteq> None" using hp [OF q(1)] by (auto simp: ms)
    then show "\<exists>g. cached_guild (gmGuildID (members_heap s' ! p)) s' = Some g \<and> p \<in> set (GuildMembers g)"
      using q(1) by (auto simp: s'(1,7))
  next
    fix i g assume "cached_guild i s' = Some g"
    then show "guildID g = i" "distinct (GuildMembers g)" using db by (auto simp: s'(7) db_ok_def)
  next
    fix i g p assume "cached_guild i s' = Some g" "p \<in> set (GuildMembers g)"
    then have q: "p \<in> set [?b..<?b + length ?ms]" "gmGuildID (?heap ! p) = i" by (auto simp: s'(7))
    then show "p < length (members_heap s')" "gmGuildID (members_heap s' ! p) = i" by (simp_all add: s'(1))
    show "member_ptr (PlayerGUID (members_heap s' ! p)) s' = Some p" unfolding ptr s'(1) using q(1) by blast
  qed (use s'(5,6) in blast)+
  moreover have "rows_ok s'"
    unfolding rows_ok_def
  proof (intro conjI allI impI ballI)
    show "distinct (map PlayerGUID (dbGuildMembers s'))" using db by (simp add: db_ok_def s'(4))
  next
    fix guid p assume p: "member_ptr guid s' = Some p"
    then have "?heap ! p \<in> set ?ms" using hp by (simp only: ptr)
    then obtain r where "r \<in> set (dbGuildMembers s)" "?heap ! p = scan_member env r" using ms by blast
    then show "guild_member_row (members_heap s' ! p) \<in> set (dbGuildMembers s')" using db by (simp add: s'(1,4) db_ok_def)
  next
    fix r assume r: "r \<in> set (dbGuildMembers s')" "dbGuildRows s' (gmGuildID r) \<noteq> None"
    then have "scan_member env r \<in> set ?ms" using ms s'(2,4) by metis
    then obtain k where "k < length ?ms" "?ms ! k = scan_member env r" by (auto simp: in_set_conv_nth)
    then have "member_ptr (PlayerGUID r) s' = Some (?b + k)" unfolding ptr by (simp add: nth_append)
    then show "member_ptr (PlayerGUID r) s' \<noteq> None" by simp
  qed
  moreover have "guilds_ok s'"
  proof (rule guilds_okI)
    show "dbGuildRows s' i = map_option guild_row (cached_guild i s')" for i
      using db by (cases "dbGuildRows s i") (auto simp: s'(2,7) db_ok_def guild_row_def)
    fix i g assume "cached_guild i s' = Some g"
    then show "GuildRanks g = ranks_of i (dbGuildRanks s')" "contiguous (GuildRanks g)" using db by (auto simp: s'(3,7) db_ok_def)
  qed
  ultimately show ?thesis by (simp add: guild_inv_def)
qed

end
