(* ===== verification/Guild_Server.thy ===== *)
theory Guild_Server
  imports Guild_Ranks
begin

text \<open>
  The calls and events the guild server handles, what every sequence of them keeps true, and the calls on which
  its checks fail.
\<close>

section \<open>Calls\<close>

datatype guild_call =
    CallInvite u32 u64 u64 string | CallAccept InviteAcceptedParams | CallLeave u64 | CallKick u64 u64
  | CallMotd u64 string | CallInfo u64 string | CallPublicNote u64 u64 string | CallOfficerNote u64 u64 string
  | CallUpdateRank u64 u8 string u32 u32 | CallAddRank u64 string | CallDeleteRank u64
  | CallPromote u64 u64 | CallDemote u64 u64 | CallMessage u32 u64 string u32 bool
  | EvLoggedIn u64 | EvLoggedOut u64 | EvUpdates "CharacterUpdate list" | EvDisconnected "u64 list"

fun run_call :: "guild_env \<Rightarrow> guild_call \<Rightarrow> guilds_realm \<Rightarrow> guild_result" where
  "run_call env (CallInvite r i g n) s = InviteMember env r i g n s"
| "run_call env (CallAccept p) s = InviteAccepted env p s"
| "run_call env (CallLeave u) s = Leave env u s"
| "run_call env (CallKick u t) s = Kick env u t s"
| "run_call env (CallMotd u m) s = SetMessageOfTheDay env u m s"
| "run_call env (CallInfo u m) s = SetGuildInfo env u m s"
| "run_call env (CallPublicNote u t n) s = SetMemberPublicNote env u t n s"
| "run_call env (CallOfficerNote u t n) s = SetMemberOfficerNote env u t n s"
| "run_call env (CallUpdateRank u r n x m) s = UpdateGuildRank env u r n x m s"
| "run_call env (CallAddRank u n) s = AddGuildRank env u n s"
| "run_call env (CallDeleteRank u) s = DeleteLastGuildRank env u s"
| "run_call env (CallPromote u t) s = PromoteMember env u t s"
| "run_call env (CallDemote u t) s = DemoteMember env u t s"
| "run_call env (CallMessage r u m l off) s = SendGuildMessage env r u m l off s"
| "run_call env (EvLoggedIn g) s = (HandleCharacterLoggedIn g s, None, [])"
| "run_call env (EvLoggedOut g) s = (HandleCharacterLoggedOut env g s, None, [])"
| "run_call env (EvUpdates us) s = (HandleCharactersUpdates us s, None, [])"
| "run_call env (EvDisconnected gs) s = (handleDisconnectedChars env gs s, None, [])"

section \<open>What a call does to the realm\<close>

lemma fst_and_then [simp]:
  "fst (and_then r f) = (case snd r of Some e \<Rightarrow> fst r | None \<Rightarrow> fst (f (fst r)))"
  by (simp add: and_then_def split: prod.split option.split)

lemma fst_produce [simp]: "fst (produce env e s) = s"
  by (simp add: produce_def)

lemma fst_with_rank:
  "fst (with_rank u P s f) = s \<or>
    (\<exists>g r. guildByMemberGUID u s = Some g \<and> rankForMember s g u = Some r \<and> P r \<and> fst (with_rank u P s f) = fst (f g r))"
  by (auto simp: with_rank_def split: option.splits)

lemma fst_note_checks:
  assumes "\<And>g t u. fst (f g t u) = s'"
  shows "fst (note_checks u t right s f) = s \<or> fst (note_checks u t right s f) = s'"
  by (auto simp: note_checks_def Let_def assms split: option.splits)

text \<open>What writes something else than ranks of members, or moves members.\<close>

inductive quiet :: "guilds_realm \<Rightarrow> guilds_realm \<Rightarrow> bool" for s where
  same: "quiet s s"
| invites: "quiet s (s\<lparr>dbGuildInvites := x\<rparr>)"
| motd: "quiet s (fst (cache_SetMessageOfTheDay env gid m s))"
| info: "quiet s (fst (cache_SetGuildInfo env gid m s))"
| public: "quiet s (fst (cache_SetMemberPublicNote env t n s))"
| officer: "quiet s (fst (cache_SetMemberOfficerNote env t n s))"
| update_rank: "quiet s (fst (cache_UpdateGuildRank env gid rank name rights money s))"
| add_rank: "guildByMemberGUID u s = Some g \<Longrightarrow> rankForMember s g u = Some r \<Longrightarrow> length (GuildRanks g) < GuildRankMax \<Longrightarrow>
    quiet s (fst (cache_AddGuildRank env (guildID g) (lowestRankInGuild g + 1) name rights money s))"
| delete_rank: "guildByMemberGUID u s = Some g \<Longrightarrow> quiet s (fst (cache_DeleteLowestGuildRank env (guildID g) (lowestRankInGuild g) s))"
| logged_in: "quiet s (HandleCharacterLoggedIn t s)"
| logged_out: "quiet s (HandleCharacterLoggedOut env t s)"
| update: "quiet s (put_member t (applyCharUpdate upd) s)"

lemma Leave_state:
  "fst (Leave env u s) = s \<or>
    (\<exists>g r. guildByMemberGUID u s = Some g \<and> rankForMember s g u = Some r \<and> Rank r \<noteq> 0 \<and>
       fst (Leave env u s) = fst (cache_RemoveGuildMember env u s))"
  by (auto simp: Leave_def split: option.splits)

lemma Kick_state:
  "fst (Kick env u t s) = s \<or>
    (\<exists>g ru rt. guildByMemberGUID u s = Some g \<and> GuildIDByRealmAndMemberGUID t s = guildID g \<and> rankForMember s g u = Some ru \<and>
       rankForMember s g t = Some rt \<and> HasRight ru RightRemove \<and> Rank ru < Rank rt \<and> fst (Kick env u t s) = fst (cache_RemoveGuildMember env t s))"
  by (auto simp: Kick_def not_le split: option.splits)

lemma fst_announce_rank [simp]: "fst (announce_rank env promote g n u t s) = s"
  by (simp add: announce_rank_def split: prod.split option.split)

lemma updateRank_state:
  "fst (updateRank env u t promote s) = s \<or>
    (\<exists>g ru rt. guildByMemberGUID u s = Some g \<and> GuildIDByRealmAndMemberGUID t s = guildID g \<and> rankForMember s g u = Some ru \<and>
       rankForMember s g t = Some rt \<and> HasRight ru (if promote then RightPromote else RightDemote) \<and>
       (if promote then Rank ru < Rank rt - 1 else Rank ru < Rank rt \<and> Rank rt + 1 \<le> lowestRankInGuild g) \<and>
       fst (updateRank env u t promote s) = fst (cache_SetMemberRank env t (if promote then Rank rt - 1 else Rank rt + 1) s))"
proof (cases "guildByMemberGUID u s")
  case None
  then show ?thesis by (simp add: updateRank_def)
next
  case g: (Some g)
  show ?thesis
  proof (cases "rankForMember s g u")
    case None
    then show ?thesis by (simp add: updateRank_def g Let_def)
  next
    case ru: (Some ru)
    show ?thesis
    proof (cases "rankForMember s g t")
      case None
      then show ?thesis by (simp add: updateRank_def g ru Let_def)
    next
      case rt: (Some rt)
      show ?thesis
        unfolding updateRank_def Let_def g ru rt option.case
        by (cases "snd (cache_SetMemberRank env t (if promote then Rank rt - 1 else Rank rt + 1) s)"; cases promote)
          (auto simp: not_le not_less ru rt)
    qed
  qed
qed

lemma InviteAccepted_state:
  "fst (InviteAccepted env p s) = s \<or>
    (\<exists>gid g s1. cached_guild gid s = Some g \<and> s1 = s\<lparr>dbGuildInvites := (dbGuildInvites s)(CharGUID p := None)\<rparr> \<and>
       fst (InviteAccepted env p s) = fst (cache_AddGuildMember env (accepted_member gid (lowestRankInGuild g) p) s1))"
proof (cases "mysql_GuildIDByCharInvite env (CharGUID p) s")
  case (Inr gid)
  show ?thesis
  proof (cases "cached_guild gid s")
    case (Some g)
    then show ?thesis using Inr by (auto simp: InviteAccepted_def mysql_RemoveGuildInvite_def split: option.splits)
  qed (simp add: InviteAccepted_def Inr)
qed (simp add: InviteAccepted_def)

lemma InviteMember_quiet: "quiet s (fst (InviteMember env r u t n s))"
proof -
  have "\<exists>x. fst (InviteMember env r u t n s) = s \<or> fst (InviteMember env r u t n s) = s\<lparr>dbGuildInvites := x\<rparr>"
    by (auto simp: InviteMember_def Let_def mysql_AddGuildInvite_def split: option.splits)
  then show ?thesis by (metis quiet.same quiet.invites)
qed

lemma SendGuildMessage_same: "fst (SendGuildMessage env r u m l off s) = s"
  by (simp add: SendGuildMessage_def split: option.split)

section \<open>The invariant under calls\<close>

lemma fst_after_write: "fst (after_write r f) = (if snd r then f (fst r) else fst r)"
  by (simp add: after_write_def split: prod.split)

lemma after_failed_write [simp]:
  "\<not> snd (mysql_SetMessageOfTheDay env gid m s) \<Longrightarrow> fst (mysql_SetMessageOfTheDay env gid m s) = s"
  "\<not> snd (mysql_SetGuildInfo env gid m s) \<Longrightarrow> fst (mysql_SetGuildInfo env gid m s) = s"
  "\<not> snd (mysql_SetMemberPublicNote env t m s) \<Longrightarrow> fst (mysql_SetMemberPublicNote env t m s) = s"
  "\<not> snd (mysql_SetMemberOfficerNote env t m s) \<Longrightarrow> fst (mysql_SetMemberOfficerNote env t m s) = s"
  "\<not> snd (mysql_SetMemberRank env t k s) \<Longrightarrow> fst (mysql_SetMemberRank env t k s) = s"
  by (simp_all add: mysql_SetMessageOfTheDay_def mysql_SetGuildInfo_def mysql_SetMemberPublicNote_def
      mysql_SetMemberOfficerNote_def mysql_SetMemberRank_def split: if_splits)

lemma write_member_cases:
  "fst (cache_SetMemberPublicNote env t n s) = s \<or>
    fst (cache_SetMemberPublicNote env t n s) = put_member t (\<lambda>m. m\<lparr>PublicNote := n\<rparr>) (update_member_row t (\<lambda>m. m\<lparr>PublicNote := n\<rparr>) s)"
  "fst (cache_SetMemberOfficerNote env t n s) = s \<or>
    fst (cache_SetMemberOfficerNote env t n s) = put_member t (\<lambda>m. m\<lparr>OfficerNote := n\<rparr>) (update_member_row t (\<lambda>m. m\<lparr>OfficerNote := n\<rparr>) s)"
  "fst (cache_SetMemberRank env t k s) = s \<or>
    fst (cache_SetMemberRank env t k s) = put_member t (\<lambda>m. m\<lparr>mRank := k\<rparr>) (update_member_row t (\<lambda>m. m\<lparr>mRank := k\<rparr>) s)"
  "fst (cache_SetMessageOfTheDay env gid n s) = s \<or>
    fst (cache_SetMessageOfTheDay env gid n s) = put_guild gid (\<lambda>m. m\<lparr>MessageOfTheDay := n\<rparr>) (update_guild_row gid (\<lambda>m. m\<lparr>MessageOfTheDay := n\<rparr>) s)"
  "fst (cache_SetGuildInfo env gid n s) = s \<or>
    fst (cache_SetGuildInfo env gid n s) = put_guild gid (\<lambda>m. m\<lparr>Info := n\<rparr>) (update_guild_row gid (\<lambda>m. m\<lparr>Info := n\<rparr>) s)"
  by (simp_all add: cache_SetMemberPublicNote_def cache_SetMemberOfficerNote_def cache_SetMemberRank_def cache_SetMessageOfTheDay_def
      cache_SetGuildInfo_def fst_after_write mysql_SetMessageOfTheDay_def mysql_SetGuildInfo_def mysql_SetMemberPublicNote_def
      mysql_SetMemberOfficerNote_def mysql_SetMemberRank_def)

lemma invites_inv [simp]: "guild_inv (s\<lparr>dbGuildInvites := x\<rparr>) = guild_inv s"
proof -
  have same: "member_ptr k (s\<lparr>dbGuildInvites := x\<rparr>) = member_ptr k s" "cached_guild i (s\<lparr>dbGuildInvites := x\<rparr>) = cached_guild i s" for k i
    by (simp_all add: member_ptr_def cached_guild_def)
  show ?thesis by (simp add: guild_inv_def members_ok_def rows_ok_def guilds_ok_def same)
qed

lemma own_guild:
  assumes "guild_inv s" "guildByMemberGUID u s = Some g"
  shows "cached_guild (guildID g) s = Some g"
    "\<exists>p. member_ptr u s = Some p \<and> gmGuildID (members_heap s ! p) = guildID g \<and> p \<in> set (GuildMembers g)"
proof -
  let ?i = "GuildIDByRealmAndMemberGUID u s"
  have g: "cached_guild ?i s = Some g" "?i \<noteq> 0" using assms(2) by (auto simp: guildByMemberGUID_def Let_def split: if_splits)
  note ok = members_okD [OF guild_invD(1) [OF assms(1)]]
  have i: "guildID g = ?i" using ok(6) [OF g(1)] .
  then show "cached_guild (guildID g) s = Some g" using g(1) by simp
  obtain p where p: "member_ptr u s = Some p" using g(2) by (auto simp: GuildIDByRealmAndMemberGUID_def split: option.splits)
  then show "\<exists>p. member_ptr u s = Some p \<and> gmGuildID (members_heap s ! p) = guildID g \<and> p \<in> set (GuildMembers g)"
    using ok(5) [OF p] g(1) i by (auto simp: GuildIDByRealmAndMemberGUID_def)
qed

text \<open>The rank that the checks look up is the rank of the cached member.\<close>

lemma member_lookup:
  assumes inv: "guild_inv s" and p: "member_ptr t s = Some p" and g: "cached_guild (gmGuildID (members_heap s ! p)) s = Some g"
  shows "guildMemberForMemberGuid s g t = Some (members_heap s ! p)"
proof -
  note ok = members_okD [OF guild_invD(1) [OF inv]]
  have mem: "p \<in> set (GuildMembers g)" using ok(5) [OF p] g by auto
  have P: "PlayerGUID (members_heap s ! q) = t \<longleftrightarrow> q = p" if "q \<in> set (GuildMembers g)" for q
    by (rule guid_pointer [OF guild_invD(1) [OF inv] p g that])
  have "find (\<lambda>q. PlayerGUID (members_heap s ! q) = t) (GuildMembers g) = Some p"
  proof (cases "find (\<lambda>q. PlayerGUID (members_heap s ! q) = t) (GuildMembers g)")
    case None
    then show ?thesis using mem P by (auto simp: find_None_iff)
  next
    case (Some q)
    then have "q \<in> set (GuildMembers g)" "PlayerGUID (members_heap s ! q) = t" by (auto simp: find_Some_iff)
    then show ?thesis using Some P by simp
  qed
  then show ?thesis by (simp add: guildMemberForMemberGuid_def)
qed

lemma rank_lookup:
  assumes "guild_inv s" "member_ptr t s = Some p" "cached_guild (gmGuildID (members_heap s ! p)) s = Some g" "rankForMember s g t = Some r"
  shows "Rank r = mRank (members_heap s ! p)" "r \<in> set (GuildRanks g)"
  using assms(4) unfolding rankForMember_def member_lookup [OF assms(1-3)] by (auto simp: find_Some_iff)

lemma own_rank:
  assumes inv: "guild_inv s" and g: "guildByMemberGUID u s = Some g" "rankForMember s g u = Some r"
  shows "\<exists>p. member_ptr u s = Some p \<and> gmGuildID (members_heap s ! p) = guildID g \<and> Rank r = mRank (members_heap s ! p)" "r \<in> set (GuildRanks g)"
proof -
  obtain p where p: "member_ptr u s = Some p" "gmGuildID (members_heap s ! p) = guildID g" using own_guild(2) [OF inv g(1)] by blast
  have c: "cached_guild (gmGuildID (members_heap s ! p)) s = Some g" using own_guild(1) [OF inv g(1)] p(2) by simp
  show "\<exists>p. member_ptr u s = Some p \<and> gmGuildID (members_heap s ! p) = guildID g \<and> Rank r = mRank (members_heap s ! p)" "r \<in> set (GuildRanks g)"
    using p rank_lookup [OF inv p(1) c g(2)] by blast+
qed

lemma quiet_inv: "quiet s s' \<Longrightarrow> guild_inv s \<Longrightarrow> guild_inv s'"
proof (induction rule: quiet.induct)
  case (motd env gid m)
  have "guild_inv (put_guild gid (\<lambda>g. g\<lparr>MessageOfTheDay := m\<rparr>) (update_guild_row gid (\<lambda>g. g\<lparr>MessageOfTheDay := m\<rparr>) s))"
    by (rule write_guild_inv [OF motd]) (simp_all add: keeps_guild_def guild_row_def)
  then show ?case using write_member_cases(4) [of env gid m s] motd by auto
next
  case (info env gid m)
  have "guild_inv (put_guild gid (\<lambda>g. g\<lparr>Info := m\<rparr>) (update_guild_row gid (\<lambda>g. g\<lparr>Info := m\<rparr>) s))"
    by (rule write_guild_inv [OF info]) (simp_all add: keeps_guild_def guild_row_def)
  then show ?case using write_member_cases(5) [of env gid m s] info by auto
next
  case (public env t n)
  have "guild_inv (put_member t (\<lambda>m. m\<lparr>PublicNote := n\<rparr>) (update_member_row t (\<lambda>m. m\<lparr>PublicNote := n\<rparr>) s))"
    by (rule write_member_inv [OF public]) (simp_all add: keeps_ids_def guild_member_row_def)
  then show ?case using write_member_cases(1) [of env t n s] public by auto
next
  case (officer env t n)
  have "guild_inv (put_member t (\<lambda>m. m\<lparr>OfficerNote := n\<rparr>) (update_member_row t (\<lambda>m. m\<lparr>OfficerNote := n\<rparr>) s))"
    by (rule write_member_inv [OF officer]) (simp_all add: keeps_ids_def guild_member_row_def)
  then show ?case using write_member_cases(2) [of env t n s] officer by auto
next
  case (add_rank u g r env name rights money)
  have "GuildRanks g \<noteq> []" using own_rank(2) [OF add_rank(4,1,2)] by auto
  then show ?case using add_rank_inv [OF add_rank(4) own_guild(1) [OF add_rank(4,1)] add_rank(3)] by blast
next
  case (delete_rank u g env)
  then show ?case using delete_rank_inv own_guild(1) by blast
qed (auto simp: HandleCharacterLoggedIn_def HandleCharacterLoggedOut_def applyCharUpdate_def Let_def keeps_ids_def guild_member_row_def
    intro: update_rank_inv put_member_same_row split: option.split)

text \<open>A quiet step leaves everybody where he is and with the rank he has.\<close>

definition same_ranks :: "guilds_realm \<Rightarrow> guilds_realm \<Rightarrow> bool" where
  "same_ranks s s' \<longleftrightarrow> (\<forall>t. member_ptr t s' = member_ptr t s) \<and>
     (\<forall>t p. member_ptr t s = Some p \<longrightarrow> mRank (members_heap s' ! p) = mRank (members_heap s ! p) \<and>
        gmGuildID (members_heap s' ! p) = gmGuildID (members_heap s ! p))"

lemma same_ranks_refl [simp]: "same_ranks s s"
  by (simp add: same_ranks_def)

lemma same_ranks_trans: "same_ranks s t \<Longrightarrow> same_ranks t u \<Longrightarrow> same_ranks s u"
  by (simp add: same_ranks_def)

lemma put_member_same_ranks:
  assumes "guild_inv s" "\<And>m. mRank (f m) = mRank m \<and> gmGuildID (f m) = gmGuildID m"
  shows "same_ranks s (put_member t f s)" "same_ranks s (put_member t f (update_member_row t g s))"
proof -
  note ok = guild_invD(1) [OF assms(1)]
  have ok': "members_ok (update_member_row t g s)" using ok by (simp add: members_ok_def)
  show "same_ranks s (put_member t f s)"
    using put_member_heap [OF ok, of _ t f] members_okD(3) [OF ok] assms(2) by (auto simp: same_ranks_def)
  show "same_ranks s (put_member t f (update_member_row t g s))"
    using put_member_heap [OF ok', of _ t f] members_okD(3) [OF ok] assms(2) by (auto simp: same_ranks_def)
qed

lemma put_guild_same_ranks: "same_ranks s (put_guild gid f (update_guild_row gid h s))"
  by (simp add: same_ranks_def)

lemma cache_ranks_same:
  "same_ranks s (fst (cache_UpdateGuildRank env gid rank name rights money s))"
  "same_ranks s (fst (cache_AddGuildRank env gid rank name rights money s))"
  "same_ranks s (fst (cache_DeleteLowestGuildRank env gid rank s))"
proof -
  have "member_ptr t (s\<lparr>dbGuildRanks := x\<rparr>) = member_ptr t s" for t x by (simp add: member_ptr_def)
  then show "same_ranks s (fst (cache_UpdateGuildRank env gid rank name rights money s))"
    "same_ranks s (fst (cache_AddGuildRank env gid rank name rights money s))"
    "same_ranks s (fst (cache_DeleteLowestGuildRank env gid rank s))"
    by (simp_all add: cache_UpdateGuildRank_def cache_AddGuildRank_def cache_DeleteLowestGuildRank_def fst_after_write
        mysql_UpdateGuildRank_def mysql_AddGuildRank_def mysql_DeleteLowestGuildRank_def same_ranks_def Let_def)
qed

lemma quiet_same_ranks: "quiet s s' \<Longrightarrow> guild_inv s \<Longrightarrow> same_ranks s s'"
proof (induction rule: quiet.induct)
  case (invites x)
  then show ?case by (simp add: same_ranks_def member_ptr_def)
next
  case (motd env gid m)
  then show ?case using write_member_cases(4) [of env gid m s] put_guild_same_ranks by auto
next
  case (info env gid m)
  then show ?case using write_member_cases(5) [of env gid m s] put_guild_same_ranks by auto
next
  case (public env t n)
  then show ?case using write_member_cases(1) [of env t n s] put_member_same_ranks(2) [OF public, of "\<lambda>m. m\<lparr>PublicNote := n\<rparr>" t] by auto
next
  case (officer env t n)
  then show ?case using write_member_cases(2) [of env t n s] put_member_same_ranks(2) [OF officer, of "\<lambda>m. m\<lparr>OfficerNote := n\<rparr>" t] by auto
qed (auto simp: HandleCharacterLoggedIn_def HandleCharacterLoggedOut_def applyCharUpdate_def Let_def
    intro: cache_ranks_same put_member_same_ranks(1) split: option.split)

lemma fst_announced [simp]: "fst (and_then r (\<lambda>s. produce env (e s) s)) = fst r"
  by (simp split: option.split)

lemma with_rank_quiet:
  assumes "\<And>g r. guildByMemberGUID u s = Some g \<Longrightarrow> rankForMember s g u = Some r \<Longrightarrow> quiet s (fst (f g r))"
  shows "quiet s (fst (with_rank u P s f))"
  using fst_with_rank [of u P s f] assms by (metis quiet.same)

lemma note_checks_quiet:
  assumes "\<And>g t' u'. fst (f g t' u') = s'" "quiet s s'"
  shows "quiet s (fst (note_checks u t right s f))"
  using fst_note_checks [of f s' u t right s, OF assms(1)] assms(2) by (metis quiet.same)

lemma AddGuildRank_quiet: "quiet s (fst (AddGuildRank env u n s))"
  unfolding AddGuildRank_def
proof (rule with_rank_quiet)
  fix g r assume g: "guildByMemberGUID u s = Some g" "rankForMember s g u = Some r"
  show "quiet s (fst (if GuildRankMax \<le> length (GuildRanks g) then (s, Some ErrRankLimit, [])
      else let rankID = lowestRankInGuild g + 1 in and_then (cache_AddGuildRank env (guildID g) rankID n RightEmpty 0 s)
        (\<lambda>s1. produce env (RankCreated (buildGenericEventPayload s1 (current s1 g)) rankID n (of_nat (length (GuildRanks (current s1 g))))) s1)))"
    using quiet.add_rank [OF g] quiet.same by (simp add: Let_def split: option.split)
qed

lemma events_quiet:
  "quiet\<^sup>*\<^sup>* s (HandleCharactersUpdates us s)" "quiet\<^sup>*\<^sup>* s (handleDisconnectedChars env gs s)"
proof -
  have "quiet\<^sup>*\<^sup>* s (foldl (\<lambda>s upd. put_member (uID upd) (applyCharUpdate upd) s) s us)"
  proof (induction us arbitrary: s)
    case (Cons u us)
    show ?case unfolding foldl_Cons by (rule converse_rtranclp_into_rtranclp [OF quiet.update Cons.IH])
  qed simp
  then show "quiet\<^sup>*\<^sup>* s (HandleCharactersUpdates us s)" by (simp add: HandleCharactersUpdates_def)
  have "quiet\<^sup>*\<^sup>* s (foldl (\<lambda>s guid. HandleCharacterLoggedOut env guid s) s gs)"
  proof (induction gs arbitrary: s)
    case (Cons u gs)
    show ?case unfolding foldl_Cons by (rule converse_rtranclp_into_rtranclp [OF quiet.logged_out Cons.IH])
  qed simp
  then show "quiet\<^sup>*\<^sup>* s (handleDisconnectedChars env gs s)" by (simp add: handleDisconnectedChars_def)
qed

definition moves_members :: "guild_call \<Rightarrow> bool" where
  "moves_members c \<longleftrightarrow> (case c of CallAccept _ \<Rightarrow> True | CallLeave _ \<Rightarrow> True | CallKick _ _ \<Rightarrow> True | CallPromote _ _ \<Rightarrow> True
     | CallDemote _ _ \<Rightarrow> True | _ \<Rightarrow> False)"

lemma run_call_quiet: "\<not> moves_members c \<Longrightarrow> quiet\<^sup>*\<^sup>* s (fst (run_call env c s))"
proof (cases c)
  case (CallPublicNote u t n)
  have "quiet s (fst (SetMemberPublicNote env u t n s))"
    unfolding SetMemberPublicNote_def by (rule note_checks_quiet [OF _ quiet.public [of s env t n]]) (simp only: fst_announced)
  then show ?thesis using CallPublicNote by simp
next
  case (CallOfficerNote u t n)
  have "quiet s (fst (SetMemberOfficerNote env u t n s))"
    unfolding SetMemberOfficerNote_def by (rule note_checks_quiet [OF _ quiet.officer [of s env t n]]) (simp only: fst_announced)
  then show ?thesis using CallOfficerNote by simp
next
  case (CallMotd u m)
  have "quiet s (fst (SetMessageOfTheDay env u m s))" unfolding SetMessageOfTheDay_def by (rule with_rank_quiet) (simp only: fst_announced quiet.motd)
  then show ?thesis using CallMotd by simp
next
  case (CallInfo u m)
  have "quiet s (fst (SetGuildInfo env u m s))" unfolding SetGuildInfo_def by (rule with_rank_quiet) (simp only: fst_announced quiet.info)
  then show ?thesis using CallInfo by simp
next
  case (CallUpdateRank u k n x m)
  have "quiet s (fst (UpdateGuildRank env u k n x m s))"
    unfolding UpdateGuildRank_def by (rule with_rank_quiet) (simp only: fst_announced quiet.update_rank)
  then show ?thesis using CallUpdateRank by simp
next
  case (CallDeleteRank u)
  have "quiet s (fst (DeleteLastGuildRank env u s))"
    unfolding DeleteLastGuildRank_def by (rule with_rank_quiet) (simp only: Let_def fst_announced quiet.delete_rank)
  then show ?thesis using CallDeleteRank by simp
qed (auto simp: moves_members_def SendGuildMessage_same intro: InviteMember_quiet AddGuildRank_quiet quiet.logged_in quiet.logged_out events_quiet)

lemma quiet_star: "quiet\<^sup>*\<^sup>* s s' \<Longrightarrow> guild_inv s \<Longrightarrow> guild_inv s' \<and> same_ranks s s'"
proof (induction rule: rtranclp_induct)
  case (step y z)
  then show ?case using quiet_inv quiet_same_ranks same_ranks_trans by blast
qed simp

text \<open>The other calls and what they do to one member.\<close>

definition unaffected :: "u64 \<Rightarrow> guilds_realm \<Rightarrow> guilds_realm \<Rightarrow> bool" where
  "unaffected t s s' \<longleftrightarrow> member_ptr t s' = member_ptr t s \<and>
     (\<forall>p. member_ptr t s = Some p \<longrightarrow> mRank (members_heap s' ! p) = mRank (members_heap s ! p) \<and>
        gmGuildID (members_heap s' ! p) = gmGuildID (members_heap s ! p))"

lemma same_ranks_unaffected: "same_ranks s s' \<Longrightarrow> unaffected t s s'"
  by (simp add: same_ranks_def unaffected_def)

lemma unaffected_refl [simp]: "unaffected t s s"
  by (simp add: unaffected_def)

lemma remove_effect:
  assumes "guild_inv s" "fst (cache_RemoveGuildMember env t s) = s'"
  shows "guild_inv s'" "unaffected u s s' \<or> u = t \<and> member_ptr t s' = None"
proof -
  have "cache_RemoveGuildMember env t s = (s', snd (cache_RemoveGuildMember env t s))" using assms(2) by (simp add: prod_eq_iff)
  from cache_RemoveGuildMember_inv [OF assms(1) this] show "guild_inv s'" by blast
  have same: "member_ptr k (s\<lparr>dbGuildMembers := x\<rparr>) = member_ptr k s"
    "member_ptr k (s\<lparr>dbGuildMembers := x, guildMembersCache := map_option (\<lambda>c. c(t := None)) (guildMembersCache s)\<rparr>) = (if k = t then None else member_ptr k s)" for k x
    by (simp_all add: member_ptr_def split: option.split)
  show "unaffected u s s' \<or> u = t \<and> member_ptr t s' = None"
  proof (cases "guildDbFails env StmtRemoveGuildMember")
    case True
    then show ?thesis using assms(2) by (auto simp: cache_RemoveGuildMember_def mysql_RemoveGuildMember_def)
  next
    case False
    then show ?thesis using assms(2)
      by (cases "member_ptr t s") (auto simp: cache_RemoveGuildMember_def mysql_RemoveGuildMember_def unaffected_def same Let_def split: if_splits)
  qed
qed

lemma add_effect:
  assumes "guild_inv s" "unique_guids env" "cached_guild (gmGuildID m) s = Some g" "fst (cache_AddGuildMember env m s) = s'"
  shows "guild_inv s'" "member_ptr u s = Some p \<Longrightarrow> unaffected u s s'"
proof -
  have add: "cache_AddGuildMember env m s = (s', snd (cache_AddGuildMember env m s))" using assms(4) by (simp add: prod_eq_iff)
  from cache_AddGuildMember_inv [OF assms(1-3) this] show "guild_inv s'" by blast
  assume p: "member_ptr u s = Some p"
  note rows = rows_okD [OF guild_invD(2) [OF assms(1)]] and ok = members_okD [OF guild_invD(1) [OF assms(1)]]
  show "unaffected u s s'"
  proof (cases "guildDbFails env StmtAddGuildMember \<or> memberRejected env (dbGuildMembers s) (guild_member_row m)")
    case True
    then show ?thesis using assms(4) by (auto simp: cache_AddGuildMember_def mysql_AddGuildMember_def)
  next
    case False
    then have "PlayerGUID m \<notin> PlayerGUID ` set (dbGuildMembers s)"
      using assms(2) unfolding unique_guids_def by (metis guild_member_row_ids(1))
    then have ne: "u \<noteq> PlayerGUID m" using rows(2) [OF p] ok(4) [OF p] by (metis guild_member_row_ids(1) image_eqI)
    obtain c where c: "guildMembersCache s = Some c" using ok(2) by blast
    have same: "member_ptr u (s\<lparr>dbGuildMembers := x, members_heap := y, guildMembersCache := Some (c(PlayerGUID m \<mapsto> z))\<rparr>) = member_ptr u s" for x y z
      using ne by (simp add: member_ptr_def c)
    show ?thesis using assms(3,4) False c ok(3) [OF p] p
      by (auto simp: cache_AddGuildMember_def mysql_AddGuildMember_def Let_def unaffected_def same nth_append cached_guild_def split: if_splits)
  qed
qed

lemma set_rank_effect:
  assumes "guild_inv s" "fst (cache_SetMemberRank env t k s) = s'"
  shows "guild_inv s'" "unaffected u s s' \<or> u = t \<and> member_ptr t s' = member_ptr t s \<and>
    (\<forall>p. member_ptr t s = Some p \<longrightarrow> mRank (members_heap s' ! p) = k \<and> gmGuildID (members_heap s' ! p) = gmGuildID (members_heap s ! p))"
proof -
  let ?f = "\<lambda>m. m\<lparr>mRank := k\<rparr>"
  note ok = guild_invD(1) [OF assms(1)]
  have ok': "members_ok (update_member_row t ?f s)" using ok by (simp add: members_ok_def)
  have "guild_inv (put_member t ?f (update_member_row t ?f s))"
    by (rule write_member_inv [OF assms(1)]) (simp_all add: keeps_ids_def guild_member_row_def)
  then show "guild_inv s'" using write_member_cases(3) [of env t k s] assms by auto
  show "unaffected u s s' \<or> u = t \<and> member_ptr t s' = member_ptr t s \<and>
    (\<forall>p. member_ptr t s = Some p \<longrightarrow> mRank (members_heap s' ! p) = k \<and> gmGuildID (members_heap s' ! p) = gmGuildID (members_heap s ! p))"
  proof (cases "s' = s")
    case False
    then have s': "s' = put_member t ?f (update_member_row t ?f s)" using write_member_cases(3) [of env t k s] assms(2) by auto
    have heap: "members_heap s' ! p = (if u = t then ?f (members_heap s ! p) else members_heap s ! p)" if p: "member_ptr u s = Some p" for p
    proof -
      have "member_ptr t s = Some p \<longleftrightarrow> u = t" using p members_okD(4) [OF ok] by metis
      then show ?thesis using put_member_heap [OF ok', of p t ?f] members_okD(3) [OF ok p] by (simp add: s')
    qed
    show ?thesis using heap by (auto simp: s' unaffected_def)
  qed simp
qed

end
