(* ===== verification/Guild_Guarantees.thy ===== *)
theory Guild_Guarantees
  imports Guild_Server
begin

text \<open>
  What the guild server guarantees for every sequence of calls after a realm was loaded, whatever statements and
  events fail, and the calls on which its checks fail.
\<close>

section \<open>Reachable realms\<close>

inductive guild_reach :: "guilds_realm \<Rightarrow> bool" where
  start: "db_ok s \<Longrightarrow> reorders env \<Longrightarrow> Warmup env s = (s', None) \<Longrightarrow> guild_reach s'"
| call: "guild_reach s \<Longrightarrow> unique_guids env \<Longrightarrow> guild_reach (fst (run_call env c s))"

lemma own_target_guild:
  assumes inv: "guild_inv s" and g: "guildByMemberGUID u s = Some g" "GuildIDByRealmAndMemberGUID t s = guildID g"
    and p: "member_ptr t s = Some p"
  shows "gmGuildID (members_heap s ! p) = guildID g" "cached_guild (gmGuildID (members_heap s ! p)) s = Some g"
  using own_guild(1) [OF inv g(1)] g(2) p by (simp_all add: GuildIDByRealmAndMemberGUID_def)

text \<open>What the calls that move members do to a member \<open>t\<close>.\<close>

lemma accept_effect:
  assumes "guild_inv s" "unique_guids env"
  shows "guild_inv (fst (InviteAccepted env p s))" "member_ptr t s = Some q \<Longrightarrow> unaffected t s (fst (InviteAccepted env p s))"
proof -
  consider "fst (InviteAccepted env p s) = s" | gid g s1 where "cached_guild gid s = Some g"
      "s1 = s\<lparr>dbGuildInvites := (dbGuildInvites s)(CharGUID p := None)\<rparr>"
      "fst (InviteAccepted env p s) = fst (cache_AddGuildMember env (accepted_member gid (lowestRankInGuild g) p) s1)"
    using InviteAccepted_state [of env p s] by blast
  then have "guild_inv (fst (InviteAccepted env p s)) \<and> (member_ptr t s = Some q \<longrightarrow> unaffected t s (fst (InviteAccepted env p s)))"
  proof cases
    case (2 gid g s1)
    have same: "member_ptr k s1 = member_ptr k s" "cached_guild i s1 = cached_guild i s" "members_heap s1 = members_heap s" for k i
      by (simp_all add: 2(2) member_ptr_def cached_guild_def)
    have inv1: "guild_inv s1" using assms(1) by (simp add: 2(2))
    have g1: "cached_guild (gmGuildID (accepted_member gid (lowestRankInGuild g) p)) s1 = Some g"
      using 2(1) by (simp add: same accepted_member_def)
    show ?thesis using add_effect [OF inv1 assms(2) g1 2(3) [symmetric]] by (simp add: unaffected_def same)
  qed (use assms(1) in simp)
  then show "guild_inv (fst (InviteAccepted env p s))" "member_ptr t s = Some q \<Longrightarrow> unaffected t s (fst (InviteAccepted env p s))" by blast+
qed

lemma leave_effect:
  assumes inv: "guild_inv s"
  shows "guild_inv (fst (Leave env u s))"
    "unaffected t s (fst (Leave env u s)) \<or>
      u = t \<and> member_ptr t (fst (Leave env u s)) = None \<and> (\<exists>p. member_ptr t s = Some p \<and> mRank (members_heap s ! p) \<noteq> 0)"
proof -
  consider "fst (Leave env u s) = s" | g r where "guildByMemberGUID u s = Some g" "rankForMember s g u = Some r" "Rank r \<noteq> 0"
      "fst (Leave env u s) = fst (cache_RemoveGuildMember env u s)"
    using Leave_state [of env u s] by blast
  then have "guild_inv (fst (Leave env u s)) \<and> (unaffected t s (fst (Leave env u s)) \<or>
      u = t \<and> member_ptr t (fst (Leave env u s)) = None \<and> (\<exists>p. member_ptr t s = Some p \<and> mRank (members_heap s ! p) \<noteq> 0))"
  proof cases
    case (2 g r)
    obtain p where "member_ptr u s = Some p" "mRank (members_heap s ! p) \<noteq> 0" using own_rank(1) [OF inv 2(1,2)] 2(3) by auto
    then show ?thesis using remove_effect(1) [OF inv 2(4) [symmetric]] remove_effect(2) [OF inv 2(4) [symmetric], of t] by auto
  qed (use inv in simp)
  then show "guild_inv (fst (Leave env u s))" "unaffected t s (fst (Leave env u s)) \<or>
      u = t \<and> member_ptr t (fst (Leave env u s)) = None \<and> (\<exists>p. member_ptr t s = Some p \<and> mRank (members_heap s ! p) \<noteq> 0)" by blast+
qed

lemma kick_effect:
  assumes inv: "guild_inv s"
  shows "guild_inv (fst (Kick env u k s))"
    "unaffected t s (fst (Kick env u k s)) \<or>
      member_ptr t (fst (Kick env u k s)) = None \<and> (\<forall>p. member_ptr t s = Some p \<longrightarrow> mRank (members_heap s ! p) \<noteq> 0)"
proof -
  consider "fst (Kick env u k s) = s" | g ru rt where "guildByMemberGUID u s = Some g" "GuildIDByRealmAndMemberGUID k s = guildID g"
      "rankForMember s g u = Some ru" "rankForMember s g k = Some rt" "Rank ru < Rank rt" "fst (Kick env u k s) = fst (cache_RemoveGuildMember env k s)"
    using Kick_state [of env u k s] by metis
  then have "guild_inv (fst (Kick env u k s)) \<and> (unaffected t s (fst (Kick env u k s)) \<or>
      member_ptr t (fst (Kick env u k s)) = None \<and> (\<forall>p. member_ptr t s = Some p \<longrightarrow> mRank (members_heap s ! p) \<noteq> 0))"
  proof cases
    case (2 g ru rt)
    have "mRank (members_heap s ! p) \<noteq> 0" if "member_ptr k s = Some p" for p
      using rank_lookup(1) [OF inv that own_target_guild(2) [OF inv 2(1,2) that] 2(4)] 2(5) by auto
    then show ?thesis using remove_effect(1) [OF inv 2(6) [symmetric]] remove_effect(2) [OF inv 2(6) [symmetric], of t] by auto
  qed (use inv in simp)
  then show "guild_inv (fst (Kick env u k s))" "unaffected t s (fst (Kick env u k s)) \<or>
      member_ptr t (fst (Kick env u k s)) = None \<and> (\<forall>p. member_ptr t s = Some p \<longrightarrow> mRank (members_heap s ! p) \<noteq> 0)" by blast+
qed

lemma rank_effect:
  assumes inv: "guild_inv s" and s': "s' = fst (updateRank env u k promote s)"
  shows "guild_inv s'"
    "unaffected t s s' \<or> k = t \<and>
      (\<exists>p g ru. member_ptr t s = Some p \<and> member_ptr t s' = Some p \<and> guildByMemberGUID u s = Some g \<and>
        gmGuildID (members_heap s ! p) = guildID g \<and> gmGuildID (members_heap s' ! p) = guildID g \<and> rankForMember s g u = Some ru \<and>
        HasRight ru (if promote then RightPromote else RightDemote) \<and>
        mRank (members_heap s' ! p) = (if promote then mRank (members_heap s ! p) - 1 else mRank (members_heap s ! p) + 1) \<and>
        Rank ru < (if promote then mRank (members_heap s' ! p) else mRank (members_heap s ! p)))"
    (is "_ \<or> ?changed")
proof -
  consider "s' = s" | g ru rt where "guildByMemberGUID u s = Some g" "GuildIDByRealmAndMemberGUID k s = guildID g"
      "rankForMember s g u = Some ru" "rankForMember s g k = Some rt" "HasRight ru (if promote then RightPromote else RightDemote)"
      "if promote then Rank ru < Rank rt - 1 else Rank ru < Rank rt" "s' = fst (cache_SetMemberRank env k (if promote then Rank rt - 1 else Rank rt + 1) s)"
    using updateRank_state [of env u k promote s] unfolding s' by (auto split: if_splits)
  then have "guild_inv s' \<and> (unaffected t s s' \<or> ?changed)"
  proof cases
    case (2 g ru rt)
    note eff = set_rank_effect(1) [OF inv 2(7) [symmetric]] set_rank_effect(2) [OF inv 2(7) [symmetric], of t]
    show ?thesis
    proof (cases "unaffected t s s'")
      case False
      then have t: "t = k" "member_ptr t s' = member_ptr t s" using eff(2) by auto
      have "member_ptr t s \<noteq> None" using 2(4) own_guild(1) [OF inv 2(1)] 2(2) False t by (auto simp: unaffected_def)
      then obtain p where p: "member_ptr t s = Some p" by blast
      have new: "mRank (members_heap s' ! p) = (if promote then Rank rt - 1 else Rank rt + 1)" "gmGuildID (members_heap s' ! p) = gmGuildID (members_heap s ! p)"
        using eff(2) False p t(1) by auto
      have rt: "Rank rt = mRank (members_heap s ! p)"
        using rank_lookup(1) [OF inv p own_target_guild(2) [OF inv 2(1) _ p]] 2(2,4) t(1) by simp
      have gid: "gmGuildID (members_heap s ! p) = guildID g" using own_target_guild(1) [OF inv 2(1) _ p] 2(2) t(1) by simp
      have ?changed using p t 2(1,3,5,6) new rt gid by auto
      then show ?thesis using eff(1) by blast
    qed (use eff(1) in simp)
  qed (use inv in simp)
  then show "guild_inv s'" "unaffected t s s' \<or> ?changed" by blast+
qed

lemma run_call_inv: "guild_inv s \<Longrightarrow> unique_guids env \<Longrightarrow> guild_inv (fst (run_call env c s))"
proof (cases "moves_members c")
  case False
  then show "guild_inv s \<Longrightarrow> ?thesis" using quiet_star run_call_quiet by blast
next
  case True
  then show "guild_inv s \<Longrightarrow> unique_guids env \<Longrightarrow> ?thesis"
    by (cases c) (auto simp: moves_members_def PromoteMember_def DemoteMember_def
        intro: accept_effect(1) leave_effect(1) kick_effect(1) rank_effect(1) [OF _ refl])
qed

lemma guild_reach_inv: "guild_reach s \<Longrightarrow> guild_inv s"
  by (induction rule: guild_reach.induct) (auto intro: Warmup_inv run_call_inv)

section \<open>Guarantees\<close>

text \<open>
  C8: The cache of the guild server refines its tables: after any calls and events, with any statements failing,
  every guild, every member of a guild and every list of ranks is in the cache exactly as in the tables, so that
  loading the realm again would not change what the handlers see.
\<close>

theorem guild_cache_refines_tables:
  assumes "guild_reach s"
  shows "(\<forall>i. dbGuildRows s i = map_option guild_row (cached_guild i s)) \<and>
    (\<forall>i g. cached_guild i s = Some g \<longrightarrow> GuildRanks g = ranks_of i (dbGuildRanks s)) \<and>
    (\<forall>t. map_option (\<lambda>p. guild_member_row (members_heap s ! p)) (member_ptr t s) =
      find (\<lambda>r. PlayerGUID r = t \<and> dbGuildRows s (gmGuildID r) \<noteq> None) (dbGuildMembers s))"
proof -
  note inv = guild_reach_inv [OF assms]
  note ok = members_okD [OF guild_invD(1) [OF inv]] and rows = rows_okD [OF guild_invD(2) [OF inv]] and gs = guilds_okD [OF guild_invD(3) [OF inv]]
  have "map_option (\<lambda>p. guild_member_row (members_heap s ! p)) (member_ptr t s) =
      find (\<lambda>r. PlayerGUID r = t \<and> dbGuildRows s (gmGuildID r) \<noteq> None) (dbGuildMembers s)" for t
  proof (cases "member_ptr t s")
    case None
    then have "find (\<lambda>r. PlayerGUID r = t \<and> dbGuildRows s (gmGuildID r) \<noteq> None) (dbGuildMembers s) = None"
      using rows(3) by (force simp: find_None_iff)
    then show ?thesis using None by simp
  next
    case (Some p)
    let ?r = "guild_member_row (members_heap s ! p)"
    obtain g where "cached_guild (gmGuildID (members_heap s ! p)) s = Some g" using ok(5) [OF Some] by blast
    then have P: "PlayerGUID ?r = t \<and> dbGuildRows s (gmGuildID ?r) \<noteq> None" using ok(4) [OF Some] gs(1) by simp
    have "find (\<lambda>r. PlayerGUID r = t \<and> dbGuildRows s (gmGuildID r) \<noteq> None) (dbGuildMembers s) = Some ?r"
    proof (cases "find (\<lambda>r. PlayerGUID r = t \<and> dbGuildRows s (gmGuildID r) \<noteq> None) (dbGuildMembers s)")
      case None
      then show ?thesis using P rows(2) [OF Some] unfolding find_None_iff by blast
    next
      case (Some r)
      then have "r \<in> set (dbGuildMembers s)" "PlayerGUID r = t" by (auto simp: find_Some_iff)
      then have "r = ?r" using P rows(1) rows(2) [OF \<open>member_ptr t s = Some p\<close>] by (metis distinct_map inj_onD)
      then show ?thesis using Some by simp
    qed
    then show ?thesis using Some by simp
  qed
  then show ?thesis using gs(1,2) by blast
qed

text \<open>
  C22: The two maps of the cache agree: a player is in the member list of a guild, once, exactly when the look-up of
  his guild returns that guild; so nobody is in two guilds.
\<close>

theorem guild_rosters_agree:
  assumes "guild_reach s" "cached_guild i s = Some g" "i \<noteq> 0"
  shows "distinct (map (\<lambda>p. PlayerGUID (members_heap s ! p)) (GuildMembers g)) \<and>
    (\<forall>t. t \<in> set (map (\<lambda>p. PlayerGUID (members_heap s ! p)) (GuildMembers g)) \<longleftrightarrow> GuildIDByRealmAndMemberGUID t s = i)"
proof -
  note ok = members_okD [OF guild_invD(1) [OF guild_reach_inv [OF assms(1)]]]
  have "inj_on (\<lambda>p. PlayerGUID (members_heap s ! p)) (set (GuildMembers g))"
    by (rule inj_onI) (metis assms(2) ok(10) option.inject)
  then have "distinct (map (\<lambda>p. PlayerGUID (members_heap s ! p)) (GuildMembers g))" using ok(7) [OF assms(2)] by (simp add: distinct_map)
  moreover have "t \<in> set (map (\<lambda>p. PlayerGUID (members_heap s ! p)) (GuildMembers g)) \<longleftrightarrow> GuildIDByRealmAndMemberGUID t s = i" for t
  proof
    assume "t \<in> set (map (\<lambda>p. PlayerGUID (members_heap s ! p)) (GuildMembers g))"
    then obtain p where "p \<in> set (GuildMembers g)" "PlayerGUID (members_heap s ! p) = t" by auto
    then show "GuildIDByRealmAndMemberGUID t s = i"
      using ok(9,10) [OF assms(2)] by (simp add: GuildIDByRealmAndMemberGUID_def split: option.split) (metis option.inject option.distinct(1))
  next
    assume t: "GuildIDByRealmAndMemberGUID t s = i"
    then obtain p where p: "member_ptr t s = Some p" "gmGuildID (members_heap s ! p) = i"
      using assms(3) by (auto simp: GuildIDByRealmAndMemberGUID_def split: option.splits)
    then show "t \<in> set (map (\<lambda>p. PlayerGUID (members_heap s ! p)) (GuildMembers g))"
      using ok(4,5) [OF p(1)] assms(2) by force
  qed
  ultimately show ?thesis by blast
qed


fun run_calls :: "(guild_env \<times> guild_call) list \<Rightarrow> guilds_realm \<Rightarrow> guilds_realm" where
  "run_calls [] s = s"
| "run_calls ((env, c) # cs) s = run_calls cs (fst (run_call env c s))"

lemma master_unaffected:
  assumes inv: "guild_inv s" and u: "unique_guids env" and m: "member_ptr m s = Some p" "mRank (members_heap s ! p) = 0"
    and c: "\<And>u. c \<noteq> CallPromote u m"
  shows "unaffected m s (fst (run_call env c s))"
proof (cases "moves_members c")
  case False
  then show ?thesis using quiet_star [OF run_call_quiet inv] same_ranks_unaffected by blast
next
  case True
  then show ?thesis
  proof (cases c)
    case (CallAccept prm)
    then show ?thesis using accept_effect(2) [OF inv u m(1)] by simp
  next
    case (CallLeave k)
    then show ?thesis using leave_effect(2) [OF inv, where t = m and u = k and env = env] m by auto
  next
    case (CallKick k t)
    then show ?thesis using kick_effect(2) [OF inv, where t = m and u = k and k = t and env = env] m by auto
  next
    case (CallPromote k t)
    then show ?thesis using c rank_effect(2) [OF inv refl, of m env k t True] by (auto simp: PromoteMember_def)
  next
    case (CallDemote k t)
    then show ?thesis using m rank_effect(2) [OF inv refl, of m env k t False] by (auto simp: DemoteMember_def)
  qed (auto simp: moves_members_def)
qed

text \<open>
  C24: Nobody can remove or demote the guild master: as long as no promotion is aimed at him, a member of rank zero stays
  in his guild with rank zero through any calls and events.
\<close>

theorem guild_master_stays:
  assumes "guild_reach s" "member_ptr m s = Some p" "mRank (members_heap s ! p) = 0"
    and "\<forall>(env, c)\<in>set cs. unique_guids env \<and> (\<forall>u. c \<noteq> CallPromote u m)"
  shows "member_ptr m (run_calls cs s) = Some p \<and> mRank (members_heap (run_calls cs s) ! p) = 0 \<and>
    gmGuildID (members_heap (run_calls cs s) ! p) = gmGuildID (members_heap s ! p)"
  using assms
proof (induction cs arbitrary: s)
  case (Cons ec cs)
  obtain env c where ec: "ec = (env, c)" by (cases ec)
  have u: "unique_guids env" "\<And>u. c \<noteq> CallPromote u m" using Cons.prems(4) by (auto simp: ec)
  have "unaffected m s (fst (run_call env c s))"
    by (rule master_unaffected [OF guild_reach_inv [OF Cons.prems(1)] u(1) Cons.prems(2,3) u(2)])
  then have m: "member_ptr m (fst (run_call env c s)) = Some p" "mRank (members_heap (fst (run_call env c s)) ! p) = 0"
      "gmGuildID (members_heap (fst (run_call env c s)) ! p) = gmGuildID (members_heap s ! p)"
    using Cons.prems(2,3) by (simp_all add: unaffected_def)
  show ?case using Cons.IH [OF guild_reach.call [OF Cons.prems(1) u(1)] m(1,2)] Cons.prems(4) m(3) by (simp add: ec)
qed simp

section \<open>A realm with one guild\<close>

definition demo_rank :: "u8 \<Rightarrow> u32 \<Rightarrow> GuildRank" where
  "demo_rank k rights = \<lparr>rGuildID = 1, Rank = k, rName = ''rank'', Rights = rights, MoneyPerDay = 0\<rparr>"

definition demo_member :: "u64 \<Rightarrow> u8 \<Rightarrow> GuildMember" where
  "demo_member guid k = \<lparr>gmGuildID = 1, PlayerGUID = guid, mRank = k, PublicNote = [], OfficerNote = [], gmName = [], Race = 0,
     Class = 0, Lvl = 0, Gender = 0, AreaID = 0, Account = 0, LogoutTime = 0, gmStatus = 0\<rparr>"

definition demo_guild :: Guild where
  "demo_guild = \<lparr>gRealmID = 0, guildID = 1, guildName = ''Method'', CrateTimeUnix = 0, LeaderGUID = 7,
     Emblem = \<lparr>Style = 0, Color = 0, BorderStyle = 0, BorderColor = 0, BackgroundColor = 0\<rparr>, Info = [], MessageOfTheDay = [],
     BankMoney = 0, GuildRanks = [], GuildMembers = []\<rparr>"

definition demo_realm :: guilds_realm where
  "demo_realm = \<lparr>dbGuildRows = [1 \<mapsto> demo_guild],
     dbGuildRanks = [demo_rank 0 0x1DF1FF, demo_rank 1 0x1DF1FF, demo_rank 2 0x43],
     dbGuildMembers = [demo_member 7 0, demo_member 8 1, demo_member 9 2], dbGuildInvites = Map.empty, members_heap = [],
     guildsCache = None, guildMembersCache = None\<rparr>"

definition demo_guild_env :: guild_env where
  "demo_guild_env = \<lparr>guildDbFails = (\<lambda>_. False), memberRejected = (\<lambda>rows m. \<exists>r\<in>set rows. PlayerGUID r = PlayerGUID m),
     rankRejected = (\<lambda>rows r. False), memberOrder = (\<lambda>l. l),
     charactersTable = (\<lambda>_. Some \<lparr>cName = ''x'', cLevel = 80, cClass = 1, cGender = 0, cZone = 1, cAccount = 1, cOnline = 1, cLogoutTime = 0\<rparr>),
     timeNow = 0, guildEventFails = False\<rparr>"

definition demo_warm :: guilds_realm where
  "demo_warm = fst (Warmup demo_guild_env demo_realm)"

lemma demo_ranks: "ranks_of i (dbGuildRanks demo_realm) = (if i = 1 then dbGuildRanks demo_realm else [])"
  by (simp add: ranks_of_def demo_realm_def demo_rank_def)

lemma demo_reach: "guild_reach demo_warm"
proof (rule guild_reach.start)
  show "db_ok demo_realm"
    unfolding db_ok_def demo_ranks
    by (auto simp: demo_realm_def demo_member_def guild_member_row_def demo_guild_def guild_row_def contiguous_def demo_rank_def upt_rec)
  show "reorders demo_guild_env" by (simp add: reorders_def demo_guild_env_def)
  show "Warmup demo_guild_env demo_realm = (demo_warm, None)"
    by (simp add: demo_warm_def Warmup_def LoadAllForRealm_def demo_guild_env_def Let_def)
qed

lemma demo_unique: "unique_guids demo_guild_env"
  by (auto simp: unique_guids_def demo_guild_env_def)

definition demo_promoted :: guilds_realm where
  "demo_promoted = fst (run_call demo_guild_env (CallPromote 7 9) demo_warm)"

lemma demo_promoted_reach: "guild_reach demo_promoted"
  unfolding demo_promoted_def by (rule guild_reach.call [OF demo_reach demo_unique])

theorem guild_cache_refines_tables_witness:
  "map_option (\<lambda>p. guild_member_row (members_heap demo_promoted ! p)) (member_ptr 9 demo_promoted) = Some (demo_member 9 1)"
proof -
  have "find (\<lambda>r. PlayerGUID r = 9 \<and> dbGuildRows demo_promoted (gmGuildID r) \<noteq> None) (dbGuildMembers demo_promoted) = Some (demo_member 9 1)"
    by code_simp
  then show ?thesis using guild_cache_refines_tables [OF demo_promoted_reach] by metis
qed

theorem guild_rosters_agree_witness:
  "8 \<in> set (map (\<lambda>p. PlayerGUID (members_heap demo_warm ! p)) (GuildMembers (the (cached_guild 1 demo_warm))))"
proof -
  have "cached_guild 1 demo_warm \<noteq> None" by code_simp
  then have "cached_guild 1 demo_warm = Some (the (cached_guild 1 demo_warm))" by simp
  moreover have "GuildIDByRealmAndMemberGUID 8 demo_warm = 1" by code_simp
  ultimately show ?thesis using guild_rosters_agree [OF demo_reach, of 1 "the (cached_guild 1 demo_warm)"] by simp
qed


theorem guild_master_stays_witness:
  "member_ptr 7 (run_calls (map (Pair demo_guild_env) [CallDemote 8 7, CallKick 8 7, CallLeave 7]) demo_warm) = Some 0"
proof -
  have m: "member_ptr 7 demo_warm = Some 0" by code_simp
  have r: "mRank (members_heap demo_warm ! 0) = 0" by code_simp
  show ?thesis using guild_master_stays [OF demo_reach m r, of "map (Pair demo_guild_env) [CallDemote 8 7, CallKick 8 7, CallLeave 7]"] demo_unique by simp
qed

section \<open>Where the checks fail\<close>

text \<open>
  The new rank of a promotion is computed as \<^verbatim>\<open>targetRank.Rank - 1\<close> on 8 bits before it is compared. For the guild
  master this is 255, which every rank is allowed to give: any member with the right to promote turns the guild
  master into a member without a rank, and the handler panics on the rank it does not find.
\<close>

lemma promotion_deposes_master:
  assumes "guildByMemberGUID u s = Some g" "GuildIDByRealmAndMemberGUID t s = guildID g" "guildID g \<noteq> 0"
    and "rankForMember s g u = Some ru" "HasRight ru RightPromote" "Rank ru < 255"
    and "rankForMember s g t = Some rt" "Rank rt = 0" "rankWithID g 255 = None" "\<not> guildDbFails env StmtUpdateGuildMemberRank"
  shows "PromoteMember env u t s = (fst (cache_SetMemberRank env t 255 s), Some GuildPanic, [])"
proof -
  have new: "Rank rt - 1 = 255" using assms(8) by simp
  have "snd (cache_SetMemberRank env t 255 s) = None"
    using assms(10) by (simp add: cache_SetMemberRank_def after_write_def mysql_SetMemberRank_def)
  then obtain s1 where "cache_SetMemberRank env t 255 s = (s1, None)" by (metis prod.collapse)
  then have "updateRank env u t True s = (s1, Some GuildPanic, [])"
    unfolding updateRank_def Let_def assms(1,4,7) option.case if_True new using assms(2,3,5,6,9)
    by (simp add: and_then_def announce_rank_def not_le)
  with \<open>cache_SetMemberRank env t 255 s = (s1, None)\<close> show ?thesis by (simp add: PromoteMember_def)
qed

lemma officer_deposes_master:
  "mRank (members_heap (fst (PromoteMember demo_guild_env 8 7 demo_warm)) ! 0) = 255"
  "fst (snd (PromoteMember demo_guild_env 8 7 demo_warm)) = Some GuildPanic"
  by code_simp+

text \<open>
  Deleting the last rank leaves its members with a rank that does not exist, and every call in which their rank is
  looked up dereferences a nil pointer; nothing protects the five default ranks, which a comment says cannot
  be deleted, nor the rank of the guild master.
\<close>

lemma deleted_rank_blocks_member:
  "fst (snd (DeleteLastGuildRank demo_guild_env 7 demo_warm)) = None"
  "fst (snd (Leave demo_guild_env 9 (fst (DeleteLastGuildRank demo_guild_env 7 demo_warm)))) = Some GuildPanic"
  "fst (snd (Kick demo_guild_env 7 9 (fst (DeleteLastGuildRank demo_guild_env 7 demo_warm)))) = Some GuildPanic"
  "fst (snd (DemoteMember demo_guild_env 7 9 (fst (DeleteLastGuildRank demo_guild_env 7 demo_warm)))) = Some GuildPanic"
  by code_simp+

lemma delete_all_ranks:
  "let s = fst (DeleteLastGuildRank demo_guild_env 7 (fst (DeleteLastGuildRank demo_guild_env 7 (fst (DeleteLastGuildRank demo_guild_env 7 demo_warm)))))
   in map_option GuildRanks (cached_guild 1 s) = Some [] \<and> fst (snd (AddGuildRank demo_guild_env 7 ''x'' s)) = Some GuildPanic"
  by code_simp

text \<open>A rank whose rights lack the empty right, as \<^verbatim>\<open>UpdateGuildRank\<close> stores them unchecked, has every right.\<close>

lemma rank_without_empty_right_has_all:
  assumes "Rights r AND RightEmpty = 0"
  shows "HasRight r right"
  unfolding HasRight_def
proof
  assume "Rights r AND right = RightEmpty"
  then have "(Rights r AND RightEmpty) AND right = RightEmpty"
    by (metis and.assoc and.commute and.idem)
  then show False using assms by simp
qed

text \<open>The event of a deleted rank carries the rank of the caller, which is always that of the guild master.\<close>

lemma rank_deleted_event:
  "\<exists>e. snd (snd (DeleteLastGuildRank demo_guild_env 7 demo_warm)) = [RankDeleted e 0 ''rank'' 2]"
proof -
  have "map (\<lambda>e. case e of RankDeleted g k n m \<Rightarrow> (k, n, m) | _ \<Rightarrow> (9, [], 9)) (snd (snd (DeleteLastGuildRank demo_guild_env 7 demo_warm))) = [(0, ''rank'', 2)]"
    by code_simp
  then show ?thesis by (auto split: guild_event.splits)
qed

text \<open>Any member may write to the officers' channel: the rights to speak are not looked at.\<close>

lemma officer_chat_from_anyone:
  "map (\<lambda>e. case e of NewMessage r g u n l m off rs \<Rightarrow> (u, off, rs) | _ \<Rightarrow> (0, False, [])) (snd (snd (SendGuildMessage demo_guild_env 1 9 ''hi'' 0 True demo_warm)))
    = [(9, True, [7, 8])]"
  by code_simp

end
