(* ===== verification/Mail_Storage.thy ===== *)
theory Mail_Storage
  imports Cloud9_Prelude
begin

text \<open>
  The mail tables of a realm and the statements on them (\<^verbatim>\<open>apps/mailserver/repo/mail.go\<close>,
  \<^verbatim>\<open>repo/stmts.go\<close>, \<^verbatim>\<open>repo/mail_mysql.go\<close>). The tables are part of the state. A statement can fail, a row can be
  rejected by a constraint, and a connection can break while rows are read, which no reader here looks at.
\<close>

section \<open>Mails and attachments\<close>

type_synonym i32 = "32 word"
type_synonym i64 = "64 word"

record ItemAttachment =
  iGUID :: u64
  OwnerGUID :: u64
  Entry :: u64
  Pos :: u8
  iCount :: i64
  Charges :: i64
  iFlags :: u64
  RandomPropertyID :: u64
  PropertySeed :: u64
  Durability :: i64
  iText :: string

record Mail =
  mID :: u64
  mType :: u8
  Stationery :: u8
  TemplateID :: u32
  SenderGuid :: u64
  ReceiverGuid :: u64
  FlagsMask :: u16
  Subject :: string
  Body :: string
  MoneyToSend :: i32
  CashOnDelivery :: i32
  DeliveryTimestamp :: i64
  ExpirationTimestamp :: i64
  HasItemAttachments :: bool
  Attachments :: "ItemAttachment list"

abbreviation MailFlagRead :: u16 where "MailFlagRead \<equiv> 1"
abbreviation MailFlagReturned :: u16 where "MailFlagReturned \<equiv> 2"
abbreviation MailFlagCashOnDelivery :: u16 where "MailFlagCashOnDelivery \<equiv> 8"
abbreviation MailStationeryTypeDefault :: u8 where "MailStationeryTypeDefault \<equiv> 41"

datatype mail_stmt = StmtGetMailsForCharacter | StmtGetMailsItemsForCharacter | StmtUpdateMailFlagsMask | StmtCreateNewMail
  | StmtCreateMailItem | StmtUpsertItemInstance | StmtGetMailByID | StmtGetMailItemsByID | StmtDeleteMailItemForPlayer
  | StmtDeleteMailItem | StmtUpdateMailByID | StmtSelectExpiredMails | StmtUpdateMailItemsReceiverByMailID
  | StmtDeleteMailsWithIDs | StmtSelectMailsItemsIDWithMailIDs | StmtDeleteItemsByIDs | StmtDeleteMailItemsByItemIDs

datatype mail_error = MailDB | MailScan | MailNotFound | ErrMailNotEnoughRight | ErrNoReceiver | MailPanic

text \<open>
  A row of \<^verbatim>\<open>mail\<close> is a mail without attachments; a row of \<^verbatim>\<open>mail_items\<close> ties an item to a mail; the items
  themselves are rows of \<^verbatim>\<open>item_instance\<close>, here attachments without their position, charges and seed, which no
  statement stores.
\<close>

record mail_item =
  miMail :: u64
  miItem :: u64
  miReceiver :: u64

record mails_realm =
  mailTable :: "Mail list"
  nextMailID :: u64
  mailItems :: "mail_item list"
  itemInstances :: "u64 \<rightharpoonup> ItemAttachment"

record mail_env =
  mailDbFails :: "mail_stmt \<Rightarrow> bool"
  mailCommitFails :: bool
  rowsBreak :: "mail_stmt \<Rightarrow> nat option"
  mailRejected :: "Mail \<Rightarrow> bool"
  mailItemRejected :: "mail_item list \<Rightarrow> mail_item \<Rightarrow> bool"
  mailOrder :: "Mail list \<Rightarrow> Mail list"
  mailItemOrder :: "mail_item list \<Rightarrow> mail_item list"
  clientFoundRows :: bool
  nowNanos :: int
  defaultMailExpirationTime :: i64

text \<open>\<open>rows_of\<close> are the rows a loop over \<^verbatim>\<open>rows.Next()\<close> sees: all of them, or those before the connection broke.\<close>

definition rows_of :: "mail_env \<Rightarrow> mail_stmt \<Rightarrow> 'a list \<Rightarrow> 'a list" where
  "rows_of env st rows = (case rowsBreak env st of None \<Rightarrow> rows | Some n \<Rightarrow> take n rows)"

definition mail_row :: "u64 \<Rightarrow> bool \<Rightarrow> Mail \<Rightarrow> Mail" where
  "mail_row i has m = m\<lparr>mID := i, HasItemAttachments := has, Attachments := []\<rparr>"

definition mail_of :: "u64 \<Rightarrow> mails_realm \<Rightarrow> Mail option" where
  "mail_of i s = find (\<lambda>m. mID m = i) (mailTable s)"

section \<open>New mails\<close>

text \<open>
  The items of a new mail are inserted one by one and their instances inserted or updated; the entry of an
  instance that exists is not changed.
\<close>

definition upsert_item :: "ItemAttachment \<Rightarrow> (u64 \<rightharpoonup> ItemAttachment) \<Rightarrow> (u64 \<rightharpoonup> ItemAttachment)" where
  "upsert_item a t = t(iGUID a \<mapsto>
     (let row = a\<lparr>Pos := 0, Charges := 0, PropertySeed := 0\<rparr>
      in case t (iGUID a) of None \<Rightarrow> row | Some old \<Rightarrow> row\<lparr>Entry := Entry old\<rparr>))"

fun add_mail_items :: "mail_env \<Rightarrow> u64 \<Rightarrow> u64 \<Rightarrow> ItemAttachment list \<Rightarrow> mails_realm \<Rightarrow> mails_realm option" where
  "add_mail_items env i receiver [] s = Some s"
| "add_mail_items env i receiver (a # as) s =
     (let row = \<lparr>miMail = i, miItem = iGUID a, miReceiver = receiver\<rparr>
      in if mailDbFails env StmtCreateMailItem \<or> mailItemRejected env (mailItems s) row \<or> mailDbFails env StmtUpsertItemInstance then None
         else add_mail_items env i receiver as
                (s\<lparr>mailItems := mailItems s @ [row], itemInstances := upsert_item a (itemInstances s)\<rparr>))"

text \<open>
  \<open>AddMail\<close> is one transaction. The counter of IDs is not rolled back, and an insert fails when it is used up.
\<close>

definition AddMail :: "mail_env \<Rightarrow> Mail \<Rightarrow> mails_realm \<Rightarrow> mails_realm \<times> (mail_error + u64)" where
  "AddMail env m s =
     (let i = nextMailID s;
          row = mail_row i (Attachments m \<noteq> []) m;
          s1 = s\<lparr>nextMailID := i + 1\<rparr>
      in if mailDbFails env StmtCreateNewMail \<or> mailRejected env row \<or> i = - 1 then (s, Inl MailDB)
         else
           (case add_mail_items env i (ReceiverGuid m) (Attachments m) (s1\<lparr>mailTable := mailTable s @ [row]\<rparr>) of
              None \<Rightarrow> (s1, Inl MailDB)
            | Some s2 \<Rightarrow> if mailCommitFails env then (s1, Inl MailDB) else (s2, Inr i)))"

section \<open>Reading mails\<close>

definition mailByIDWithoutAttachments :: "mail_env \<Rightarrow> u64 \<Rightarrow> mails_realm \<Rightarrow> mail_error + Mail" where
  "mailByIDWithoutAttachments env i s =
     (if mailDbFails env StmtGetMailByID then Inl MailDB
      else (case rows_of env StmtGetMailByID (filter (\<lambda>m. mID m = i) (mailTable s)) of
              [] \<Rightarrow> Inl MailNotFound
            | m # ms \<Rightarrow> if mID (last (m # ms)) = 0 then Inl MailNotFound else Inr (last (m # ms))))"

text \<open>
  The items of mails are joined with their instances; an item without an instance yields \<^verbatim>\<open>NULL\<close> columns, which
  cannot be scanned.
\<close>

fun scan_attachments :: "(u64 \<rightharpoonup> ItemAttachment) \<Rightarrow> mail_item list \<Rightarrow> (ItemAttachment list) option" where
  "scan_attachments t [] = Some []"
| "scan_attachments t (r # rs) =
     (case t (miItem r) of None \<Rightarrow> None | Some a \<Rightarrow> map_option ((#) (a\<lparr>iGUID := miItem r\<rparr>)) (scan_attachments t rs))"

definition items_of_mail :: "mail_env \<Rightarrow> u64 \<Rightarrow> mails_realm \<Rightarrow> mail_item list" where
  "items_of_mail env i s = mailItemOrder env (filter (\<lambda>r. miMail r = i \<and> mail_of (miMail r) s \<noteq> None) (mailItems s))"

definition MailByID :: "mail_env \<Rightarrow> u64 \<Rightarrow> mails_realm \<Rightarrow> mail_error + Mail" where
  "MailByID env i s =
     (case mailByIDWithoutAttachments env i s of
        Inl e \<Rightarrow> Inl e
      | Inr m \<Rightarrow>
          if mailDbFails env StmtGetMailItemsByID then Inl MailDB
          else (case scan_attachments (itemInstances s) (rows_of env StmtGetMailItemsByID (items_of_mail env i s)) of
                  None \<Rightarrow> Inl MailScan
                | Some as \<Rightarrow> Inr (m\<lparr>Attachments := as\<rparr>)))"

text \<open>
  \<open>MailListForPlayer\<close> reads the mails, newest first, and then the items, by two queries: \<open>s\<close> and \<open>s'\<close> are the tables
  at the first and at the second. An item of a mail that the first query did not return is looked up in a map
  without it, which gives index 0.
\<close>

fun attach_items :: "(u64 \<rightharpoonup> ItemAttachment) \<Rightarrow> (u64 \<rightharpoonup> nat) \<Rightarrow> mail_item list \<Rightarrow> Mail list \<Rightarrow> mail_error + Mail list" where
  "attach_items t mailsByID [] mails = Inr mails"
| "attach_items t mailsByID (r # rs) mails =
     (case t (miItem r) of
        None \<Rightarrow> Inl MailScan
      | Some a \<Rightarrow>
          (let k = case_option 0 id (mailsByID (miMail r))
           in if length mails \<le> k then Inl MailPanic
              else attach_items t mailsByID rs
                     (mails[k := (mails ! k)\<lparr>Attachments := Attachments (mails ! k) @ [a\<lparr>iGUID := miItem r\<rparr>]\<rparr>])))"

definition mail_index :: "Mail list \<Rightarrow> (u64 \<rightharpoonup> nat)" where
  "mail_index mails = map_of (rev (zip (map mID mails) [0..<length mails]))"

definition MailListForPlayer :: "mail_env \<Rightarrow> u64 \<Rightarrow> mails_realm \<Rightarrow> mails_realm \<Rightarrow> mail_error + Mail list" where
  "MailListForPlayer env player s s' =
     (if mailDbFails env StmtGetMailsForCharacter then Inl MailDB
      else
        (let mails = rows_of env StmtGetMailsForCharacter
               (rev (sort_key mID (filter (\<lambda>m. ReceiverGuid m = player) (mailTable s))));
             items = rows_of env StmtGetMailsItemsForCharacter (mailItemOrder env
               (filter (\<lambda>r. \<exists>m\<in>set (mailTable s'). mID m = miMail r \<and> ReceiverGuid m = player) (mailItems s')))
         in if mailDbFails env StmtGetMailsItemsForCharacter then Inl MailDB
            else attach_items (itemInstances s') (mail_index mails) items mails))"

definition ExpiredMails :: "mail_env \<Rightarrow> mails_realm \<Rightarrow> mail_error + Mail list" where
  "ExpiredMails env s =
     (if mailDbFails env StmtSelectExpiredMails then Inl MailDB
      else Inr (rows_of env StmtSelectExpiredMails
        (mailOrder env (filter (\<lambda>m. sint (ExpirationTimestamp m) < nowNanos env div 10 ^ 9) (mailTable s)))))"

definition MailItemsIDsByMailIDs :: "mail_env \<Rightarrow> u64 list \<Rightarrow> mails_realm \<Rightarrow> mail_error + u64 list" where
  "MailItemsIDsByMailIDs env ids s =
     (if mailDbFails env StmtSelectMailsItemsIDWithMailIDs \<or> ids = [] then Inl MailDB
      else Inr (map miItem (rows_of env StmtSelectMailsItemsIDWithMailIDs
             (mailItemOrder env (filter (\<lambda>r. miMail r \<in> set ids) (mailItems s))))))"

section \<open>Changing and deleting\<close>

text \<open>
  An update sets every column of a mail but its ID and \<^verbatim>\<open>has_items\<close>. The driver reports the rows that changed, or
  those that matched when the connection says \<^verbatim>\<open>clientFoundRows\<close>.
\<close>

definition overwritten :: "Mail \<Rightarrow> Mail \<Rightarrow> Mail" where
  "overwritten m row = m\<lparr>mID := mID row, HasItemAttachments := HasItemAttachments row, Attachments := []\<rparr>"

definition update_mails :: "(Mail \<Rightarrow> bool) \<Rightarrow> (Mail \<Rightarrow> Mail) \<Rightarrow> mails_realm \<Rightarrow> mails_realm" where
  "update_mails p f s = s\<lparr>mailTable := map (\<lambda>m. if p m then f m else m) (mailTable s)\<rparr>"

definition rows_affected :: "mail_env \<Rightarrow> (Mail \<Rightarrow> bool) \<Rightarrow> (Mail \<Rightarrow> Mail) \<Rightarrow> mails_realm \<Rightarrow> nat" where
  "rows_affected env p f s = length (filter (\<lambda>m. p m \<and> (clientFoundRows env \<or> f m \<noteq> m)) (mailTable s))"

definition UpdateMailFlagsMaskForPlayer :: "mail_env \<Rightarrow> u64 \<Rightarrow> u64 \<Rightarrow> u16 \<Rightarrow> mails_realm \<Rightarrow> mails_realm \<times> mail_error option" where
  "UpdateMailFlagsMaskForPlayer env player i flags s =
     (let p = (\<lambda>m. mID m = i \<and> ReceiverGuid m = player); f = (\<lambda>m. m\<lparr>FlagsMask := flags\<rparr>)
      in if mailDbFails env StmtUpdateMailFlagsMask then (s, Some MailDB)
         else (update_mails p f s, if rows_affected env p f s = 0 then Some MailNotFound else None))"

definition UpdateMailWithoutAttachments :: "mail_env \<Rightarrow> Mail \<Rightarrow> mails_realm \<Rightarrow> mails_realm \<times> mail_error option" where
  "UpdateMailWithoutAttachments env m s =
     (if mailDbFails env StmtUpdateMailByID \<or> mailRejected env m then (s, Some MailDB)
      else (update_mails (\<lambda>r. mID r = mID m) (overwritten m) s, None))"

definition updateMailByIDWithoutAttachments :: "mail_env \<Rightarrow> Mail \<Rightarrow> mails_realm \<Rightarrow> mails_realm \<times> mail_error option" where
  "updateMailByIDWithoutAttachments env m s =
     (if mailDbFails env StmtUpdateMailByID \<or> mailRejected env m then (s, Some MailDB)
      else (update_mails (\<lambda>r. mID r = mID m) (overwritten m) s,
            if rows_affected env (\<lambda>r. mID r = mID m) (overwritten m) s = 0 then Some MailNotFound else None))"

definition UpdateMailItemsOwner :: "mail_env \<Rightarrow> u64 \<Rightarrow> u64 \<Rightarrow> mails_realm \<Rightarrow> mails_realm \<times> mail_error option" where
  "UpdateMailItemsOwner env i newReceiverID s =
     (if mailDbFails env StmtUpdateMailItemsReceiverByMailID then (s, Some MailDB)
      else (s\<lparr>mailItems := map (\<lambda>r. if miMail r = i then r\<lparr>miReceiver := newReceiverID\<rparr> else r) (mailItems s)\<rparr>, None))"

definition delete_mail_items :: "(mail_item \<Rightarrow> bool) \<Rightarrow> mails_realm \<Rightarrow> mails_realm" where
  "delete_mail_items p s = s\<lparr>mailItems := filter (\<lambda>r. \<not> p r) (mailItems s)\<rparr>"

definition repo_RemoveMailItem :: "mail_env \<Rightarrow> u64 \<Rightarrow> u64 \<Rightarrow> mails_realm \<Rightarrow> mails_realm \<times> mail_error option" where
  "repo_RemoveMailItem env i item s =
     (if mailDbFails env StmtDeleteMailItem then (s, Some MailDB)
      else (delete_mail_items (\<lambda>r. miMail r = i \<and> miItem r = item) s,
            if \<exists>r\<in>set (mailItems s). miMail r = i \<and> miItem r = item then None else Some MailNotFound))"

definition RemoveMailItemForPlayer :: "mail_env \<Rightarrow> u64 \<Rightarrow> u64 \<Rightarrow> u64 \<Rightarrow> mails_realm \<Rightarrow> mails_realm \<times> mail_error option" where
  "RemoveMailItemForPlayer env i item player s =
     (let p = (\<lambda>r. miMail r = i \<and> miItem r = item \<and> miReceiver r = player)
      in if mailDbFails env StmtDeleteMailItemForPlayer then (s, Some MailDB)
         else (delete_mail_items p s, if \<exists>r\<in>set (mailItems s). p r then None else Some MailNotFound))"

definition DeleteMailsWithoutAttachments :: "mail_env \<Rightarrow> u64 list \<Rightarrow> mails_realm \<Rightarrow> mails_realm \<times> mail_error option" where
  "DeleteMailsWithoutAttachments env ids s =
     (if mailDbFails env StmtDeleteMailsWithIDs \<or> ids = [] then (s, Some MailDB)
      else (s\<lparr>mailTable := filter (\<lambda>m. mID m \<notin> set ids) (mailTable s)\<rparr>, None))"

definition DeleteItemsWithIDs :: "mail_env \<Rightarrow> u64 list \<Rightarrow> mails_realm \<Rightarrow> mails_realm \<times> mail_error option" where
  "DeleteItemsWithIDs env items s =
     (if mailDbFails env StmtDeleteItemsByIDs \<or> items = [] then (s, Some MailDB)
      else (s\<lparr>itemInstances := delete_all (itemInstances s) items\<rparr>, None))"

definition DeleteMailItemsWithIDs :: "mail_env \<Rightarrow> u64 list \<Rightarrow> mails_realm \<Rightarrow> mails_realm \<times> mail_error option" where
  "DeleteMailItemsWithIDs env items s =
     (if mailDbFails env StmtDeleteMailItemsByItemIDs \<or> items = [] then (s, Some MailDB)
      else (delete_mail_items (\<lambda>r. miItem r \<in> set items) s, None))"

subsection \<open>Taking the money\<close>

text \<open>
  The money is read with the whole mail, and the mail is written back without it. Other calls can run in
  between, so the write is a definition of its own.
\<close>

definition take_money_write :: "mail_env \<Rightarrow> Mail \<Rightarrow> mails_realm \<Rightarrow> mails_realm \<times> (mail_error + i32)" where
  "take_money_write env m s =
     (case updateMailByIDWithoutAttachments env (m\<lparr>MoneyToSend := 0\<rparr>) s of
        (s1, Some e) \<Rightarrow> (s1, Inl e)
      | (s1, None) \<Rightarrow> (s1, Inr (MoneyToSend m)))"

definition repo_RemoveMailMoney :: "mail_env \<Rightarrow> u64 \<Rightarrow> mails_realm \<Rightarrow> mails_realm \<times> (mail_error + i32)" where
  "repo_RemoveMailMoney env i s =
     (case mailByIDWithoutAttachments env i s of Inl e \<Rightarrow> (s, Inl e) | Inr m \<Rightarrow> take_money_write env m s)"

definition RemoveMailMoneyForPlayer :: "mail_env \<Rightarrow> u64 \<Rightarrow> u64 \<Rightarrow> mails_realm \<Rightarrow> mails_realm \<times> (mail_error + i32)" where
  "RemoveMailMoneyForPlayer env i player s =
     (case mailByIDWithoutAttachments env i s of
        Inl e \<Rightarrow> (s, Inl e)
      | Inr m \<Rightarrow> if ReceiverGuid m \<noteq> player then (s, Inr 0) else take_money_write env m s)"

end
