(* ===== verification/Mail_Service.thy ===== *)
theory Mail_Service
  imports Mail_Storage
begin

text \<open>
  The mail service (\<^verbatim>\<open>apps/mailserver/service/mail.go\<close>): sending, taking items and money, deleting, and the expiry
  of mails that \<^verbatim>\<open>service/cleanup-ticker.go\<close> runs for its realms. Events are collected in a list; an event that
  cannot be sent is only logged.
\<close>

unbundle bit_operations_syntax

record mail_event =
  evRealmID :: u32
  evSenderGUID :: u64
  evReceiverGUID :: u64
  evDeliveryTimestamp :: i64
  evMailID :: u32

definition incoming :: "u32 \<Rightarrow> Mail \<Rightarrow> mail_event" where
  "incoming realmID m = \<lparr>evRealmID = realmID, evSenderGUID = SenderGuid m, evReceiverGUID = ReceiverGuid m,
     evDeliveryTimestamp = DeliveryTimestamp m, evMailID = ucast (mID m)\<rparr>"

text \<open>\<open>unix_after env d\<close> is \<^verbatim>\<open>time.Now().Add(d).Unix()\<close> for a duration of \<open>d\<close> nanoseconds.\<close>

definition unix_after :: "mail_env \<Rightarrow> i64 \<Rightarrow> i64" where
  "unix_after env d = word_of_int ((nowNanos env + sint d) div 10 ^ 9)"

definition with_defaults :: "mail_env \<Rightarrow> Mail \<Rightarrow> Mail" where
  "with_defaults env m =
     m\<lparr>ExpirationTimestamp := (if ExpirationTimestamp m = 0 then unix_after env (defaultMailExpirationTime env) else ExpirationTimestamp m),
       DeliveryTimestamp := (if DeliveryTimestamp m = 0 then unix_after env 5000000000 else DeliveryTimestamp m),
       Stationery := (if Stationery m = 0 then MailStationeryTypeDefault else Stationery m)\<rparr>"

definition SendMail :: "mail_env \<Rightarrow> u32 \<Rightarrow> Mail \<Rightarrow> mails_realm \<Rightarrow> mails_realm \<times> (mail_error + u64) \<times> mail_event list" where
  "SendMail env realmID m s =
     (if ReceiverGuid m = 0 then (s, Inl ErrNoReceiver, [])
      else
        (case AddMail env (with_defaults env m) s of
           (s1, Inl e) \<Rightarrow> (s1, Inl e, [])
         | (s1, Inr i) \<Rightarrow> (s1, Inr i, [incoming realmID ((with_defaults env m)\<lparr>mID := i\<rparr>)])))"

definition MarkMailAsReadForPlayer :: "mail_env \<Rightarrow> u64 \<Rightarrow> u64 \<Rightarrow> mails_realm \<Rightarrow> mails_realm \<times> mail_error option" where
  "MarkMailAsReadForPlayer env player i s =
     (case MailByID env i s of
        Inl e \<Rightarrow> (s, Some e)
      | Inr m \<Rightarrow> UpdateMailFlagsMaskForPlayer env player i (FlagsMask m OR MailFlagRead) s)"

text \<open>
  \<open>take_item\<close> is what happens after the mail was read: the item goes, the price of a cash-on-delivery mail is sent
  to its sender, and the mail is written back.
\<close>

definition cod_payment :: "Mail \<Rightarrow> Mail" where
  "cod_payment m = \<lparr>mID = 0, mType = 0, Stationery = 0, TemplateID = 0, SenderGuid = ReceiverGuid m, ReceiverGuid = SenderGuid m,
     FlagsMask = MailFlagCashOnDelivery, Subject = Subject m, Body = [], MoneyToSend = CashOnDelivery m, CashOnDelivery = 0,
     DeliveryTimestamp = 0, ExpirationTimestamp = 0, HasItemAttachments = False, Attachments = []\<rparr>"

definition write_back :: "mail_env \<Rightarrow> bool \<Rightarrow> Mail \<Rightarrow> mails_realm \<Rightarrow> mails_realm \<times> mail_error option" where
  "write_back env needsUpdate m s = (if needsUpdate then UpdateMailWithoutAttachments env m s else (s, None))"

definition take_item ::
  "mail_env \<Rightarrow> u32 \<Rightarrow> Mail \<Rightarrow> u64 \<Rightarrow> u64 \<Rightarrow> bool \<Rightarrow> mails_realm \<Rightarrow> mails_realm \<times> mail_error option \<times> mail_event list" where
  "take_item env realmID m i item handleCOD s =
     (case repo_RemoveMailItem env i item s of
        (s1, Some e) \<Rightarrow> (s1, Some e, [])
      | (s1, None) \<Rightarrow>
          (let lastItem = HasItemAttachments m \<and> length (Attachments m) = 1 \<and> iGUID (Attachments m ! 0) = item;
               m1 = (if lastItem then m\<lparr>HasItemAttachments := False\<rparr> else m)
           in if handleCOD \<and> 0 <s CashOnDelivery m1 then
                (case SendMail env realmID (cod_payment m1) s1 of
                   (s2, Inl e, ev) \<Rightarrow> (s2, Some e, ev)
                 | (s2, Inr _, ev) \<Rightarrow>
                     (case write_back env True (m1\<lparr>CashOnDelivery := 0\<rparr>) s2 of (s3, e) \<Rightarrow> (s3, e, ev)))
              else (case write_back env lastItem m1 s1 of (s2, e) \<Rightarrow> (s2, e, []))))"

definition RemoveMailItem ::
  "mail_env \<Rightarrow> u32 \<Rightarrow> u64 \<Rightarrow> u64 \<Rightarrow> u64 option \<Rightarrow> bool \<Rightarrow> mails_realm \<Rightarrow> mails_realm \<times> mail_error option \<times> mail_event list" where
  "RemoveMailItem env realmID i item receiver handleCOD s =
     (case MailByID env i s of
        Inl e \<Rightarrow> (s, Some e, [])
      | Inr m \<Rightarrow>
          if receiver \<noteq> None \<and> receiver \<noteq> Some (ReceiverGuid m) then (s, Some ErrMailNotEnoughRight, [])
          else take_item env realmID m i item handleCOD s)"

definition RemoveMailMoney :: "mail_env \<Rightarrow> u64 \<Rightarrow> u64 option \<Rightarrow> mails_realm \<Rightarrow> mails_realm \<times> (mail_error + i32)" where
  "RemoveMailMoney env i receiver s =
     (case receiver of
        Some player \<Rightarrow> RemoveMailMoneyForPlayer env i player s
      | None \<Rightarrow> repo_RemoveMailMoney env i s)"

definition DeleteMail :: "mail_env \<Rightarrow> u64 \<Rightarrow> mails_realm \<Rightarrow> mails_realm \<times> mail_error option" where
  "DeleteMail env i s =
     (case MailByID env i s of
        Inl e \<Rightarrow> (s, Some e)
      | Inr m \<Rightarrow>
          (let ids = map iGUID (Attachments m)
           in if ids = [] then DeleteMailsWithoutAttachments env [i] s
              else
                (case DeleteMailItemsWithIDs env ids s of
                   (s1, Some e) \<Rightarrow> (s1, Some e)
                 | (s1, None) \<Rightarrow>
                     (case DeleteItemsWithIDs env ids s1 of
                        (s2, Some e) \<Rightarrow> (s2, Some e)
                      | (s2, None) \<Rightarrow> DeleteMailsWithoutAttachments env [i] s2))))"

section \<open>Expired mails\<close>

definition has_content :: "Mail \<Rightarrow> bool" where
  "has_content m \<longleftrightarrow> MoneyToSend m \<noteq> 0 \<or> HasItemAttachments m"

definition was_returned :: "Mail \<Rightarrow> bool" where
  "was_returned m \<longleftrightarrow> FlagsMask m AND MailFlagReturned \<noteq> 0"

text \<open>The time a returned mail lives is a product of 64 bit durations.\<close>

definition returned :: "mail_env \<Rightarrow> Mail \<Rightarrow> Mail" where
  "returned env m = m\<lparr>FlagsMask := FlagsMask m OR MailFlagReturned, ReceiverGuid := SenderGuid m,
     ExpirationTimestamp := unix_after env (1000000000 * (ExpirationTimestamp m - DeliveryTimestamp m))\<rparr>"

fun return_mails :: "mail_env \<Rightarrow> u32 \<Rightarrow> Mail list \<Rightarrow> mails_realm \<Rightarrow> mails_realm \<times> mail_error option \<times> mail_event list" where
  "return_mails env realmID [] s = (s, None, [])"
| "return_mails env realmID (m # ms) s =
     (if was_returned m then return_mails env realmID ms s
      else
        (let m1 = returned env m
         in case UpdateMailWithoutAttachments env m1 s of
              (s1, Some e) \<Rightarrow> (s1, Some e, [])
            | (s1, None) \<Rightarrow>
                (case (if HasItemAttachments m1 then UpdateMailItemsOwner env (mID m1) (SenderGuid m1) s1 else (s1, None)) of
                   (s2, Some e) \<Rightarrow> (s2, Some e, [])
                 | (s2, None) \<Rightarrow>
                     (case return_mails env realmID ms s2 of (s3, e, ev) \<Rightarrow> (s3, e, incoming realmID m1 # ev)))))"

definition delete_returned :: "mail_env \<Rightarrow> u64 list \<Rightarrow> mails_realm \<Rightarrow> mails_realm \<times> mail_error option" where
  "delete_returned env ids s =
     (if ids = [] then (s, None)
      else
        (case MailItemsIDsByMailIDs env ids s of
           Inl e \<Rightarrow> (s, Some e)
         | Inr items \<Rightarrow>
             if items = [] then DeleteMailsWithoutAttachments env ids s
             else
               (case DeleteItemsWithIDs env items s of
                  (s1, Some e) \<Rightarrow> (s1, Some e)
                | (s1, None) \<Rightarrow>
                    (case DeleteMailItemsWithIDs env items s1 of
                       (s2, Some e) \<Rightarrow> (s2, Some e)
                     | (s2, None) \<Rightarrow> DeleteMailsWithoutAttachments env ids s2))))"

definition delete_empty :: "mail_env \<Rightarrow> u64 list \<Rightarrow> mails_realm \<Rightarrow> mails_realm \<times> mail_error option" where
  "delete_empty env ids s = (if ids = [] then (s, None) else DeleteMailsWithoutAttachments env ids s)"

definition ProcessExpiredMails :: "mail_env \<Rightarrow> u32 \<Rightarrow> mails_realm \<Rightarrow> mails_realm \<times> mail_error option \<times> mail_event list" where
  "ProcessExpiredMails env realmID s =
     (case ExpiredMails env s of
        Inl e \<Rightarrow> (s, Some e, [])
      | Inr mails \<Rightarrow>
          (case delete_empty env (map mID (filter (\<lambda>m. \<not> has_content m) mails)) s of
             (s1, Some e) \<Rightarrow> (s1, Some e, [])
           | (s1, None) \<Rightarrow>
               (case return_mails env realmID (filter has_content mails) s1 of
                  (s2, Some e, ev) \<Rightarrow> (s2, Some e, ev)
                | (s2, None, ev) \<Rightarrow>
                    (case delete_returned env (map mID (filter (\<lambda>m. has_content m \<and> was_returned m) mails)) s2 of
                       (s3, e) \<Rightarrow> (s3, e, ev)))))"

text \<open>One tick of the cleaner: every realm is processed, and errors are logged.\<close>

definition cleanup_tick :: "(u32 \<Rightarrow> mail_env) \<Rightarrow> u32 list \<Rightarrow> (u32 \<Rightarrow> mails_realm) \<Rightarrow> (u32 \<Rightarrow> mails_realm)" where
  "cleanup_tick envs realms w = fold (\<lambda>r w. w(r := fst (ProcessExpiredMails (envs r) r (w r)))) realms w"

end
