(* ===== verification/Mail_Invariant.thy ===== *)
theory Mail_Invariant
  imports Mail_Service "HOL-Library.Multiset"
begin

text \<open>
  The calls of the mail server as one datatype, and the invariant of the mail tables: IDs are distinct and below
  the counter, rows carry no attachments of their own, and every attached item belongs to a mail that is marked to
  have items. Every call keeps it, whatever statements fail.
\<close>

datatype mail_call =
    CallSend Mail
  | CallMarkRead u64 u64
  | CallTakeItem u64 u64 "u64 option" bool
  | CallTakeMoney u64 "u64 option"
  | CallDeleteMail u64
  | CallExpire

fun run_mail :: "mail_env \<Rightarrow> u32 \<Rightarrow> mail_call \<Rightarrow> mails_realm \<Rightarrow> mails_realm" where
  "run_mail env realmID (CallSend m) s = fst (SendMail env realmID m s)"
| "run_mail env realmID (CallMarkRead player i) s = fst (MarkMailAsReadForPlayer env player i s)"
| "run_mail env realmID (CallTakeItem i item receiver cod) s = fst (RemoveMailItem env realmID i item receiver cod s)"
| "run_mail env realmID (CallTakeMoney i receiver) s = fst (RemoveMailMoney env i receiver s)"
| "run_mail env realmID (CallDeleteMail i) s = fst (DeleteMail env i s)"
| "run_mail env realmID CallExpire s = fst (ProcessExpiredMails env realmID s)"

definition reads_all :: "mail_env \<Rightarrow> bool" where
  "reads_all env \<longleftrightarrow> (\<forall>st. rowsBreak env st = None) \<and> (\<forall>l. mset (mailOrder env l) = mset l) \<and> (\<forall>l. mset (mailItemOrder env l) = mset l)"

definition mail_inv :: "mails_realm \<Rightarrow> bool" where
  "mail_inv s \<longleftrightarrow> distinct (map mID (mailTable s)) \<and> (\<forall>m\<in>set (mailTable s). mID m < nextMailID s \<and> Attachments m = []) \<and>
     (\<forall>r\<in>set (mailItems s). \<exists>m\<in>set (mailTable s). mID m = miMail r \<and> HasItemAttachments m)"

named_theorems mail_keeps "operations that keep the invariant of the mail tables"

lemma rows_of_all [simp]: "reads_all env \<Longrightarrow> rows_of env st l = l"
  by (simp add: rows_of_def reads_all_def)

lemma set_orders [simp]:
  "reads_all env \<Longrightarrow> set (mailOrder env l) = set l"
  "reads_all env \<Longrightarrow> set (mailItemOrder env k) = set k"
  by (metis reads_all_def set_mset_mset)+

section \<open>Single statements\<close>

lemma map_rows_inv:
  assumes "mail_inv s"
    and g: "\<And>m. m \<in> set (mailTable s) \<Longrightarrow> mID (g m) = mID m \<and> HasItemAttachments (g m) = HasItemAttachments m \<and> Attachments (g m) = []"
  shows "mail_inv (s\<lparr>mailTable := map g (mailTable s)\<rparr>)"
proof -
  have ids: "map (mID \<circ> g) (mailTable s) = map mID (mailTable s)" using g by simp
  have "\<exists>k\<in>g ` set (mailTable s). mID k = miMail r \<and> HasItemAttachments k" if r: "r \<in> set (mailItems s)" for r
  proof -
    obtain m where m: "m \<in> set (mailTable s)" "mID m = miMail r" "HasItemAttachments m"
      using assms(1) r unfolding mail_inv_def by blast
    have "mID (g m) = miMail r \<and> HasItemAttachments (g m)" using g [OF m(1)] m(2,3) by simp
    with m(1) show ?thesis by blast
  qed
  moreover have "distinct (map (mID \<circ> g) (mailTable s))" using assms(1) unfolding ids by (simp add: mail_inv_def)
  ultimately show ?thesis using assms(1) g unfolding mail_inv_def by simp
qed

lemma update_mails_inv [mail_keeps]:
  assumes "mail_inv s"
    and "\<And>m. m \<in> set (mailTable s) \<Longrightarrow> p m \<Longrightarrow> mID (f m) = mID m \<and> HasItemAttachments (f m) = HasItemAttachments m \<and> Attachments (f m) = []"
  shows "mail_inv (update_mails p f s)"
  unfolding update_mails_def
  by (rule map_rows_inv [OF assms(1)]) (use assms in \<open>simp add: mail_inv_def\<close>)

lemma overwritten_inv [mail_keeps]: "mail_inv s \<Longrightarrow> mail_inv (update_mails p (overwritten k) s)"
  by (rule update_mails_inv) (simp_all add: overwritten_def)

lemma fewer_items_inv [mail_keeps]: "mail_inv s \<Longrightarrow> mail_inv (delete_mail_items p s)"
  by (auto simp: mail_inv_def delete_mail_items_def)

lemma instances_inv [mail_keeps, simp]: "mail_inv (s\<lparr>itemInstances := t\<rparr>) = mail_inv s"
  by (simp add: mail_inv_def)

lemma UpdateMailWithoutAttachments_inv [mail_keeps]: "mail_inv s \<Longrightarrow> mail_inv (fst (UpdateMailWithoutAttachments env m s))"
  by (simp add: UpdateMailWithoutAttachments_def overwritten_inv)

lemma UpdateMailFlagsMaskForPlayer_inv [mail_keeps]:
  assumes "mail_inv s"
  shows "mail_inv (fst (UpdateMailFlagsMaskForPlayer env player i flags s))"
proof -
  have "\<And>m. m \<in> set (mailTable s) \<Longrightarrow> Attachments m = []" using assms by (simp add: mail_inv_def)
  then show ?thesis using assms by (auto simp: UpdateMailFlagsMaskForPlayer_def Let_def intro!: update_mails_inv)
qed

lemma take_money_write_inv [mail_keeps]: "mail_inv s \<Longrightarrow> mail_inv (fst (take_money_write env m s))"
  by (simp add: take_money_write_def updateMailByIDWithoutAttachments_def overwritten_inv split: option.splits)

lemma UpdateMailItemsOwner_inv [mail_keeps]: "mail_inv s \<Longrightarrow> mail_inv (fst (UpdateMailItemsOwner env i r s))"
  by (auto simp: UpdateMailItemsOwner_def mail_inv_def split: if_splits)

lemma DeleteMails_inv:
  assumes "mail_inv s" "\<And>r. r \<in> set (mailItems s) \<Longrightarrow> miMail r \<notin> set ids"
  shows "mail_inv (fst (DeleteMailsWithoutAttachments env ids s))"
proof -
  have "\<exists>m\<in>set (filter (\<lambda>m. mID m \<notin> set ids) (mailTable s)). mID m = miMail r \<and> HasItemAttachments m" if "r \<in> set (mailItems s)" for r
  proof -
    obtain m where "m \<in> set (mailTable s)" "mID m = miMail r" "HasItemAttachments m"
      using assms(1) \<open>r \<in> set (mailItems s)\<close> unfolding mail_inv_def by blast
    then show ?thesis using assms(2) [OF that] by (intro bexI [of _ m]) auto
  qed
  then show ?thesis using assms(1) by (auto simp: DeleteMailsWithoutAttachments_def mail_inv_def distinct_map_filter)
qed

section \<open>New mails\<close>

lemma add_mail_items_state:
  "add_mail_items env i rcv as s = Some s' \<Longrightarrow>
     mailTable s' = mailTable s \<and> nextMailID s' = nextMailID s \<and> (\<forall>r\<in>set (mailItems s'). r \<in> set (mailItems s) \<or> miMail r = i \<and> as \<noteq> [])"
proof (induction as arbitrary: s)
  case (Cons a as)
  then show ?case by (fastforce simp: Let_def split: if_splits)
qed simp

lemma AddMail_inv:
  assumes "mail_inv s"
  shows "mail_inv (fst (AddMail env m s))"
proof -
  let ?i = "nextMailID s" let ?row = "mail_row ?i (Attachments m \<noteq> []) m"
  have grows: "?i < ?i + 1" if "?i \<noteq> - 1" by (rule word_less_inc [OF that])
  have below: "\<And>k. k \<in> set (mailTable s) \<Longrightarrow> mID k < ?i \<and> Attachments k = []" using assms by (simp add: mail_inv_def)
  have counter: "mail_inv (s\<lparr>nextMailID := ?i + 1\<rparr>)" if "?i \<noteq> - 1"
    using assms grows [OF that] below unfolding mail_inv_def by (auto intro: less_trans)
  have "mail_inv s'" if "?i \<noteq> - 1" "add_mail_items env ?i (ReceiverGuid m) (Attachments m) (s\<lparr>nextMailID := ?i + 1, mailTable := mailTable s @ [?row]\<rparr>) = Some s'" for s'
  proof -
    from add_mail_items_state [OF that(2)]
    have t: "mailTable s' = mailTable s @ [?row]" "nextMailID s' = ?i + 1"
      and it: "\<And>r. r \<in> set (mailItems s') \<Longrightarrow> r \<in> set (mailItems s) \<or> miMail r = ?i \<and> Attachments m \<noteq> []" by auto
    have "\<exists>k\<in>set (mailTable s'). mID k = miMail r \<and> HasItemAttachments k" if "r \<in> set (mailItems s')" for r
      using it [OF that] assms unfolding t mail_inv_def by (auto simp: mail_row_def)
    moreover have "?i \<notin> mID ` set (mailTable s)" using below by fastforce
    ultimately show ?thesis using assms below grows [OF that(1)] unfolding mail_inv_def t
      by (auto simp: mail_row_def intro: less_trans)
  qed
  then show ?thesis using assms counter by (auto simp: AddMail_def Let_def split: option.splits)
qed

lemma SendMail_inv [mail_keeps]:
  assumes "mail_inv s"
  shows "mail_inv (fst (SendMail env realmID m s))"
proof (cases "AddMail env (with_defaults env m) s")
  case (Pair s1 r)
  then have "mail_inv s1" using AddMail_inv [OF assms, of env "with_defaults env m"] by simp
  then show ?thesis using assms by (simp add: SendMail_def Pair split: sum.splits)
qed

section \<open>Calls\<close>

lemma MarkRead_inv: "mail_inv s \<Longrightarrow> mail_inv (fst (MarkMailAsReadForPlayer env player i s))"
  by (auto simp: MarkMailAsReadForPlayer_def UpdateMailFlagsMaskForPlayer_inv split: sum.splits)

lemma write_back_inv: "mail_inv s \<Longrightarrow> mail_inv (fst (write_back env b m s))"
  by (simp add: write_back_def UpdateMailWithoutAttachments_inv)

lemma take_item_inv:
  assumes "mail_inv s"
  shows "mail_inv (fst (take_item env realmID m i item cod s))"
proof (cases "repo_RemoveMailItem env i item s")
  case (Pair s1 e)
  then have s1: "mail_inv s1" using assms by (auto simp: repo_RemoveMailItem_def fewer_items_inv split: if_splits)
  have send: "mail_inv (fst (SendMail env realmID k s1))" for k by (rule SendMail_inv [OF s1])
  show ?thesis
  proof (cases e)
    case None
    let ?m1 = "if HasItemAttachments m \<and> length (Attachments m) = 1 \<and> iGUID (Attachments m ! 0) = item then m\<lparr>HasItemAttachments := False\<rparr> else m"
    obtain s2 q ev where sent: "SendMail env realmID (cod_payment ?m1) s1 = (s2, q, ev)" by (metis prod_cases3)
    then have "mail_inv s2" using send [of "cod_payment ?m1"] by simp
    then show ?thesis unfolding take_item_def Pair None Let_def using sent s1
      by (auto simp: write_back_inv case_prod_unfold split: sum.splits)
  qed (simp add: take_item_def Pair s1)
qed

lemma RemoveMailItem_inv: "mail_inv s \<Longrightarrow> mail_inv (fst (RemoveMailItem env realmID i item rcv cod s))"
  by (simp add: RemoveMailItem_def take_item_inv split: sum.splits)

lemma RemoveMailMoney_inv: "mail_inv s \<Longrightarrow> mail_inv (fst (RemoveMailMoney env i rcv s))"
  by (simp add: RemoveMailMoney_def repo_RemoveMailMoney_def RemoveMailMoneyForPlayer_def take_money_write_inv split: option.splits sum.splits)

lemma scan_attachments_ids: "scan_attachments t rs = Some as \<Longrightarrow> map iGUID as = map miItem rs"
  by (induction rs arbitrary: as) (auto split: option.splits)

lemma mail_of_Some: "(\<exists>m\<in>set (mailTable s). mID m = i) \<longleftrightarrow> mail_of i s \<noteq> None"
  by (auto simp: mail_of_def find_None_iff)

lemma MailByID_attachments:
  assumes "MailByID env i s = Inr m" "reads_all env" "mail_inv s"
  shows "set (map iGUID (Attachments m)) = miItem ` {r\<in>set (mailItems s). miMail r = i}"
proof -
  have "mail_of (miMail r) s \<noteq> None" if "r \<in> set (mailItems s)" for r
    using assms(3) that unfolding mail_inv_def mail_of_Some [symmetric] by blast
  then have "{r\<in>set (mailItems s). miMail r = i \<and> mail_of (miMail r) s \<noteq> None} = {r\<in>set (mailItems s). miMail r = i}" by blast
  then have "set (map miItem (items_of_mail env i s)) = miItem ` {r\<in>set (mailItems s). miMail r = i}"
    using assms(2) by (simp add: items_of_mail_def)
  moreover obtain as where "scan_attachments (itemInstances s) (items_of_mail env i s) = Some as" "Attachments m = as"
    using assms(1,2) unfolding MailByID_def by (auto split: sum.splits if_splits option.splits)
  ultimately show ?thesis by (metis scan_attachments_ids)
qed

lemma DeleteMail_inv:
  assumes "mail_inv s" "reads_all env"
  shows "mail_inv (fst (DeleteMail env i s))"
proof (cases "MailByID env i s")
  case (Inr m)
  let ?ids = "map iGUID (Attachments m)"
  note ids = MailByID_attachments [OF Inr assms(2,1)]
  have gone: "miMail r \<notin> set [i]" if "r \<in> set (mailItems (delete_mail_items (\<lambda>r. miItem r \<in> set ?ids) s))" for r
    using that unfolding ids by (auto simp: delete_mail_items_def)
  have "mail_inv (fst (DeleteMailsWithoutAttachments env [i] s))" if "?ids = []"
  proof (rule DeleteMails_inv [OF assms(1)])
    show "miMail r \<notin> set [i]" if "r \<in> set (mailItems s)" for r using \<open>?ids = []\<close> ids that by auto
  qed
  moreover have "mail_inv (fst (DeleteMailsWithoutAttachments env [i] (delete_mail_items (\<lambda>r. miItem r \<in> set ?ids) s\<lparr>itemInstances := t\<rparr>)))" for t
    by (rule DeleteMails_inv) (use gone in \<open>auto simp: fewer_items_inv assms(1)\<close>)
  moreover have "itemInstances (delete_mail_items p s) = itemInstances s" for p by (simp add: delete_mail_items_def)
  ultimately show ?thesis using assms(1) unfolding DeleteMail_def Inr Let_def DeleteMailItemsWithIDs_def DeleteItemsWithIDs_def
    by (auto simp: fewer_items_inv)
qed (simp add: DeleteMail_def assms(1))

section \<open>Expiry\<close>

lemma return_mails_keeps:
  "mail_inv s \<Longrightarrow> mail_inv (fst (return_mails env realmID ms s)) \<and>
     (\<forall>r\<in>set (mailItems (fst (return_mails env realmID ms s))). \<exists>q\<in>set (mailItems s). miMail q = miMail r \<and> miItem q = miItem r)"
proof (induction ms arbitrary: s)
  case (Cons m ms)
  show ?case
  proof (cases "was_returned m")
    case False
    let ?m = "returned env m"
    obtain s1 e where u: "UpdateMailWithoutAttachments env ?m s = (s1, e)" by (metis prod.exhaust)
    have s1: "mail_inv s1" "mailItems s1 = mailItems s"
      using UpdateMailWithoutAttachments_inv [OF Cons.prems, of env ?m] u
      by (auto simp: UpdateMailWithoutAttachments_def update_mails_def split: if_splits)
    obtain s2 e2 where o: "(if HasItemAttachments ?m then UpdateMailItemsOwner env (mID ?m) (SenderGuid ?m) s1 else (s1, None)) = (s2, e2)"
      by (metis prod.exhaust)
    have s2: "mail_inv s2" "\<forall>r\<in>set (mailItems s2). \<exists>q\<in>set (mailItems s). miMail q = miMail r \<and> miItem q = miItem r"
      using UpdateMailItemsOwner_inv [OF s1(1), of env "mID ?m" "SenderGuid ?m"] o s1
      by (auto simp: UpdateMailItemsOwner_def split: if_splits) blast+
    have "mail_inv (fst (return_mails env realmID ms s2)) \<and>
        (\<forall>r\<in>set (mailItems (fst (return_mails env realmID ms s2))). \<exists>q\<in>set (mailItems s). miMail q = miMail r \<and> miItem q = miItem r)"
      using Cons.IH [OF s2(1)] s2(2) by metis
    then show ?thesis using False s1 s2 u o by (auto simp: Let_def split: option.splits prod.splits)
  qed (simp add: Cons)
qed auto

lemma DeleteMails_gone:
  assumes "mail_inv s" "\<And>r. r \<in> set (mailItems s) \<Longrightarrow> miItem r \<notin> set items \<Longrightarrow> miMail r \<notin> set ids"
  shows "mail_inv (fst (DeleteMailsWithoutAttachments env ids (delete_mail_items (\<lambda>r. miItem r \<in> set items) (s\<lparr>itemInstances := t\<rparr>))))"
proof (rule DeleteMails_inv)
  show "mail_inv (delete_mail_items (\<lambda>r. miItem r \<in> set items) (s\<lparr>itemInstances := t\<rparr>))"
    by (rule fewer_items_inv) (simp add: assms(1))
  show "miMail r \<notin> set ids" if "r \<in> set (mailItems (delete_mail_items (\<lambda>r. miItem r \<in> set items) (s\<lparr>itemInstances := t\<rparr>)))" for r
    using that assms(2) by (simp add: delete_mail_items_def)
qed

lemma delete_returned_inv:
  assumes "mail_inv s" "reads_all env"
  shows "mail_inv (fst (delete_returned env ids s))"
proof (cases "MailItemsIDsByMailIDs env ids s")
  case (Inr items)
  then have items: "set items = miItem ` {r\<in>set (mailItems s). miMail r \<in> set ids}"
    using assms(2) by (auto simp: MailItemsIDsByMailIDs_def split: if_splits)
  have "mail_inv (fst (DeleteMailsWithoutAttachments env ids s))" if "items = []"
    by (rule DeleteMails_inv [OF assms(1)]) (use items that in auto)
  moreover have "mail_inv (fst (DeleteMailsWithoutAttachments env ids (delete_mail_items (\<lambda>r. miItem r \<in> set items) (s\<lparr>itemInstances := t\<rparr>))))" for t
    by (rule DeleteMails_gone [OF assms(1)]) (use items in blast)
  ultimately show ?thesis using assms(1) unfolding delete_returned_def Inr DeleteItemsWithIDs_def DeleteMailItemsWithIDs_def
    by (auto simp: fewer_items_inv)
qed (simp add: delete_returned_def assms(1))

lemma no_items_of_unmarked:
  assumes "mail_inv s" "m \<in> set (mailTable s)" "\<not> HasItemAttachments m" "r \<in> set (mailItems s)"
  shows "miMail r \<noteq> mID m"
proof
  assume r: "miMail r = mID m"
  obtain k where k: "k \<in> set (mailTable s)" "mID k = miMail r" "HasItemAttachments k"
    using assms(1,4) unfolding mail_inv_def by blast
  have "inj_on mID (set (mailTable s))" using assms(1) by (simp add: mail_inv_def distinct_map)
  then have "k = m" using k assms(2) r by (auto dest: inj_onD)
  with k(3) assms(3) show False by simp
qed

lemma ProcessExpiredMails_inv:
  assumes "mail_inv s" "reads_all env"
  shows "mail_inv (fst (ProcessExpiredMails env realmID s))"
proof (cases "ExpiredMails env s")
  case (Inr mails)
  then have sub: "set mails \<subseteq> set (mailTable s)" using assms(2) by (auto simp: ExpiredMails_def split: if_splits)
  let ?ids = "map mID (filter (\<lambda>m. \<not> has_content m) mails)"
  obtain s1 e1 where d: "delete_empty env ?ids s = (s1, e1)" by (metis prod.exhaust)
  have "mail_inv (fst (DeleteMailsWithoutAttachments env ?ids s))"
  proof (rule DeleteMails_inv [OF assms(1)])
    show "miMail r \<notin> set ?ids" if "r \<in> set (mailItems s)" for r
      using no_items_of_unmarked [OF assms(1) _ _ that] sub by (fastforce simp: has_content_def)
  qed
  then have s1: "mail_inv s1" using d assms(1) by (auto simp: delete_empty_def split: if_splits)
  obtain s2 e2 ev where r: "return_mails env realmID (filter has_content mails) s1 = (s2, e2, ev)" by (metis prod_cases3)
  have "mail_inv s2" using return_mails_keeps [OF s1, of env realmID "filter has_content mails"] r by simp
  then show ?thesis using s1 delete_returned_inv [OF _ assms(2)]
    by (auto simp: ProcessExpiredMails_def Inr d r case_prod_unfold split: option.splits)
qed (simp add: ProcessExpiredMails_def assms(1))

lemma run_mail_inv: "mail_inv s \<Longrightarrow> reads_all env \<Longrightarrow> mail_inv (run_mail env realmID c s)"
  by (cases c) (simp_all add: SendMail_inv MarkRead_inv RemoveMailItem_inv RemoveMailMoney_inv DeleteMail_inv ProcessExpiredMails_inv)

fun run_mails :: "u32 \<Rightarrow> (mail_env \<times> mail_call) list \<Rightarrow> mails_realm \<Rightarrow> mails_realm" where
  "run_mails realmID [] s = s"
| "run_mails realmID ((env, c) # cs) s = run_mails realmID cs (run_mail env realmID c s)"

lemma run_mails_inv: "mail_inv s \<Longrightarrow> (\<forall>(env, c)\<in>set cs. reads_all env) \<Longrightarrow> mail_inv (run_mails realmID cs s)"
  by (induction realmID cs s rule: run_mails.induct) (auto simp: run_mail_inv)

end
