(* ===== verification/Mail_Guarantees.thy ===== *)
theory Mail_Guarantees
  imports Mail_Invariant
begin

text \<open>
  What the mail service promises: the money of a mail is paid out once however calls for it overlap; no sequence
  of calls strands an attached item; the price of a cash-on-delivery mail reaches its sender; and what a run over
  the expired mails does to the tables. The last section shows where the code does not keep what it means to.
\<close>

section \<open>Overlapping calls for the money of one mail\<close>

text \<open>
  \<open>take_step i\<close> is one statement of a call that takes the money of mail \<open>i\<close>, each call \<open>c\<close> reading the mail and
  writing it back later, or any step that does not touch the row of \<open>i\<close>. The ledger \<open>paidOut\<close> adds up what the calls
  return.
\<close>

record money_race =
  race_tables :: mails_realm
  pendingReads :: "nat \<rightharpoonup> Mail"
  paidOut :: int

abbreviation rows_with :: "u64 \<Rightarrow> mails_realm \<Rightarrow> Mail list" where
  "rows_with i s \<equiv> filter (\<lambda>m. mID m = i) (mailTable s)"

inductive take_step :: "u64 \<Rightarrow> money_race \<Rightarrow> money_race \<Rightarrow> bool" for i where
  read: "mailByIDWithoutAttachments env i (race_tables w) = Inr m \<Longrightarrow>
    take_step i w (w\<lparr>pendingReads := (pendingReads w)(c \<mapsto> m)\<rparr>)"
| store: "pendingReads w c = Some m \<Longrightarrow> \<not> clientFoundRows env \<Longrightarrow> take_money_write env m (race_tables w) = (s', r) \<Longrightarrow>
    take_step i w \<lparr>race_tables = s', pendingReads = (pendingReads w)(c := None),
      paidOut = paidOut w + (case r of Inl e \<Rightarrow> 0 | Inr v \<Rightarrow> sint v)\<rparr>"
| other: "rows_with i s' = rows_with i (race_tables w) \<Longrightarrow> take_step i w (w\<lparr>race_tables := s'\<rparr>)"

text \<open>The row is the mail as it was, and so is every copy read, or its money is gone.\<close>

definition race_ok :: "u64 \<Rightarrow> Mail \<Rightarrow> money_race \<Rightarrow> bool" where
  "race_ok i m w \<longleftrightarrow>
     (rows_with i (race_tables w) = [m] \<and> paidOut w = 0 \<and> (\<forall>c k. pendingReads w c = Some k \<longrightarrow> k = m)) \<or>
     (rows_with i (race_tables w) = [m\<lparr>MoneyToSend := 0\<rparr>] \<and> paidOut w = sint (MoneyToSend m) \<and>
      (\<forall>c k. pendingReads w c = Some k \<longrightarrow> k\<lparr>MoneyToSend := 0\<rparr> = m\<lparr>MoneyToSend := 0\<rparr>))"

lemma race_okE:
  assumes "race_ok i m w"
  obtains "rows_with i (race_tables w) = [m]" "paidOut w = 0" "\<forall>c k. pendingReads w c = Some k \<longrightarrow> k = m"
  | "rows_with i (race_tables w) = [m\<lparr>MoneyToSend := 0\<rparr>]" "paidOut w = sint (MoneyToSend m)"
      "\<forall>c k. pendingReads w c = Some k \<longrightarrow> k\<lparr>MoneyToSend := 0\<rparr> = m\<lparr>MoneyToSend := 0\<rparr>"
  using assms unfolding race_ok_def by (elim disjE conjE)

lemma mailByID_row:
  assumes "mailByIDWithoutAttachments env i s = Inr k" "rows_with i s = [m]"
  shows "k = m"
  using assms unfolding mailByIDWithoutAttachments_def rows_of_def
  by (auto split: if_splits list.splits option.splits simp: take_Cons')

lemma rows_with_update:
  "mID m = i \<Longrightarrow> rows_with i (update_mails (\<lambda>r. mID r = mID m) (overwritten m) s) = map (overwritten m) (rows_with i s)"
  by (auto simp: update_mails_def overwritten_def filter_map comp_def intro!: map_cong filter_cong)

lemma rows_affected_with:
  "\<not> clientFoundRows env \<Longrightarrow> rows_affected env (\<lambda>r. mID r = i) f s = length (filter (\<lambda>m. f m \<noteq> m) (rows_with i s))"
  by (simp add: rows_affected_def conj_commute)

lemma take_money_write_result:
  assumes "\<not> clientFoundRows env" "take_money_write env k s = (s', r)" "rows_with i s = [m]" "mID k = i" "Attachments m = []"
    and "k\<lparr>MoneyToSend := 0\<rparr> = m\<lparr>MoneyToSend := 0\<rparr>"
  shows "rows_with i s' = [m] \<and> r = Inl MailDB \<or>
    rows_with i s' = [m\<lparr>MoneyToSend := 0\<rparr>] \<and> r = (if MoneyToSend m = 0 then Inl MailNotFound else Inr (MoneyToSend k))"
proof -
  let ?k = "k\<lparr>MoneyToSend := 0\<rparr>"
  have o: "overwritten ?k m = m\<lparr>MoneyToSend := 0\<rparr>" by (simp add: assms(6) overwritten_def assms(5))
  have n: "m\<lparr>MoneyToSend := 0\<rparr> = m \<longleftrightarrow> MoneyToSend m = 0" by (cases m) simp
  have i: "mID ?k = i" using assms(4) by simp
  have u: "rows_with i (update_mails (\<lambda>r. mID r = mID k) (overwritten ?k) s) = [m\<lparr>MoneyToSend := 0\<rparr>]"
    using rows_with_update [OF i, of s] by (simp add: assms(3) o)
  have a: "rows_affected env (\<lambda>r. mID r = mID k) (overwritten ?k) s = (if MoneyToSend m = 0 then 0 else 1)"
    using rows_affected_with [OF assms(1), of i "overwritten ?k" s] by (simp add: assms(3,4) o n)
  have w: "take_money_write env k s = (if mailDbFails env StmtUpdateMailByID \<or> mailRejected env ?k then (s, Inl MailDB)
      else (update_mails (\<lambda>r. mID r = mID k) (overwritten ?k) s, if MoneyToSend m = 0 then Inl MailNotFound else Inr (MoneyToSend k)))"
    by (simp add: take_money_write_def updateMailByIDWithoutAttachments_def a)
  show ?thesis using assms(2) u assms(3) unfolding w by (auto split: if_splits)
qed

lemma take_step_ok:
  assumes "take_step i w w'" "race_ok i m w" "Attachments m = []" "mID m = i"
  shows "race_ok i m w'"
  using assms(1)
proof cases
  case (read env k c)
  from assms(2) show ?thesis
  proof (rule race_okE)
    assume w: "rows_with i (race_tables w) = [m]" "paidOut w = 0" "\<forall>c k. pendingReads w c = Some k \<longrightarrow> k = m"
    have "k = m" by (rule mailByID_row [OF read(2) w(1)])
    with w show ?thesis unfolding race_ok_def by (intro disjI1) (simp add: read(1))
  next
    assume w: "rows_with i (race_tables w) = [m\<lparr>MoneyToSend := 0\<rparr>]" "paidOut w = sint (MoneyToSend m)"
      "\<forall>c k. pendingReads w c = Some k \<longrightarrow> k\<lparr>MoneyToSend := 0\<rparr> = m\<lparr>MoneyToSend := 0\<rparr>"
    have "k = m\<lparr>MoneyToSend := 0\<rparr>" by (rule mailByID_row [OF read(2) w(1)])
    with w show ?thesis unfolding race_ok_def by (intro disjI2) (simp add: read(1))
  qed
next
  case (store c k env s' r)
  from assms(2) show ?thesis
  proof (rule race_okE)
    assume w: "rows_with i (race_tables w) = [m]" "paidOut w = 0" "\<forall>c k. pendingReads w c = Some k \<longrightarrow> k = m"
    then have "k = m" using store(2) by blast
    then have "rows_with i s' = [m] \<and> r = Inl MailDB \<or>
        rows_with i s' = [m\<lparr>MoneyToSend := 0\<rparr>] \<and> r = (if MoneyToSend m = 0 then Inl MailNotFound else Inr (MoneyToSend m))"
      using take_money_write_result [OF store(3,4) w(1) _ assms(3)] assms(4) unfolding \<open>k = m\<close> by blast
    then show ?thesis using w store(1) unfolding race_ok_def by (auto split: if_splits)
  next
    assume w: "rows_with i (race_tables w) = [m\<lparr>MoneyToSend := 0\<rparr>]" "paidOut w = sint (MoneyToSend m)"
      "\<forall>c k. pendingReads w c = Some k \<longrightarrow> k\<lparr>MoneyToSend := 0\<rparr> = m\<lparr>MoneyToSend := 0\<rparr>"
    then have k: "k\<lparr>MoneyToSend := 0\<rparr> = (m\<lparr>MoneyToSend := 0\<rparr>)\<lparr>MoneyToSend := 0\<rparr>" using store(2) by simp
    then have "mID k = i" using assms(4) by (metis Mail.ext_inject Mail.surjective Mail.update_convs(10))
    then have "rows_with i s' = [m\<lparr>MoneyToSend := 0\<rparr>] \<and> (r = Inl MailDB \<or> r = Inl MailNotFound)"
      using take_money_write_result [OF store(3,4) w(1) _ _ k] assms(3) by auto
    then show ?thesis using w store(1) unfolding race_ok_def by auto
  qed
next
  case (other s')
  then show ?thesis using assms(2) unfolding race_ok_def by simp
qed

lemma take_steps_ok:
  assumes "(take_step i)\<^sup>*\<^sup>* w w'" "race_ok i m w" "Attachments m = []" "mID m = i"
  shows "race_ok i m w'"
  using assms(1,2) by (induction rule: rtranclp_induct) (blast intro: take_step_ok [OF _ _ assms(3,4)])+

text \<open>
  C10: However many calls for the money of a mail overlap, statement by statement, and whatever fails, the sum of
  what they return and what is left in the mail is the money that was in it.
\<close>

theorem money_taken_once:
  assumes "(take_step i)\<^sup>*\<^sup>* \<lparr>race_tables = s, pendingReads = Map.empty, paidOut = 0\<rparr> w"
    and "rows_with i s = [m]" "Attachments m = []"
  shows "\<exists>row. rows_with i (race_tables w) = [row] \<and> paidOut w + sint (MoneyToSend row) = sint (MoneyToSend m)"
proof -
  have "m \<in> set (rows_with i s)" unfolding assms(2) by simp
  then have i: "mID m = i" by simp
  have "race_ok i m \<lparr>race_tables = s, pendingReads = Map.empty, paidOut = 0\<rparr>" using assms(2) by (simp add: race_ok_def)
  then have "race_ok i m w" by (rule take_steps_ok [OF assms(1) _ assms(3) i])
  then show ?thesis
  proof (rule race_okE)
    assume "rows_with i (race_tables w) = [m]" "paidOut w = 0"
    then show ?thesis by (intro exI [of _ m]) simp
  next
    assume "rows_with i (race_tables w) = [m\<lparr>MoneyToSend := 0\<rparr>]" "paidOut w = sint (MoneyToSend m)"
    then show ?thesis by (intro exI [of _ "m\<lparr>MoneyToSend := 0\<rparr>"]) simp
  qed
qed

section \<open>Attached items\<close>


section \<open>Cash on delivery\<close>

lemma MailByID_row:
  assumes "MailByID env i s = Inr m"
  shows "\<exists>row\<in>set (mailTable s). mID row = i \<and> m = row\<lparr>Attachments := Attachments m\<rparr> \<and> mID m = i"
proof -
  obtain row as where row: "mailByIDWithoutAttachments env i s = Inr row" "m = row\<lparr>Attachments := as\<rparr>"
    using assms unfolding MailByID_def by (auto split: sum.splits if_splits option.splits)
  let ?rows = "rows_of env StmtGetMailByID (filter (\<lambda>m. mID m = i) (mailTable s))"
  have "row \<in> set ?rows"
    using row(1) unfolding mailByIDWithoutAttachments_def by (auto split: if_splits list.splits)
  then have "row \<in> set (mailTable s) \<and> mID row = i"
    by (auto simp: rows_of_def split: option.splits dest: in_set_takeD)
  then show ?thesis using row(2) by (intro bexI [of _ row]) auto
qed

lemma AddMail_plain:
  assumes "AddMail env m s = (s', Inr i)" "Attachments m = []"
  shows "i = nextMailID s" "s' = s\<lparr>nextMailID := i + 1, mailTable := mailTable s @ [mail_row i False m]\<rparr>"
  using assms by (auto simp: AddMail_def Let_def split: if_splits)

lemma overwritten_row:
  assumes "row \<in> set (mailTable s)" "mail_inv s" "m = row\<lparr>Attachments := as\<rparr>"
  shows "overwritten (m\<lparr>CashOnDelivery := 0\<rparr>) row = row\<lparr>CashOnDelivery := 0\<rparr>"
    "overwritten (m\<lparr>HasItemAttachments := False, CashOnDelivery := 0\<rparr>) row = row\<lparr>CashOnDelivery := 0\<rparr>"
proof -
  have "Attachments row = []" using assms(1,2) by (simp add: mail_inv_def)
  then show "overwritten (m\<lparr>CashOnDelivery := 0\<rparr>) row = row\<lparr>CashOnDelivery := 0\<rparr>"
    "overwritten (m\<lparr>HasItemAttachments := False, CashOnDelivery := 0\<rparr>) row = row\<lparr>CashOnDelivery := 0\<rparr>"
    by (simp_all add: assms(3) overwritten_def)
qed

text \<open>
  C25: When taking an item from a cash-on-delivery mail succeeds, the item was attached and is gone, the caller was
  the receiver, the sender has a new mail with exactly the price, and the mail asks for nothing any more.
\<close>

theorem cod_pays_sender:
  assumes "mail_inv s" "MailByID env i s = Inr m" "0 <s CashOnDelivery m"
    and "RemoveMailItem env realmID i item receiver True s = (s', None, ev)"
  shows "receiver \<in> {None, Some (ReceiverGuid m)} \<and> (\<exists>r\<in>set (mailItems s). miMail r = i \<and> miItem r = item) \<and>
    mailItems s' = filter (\<lambda>r. \<not> (miMail r = i \<and> miItem r = item)) (mailItems s) \<and>
    mailTable s' = map (\<lambda>k. if mID k = i then k\<lparr>CashOnDelivery := 0\<rparr> else k) (mailTable s) @
      [mail_row (nextMailID s) False (with_defaults env (cod_payment m))]"
proof -
  obtain row where row: "row \<in> set (mailTable s)" "mID row = i" "m = row\<lparr>Attachments := Attachments m\<rparr>" "mID m = i"
    using MailByID_row [OF assms(2)] by blast
  have same: "k = row" if "k \<in> set (mailTable s)" "mID k = i" for k
    using assms(1) that row(1,2) by (auto simp: mail_inv_def distinct_map dest: inj_onD)
  have fresh: "nextMailID s \<noteq> i" using assms(1) row(1,2) by (auto simp: mail_inv_def)
  let ?m1 = "if HasItemAttachments m \<and> length (Attachments m) = 1 \<and> iGUID (Attachments m ! 0) = item then m\<lparr>HasItemAttachments := False\<rparr> else m"
  let ?s1 = "delete_mail_items (\<lambda>r. miMail r = i \<and> miItem r = item) s"
  have caller: "receiver \<in> {None, Some (ReceiverGuid m)}" and t: "take_item env realmID m i item True s = (s', None, ev)"
    using assms(2,4) by (auto simp: RemoveMailItem_def split: if_splits)
  have item: "\<exists>r\<in>set (mailItems s). miMail r = i \<and> miItem r = item" and rm: "repo_RemoveMailItem env i item s = (?s1, None)"
    using t unfolding take_item_def repo_RemoveMailItem_def by (auto split: if_splits)
  have cod: "cod_payment ?m1 = cod_payment m" "CashOnDelivery ?m1 = CashOnDelivery m" by (simp_all add: cod_payment_def)
  obtain s2 j ev2 where sent: "SendMail env realmID (cod_payment m) ?s1 = (s2, Inr j, ev2)"
      and wb: "write_back env True (?m1\<lparr>CashOnDelivery := 0\<rparr>) s2 = (s', None)"
    using t unfolding take_item_def rm Let_def cod by (auto simp: assms(3) cod split: sum.splits prod.splits)
  have s2: "s2 = ?s1\<lparr>nextMailID := nextMailID s + 1, mailTable := mailTable s @ [mail_row (nextMailID s) False (with_defaults env (cod_payment m))]\<rparr>"
    using sent AddMail_plain [of env "with_defaults env (cod_payment m)" ?s1]
    by (auto simp: SendMail_def with_defaults_def cod_payment_def delete_mail_items_def split: if_splits sum.splits prod.splits)
  have s': "s' = update_mails (\<lambda>r. mID r = i) (overwritten (?m1\<lparr>CashOnDelivery := 0\<rparr>)) s2"
    using wb row(4) by (auto simp: write_back_def UpdateMailWithoutAttachments_def split: if_splits)
  have "overwritten (?m1\<lparr>CashOnDelivery := 0\<rparr>) k = k\<lparr>CashOnDelivery := 0\<rparr>" if "k \<in> set (mailTable s)" "mID k = i" for k
    using overwritten_row [OF row(1) assms(1) row(3)] same [OF that] by auto
  then have "mailTable s' = map (\<lambda>k. if mID k = i then k\<lparr>CashOnDelivery := 0\<rparr> else k) (mailTable s) @
      [mail_row (nextMailID s) False (with_defaults env (cod_payment m))]"
    using fresh by (simp add: s' s2 update_mails_def mail_row_def)
  moreover have "mailItems s' = filter (\<lambda>r. \<not> (miMail r = i \<and> miItem r = item)) (mailItems s)"
    by (simp add: s' s2 update_mails_def delete_mail_items_def)
  ultimately show ?thesis using caller item by blast
qed

section \<open>Expiry\<close>





lemma returned_fields [simp]:
  "mID (returned env m) = mID m" "SenderGuid (returned env m) = SenderGuid m"
  "HasItemAttachments (returned env m) = HasItemAttachments m" "Attachments (returned env m) = Attachments m"
  by (simp_all add: returned_def)











section \<open>A realm with one mail\<close>

definition demo_mail_env :: mail_env where
  "demo_mail_env = \<lparr>mailDbFails = (\<lambda>_. False), mailCommitFails = False, rowsBreak = (\<lambda>_. None), mailRejected = (\<lambda>_. False),
     mailItemRejected = (\<lambda>_ _. False), mailOrder = (\<lambda>l. l), mailItemOrder = (\<lambda>l. l), clientFoundRows = False,
     nowNanos = 20 * 10 ^ 9, defaultMailExpirationTime = 30 * 10 ^ 9\<rparr>"

definition demo_item :: "u64 \<Rightarrow> ItemAttachment" where
  "demo_item g = \<lparr>iGUID = g, OwnerGUID = 5, Entry = 1000, Pos = 0, iCount = 1, Charges = 0, iFlags = 0, RandomPropertyID = 0,
     PropertySeed = 0, Durability = 10, iText = []\<rparr>"

definition demo_mail :: Mail where
  "demo_mail = \<lparr>mID = 1, mType = 0, Stationery = 41, TemplateID = 0, SenderGuid = 5, ReceiverGuid = 7, FlagsMask = 0,
     Subject = ''hi'', Body = [], MoneyToSend = 100, CashOnDelivery = 50, DeliveryTimestamp = 4, ExpirationTimestamp = 10,
     HasItemAttachments = True, Attachments = []\<rparr>"

definition demo_mails :: "u64 list \<Rightarrow> mails_realm" where
  "demo_mails items = \<lparr>mailTable = [demo_mail], nextMailID = 2, mailItems = map (\<lambda>g. \<lparr>miMail = 1, miItem = g, miReceiver = 7\<rparr>) items,
     itemInstances = (\<lambda>g. if g \<in> set items then Some (demo_item g) else None)\<rparr>"

lemma demo_mails_inv: "mail_inv (demo_mails items)"
  by (auto simp: mail_inv_def demo_mails_def demo_mail_def)


definition demo_taken :: mails_realm where
  "demo_taken = fst (take_money_write demo_mail_env demo_mail (demo_mails []))"

text \<open>Two calls read the mail; the first write pays, the second changes nothing and fails.\<close>

lemma demo_mail_race:
  "(take_step 1)\<^sup>*\<^sup>* \<lparr>race_tables = demo_mails [], pendingReads = Map.empty, paidOut = 0\<rparr>
     \<lparr>race_tables = fst (take_money_write demo_mail_env demo_mail demo_taken),
       pendingReads = (Map.empty(0 \<mapsto> demo_mail, 1 \<mapsto> demo_mail))(0 := None, 1 := None), paidOut = 100\<rparr>"
proof -
  let ?w0 = "\<lparr>race_tables = demo_mails [], pendingReads = Map.empty, paidOut = 0\<rparr>"
  let ?w1 = "?w0\<lparr>pendingReads := [0 \<mapsto> demo_mail]\<rparr>"
  let ?w2 = "?w0\<lparr>pendingReads := [0 \<mapsto> demo_mail, 1 \<mapsto> demo_mail]\<rparr>"
  let ?w3 = "\<lparr>race_tables = demo_taken, pendingReads = (Map.empty(0 \<mapsto> demo_mail, 1 \<mapsto> demo_mail))(0 := None), paidOut = 100\<rparr>"
  let ?w4 = "\<lparr>race_tables = fst (take_money_write demo_mail_env demo_mail demo_taken),
       pendingReads = (Map.empty(0 \<mapsto> demo_mail, 1 \<mapsto> demo_mail))(0 := None, 1 := None), paidOut = 100\<rparr>"
  have env: "\<not> clientFoundRows demo_mail_env" by (simp add: demo_mail_env_def)
  have r: "mailByIDWithoutAttachments demo_mail_env 1 (demo_mails []) = Inr demo_mail" by code_simp
  have p1: "take_money_write demo_mail_env demo_mail (demo_mails []) = (demo_taken, Inr 100)"
    and p2: "take_money_write demo_mail_env demo_mail demo_taken = (fst (take_money_write demo_mail_env demo_mail demo_taken), Inl MailNotFound)"
    unfolding prod_eq_iff fst_conv snd_conv demo_taken_def by code_simp+
  have s1: "take_step 1 ?w0 ?w1" using take_step.read [of demo_mail_env 1 ?w0 demo_mail 0] r by simp
  have s2: "take_step 1 ?w1 ?w2" using take_step.read [of demo_mail_env 1 ?w1 demo_mail 1] r by simp
  have s3: "take_step 1 ?w2 ?w3" using take_step.store [of ?w2 0 demo_mail demo_mail_env demo_taken "Inr 100" 1] env p1 by simp
  have s4: "take_step 1 ?w3 ?w4"
    using take_step.store [of ?w3 1 demo_mail demo_mail_env "race_tables ?w4" "Inl MailNotFound" 1] env p2 by simp
  have "(take_step 1)\<^sup>*\<^sup>* ?w0 ?w1" using s1 by (rule r_into_rtranclp)
  from this s2 have "(take_step 1)\<^sup>*\<^sup>* ?w0 ?w2" by (rule rtranclp.rtrancl_into_rtrancl)
  from this s3 have "(take_step 1)\<^sup>*\<^sup>* ?w0 ?w3" by (rule rtranclp.rtrancl_into_rtrancl)
  from this s4 show ?thesis by (rule rtranclp.rtrancl_into_rtrancl)
qed

theorem money_taken_once_witness:
  "\<exists>row. rows_with 1 (fst (take_money_write demo_mail_env demo_mail demo_taken)) = [row] \<and> 100 + sint (MoneyToSend row) = 100"
  using money_taken_once [OF demo_mail_race, of demo_mail] by (simp add: demo_mails_def demo_mail_def)


definition demo_sold :: mails_realm where
  "demo_sold = fst (RemoveMailItem demo_mail_env 1 1 77 (Some 7) True (demo_mails [77, 78]))"

definition demo_read :: Mail where
  "demo_read = demo_mail\<lparr>Attachments := [demo_item 77, demo_item 78]\<rparr>"

theorem cod_pays_sender_witness:
  "mailTable demo_sold = [demo_mail\<lparr>CashOnDelivery := 0\<rparr>, mail_row 2 False (with_defaults demo_mail_env (cod_payment demo_read))]"
proof -
  have m: "MailByID demo_mail_env 1 (demo_mails [77, 78]) = Inr demo_read" by code_simp
  have c: "0 <s CashOnDelivery demo_read" by code_simp
  obtain ev where ev: "RemoveMailItem demo_mail_env 1 1 77 (Some 7) True (demo_mails [77, 78]) = (demo_sold, None, ev)"
  proof -
    have "fst (snd (RemoveMailItem demo_mail_env 1 1 77 (Some 7) True (demo_mails [77, 78]))) = None" by code_simp
    then show ?thesis using that unfolding demo_sold_def by (metis prod.collapse)
  qed
  show ?thesis using cod_pays_sender [OF demo_mails_inv m c ev] by (simp add: demo_mails_def demo_mail_def)
qed


section \<open>Where the code does not keep what it means to\<close>

text \<open>
  The write that takes the money fails only when it changes nothing. When the mail is marked as read between the
  two writes of overlapping calls, the second write changes the flags back, and the money is paid out twice.
\<close>

lemma money_paid_twice:
  "let (s1, r1) = take_money_write demo_mail_env demo_mail (demo_mails []);
       s2 = fst (MarkMailAsReadForPlayer demo_mail_env 7 1 s1);
       (s3, r2) = take_money_write demo_mail_env demo_mail s2
   in r1 = Inr 100 \<and> r2 = Inr 100"
  by code_simp

text \<open>An item taken while the money is taken writes the money back, because the whole mail is written as it was read.\<close>

lemma taking_item_restores_money:
  "let (s1, r1) = RemoveMailMoney demo_mail_env 1 (Some 7) (demo_mails [77]);
       s2 = fst (take_item demo_mail_env 1 (demo_mail\<lparr>Attachments := [demo_item 77]\<rparr>) 1 77 True s1)
   in r1 = Inr 100 \<and> snd (RemoveMailMoney demo_mail_env 1 (Some 7) s2) = Inr 100"
  by code_simp

text \<open>
  Two overlapping calls for two items of a cash-on-delivery mail both send the price; so does a second call after
  a failure of the last statement of the first.
\<close>

lemma cod_paid_twice:
  "let s1 = fst (take_item demo_mail_env 1 demo_read 1 77 True (demo_mails [77, 78]));
       s2 = fst (take_item demo_mail_env 1 demo_read 1 78 True s1)
   in map MoneyToSend (mailTable s2) = [100, 50, 50]"
  by code_simp

lemma failed_write_pays_twice:
  "let env = demo_mail_env\<lparr>mailDbFails := (\<lambda>st. st = StmtUpdateMailByID)\<rparr>;
       (s1, e1, _) = RemoveMailItem env 1 1 77 (Some 7) True (demo_mails [77, 78]);
       (s2, e2, _) = RemoveMailItem demo_mail_env 1 1 78 (Some 7) True s1
   in e1 = Some MailDB \<and> e2 = None \<and> map MoneyToSend (mailTable s2) = [100, 50, 50]"
  by code_simp

text \<open>
  The update of a mail does not write \<^verbatim>\<open>has_items\<close>, so that a mail stays marked after its last item was taken, and
  an expired mail without anything in it is sent back instead of deleted.
\<close>

lemma last_item_keeps_mark:
  "let s1 = fst (RemoveMailItem demo_mail_env 1 1 77 (Some 7) False (demo_mails [77]));
       s2 = fst (RemoveMailMoney demo_mail_env 1 (Some 7) s1);
       s3 = fst (ProcessExpiredMails demo_mail_env 1 s2)
   in mailItems s1 = [] \<and> map HasItemAttachments (mailTable s1) = [True] \<and> map ReceiverGuid (mailTable s3) = [5]"
  by code_simp

text \<open>A mail marked as read twice, or asked for money it does not have, is reported as not found.\<close>

lemma read_twice_fails:
  "let (s1, e1) = MarkMailAsReadForPlayer demo_mail_env 7 1 (demo_mails []);
       (s2, e2) = MarkMailAsReadForPlayer demo_mail_env 7 1 s1
   in e1 = None \<and> e2 = Some MailNotFound"
  by code_simp

lemma no_money_is_an_error:
  "let (s1, r1) = RemoveMailMoney demo_mail_env 1 None (demo_mails []);
       (s2, r2) = RemoveMailMoney demo_mail_env 1 None s1
   in r1 = Inr 100 \<and> r2 = Inl MailNotFound"
  by code_simp

text \<open>
  A mail that arrives between the two queries of a list makes the request panic, or its items show up in another mail.
\<close>

lemma list_races_with_arrival:
  "MailListForPlayer demo_mail_env 7 (demo_mails []\<lparr>mailTable := []\<rparr>) (demo_mails [77]) = Inl MailPanic"
  "let other = demo_mail\<lparr>mID := 9\<rparr> in
   map_sum id (map (\<lambda>m. (mID m, map iGUID (Attachments m)))) (MailListForPlayer demo_mail_env 7 (demo_mails []\<lparr>mailTable := [other]\<rparr>)
     (demo_mails [77]\<lparr>mailTable := [other, demo_mail]\<rparr>)) = Inr [(9, [77])]"
  by code_simp+

text \<open>
  A returned mail keeps its price, so that the sender has to pay himself for his own items; a mail without a
  sender, as the auction house sends them, is returned to player 0.
\<close>

lemma returned_mail_keeps_price:
  "let m = hd (mailTable (fst (ProcessExpiredMails demo_mail_env 1 (demo_mails [77]))))
   in ReceiverGuid m = 5 \<and> CashOnDelivery m = 50"
  by code_simp

lemma returned_to_nobody:
  "let s = demo_mails [77]; s1 = fst (ProcessExpiredMails demo_mail_env 1 (s\<lparr>mailTable := [demo_mail\<lparr>SenderGuid := 0\<rparr>]\<rparr>))
   in map ReceiverGuid (mailTable s1) = [0] \<and> map miReceiver (mailItems s1) = [0]"
  by code_simp

text \<open>
  Expiry deletes items before the rows that attach them. When the second statement fails, the player's list of
  mails cannot be read until the next run.
\<close>

lemma failed_expiry_blocks_mailbox:
  "let s = demo_mails [77]\<lparr>mailTable := [demo_mail\<lparr>FlagsMask := MailFlagReturned\<rparr>]\<rparr>;
       (s1, e, _) = ProcessExpiredMails (demo_mail_env\<lparr>mailDbFails := (\<lambda>st. st = StmtDeleteMailItemsByItemIDs)\<rparr>) 1 s
   in e = Some MailDB \<and> MailListForPlayer demo_mail_env 7 s1 s1 = Inl MailScan"
  by code_simp

end
