(* ===== verification/Char_Online.thy ===== *)
theory Char_Online
  imports Go_Strings Gateway_Events
begin

text \<open>
  The characters that are online, kept in memory by the character server
  (\<^verbatim>\<open>apps/charserver/repo/online-characters_inmem.go\<close>). Two maps, by GUID and by name in capitals, share
  pointers to the characters; the characters themselves are a heap. The listeners
  (\<^verbatim>\<open>service/characters-listener.go\<close>, \<^verbatim>\<open>service/serversregistry-listener.go\<close>) call the same operations.
\<close>

section \<open>State\<close>

record Character =
  RealmID :: u32
  GatewayID :: string
  CharGUID :: u64
  CharName :: string
  CharRace :: u8
  CharClass :: u8
  CharGender :: u8
  CharLevel :: u8
  CharZone :: u32
  CharMap :: u32
  CharPosX :: u32
  CharPosY :: u32
  CharPosZ :: u32
  CharGuildID :: u32
  AccountID :: u32

record online_chars =
  chars_heap :: "Character list"
  guidStorage :: "u32 \<rightharpoonup> (u64 \<rightharpoonup> nat)"
  nameStorage :: "u32 \<rightharpoonup> (string \<rightharpoonup> nat)"

definition NewCharactersOnlineInMem :: online_chars where
  "NewCharactersOnlineInMem = \<lparr>chars_heap = [], guidStorage = Map.empty, nameStorage = Map.empty\<rparr>"

text \<open>Reading a key of an inner map that may be missing is reading it from an empty one.\<close>

definition inner :: "('r \<rightharpoonup> ('k \<rightharpoonup> 'v)) \<Rightarrow> 'r \<Rightarrow> ('k \<rightharpoonup> 'v)" where
  "inner m r = (case m r of None \<Rightarrow> Map.empty | Some k \<Rightarrow> k)"

definition delete_inner :: "('r \<rightharpoonup> ('k \<rightharpoonup> 'v)) \<Rightarrow> 'r \<Rightarrow> 'k \<Rightarrow> ('r \<rightharpoonup> ('k \<rightharpoonup> 'v))" where
  "delete_inner m r k = (case m r of None \<Rightarrow> m | Some i \<Rightarrow> m(r \<mapsto> i(k := None)))"

section \<open>Operations\<close>

definition Add :: "Character \<Rightarrow> online_chars \<Rightarrow> online_chars" where
  "Add c s =
     (let r = RealmID c; p = length (chars_heap s);
          s1 = (if guidStorage s r = None
                then s\<lparr>guidStorage := (guidStorage s)(r \<mapsto> Map.empty), nameStorage := (nameStorage s)(r \<mapsto> Map.empty)\<rparr> else s)
      in s1\<lparr>chars_heap := chars_heap s @ [c],
            guidStorage := (guidStorage s1)(r \<mapsto> (inner (guidStorage s1) r)(CharGUID c \<mapsto> p)),
            nameStorage := (nameStorage s1)(r \<mapsto> (inner (nameStorage s1) r)(ToUpper (CharName c) \<mapsto> p))\<rparr>)"

definition OneByRealmAndGUID :: "u32 \<Rightarrow> u64 \<Rightarrow> online_chars \<Rightarrow> Character option" where
  "OneByRealmAndGUID r guid s = map_option ((!) (chars_heap s)) (inner (guidStorage s) r guid)"

definition OneByRealmAndName :: "u32 \<Rightarrow> string \<Rightarrow> online_chars \<Rightarrow> Character option" where
  "OneByRealmAndName r name s = map_option ((!) (chars_heap s)) (inner (nameStorage s) r (ToUpper name))"

text \<open>The name is deleted as it is spelled, although the keys are in capitals.\<close>

definition Remove :: "u32 \<Rightarrow> u64 \<Rightarrow> online_chars \<Rightarrow> online_chars" where
  "Remove r guid s =
     (case OneByRealmAndGUID r guid s of
        None \<Rightarrow> s
      | Some c \<Rightarrow> s\<lparr>guidStorage := delete_inner (guidStorage s) r guid, nameStorage := delete_inner (nameStorage s) r (CharName c)\<rparr>)"

definition CharactersByRealmAndGUIDs :: "u32 \<Rightarrow> u64 list \<Rightarrow> online_chars \<Rightarrow> Character list" where
  "CharactersByRealmAndGUIDs r guids s = List.map_filter (\<lambda>g. OneByRealmAndGUID r g s) guids"

text \<open>\<open>order\<close> lists all GUIDs in the order in which the map is visited.\<close>

definition AllGUIDsByRealm :: "u64 list \<Rightarrow> u32 \<Rightarrow> online_chars \<Rightarrow> u64 list" where
  "AllGUIDsByRealm order r s = filter (\<lambda>g. inner (guidStorage s) r g \<noteq> None) order"

definition online_HandleCharacterLoggedIn :: "GWLoggedIn \<Rightarrow> online_chars \<Rightarrow> online_chars" where
  "online_HandleCharacterLoggedIn e s = Add
     \<lparr>RealmID = inRealmID e, GatewayID = inGatewayID e, CharGUID = inCharGUID e, CharName = inCharName e, CharRace = inCharRace e,
      CharClass = inCharClass e, CharGender = inCharGender e, CharLevel = inCharLevel e, CharZone = inCharZone e, CharMap = inCharMap e,
      CharPosX = inCharPosX e, CharPosY = inCharPosY e, CharPosZ = inCharPosZ e, CharGuildID = inCharGuildID e, AccountID = inAccountID e\<rparr> s"

definition online_HandleCharacterLoggedOut :: "GWLoggedOut \<Rightarrow> online_chars \<Rightarrow> online_chars" where
  "online_HandleCharacterLoggedOut e s = Remove (outRealmID e) (outCharGUID e) s"

definition online_applyCharUpdate :: "CharacterUpdate \<Rightarrow> Character \<Rightarrow> Character" where
  "online_applyCharUpdate u c = c\<lparr>CharZone := case_option (CharZone c) id (uZone u), CharLevel := case_option (CharLevel c) id (uLvl u),
     CharMap := case_option (CharMap c) id (uMap u)\<rparr>"

definition update_char :: "u32 \<Rightarrow> CharacterUpdate \<Rightarrow> online_chars \<Rightarrow> online_chars" where
  "update_char r u s =
     (case inner (guidStorage s) r (uID u) of
        None \<Rightarrow> s
      | Some p \<Rightarrow> s\<lparr>chars_heap := (chars_heap s)[p := online_applyCharUpdate u (chars_heap s ! p)]\<rparr>)"

definition online_HandleCharactersUpdates :: "u32 \<Rightarrow> CharacterUpdate list \<Rightarrow> online_chars \<Rightarrow> online_chars" where
  "online_HandleCharactersUpdates r updates s = fold (update_char r) updates s"

definition chars_of_gateway :: "u64 list \<Rightarrow> u32 \<Rightarrow> string \<Rightarrow> online_chars \<Rightarrow> u64 list" where
  "chars_of_gateway order r gateway s =
     filter (\<lambda>g. case OneByRealmAndGUID r g s of None \<Rightarrow> False | Some c \<Rightarrow> GatewayID c = gateway) order"

definition remove_char :: "u32 \<Rightarrow> u64 \<Rightarrow> online_chars \<Rightarrow> online_chars" where
  "remove_char r g s = s\<lparr>guidStorage := delete_inner (guidStorage s) r g,
     nameStorage := delete_inner (nameStorage s) r (CharName (the (OneByRealmAndGUID r g s)))\<rparr>"

definition RemoveAllWithGatewayID :: "u64 list \<Rightarrow> u32 \<Rightarrow> string \<Rightarrow> online_chars \<Rightarrow> online_chars \<times> u64 list" where
  "RemoveAllWithGatewayID order r gateway s =
     (let guids = chars_of_gateway order r gateway s in (fold (remove_char r) guids s, guids))"

section \<open>Who\<close>

unbundle bit_operations_syntax

record CharactersWhoQuery =
  LvlMin :: u8
  LvlMax :: u8
  ClassMask :: u32
  RaceMask :: u32
  Zones :: "u32 list"
  Strings :: "string list"

definition who_matches :: "u32 \<Rightarrow> CharactersWhoQuery \<Rightarrow> Character \<Rightarrow> bool" where
  "who_matches r q c \<longleftrightarrow>
     RealmID c = r \<and> \<not> (LvlMax q < CharLevel c \<or> CharLevel c < LvlMin q) \<and>
     RaceMask q AND push_bit (unat (CharRace c)) 1 \<noteq> 0 \<and> ClassMask q AND push_bit (unat (CharClass c)) 1 \<noteq> 0 \<and>
     (Zones q = [] \<or> CharZone c \<in> set (Zones q)) \<and>
     (Strings q = [] \<or> (\<exists>w\<in>set (Strings q). Contains (ToLower (CharName c)) (ToLower w)))"

definition WhoRequest :: "u64 list \<Rightarrow> u32 \<Rightarrow> CharactersWhoQuery \<Rightarrow> online_chars \<Rightarrow> Character list" where
  "WhoRequest order r q s = filter (who_matches r q) (List.map_filter (\<lambda>g. OneByRealmAndGUID r g s) order)"

section \<open>What the maps stand for\<close>

text \<open>
  The abstract state is the characters online, by realm and GUID. \<open>online_ok\<close> says that pointers are valid and lead
  to a character of the realm and GUID, or of the realm and name, under which they are kept.
\<close>

type_synonym online_view = "u32 \<times> u64 \<rightharpoonup> Character"

definition online_view :: "online_chars \<Rightarrow> online_view" where
  "online_view s = (\<lambda>(r, g). OneByRealmAndGUID r g s)"

definition online_ok :: "online_chars \<Rightarrow> bool" where
  "online_ok s \<longleftrightarrow>
     (\<forall>r g p. inner (guidStorage s) r g = Some p \<longrightarrow> p < length (chars_heap s) \<and> RealmID (chars_heap s ! p) = r \<and> CharGUID (chars_heap s ! p) = g) \<and>
     (\<forall>r k p. inner (nameStorage s) r k = Some p \<longrightarrow> p < length (chars_heap s) \<and> RealmID (chars_heap s ! p) = r \<and> ToUpper (CharName (chars_heap s ! p)) = k) \<and>
     (\<forall>r. guidStorage s r = None \<longleftrightarrow> nameStorage s r = None)"

lemma online_okD:
  assumes "online_ok s"
  shows "inner (guidStorage s) r g = Some p \<Longrightarrow> p < length (chars_heap s) \<and> RealmID (chars_heap s ! p) = r \<and> CharGUID (chars_heap s ! p) = g"
    and "inner (nameStorage s) r k = Some p \<Longrightarrow> p < length (chars_heap s) \<and> RealmID (chars_heap s ! p) = r \<and> ToUpper (CharName (chars_heap s ! p)) = k"
    and "guidStorage s r = None \<longleftrightarrow> nameStorage s r = None"
  using assms unfolding online_ok_def by blast+

lemma inner_upd [simp]: "inner (m(r \<mapsto> i)) r' = (if r' = r then i else inner m r')"
  by (simp add: inner_def)

lemma inner_delete [simp]: "inner (delete_inner m r k) r' = (if r' = r then (inner m r)(k := None) else inner m r')"
  by (auto simp: inner_def delete_inner_def fun_eq_iff split: option.splits)

lemma delete_inner_None [simp]: "delete_inner m r k r' = None \<longleftrightarrow> m r' = None"
  by (auto simp: delete_inner_def split: option.splits)

lemma new_ok: "online_ok NewCharactersOnlineInMem"
  by (simp add: online_ok_def NewCharactersOnlineInMem_def inner_def)

lemma Add_fields:
  assumes "online_ok s"
  shows "chars_heap (Add c s) = chars_heap s @ [c]"
    "inner (guidStorage (Add c s)) r = (if r = RealmID c then (inner (guidStorage s) r)(CharGUID c \<mapsto> length (chars_heap s)) else inner (guidStorage s) r)"
    "inner (nameStorage (Add c s)) r = (if r = RealmID c then (inner (nameStorage s) r)(ToUpper (CharName c) \<mapsto> length (chars_heap s)) else inner (nameStorage s) r)"
    "guidStorage (Add c s) r = None \<longleftrightarrow> guidStorage s r = None \<and> r \<noteq> RealmID c"
    "nameStorage (Add c s) r = None \<longleftrightarrow> nameStorage s r = None \<and> r \<noteq> RealmID c"
proof -
  have n: "guidStorage s (RealmID c) = None \<Longrightarrow> nameStorage s (RealmID c) = None" using online_okD(3) [OF assms] by blast
  show "chars_heap (Add c s) = chars_heap s @ [c]"
    "inner (guidStorage (Add c s)) r = (if r = RealmID c then (inner (guidStorage s) r)(CharGUID c \<mapsto> length (chars_heap s)) else inner (guidStorage s) r)"
    "inner (nameStorage (Add c s)) r = (if r = RealmID c then (inner (nameStorage s) r)(ToUpper (CharName c) \<mapsto> length (chars_heap s)) else inner (nameStorage s) r)"
    "guidStorage (Add c s) r = None \<longleftrightarrow> guidStorage s r = None \<and> r \<noteq> RealmID c"
    "nameStorage (Add c s) r = None \<longleftrightarrow> nameStorage s r = None \<and> r \<noteq> RealmID c"
    using n by (auto simp: Add_def Let_def inner_def)
qed

lemma Add_ok:
  assumes "online_ok s"
  shows "online_ok (Add c s)"
  using assms unfolding online_ok_def Add_fields [OF assms]
  by (auto simp: nth_append less_Suc_eq split: if_splits)

lemma Add_view:
  assumes "online_ok s"
  shows "online_view (Add c s) = (online_view s)((RealmID c, CharGUID c) \<mapsto> c)"
proof (rule ext, clarify)
  fix r g
  show "online_view (Add c s) (r, g) = ((online_view s)((RealmID c, CharGUID c) \<mapsto> c)) (r, g)"
  proof (cases "inner (guidStorage s) r g")
    case (Some p)
    then have "p < length (chars_heap s)" using online_okD(1) [OF assms] by blast
    with Some show ?thesis by (auto simp: online_view_def OneByRealmAndGUID_def Add_fields [OF assms] nth_append)
  qed (auto simp: online_view_def OneByRealmAndGUID_def Add_fields [OF assms])
qed

lemma delete_ok: "online_ok s \<Longrightarrow> online_ok (s\<lparr>guidStorage := delete_inner (guidStorage s) r g, nameStorage := delete_inner (nameStorage s) r k\<rparr>)"
  unfolding online_ok_def by (auto split: if_splits)

lemma delete_view:
  "online_view (s\<lparr>guidStorage := delete_inner (guidStorage s) r g, nameStorage := n\<rparr>) = (online_view s)((r, g) := None)"
  by (auto simp: online_view_def OneByRealmAndGUID_def fun_eq_iff)

lemma Remove_ok: "online_ok s \<Longrightarrow> online_ok (Remove r g s)"
  by (simp add: Remove_def delete_ok split: option.splits)

lemma Remove_view: "online_view (Remove r g s) = (online_view s)((r, g) := None)"
proof (cases "OneByRealmAndGUID r g s")
  case None
  then have "online_view s (r, g) = None" by (simp add: online_view_def)
  then show ?thesis by (simp add: Remove_def None fun_upd_idem)
qed (simp add: Remove_def delete_view)

lemma remove_char_ok: "online_ok s \<Longrightarrow> online_ok (remove_char r g s)"
  using delete_ok by (simp add: remove_char_def)

lemma remove_char_view: "online_view (remove_char r g s) = (online_view s)((r, g) := None)"
  using delete_view by (simp add: remove_char_def)

lemma remove_chars: "online_ok s \<Longrightarrow> online_ok (fold (remove_char r) gs s) \<and>
    online_view (fold (remove_char r) gs s) = (\<lambda>(q, g). if q = r \<and> g \<in> set gs then None else online_view s (q, g))"
  by (induction gs arbitrary: s) (auto simp: remove_char_ok remove_char_view fun_eq_iff)

lemma update_fields [simp]:
  "RealmID (online_applyCharUpdate u c) = RealmID c" "CharGUID (online_applyCharUpdate u c) = CharGUID c"
  "CharName (online_applyCharUpdate u c) = CharName c" "GatewayID (online_applyCharUpdate u c) = GatewayID c"
  by (simp_all add: online_applyCharUpdate_def)

lemma update_char_ok:
  assumes "online_ok s"
  shows "online_ok (update_char r u s)"
proof (cases "inner (guidStorage s) r (uID u)")
  case (Some p)
  then show ?thesis using assms unfolding online_ok_def update_char_def by (auto simp: nth_list_update)
qed (simp add: update_char_def assms)

lemma update_char_view:
  assumes "online_ok s"
  shows "online_view (update_char r u s) = (online_view s)((r, uID u) := map_option (online_applyCharUpdate u) (online_view s (r, uID u)))"
proof (cases "inner (guidStorage s) r (uID u)")
  case None
  then show ?thesis by (simp add: update_char_def online_view_def OneByRealmAndGUID_def fun_eq_iff)
next
  case (Some p)
  have p: "p < length (chars_heap s)" "RealmID (chars_heap s ! p) = r" "CharGUID (chars_heap s ! p) = uID u"
    using online_okD(1) [OF assms Some] by simp_all
  have other: "(q, g) = (r, uID u)" if "inner (guidStorage s) q g = Some p" for q g
    using online_okD(1) [OF assms that] p by simp
  note found = Some
  show ?thesis
  proof (rule ext, clarify)
    fix q g
    show "online_view (update_char r u s) (q, g) = ((online_view s)((r, uID u) := map_option (online_applyCharUpdate u) (online_view s (r, uID u)))) (q, g)"
    proof (cases "inner (guidStorage s) q g")
      case (Some p')
      then show ?thesis using other [of q g] p(1) found
        by (auto simp: update_char_def online_view_def OneByRealmAndGUID_def nth_list_update)
    qed (auto simp: update_char_def online_view_def OneByRealmAndGUID_def found)
  qed
qed

end
