(* ===== verification/Char_Friends.thy ===== *)
theory Char_Friends
  imports Cloud9_Prelude Gateway_Events
begin

text \<open>
  Friends and ignored players (\<^verbatim>\<open>apps/charserver/service/friends.go\<close>, \<^verbatim>\<open>service/friends-cache.go\<close> and the social
  statements of \<^verbatim>\<open>repo/characters_mysql.go\<close>): the table of a realm, the cache of who is online, which knows
  players by GUID only, and the events that tell friends.
\<close>

section \<open>The table\<close>

abbreviation SocialFlagFriend :: u8 where "SocialFlagFriend \<equiv> 1"
abbreviation SocialFlagIgnore :: u8 where "SocialFlagIgnore \<equiv> 2"

record FriendEntry =
  PlayerGUID :: u64
  FriendGUID :: u64
  Flags :: u8
  Note :: string

record OnlinePlayerInfo =
  oGUID :: u64
  oLevel :: u32
  oClass :: u32
  oArea :: u32
  oStatus :: u8

datatype social_stmt = StmtGetFriendsForPlayer | StmtAddFriend | StmtRemoveFriend | StmtUpdateFriendNote | StmtAddIgnore
  | StmtRemoveIgnore | StmtGetPlayersWhoHaveAsFriend

record friends_env =
  socialDbFails :: "social_stmt \<Rightarrow> bool"
  socialRejected :: "FriendEntry list \<Rightarrow> FriendEntry \<Rightarrow> bool"
  socialOrder :: "FriendEntry list \<Rightarrow> FriendEntry list"

record friends_server =
  social :: "u32 \<Rightarrow> FriendEntry list"
  onlineInfoByGUID :: "u64 \<rightharpoonup> OnlinePlayerInfo"

definition put_social :: "u32 \<Rightarrow> FriendEntry list \<Rightarrow> friends_server \<Rightarrow> friends_server" where
  "put_social r rows s = s\<lparr>social := (social s)(r := rows)\<rparr>"

definition GetFriendsForPlayer :: "friends_env \<Rightarrow> u32 \<Rightarrow> u64 \<Rightarrow> friends_server \<Rightarrow> FriendEntry list option" where
  "GetFriendsForPlayer env r player s =
     (if socialDbFails env StmtGetFriendsForPlayer then None
      else Some (socialOrder env (filter (\<lambda>e. PlayerGUID e = player) (social s r))))"

definition insert_social :: "friends_env \<Rightarrow> social_stmt \<Rightarrow> u32 \<Rightarrow> FriendEntry \<Rightarrow> friends_server \<Rightarrow> friends_server option" where
  "insert_social env st r e s =
     (if socialDbFails env st \<or> socialRejected env (social s r) e then None else Some (put_social r (social s r @ [e]) s))"

definition delete_social :: "friends_env \<Rightarrow> social_stmt \<Rightarrow> u32 \<Rightarrow> u64 \<Rightarrow> u64 \<Rightarrow> u8 \<Rightarrow> friends_server \<Rightarrow> friends_server option" where
  "delete_social env st r player friend flags s =
     (if socialDbFails env st then None
      else Some (put_social r (filter (\<lambda>e. \<not> (PlayerGUID e = player \<and> FriendGUID e = friend \<and> Flags e = flags)) (social s r)) s))"

definition repo_UpdateFriendNote :: "friends_env \<Rightarrow> u32 \<Rightarrow> u64 \<Rightarrow> u64 \<Rightarrow> string \<Rightarrow> friends_server \<Rightarrow> friends_server option" where
  "repo_UpdateFriendNote env r player friend note s =
     (if socialDbFails env StmtUpdateFriendNote then None
      else Some (put_social r (map (\<lambda>e. if PlayerGUID e = player \<and> FriendGUID e = friend \<and> Flags e = SocialFlagFriend
                                       then e\<lparr>Note := note\<rparr> else e) (social s r)) s))"

definition GetPlayersWhoHaveAsFriend :: "friends_env \<Rightarrow> u32 \<Rightarrow> u64 \<Rightarrow> friends_server \<Rightarrow> u64 list option" where
  "GetPlayersWhoHaveAsFriend env r player s =
     (if socialDbFails env StmtGetPlayersWhoHaveAsFriend then None
      else Some (map PlayerGUID (socialOrder env (filter (\<lambda>e. FriendGUID e = player \<and> Flags e = SocialFlagFriend) (social s r)))))"

section \<open>The service\<close>

datatype FriendsResult = FriendResultDBError | FriendResultListFull | FriendResultAlready | FriendResultSelf
  | FriendResultAddedOnline | FriendResultAddedOffline | FriendResultIgnoreSelf | FriendResultIgnoreAlready
  | FriendResultIgnoreFull | FriendResultIgnoreAdded

abbreviation MaxFriendsLimit :: nat where "MaxFriendsLimit \<equiv> 50"
abbreviation MaxIgnoreLimit :: nat where "MaxIgnoreLimit \<equiv> 50"

record AddFriendResult =
  Result :: FriendsResult
  rStatus :: u8
  rArea :: u32
  rLevel :: u32
  rClassID :: u32

record FriendInfo =
  fGUID :: u64
  fNote :: string
  fStatus :: u8
  fArea :: u32
  fLevel :: u32
  fClassID :: u32

datatype friend_event =
    StatusChange u32 u64 u8 u32 u32 u32 "u64 list"
  | FriendAdded u32 u64 u64 string string
  | FriendRemoved u32 u64 u64
  | NoteUpdated u32 u64 u64 string

definition friend_info :: "friends_server \<Rightarrow> FriendEntry \<Rightarrow> FriendInfo" where
  "friend_info s e =
     (case onlineInfoByGUID s (FriendGUID e) of
        Some i \<Rightarrow> \<lparr>fGUID = FriendGUID e, fNote = Note e, fStatus = 1, fArea = oArea i, fLevel = oLevel i, fClassID = oClass i\<rparr>
      | None \<Rightarrow> \<lparr>fGUID = FriendGUID e, fNote = Note e, fStatus = 0, fArea = 0, fLevel = 0, fClassID = 0\<rparr>)"

definition GetFriendsList :: "friends_env \<Rightarrow> u32 \<Rightarrow> u64 \<Rightarrow> friends_server \<Rightarrow> (FriendInfo list \<times> u64 list) option" where
  "GetFriendsList env r player s =
     (case GetFriendsForPlayer env r player s of
        None \<Rightarrow> None
      | Some entries \<Rightarrow>
          Some (map (friend_info s) (filter (\<lambda>e. Flags e = SocialFlagFriend) entries),
                map FriendGUID (filter (\<lambda>e. Flags e = SocialFlagIgnore) entries)))"

definition plain_result :: "FriendsResult \<Rightarrow> AddFriendResult" where
  "plain_result x = \<lparr>Result = x, rStatus = 0, rArea = 0, rLevel = 0, rClassID = 0\<rparr>"

definition added_result :: "u64 \<Rightarrow> friends_server \<Rightarrow> AddFriendResult" where
  "added_result friend s =
     (case onlineInfoByGUID s friend of
        Some i \<Rightarrow> \<lparr>Result = FriendResultAddedOnline, rStatus = 1, rArea = oArea i, rLevel = oLevel i, rClassID = oClass i\<rparr>
      | None \<Rightarrow> plain_result FriendResultAddedOffline)"

text \<open>
  A list is read and checked before the row is inserted, and nothing keeps other calls out in between:
  \<open>list_check\<close> is the first half. A result comes with the flag of an error.
\<close>

definition list_check :: "u8 \<Rightarrow> nat \<Rightarrow> FriendsResult \<Rightarrow> FriendsResult \<Rightarrow> u64 \<Rightarrow> FriendEntry list \<Rightarrow> FriendsResult option" where
  "list_check flags limit already full friend entries =
     (let mine = filter (\<lambda>e. Flags e = flags) entries
      in if \<exists>e\<in>set mine. FriendGUID e = friend then Some already
         else if limit \<le> length mine then Some full else None)"

definition store_friend ::
  "friends_env \<Rightarrow> u32 \<Rightarrow> u64 \<Rightarrow> u64 \<Rightarrow> string \<Rightarrow> string \<Rightarrow> friends_server \<Rightarrow> friends_server \<times> (AddFriendResult \<times> bool) \<times> friend_event list" where
  "store_friend env r player friend friendName note s =
     (case insert_social env StmtAddFriend r \<lparr>PlayerGUID = player, FriendGUID = friend, Flags = SocialFlagFriend, Note = note\<rparr> s of
        None \<Rightarrow> (s, (plain_result FriendResultDBError, True), [])
      | Some s1 \<Rightarrow> (s1, (added_result friend s1, False), [FriendAdded r player friend friendName note]))"

definition AddFriend ::
  "friends_env \<Rightarrow> u32 \<Rightarrow> u64 \<Rightarrow> u64 \<Rightarrow> string \<Rightarrow> string \<Rightarrow> friends_server \<Rightarrow> friends_server \<times> (AddFriendResult \<times> bool) \<times> friend_event list" where
  "AddFriend env r player friend friendName note s =
     (if player = friend then (s, (plain_result FriendResultSelf, False), [])
      else
        (case GetFriendsForPlayer env r player s of
           None \<Rightarrow> (s, (plain_result FriendResultDBError, True), [])
         | Some entries \<Rightarrow>
             (case list_check SocialFlagFriend MaxFriendsLimit FriendResultAlready FriendResultListFull friend entries of
                Some x \<Rightarrow> (s, (plain_result x, False), [])
              | None \<Rightarrow> store_friend env r player friend friendName note s)))"

definition RemoveFriend :: "friends_env \<Rightarrow> u32 \<Rightarrow> u64 \<Rightarrow> u64 \<Rightarrow> friends_server \<Rightarrow> friends_server \<times> bool \<times> friend_event list" where
  "RemoveFriend env r player friend s =
     (case delete_social env StmtRemoveFriend r player friend SocialFlagFriend s of
        None \<Rightarrow> (s, True, []) | Some s1 \<Rightarrow> (s1, False, [FriendRemoved r player friend]))"

definition SetFriendNote :: "friends_env \<Rightarrow> u32 \<Rightarrow> u64 \<Rightarrow> u64 \<Rightarrow> string \<Rightarrow> friends_server \<Rightarrow> friends_server \<times> bool \<times> friend_event list" where
  "SetFriendNote env r player friend note s =
     (case repo_UpdateFriendNote env r player friend note s of
        None \<Rightarrow> (s, True, []) | Some s1 \<Rightarrow> (s1, False, [NoteUpdated r player friend note]))"

definition AddIgnore :: "friends_env \<Rightarrow> u32 \<Rightarrow> u64 \<Rightarrow> u64 \<Rightarrow> friends_server \<Rightarrow> friends_server \<times> (FriendsResult \<times> bool)" where
  "AddIgnore env r player ignored s =
     (if player = ignored then (s, FriendResultIgnoreSelf, False)
      else
        (case GetFriendsForPlayer env r player s of
           None \<Rightarrow> (s, FriendResultDBError, True)
         | Some entries \<Rightarrow>
             (case list_check SocialFlagIgnore MaxIgnoreLimit FriendResultIgnoreAlready FriendResultIgnoreFull ignored entries of
                Some x \<Rightarrow> (s, x, False)
              | None \<Rightarrow>
                  (case insert_social env StmtAddIgnore r \<lparr>PlayerGUID = player, FriendGUID = ignored, Flags = SocialFlagIgnore, Note = []\<rparr> s of
                     None \<Rightarrow> (s, FriendResultDBError, True)
                   | Some s1 \<Rightarrow> (s1, FriendResultIgnoreAdded, False)))))"

definition RemoveIgnore :: "friends_env \<Rightarrow> u32 \<Rightarrow> u64 \<Rightarrow> u64 \<Rightarrow> friends_server \<Rightarrow> friends_server \<times> bool" where
  "RemoveIgnore env r player ignored s =
     (case delete_social env StmtRemoveIgnore r player ignored SocialFlagIgnore s of None \<Rightarrow> (s, True) | Some s1 \<Rightarrow> (s1, False))"

definition NotifyStatusChange ::
  "friends_env \<Rightarrow> u32 \<Rightarrow> u64 \<Rightarrow> u8 \<Rightarrow> u32 \<Rightarrow> u32 \<Rightarrow> u32 \<Rightarrow> friends_server \<Rightarrow> bool \<times> friend_event list" where
  "NotifyStatusChange env r player status area level classID s =
     (case GetPlayersWhoHaveAsFriend env r player s of
        None \<Rightarrow> (True, [])
      | Some players \<Rightarrow> (False, if players = [] then [] else [StatusChange r player status area level classID players]))"

section \<open>Who is online\<close>

definition PlayerLoggedIn :: "u64 \<Rightarrow> u32 \<Rightarrow> u32 \<Rightarrow> u32 \<Rightarrow> friends_server \<Rightarrow> friends_server" where
  "PlayerLoggedIn player level classID area s =
     s\<lparr>onlineInfoByGUID := (onlineInfoByGUID s)(player \<mapsto> \<lparr>oGUID = player, oLevel = level, oClass = classID, oArea = area, oStatus = 1\<rparr>)\<rparr>"

definition PlayerLoggedOut :: "u64 \<Rightarrow> friends_server \<Rightarrow> friends_server" where
  "PlayerLoggedOut player s = s\<lparr>onlineInfoByGUID := (onlineInfoByGUID s)(player := None)\<rparr>"

definition friends_HandleCharacterLoggedIn :: "friends_env \<Rightarrow> GWLoggedIn \<Rightarrow> friends_server \<Rightarrow> friends_server \<times> bool \<times> friend_event list" where
  "friends_HandleCharacterLoggedIn env e s =
     (let s1 = PlayerLoggedIn (inCharGUID e) (ucast (inCharLevel e)) (ucast (inCharClass e)) (inCharZone e) s
      in (s1, NotifyStatusChange env (inRealmID e) (inCharGUID e) 1 (inCharZone e) (ucast (inCharLevel e)) (ucast (inCharClass e)) s1))"

definition friends_HandleCharacterLoggedOut :: "friends_env \<Rightarrow> GWLoggedOut \<Rightarrow> friends_server \<Rightarrow> friends_server \<times> bool \<times> friend_event list" where
  "friends_HandleCharacterLoggedOut env e s =
     (let s1 = PlayerLoggedOut (outCharGUID e) s
      in (s1, NotifyStatusChange env (outRealmID e) (outCharGUID e) 0 0 0 0 s1))"

definition update_online :: "CharacterUpdate \<Rightarrow> friends_server \<Rightarrow> friends_server" where
  "update_online u s =
     (case onlineInfoByGUID s (uID u) of
        None \<Rightarrow> s
      | Some i \<Rightarrow> s\<lparr>onlineInfoByGUID := (onlineInfoByGUID s)(uID u \<mapsto>
          i\<lparr>oLevel := (case uLvl u of None \<Rightarrow> oLevel i | Some l \<Rightarrow> ucast l),
            oArea := (case uZone u of Some z \<Rightarrow> z | None \<Rightarrow> (case uArea u of Some a \<Rightarrow> a | None \<Rightarrow> oArea i))\<rparr>)\<rparr>)"

definition friends_HandleCharactersUpdates :: "CharacterUpdate list \<Rightarrow> friends_server \<Rightarrow> friends_server" where
  "friends_HandleCharactersUpdates updates s = fold update_online updates s"

end
