(* ===== verification/Char_Server.thy ===== *)
theory Char_Server
  imports Char_Online Char_Friends
begin

text \<open>
  The character server as a whole: the characters an account can log in with (\<^verbatim>\<open>repo/characters_mysql.go\<close>,
  \<^verbatim>\<open>repo/items-template_cache.go\<close>), the handlers of \<^verbatim>\<open>server/charserver.go\<close> that do more than copy fields, and
  the events, which go to the characters online and to the friends cache one after the other
  (\<^verbatim>\<open>cmd/charserver/main.go\<close>).
\<close>

section \<open>Characters to log in\<close>

text \<open>
  The equipment of a character is a text of 23 pairs of an item and an enchantment. An item beyond the end of the
  text is an index out of range; what is not a number counts as 0.
\<close>

definition parse_u32_field :: "string \<Rightarrow> u32" where
  "parse_u32_field w = word_of_int (Atoi w)"

fun scan_slots :: "nat \<Rightarrow> string list \<Rightarrow> (u32 \<times> u32) list option" where
  "scan_slots 0 ws = Some []"
| "scan_slots (Suc n) [] = None"
| "scan_slots (Suc n) [e] = map_option ((#) (parse_u32_field e, 0)) (scan_slots n [])"
| "scan_slots (Suc n) (e # x # ws) = map_option ((#) (parse_u32_field e, parse_u32_field x)) (scan_slots n ws)"

definition scan_equipment :: "string \<Rightarrow> (u32 list \<times> u32 list) option" where
  "scan_equipment cache = map_option (\<lambda>ps. (map fst ps, map snd ps)) (scan_slots 23 (Split (CHR '' '') cache))"

text \<open>
  \<open>'c\<close> stands for the columns that are copied. A query yields rows of those columns, the equipment and the GUID of
  the ban, which is 0 without one; the result is an error, a panic or the characters.
\<close>

datatype 'a char_result = CharError | CharPanic | CharOK 'a

record 'c LogInCharacter =
  columns :: 'c
  Equipments :: "u32 list"
  Enchants :: "u32 list"
  Banned :: bool

fun scan_characters :: "('c \<times> string \<times> u32) list \<Rightarrow> 'c LogInCharacter list char_result" where
  "scan_characters [] = CharOK []"
| "scan_characters ((c, cache, bannedGuid) # rows) =
     (case scan_equipment cache of
        None \<Rightarrow> CharPanic
      | Some (es, xs) \<Rightarrow>
          (case scan_characters rows of
             CharOK l \<Rightarrow> CharOK (\<lparr>columns = c, Equipments = es, Enchants = xs, Banned = 0 < bannedGuid\<rparr> # l)
           | CharError \<Rightarrow> CharError
           | CharPanic \<Rightarrow> CharPanic))"

definition ListCharactersToLogIn :: "('c \<times> string \<times> u32) list option \<Rightarrow> 'c LogInCharacter list char_result" where
  "ListCharactersToLogIn rows = (case rows of None \<Rightarrow> CharError | Some l \<Rightarrow> scan_characters l)"

definition CharacterToLogInByGUID :: "('c \<times> string \<times> u32) list option \<Rightarrow> 'c LogInCharacter option char_result" where
  "CharacterToLogInByGUID rows =
     (case ListCharactersToLogIn rows of
        CharOK [] \<Rightarrow> CharOK None | CharOK (c # _) \<Rightarrow> CharOK (Some c) | CharError \<Rightarrow> CharError | CharPanic \<Rightarrow> CharPanic)"

record ItemTemplate =
  iID :: u32
  DisplayID :: u32
  InventoryType :: u8

definition NewItemsTemplateCache :: "ItemTemplate list \<Rightarrow> (u32 \<rightharpoonup> ItemTemplate)" where
  "NewItemsTemplateCache rows = fold (\<lambda>t m. m(iID t \<mapsto> t)) rows Map.empty"

fun equipment_displays :: "(u32 \<rightharpoonup> ItemTemplate) \<Rightarrow> u32 list \<Rightarrow> (u32 \<times> u32) list option" where
  "equipment_displays templates [] = Some []"
| "equipment_displays templates (i # is) =
     (if i = 0 then map_option ((#) (0, 0)) (equipment_displays templates is)
      else case templates i of
             None \<Rightarrow> None
           | Some t \<Rightarrow> map_option ((#) (DisplayID t, ucast (InventoryType t))) (equipment_displays templates is))"

fun displays_of :: "(u32 \<rightharpoonup> ItemTemplate) \<Rightarrow> 'c LogInCharacter list \<Rightarrow> ('c \<times> (u32 \<times> u32) list \<times> bool) list option" where
  "displays_of templates [] = Some []"
| "displays_of templates (c # cs) =
     (case equipment_displays templates (Equipments c) of
        None \<Rightarrow> None
      | Some ds \<Rightarrow> map_option ((#) (columns c, ds, Banned c)) (displays_of templates cs))"

definition CharactersToLoginForAccount ::
  "(u32 \<rightharpoonup> ItemTemplate) \<Rightarrow> ('c \<times> string \<times> u32) list option \<Rightarrow> ('c \<times> (u32 \<times> u32) list \<times> bool) list char_result" where
  "CharactersToLoginForAccount templates rows =
     (case ListCharactersToLogIn rows of
        CharOK cs \<Rightarrow> (case displays_of templates cs of None \<Rightarrow> CharError | Some l \<Rightarrow> CharOK l)
      | CharError \<Rightarrow> CharError
      | CharPanic \<Rightarrow> CharPanic)"

definition CharactersToLoginByGUID ::
  "(u32 \<rightharpoonup> ItemTemplate) \<Rightarrow> ('c \<times> string \<times> u32) list option \<Rightarrow> ('c \<times> (u32 \<times> u32) list \<times> bool) option char_result" where
  "CharactersToLoginByGUID templates rows =
     (case CharacterToLogInByGUID rows of
        CharOK None \<Rightarrow> CharOK None
      | CharOK (Some c) \<Rightarrow>
          (case equipment_displays templates (Equipments c) of None \<Rightarrow> CharError | Some ds \<Rightarrow> CharOK (Some (columns c, ds, Banned c)))
      | CharError \<Rightarrow> CharError
      | CharPanic \<Rightarrow> CharPanic)"

section \<open>Characters by name\<close>

text \<open>\<open>db_by_name\<close> is the query by exact name; the name is brought into the form in which names are stored.
  The columns of the row do not include the realm and the gateway.\<close>

definition stored_name :: "string \<Rightarrow> string" where
  "stored_name name = (case ToLower name of [] \<Rightarrow> [] | c # cs \<Rightarrow> to_upper c # cs)"

definition repo_CharacterByName :: "(string \<Rightarrow> Character list option) \<Rightarrow> string \<Rightarrow> Character option option" where
  "repo_CharacterByName db_by_name name =
     (if name = [] then Some None
      else case db_by_name (stored_name name) of
             None \<Rightarrow> None
           | Some [] \<Rightarrow> Some None
           | Some (c # _) \<Rightarrow> Some (Some (c\<lparr>RealmID := 0, GatewayID := [], CharName := stored_name name\<rparr>)))"

definition CharacterByName :: "(string \<Rightarrow> Character list option) \<Rightarrow> u32 \<Rightarrow> string \<Rightarrow> online_chars \<Rightarrow> (Character \<times> bool) option option" where
  "CharacterByName db_by_name r name s =
     (case OneByRealmAndName r name s of
        Some c \<Rightarrow> Some (Some (c, True))
      | None \<Rightarrow> map_option (map_option (\<lambda>c. (c, False))) (repo_CharacterByName db_by_name name))"

section \<open>Who\<close>

text \<open>
  The bounds of the levels are cut to 8 bits, at most 50 characters are shown, and names of guilds come from
  another service; when it fails they stay empty.
\<close>

record WhoQueryRequest =
  qLvlMin :: u32
  qLvlMax :: u32
  qClassMask :: u32
  qRaceMask :: u32
  qZones :: "u32 list"
  qStrings :: "string list"

record WhoItem =
  wGuid :: u64
  wName :: string
  wGuild :: string
  wLvl :: u32
  wClass :: u32
  wRace :: u32
  wGender :: u32
  wZoneID :: u32

definition GuildNameResolver :: "(u32 list \<Rightarrow> (u32 \<rightharpoonup> string) option) \<Rightarrow> u32 list \<Rightarrow> (u32 \<rightharpoonup> string)" where
  "GuildNameResolver guildNames ids = (if ids = [] then Map.empty else case guildNames ids of None \<Rightarrow> Map.empty | Some m \<Rightarrow> m)"

definition who_item :: "(u32 \<rightharpoonup> string) \<Rightarrow> Character \<Rightarrow> WhoItem" where
  "who_item names c = \<lparr>wGuid = CharGUID c, wName = CharName c, wGuild = case_option [] id (names (CharGuildID c)), wLvl = ucast (CharLevel c),
     wClass = ucast (CharClass c), wRace = ucast (CharRace c), wGender = ucast (CharGender c), wZoneID = CharZone c\<rparr>"

definition WhoQuery ::
  "(u32 list \<Rightarrow> (u32 \<rightharpoonup> string) option) \<Rightarrow> u64 list \<Rightarrow> u32 \<Rightarrow> WhoQueryRequest \<Rightarrow> online_chars \<Rightarrow> nat \<times> WhoItem list" where
  "WhoQuery guildNames order r q s =
     (let chars = WhoRequest order r \<lparr>LvlMin = ucast (qLvlMin q), LvlMax = ucast (qLvlMax q), ClassMask = qClassMask q,
            RaceMask = qRaceMask q, Zones = qZones q, Strings = qStrings q\<rparr> s;
          shown = take 50 chars;
          names = GuildNameResolver guildNames (filter (\<lambda>i. i \<noteq> 0) (map CharGuildID shown))
      in (length chars, map (who_item names) shown))"

section \<open>Events\<close>

record char_server =
  onlineChars :: online_chars
  friendsServer :: friends_server

datatype char_event =
    CharLoggedIn GWLoggedIn
  | CharLoggedOut GWLoggedOut
  | CharsUpdated u32 "CharacterUpdate list"
  | GatewayLost "u64 list" u32 string

text \<open>
  A gateway that was lost takes its characters with it, and the other instances are told by an event with
  their GUIDs, on which they do the same.
\<close>

definition HandleGWRemovedUnhealthy :: "u64 list \<Rightarrow> u32 \<Rightarrow> string \<Rightarrow> online_chars \<Rightarrow> online_chars \<times> (u32 \<times> string \<times> u64 list) option" where
  "HandleGWRemovedUnhealthy order r gw s =
     (case RemoveAllWithGatewayID order r gw s of (s1, guids) \<Rightarrow> (s1, if guids = [] then None else Some (r, gw, guids)))"

fun handle_event :: "friends_env \<Rightarrow> char_event \<Rightarrow> char_server \<Rightarrow> char_server \<times> friend_event list" where
  "handle_event env (CharLoggedIn e) s =
     (case friends_HandleCharacterLoggedIn env e (friendsServer s) of
        (f, _, ev) \<Rightarrow> (\<lparr>onlineChars = online_HandleCharacterLoggedIn e (onlineChars s), friendsServer = f\<rparr>, ev))"
| "handle_event env (CharLoggedOut e) s =
     (case friends_HandleCharacterLoggedOut env e (friendsServer s) of
        (f, _, ev) \<Rightarrow> (\<lparr>onlineChars = online_HandleCharacterLoggedOut e (onlineChars s), friendsServer = f\<rparr>, ev))"
| "handle_event env (CharsUpdated r us) s =
     (\<lparr>onlineChars = online_HandleCharactersUpdates r us (onlineChars s),
       friendsServer = friends_HandleCharactersUpdates us (friendsServer s)\<rparr>, [])"
| "handle_event env (GatewayLost order r gw) s = (s\<lparr>onlineChars := fst (HandleGWRemovedUnhealthy order r gw (onlineChars s))\<rparr>, [])"

end
