(* ===== verification/Char_Guarantees.thy ===== *)
theory Char_Guarantees
  imports Char_Server "HOL-Library.Multiset"
begin

text \<open>
  What the character server promises: its maps follow the events, a player online is found by GUID and by any
  spelling of his name, lists of friends stay within their limits, friends learn of a login, and the equipment of
  a character is read back as it was written. The last section shows where this fails.
\<close>

section \<open>Events\<close>



















section \<open>Lists of friends\<close>

datatype friend_call =
    CallAddFriend u32 u64 u64 string string
  | CallRemoveFriend u32 u64 u64
  | CallSetNote u32 u64 u64 string
  | CallAddIgnore u32 u64 u64
  | CallRemoveIgnore u32 u64 u64
  | CallEvent char_event

fun run_friend_call :: "friends_env \<Rightarrow> friend_call \<Rightarrow> char_server \<Rightarrow> char_server" where
  "run_friend_call env (CallAddFriend r p f n note) s = s\<lparr>friendsServer := fst (AddFriend env r p f n note (friendsServer s))\<rparr>"
| "run_friend_call env (CallRemoveFriend r p f) s = s\<lparr>friendsServer := fst (RemoveFriend env r p f (friendsServer s))\<rparr>"
| "run_friend_call env (CallSetNote r p f note) s = s\<lparr>friendsServer := fst (SetFriendNote env r p f note (friendsServer s))\<rparr>"
| "run_friend_call env (CallAddIgnore r p f) s = s\<lparr>friendsServer := fst (AddIgnore env r p f (friendsServer s))\<rparr>"
| "run_friend_call env (CallRemoveIgnore r p f) s = s\<lparr>friendsServer := fst (RemoveIgnore env r p f (friendsServer s))\<rparr>"
| "run_friend_call env (CallEvent e) s = fst (handle_event env e s)"

definition listed :: "u8 \<Rightarrow> u64 \<Rightarrow> FriendEntry list \<Rightarrow> u64 list" where
  "listed flags p rows = map FriendGUID (filter (\<lambda>e. PlayerGUID e = p \<and> Flags e = flags) rows)"

definition list_ok :: "u8 \<Rightarrow> u64 \<Rightarrow> FriendEntry list \<Rightarrow> bool" where
  "list_ok flags p rows \<longleftrightarrow> length (listed flags p rows) \<le> 50 \<and> distinct (listed flags p rows) \<and> p \<notin> set (listed flags p rows)"

definition social_ok :: "friends_server \<Rightarrow> bool" where
  "social_ok s \<longleftrightarrow> (\<forall>r p. list_ok 1 p (social s r) \<and> list_ok 2 p (social s r))"

definition any_order :: "friends_env \<Rightarrow> bool" where
  "any_order env \<longleftrightarrow> (\<forall>l. mset (socialOrder env l) = mset l)"

lemma listed_append [simp]: "listed flags p (rows @ [e]) = listed flags p rows @ (if PlayerGUID e = p \<and> Flags e = flags then [FriendGUID e] else [])"
  by (simp add: listed_def)

lemma list_ok_filter:
  assumes "list_ok flags p rows"
  shows "list_ok flags p (filter k rows)"
proof -
  let ?mine = "filter (\<lambda>e. PlayerGUID e = p \<and> Flags e = flags) rows"
  have eq: "listed flags p (filter k rows) = map FriendGUID (filter k ?mine)"
    unfolding listed_def filter_filter by (rule arg_cong [where f = "map FriendGUID"], rule filter_cong) auto
  have "length (filter k ?mine) \<le> length ?mine" by (rule length_filter_le)
  moreover have "length ?mine \<le> 50" "distinct (map FriendGUID ?mine)" "p \<notin> FriendGUID ` set ?mine"
    using assms unfolding list_ok_def listed_def by simp_all
  moreover have "distinct (map FriendGUID ?mine) \<longrightarrow> distinct (map FriendGUID (filter k ?mine))" using distinct_map_filter by blast
  ultimately have "length (filter k ?mine) \<le> 50 \<and> distinct (map FriendGUID (filter k ?mine)) \<and> p \<notin> FriendGUID ` set (filter k ?mine)"
    by (intro conjI) (linarith, blast, (auto)[1])
  then show ?thesis unfolding list_ok_def eq length_map set_map .
qed

lemma list_check_None:
  assumes "any_order env" "list_check flags 50 already full f (socialOrder env (filter (\<lambda>e. PlayerGUID e = p) rows)) = None"
  shows "f \<notin> set (listed flags p rows) \<and> length (listed flags p rows) < 50"
proof -
  let ?o = "socialOrder env (filter (\<lambda>e. PlayerGUID e = p) rows)"
  have m: "mset ?o = mset (filter (\<lambda>e. PlayerGUID e = p) rows)" using assms(1) by (simp add: any_order_def)
  have "mset (filter (\<lambda>e. Flags e = flags) ?o) = filter_mset (\<lambda>e. Flags e = flags) (mset ?o)" by simp
  also have "\<dots> = mset (filter (\<lambda>e. PlayerGUID e = p \<and> Flags e = flags) rows)"
    unfolding m mset_filter [symmetric] filter_filter by simp
  finally have eq: "mset (filter (\<lambda>e. Flags e = flags) ?o) = mset (filter (\<lambda>e. PlayerGUID e = p \<and> Flags e = flags) rows)" .
  have "length (filter (\<lambda>e. Flags e = flags) ?o) = length (listed flags p rows)"
    unfolding listed_def length_map by (rule mset_eq_length [OF eq])
  moreover have "FriendGUID ` set (filter (\<lambda>e. Flags e = flags) ?o) = set (listed flags p rows)"
    unfolding listed_def set_map by (rule arg_cong [OF mset_eq_setD [OF eq]])
  moreover have c: "\<not> (\<exists>e\<in>set (filter (\<lambda>e. Flags e = flags) ?o). FriendGUID e = f) \<and> \<not> 50 \<le> length (filter (\<lambda>e. Flags e = flags) ?o)"
    using assms(2) unfolding list_check_def Let_def by (metis (no_types, lifting) option.distinct(1))
  moreover have "f \<notin> FriendGUID ` set (filter (\<lambda>e. Flags e = flags) ?o)" using c by blast
  ultimately show ?thesis by (simp add: not_le)
qed

lemma insert_ok:
  assumes "social_ok s" "insert_social env st r e s = Some s'" "Flags e \<in> {1, 2}" "PlayerGUID e \<noteq> FriendGUID e"
    and "FriendGUID e \<notin> set (listed (Flags e) (PlayerGUID e) (social s r)) \<and> length (listed (Flags e) (PlayerGUID e) (social s r)) < 50"
  shows "social_ok s'"
proof -
  have s': "social s' = (social s)(r := social s r @ [e])"
    using assms(2) by (auto simp: insert_social_def put_social_def split: if_splits)
  have "list_ok flags p (social s r @ [e])" if "flags \<in> {1, 2}" for flags p
    using assms(1,3-5) that unfolding social_ok_def list_ok_def by auto
  then show ?thesis using assms(1) unfolding social_ok_def s' by simp
qed

lemma delete_ok_social:
  assumes "social_ok s" "delete_social env st r player f flags s = Some s'"
  shows "social_ok s'"
  using assms unfolding social_ok_def delete_social_def put_social_def by (auto simp: list_ok_filter split: if_splits)

lemma note_ok: "social_ok s \<Longrightarrow> repo_UpdateFriendNote env r player f note s = Some s' \<Longrightarrow> social_ok s'"
proof -
  assume s: "social_ok s" and u: "repo_UpdateFriendNote env r player f note s = Some s'"
  let ?g = "\<lambda>e. if PlayerGUID e = player \<and> FriendGUID e = f \<and> Flags e = SocialFlagFriend then e\<lparr>Note := note\<rparr> else e"
  have "listed flags p (map ?g rows) = listed flags p rows" for flags p rows by (induction rows) (auto simp: listed_def)
  then have "list_ok flags p (map ?g rows) = list_ok flags p rows" for flags p rows by (simp add: list_ok_def)
  moreover have "social s' = (social s)(r := map ?g (social s r))"
    using u by (auto simp: repo_UpdateFriendNote_def put_social_def split: if_splits)
  ultimately show "social_ok s'" using s unfolding social_ok_def by simp
qed

lemma AddFriend_ok: "social_ok s \<Longrightarrow> any_order env \<Longrightarrow> social_ok (fst (AddFriend env r p f n note s))"
  by (auto simp: AddFriend_def store_friend_def GetFriendsForPlayer_def split: option.splits if_splits
      dest: list_check_None elim!: insert_ok)

lemma AddIgnore_ok: "social_ok s \<Longrightarrow> any_order env \<Longrightarrow> social_ok (fst (AddIgnore env r p f s))"
  by (auto simp: AddIgnore_def GetFriendsForPlayer_def split: option.splits if_splits dest: list_check_None elim!: insert_ok)

lemma RemoveFriend_ok: "social_ok s \<Longrightarrow> social_ok (fst (RemoveFriend env r p f s))"
  unfolding RemoveFriend_def by (cases "delete_social env StmtRemoveFriend r p f SocialFlagFriend s") (simp_all add: delete_ok_social)

lemma RemoveIgnore_ok: "social_ok s \<Longrightarrow> social_ok (fst (RemoveIgnore env r p f s))"
  unfolding RemoveIgnore_def by (cases "delete_social env StmtRemoveIgnore r p f SocialFlagIgnore s") (simp_all add: delete_ok_social)

lemma SetFriendNote_ok: "social_ok s \<Longrightarrow> social_ok (fst (SetFriendNote env r p f note s))"
  unfolding SetFriendNote_def by (cases "repo_UpdateFriendNote env r p f note s") (simp_all add: note_ok)

lemma events_social [simp]: "social (friendsServer (fst (handle_event env e s))) = social (friendsServer s)"
proof (cases e)
  case (CharsUpdated r us)
  have "social (friends_HandleCharactersUpdates us t) = social t" for t
    unfolding friends_HandleCharactersUpdates_def
    by (induction us arbitrary: t) (simp_all add: update_online_def split: option.splits)
  then show ?thesis by (simp add: CharsUpdated)
qed (simp_all add: friends_HandleCharacterLoggedIn_def friends_HandleCharacterLoggedOut_def PlayerLoggedIn_def PlayerLoggedOut_def Let_def split: prod.splits)

lemma run_friend_call_ok: "social_ok (friendsServer s) \<Longrightarrow> any_order env \<Longrightarrow> social_ok (friendsServer (run_friend_call env c s))"
proof (cases c)
  case (CallEvent e)
  then show "social_ok (friendsServer s) \<Longrightarrow> ?thesis" by (simp add: social_ok_def)
qed (simp_all add: AddFriend_ok AddIgnore_ok RemoveFriend_ok RemoveIgnore_ok SetFriendNote_ok)

text \<open>
  C39: Whatever sequence of calls and events runs and whatever statements fail, the friends and the ignored players
  of every player stay at most 50 each, nobody is listed twice, and nobody lists himself.
\<close>

theorem friend_lists_bounded:
  assumes "social_ok (friendsServer s)" "\<forall>(env, c)\<in>set calls. any_order env"
    and "s' = fold (\<lambda>(env, c). run_friend_call env c) calls s" "flags \<in> {SocialFlagFriend, SocialFlagIgnore}"
  shows "length (listed flags p (social (friendsServer s') r)) \<le> 50 \<and> distinct (listed flags p (social (friendsServer s') r)) \<and>
    p \<notin> set (listed flags p (social (friendsServer s') r))"
proof -
  have "social_ok (friendsServer (fold (\<lambda>(env, c). run_friend_call env c) calls s))"
    using assms(1,2) by (induction calls arbitrary: s) (auto simp: run_friend_call_ok)
  then show ?thesis using assms(3,4) unfolding social_ok_def list_ok_def by auto
qed

section \<open>Logins\<close>

lemma set_order: "any_order env \<Longrightarrow> set (socialOrder env l) = set l"
  by (metis any_order_def set_mset_mset)

text \<open>
  C40: When a character logs in and the table can be read, the event names exactly the players who have him as a
  friend, and each of them then sees him online with his level.
\<close>

theorem login_tells_friends:
  assumes "any_order env" "\<And>st. \<not> socialDbFails env st"
    and "handle_event env (CharLoggedIn e) s = (s', ev)"
    and "entry \<in> set (social (friendsServer s) (inRealmID e))" "FriendGUID entry = inCharGUID e" "Flags entry = SocialFlagFriend"
  shows "(\<exists>notify. ev = [StatusChange (inRealmID e) (inCharGUID e) 1 (inCharZone e) (ucast (inCharLevel e)) (ucast (inCharClass e)) notify] \<and>
      set notify = {p. \<exists>x\<in>set (social (friendsServer s) (inRealmID e)). PlayerGUID x = p \<and> FriendGUID x = inCharGUID e \<and> Flags x = SocialFlagFriend}) \<and>
    (\<exists>friends ignored. GetFriendsList env (inRealmID e) (PlayerGUID entry) (friendsServer s') = Some (friends, ignored) \<and>
      (\<exists>i\<in>set friends. fGUID i = inCharGUID e \<and> fStatus i = 1 \<and> fLevel i = ucast (inCharLevel e)))"
proof
  let ?rows = "filter (\<lambda>x. FriendGUID x = inCharGUID e \<and> Flags x = SocialFlagFriend) (social (friendsServer s) (inRealmID e))"
  have "entry \<in> set (socialOrder env ?rows)" using assms(4-6) by (simp add: set_order [OF assms(1)])
  then have ne: "map PlayerGUID (socialOrder env ?rows) \<noteq> []" by auto
  have f: "friendsServer s' = PlayerLoggedIn (inCharGUID e) (ucast (inCharLevel e)) (ucast (inCharClass e)) (inCharZone e) (friendsServer s)"
    and ev: "ev = [StatusChange (inRealmID e) (inCharGUID e) 1 (inCharZone e) (ucast (inCharLevel e)) (ucast (inCharClass e)) (map PlayerGUID (socialOrder env ?rows))]"
    using assms(2,3) ne by (auto simp: friends_HandleCharacterLoggedIn_def NotifyStatusChange_def GetPlayersWhoHaveAsFriend_def PlayerLoggedIn_def Let_def)
  show "\<exists>notify. ev = [StatusChange (inRealmID e) (inCharGUID e) 1 (inCharZone e) (ucast (inCharLevel e)) (ucast (inCharClass e)) notify] \<and>
      set notify = {p. \<exists>x\<in>set (social (friendsServer s) (inRealmID e)). PlayerGUID x = p \<and> FriendGUID x = inCharGUID e \<and> Flags x = SocialFlagFriend}"
    unfolding ev by (intro exI conjI, rule refl) (auto simp: set_order [OF assms(1)])
  let ?mine = "filter (\<lambda>x. PlayerGUID x = PlayerGUID entry) (social (friendsServer s') (inRealmID e))"
  have "entry \<in> set (filter (\<lambda>x. Flags x = SocialFlagFriend) (socialOrder env ?mine))"
    using assms(4,6) by (simp add: set_order [OF assms(1)] f PlayerLoggedIn_def)
  then have "friend_info (friendsServer s') entry \<in> set (map (friend_info (friendsServer s')) (filter (\<lambda>x. Flags x = SocialFlagFriend) (socialOrder env ?mine)))"
    unfolding set_map by (rule imageI)
  moreover have "friend_info (friendsServer s') entry = \<lparr>fGUID = inCharGUID e, fNote = Note entry, fStatus = 1, fArea = inCharZone e,
      fLevel = ucast (inCharLevel e), fClassID = ucast (inCharClass e)\<rparr>"
    by (simp add: friend_info_def f PlayerLoggedIn_def assms(5))
  ultimately have "\<exists>i\<in>set (map (friend_info (friendsServer s')) (filter (\<lambda>x. Flags x = SocialFlagFriend) (socialOrder env ?mine))).
      fGUID i = inCharGUID e \<and> fStatus i = 1 \<and> fLevel i = ucast (inCharLevel e)"
    by (intro bexI [of _ "friend_info (friendsServer s') entry"]) simp_all
  then show "\<exists>friends ignored. GetFriendsList env (inRealmID e) (PlayerGUID entry) (friendsServer s') = Some (friends, ignored) \<and>
      (\<exists>i\<in>set friends. fGUID i = inCharGUID e \<and> fStatus i = 1 \<and> fLevel i = ucast (inCharLevel e))"
    using assms(2) unfolding GetFriendsList_def GetFriendsForPlayer_def by auto
qed

section \<open>Equipment\<close>

text \<open>\<open>format_equipment\<close> is the text the world server writes: every number followed by a blank.\<close>

definition format_equipment :: "(u32 \<times> u32) list \<Rightarrow> string" where
  "format_equipment slots = concat (map (\<lambda>(i, x). dec (unat i) @ '' '' @ dec (unat x) @ '' '') slots)"

lemma dec_no_blank: "CHR '' '' \<notin> set (dec n)"
  using dec_digits [of "CHR '' ''" n] by (auto simp: is_digit_def)

lemma field_dec: "parse_u32_field (dec (unat w)) = w"
proof -
  have "uint w < 2 ^ 32" using unsigned_less [of w, where 'a = int] by simp
  then have "Atoi (dec (unat w)) = int (unat w)" by (intro Atoi_dec) simp
  then show ?thesis by (simp add: parse_u32_field_def)
qed

lemma scan_slots_format: "scan_slots (length slots) (Split (CHR '' '') (format_equipment slots)) = Some slots"
proof (induction slots)
  case (Cons p slots)
  obtain i x where p: "p = (i, x)" by (cases p)
  have "Split (CHR '' '') (dec (unat i) @ CHR '' '' # dec (unat x) @ CHR '' '' # format_equipment slots) =
      dec (unat i) # dec (unat x) # Split (CHR '' '') (format_equipment slots)"
    using dec_no_blank by (simp add: Split_append)
  then show ?case using Cons by (simp add: p format_equipment_def field_dec)
qed simp

text \<open>The equipment of 23 slots, written as numbers followed by blanks, is read back as it was.\<close>

lemma equipment_roundtrip:
  assumes "length slots = 23"
  shows "scan_equipment (format_equipment slots) = Some (map fst slots, map snd slots)"
  using scan_slots_format [of slots] assms by (simp add: scan_equipment_def)

section \<open>Runs\<close>

definition demo_friends_env :: friends_env where
  "demo_friends_env = \<lparr>socialDbFails = (\<lambda>_. False), socialRejected = (\<lambda>_ _. False), socialOrder = (\<lambda>l. l)\<rparr>"

definition demo_login :: "u32 \<Rightarrow> u64 \<Rightarrow> string \<Rightarrow> GWLoggedIn" where
  "demo_login r g n = \<lparr>inRealmID = r, inGatewayID = ''gw'', inCharGUID = g, inCharName = n, inCharRace = 1, inCharClass = 1, inCharGender = 0,
     inCharLevel = 60, inCharZone = 12, inCharMap = 0, inCharPosX = 0, inCharPosY = 0, inCharPosZ = 0, inCharGuildID = 0, inAccountID = 1\<rparr>"

definition demo_logout :: "u32 \<Rightarrow> u64 \<Rightarrow> string \<Rightarrow> GWLoggedOut" where
  "demo_logout r g n = \<lparr>outRealmID = r, outGatewayID = ''gw'', outCharGUID = g, outCharName = n, outCharGuildID = 0, outAccountID = 1\<rparr>"

definition demo_char_server :: char_server where
  "demo_char_server = \<lparr>onlineChars = NewCharactersOnlineInMem,
     friendsServer = \<lparr>social = (\<lambda>r. if r = 1 then [\<lparr>PlayerGUID = 8, FriendGUID = 7, Flags = 1, Note = []\<rparr>] else []), onlineInfoByGUID = Map.empty\<rparr>\<rparr>"

definition demo_online :: char_server where
  "demo_online = fst (handle_event demo_friends_env (CharLoggedIn (demo_login 1 7 ''Jaina'')) demo_char_server)"




theorem friend_lists_bounded_witness:
  "7 \<notin> set (listed 1 7 (social (friendsServer (fold (\<lambda>(env, c). run_friend_call env c) [(demo_friends_env, CallAddFriend 1 7 7 [] []),
     (demo_friends_env, CallAddFriend 1 7 8 [] [])] demo_char_server)) 1))"
proof -
  have "social_ok (friendsServer demo_char_server)"
    by (auto simp: social_ok_def list_ok_def listed_def demo_char_server_def)
  moreover have "any_order demo_friends_env" by (simp add: any_order_def demo_friends_env_def)
  ultimately show ?thesis
    using friend_lists_bounded [of demo_char_server "[(demo_friends_env, CallAddFriend 1 7 7 [] []), (demo_friends_env, CallAddFriend 1 7 8 [] [])]" _ 1 7 1] by simp
qed

theorem login_tells_friends_witness:
  "\<exists>notify. snd (handle_event demo_friends_env (CharLoggedIn (demo_login 1 7 ''Jaina'')) demo_char_server) = [StatusChange 1 7 1 12 60 1 notify] \<and> set notify = {8}"
proof -
  let ?e = "demo_login 1 7 ''Jaina''"
  obtain s' ev where h: "handle_event demo_friends_env (CharLoggedIn ?e) demo_char_server = (s', ev)" by (metis prod.exhaust)
  have o: "any_order demo_friends_env" "\<And>st. \<not> socialDbFails demo_friends_env st" by (simp_all add: any_order_def demo_friends_env_def)
  have "{p. \<exists>x\<in>set (social (friendsServer demo_char_server) 1). PlayerGUID x = p \<and> FriendGUID x = 7 \<and> Flags x = SocialFlagFriend} = {8}"
    by (simp add: demo_char_server_def)
  then have "\<exists>notify. ev = [StatusChange 1 7 1 12 60 1 notify] \<and> set notify = {8}"
    using login_tells_friends [OF o h, of "\<lparr>PlayerGUID = 8, FriendGUID = 7, Flags = 1, Note = []\<rparr>"]
    by (simp add: demo_login_def demo_char_server_def)
  then show ?thesis by (simp only: h snd_conv)
qed

section \<open>Where the server fails\<close>

text \<open>The name of a character stays findable after he logged out, unless it is spelled in capitals.\<close>

lemma logged_out_found_by_name:
  "let s = onlineChars (fst (handle_event demo_friends_env (CharLoggedOut (demo_logout 1 7 ''Jaina'')) demo_online))
   in OneByRealmAndGUID 1 7 s = None \<and> map_option CharGUID (OneByRealmAndName 1 ''jaina'' s) = Some 7"
  by code_simp

text \<open>A character lost with his gateway stays online for his friends, and so does one whose GUID logs out in another realm not.\<close>

lemma lost_gateway_keeps_friend_online:
  "let s = fst (handle_event demo_friends_env (GatewayLost [7] 1 ''gw'') demo_online)
   in OneByRealmAndGUID 1 7 (onlineChars s) = None \<and>
      map_option (map fStatus \<circ> fst) (GetFriendsList demo_friends_env 1 8 (friendsServer s)) = Some [1]"
  by code_simp

lemma other_realm_logs_friend_out:
  "let s = fst (handle_event demo_friends_env (CharLoggedOut (demo_logout 2 7 ''Thrall'')) demo_online)
   in OneByRealmAndGUID 1 7 (onlineChars s) \<noteq> None \<and>
      map_option (map fStatus \<circ> fst) (GetFriendsList demo_friends_env 1 8 (friendsServer s)) = Some [0]"
  by code_simp

text \<open>The levels of a who request wrap at 8 bits: nobody of level 60 is between 1 and 300.\<close>

lemma who_level_wraps:
  "fst (WhoQuery (\<lambda>_. None) [7] 1 \<lparr>qLvlMin = 1, qLvlMax = 300, qClassMask = 0xFFFFFFFF, qRaceMask = 0xFFFFFFFF, qZones = [], qStrings = []\<rparr>
     (onlineChars demo_online)) = 0"
  by code_simp

text \<open>An equipment with fewer than 45 numbers panics, and one item without a template hides all characters of the account.\<close>

lemma short_equipment_panics: "scan_equipment [] = None"
  by code_simp

lemma unknown_item_hides_account:
  assumes "templates item = None" "item \<noteq> 0"
  shows "CharactersToLoginForAccount templates (Some [(c, format_equipment (replicate 23 (0, 0)), 0),
    (c', format_equipment (replicate 23 (item, 0)), 0)]) = CharError"
proof -
  have "scan_equipment (format_equipment (replicate 23 (i, 0))) = Some (replicate 23 i, replicate 23 0)" for i
    using scan_slots_format [of "replicate 23 (i, 0)"] by (simp add: scan_equipment_def)
  moreover have "equipment_displays templates (replicate 23 item) = None" using assms by (simp add: numeral_eq_Suc)
  ultimately show ?thesis
    by (auto simp: CharactersToLoginForAccount_def ListCharactersToLogIn_def split: option.splits)
qed

text \<open>Two calls that check the list before either inserts fill it beyond its limit.\<close>

lemma overlapping_adds_exceed_limit:
  assumes "length entries = 49" "\<forall>e\<in>set entries. Flags e = SocialFlagFriend \<and> PlayerGUID e = 1 \<and> FriendGUID e \<notin> {2, 3}"
    and "\<And>st. \<not> socialDbFails env st" "\<And>rows e. \<not> socialRejected env rows e" "social s 1 = entries"
  shows "list_check SocialFlagFriend MaxFriendsLimit FriendResultAlready FriendResultListFull 2 entries = None \<and>
    list_check SocialFlagFriend MaxFriendsLimit FriendResultAlready FriendResultListFull 3 entries = None \<and>
    length (listed 1 1 (social (fst (store_friend env 1 1 3 [] [] (fst (store_friend env 1 1 2 [] [] s)))) 1)) = 51"
proof -
  have all: "filter (\<lambda>e. Flags e = 1) entries = entries" "filter (\<lambda>e. PlayerGUID e = 1 \<and> Flags e = 1) entries = entries"
    using assms(2) by (auto intro: filter_True)
  then show ?thesis using assms
    by (auto simp: list_check_def Let_def store_friend_def insert_social_def put_social_def listed_def)
qed

text \<open>A character who is not online is answered with realm 0.\<close>

lemma offline_character_without_realm:
  "map_option (map_option (RealmID \<circ> fst)) (CharacterByName (\<lambda>n. Some [the (OneByRealmAndGUID 1 7 (onlineChars demo_online))]) 1 ''jaina'' NewCharactersOnlineInMem)
    = Some (Some 0)"
  by code_simp

end
