(* ===== verification/Spec2Isabelle.thy ===== *)
theory Spec2Isabelle
  imports Guid_Service Guid_Provider Layers Battleground_Service Group_Service Group_Locks Chat_Manager
    Auction_Instances Auction_Listing Guild_Guarantees Mail_Guarantees Char_Guarantees
begin

text \<open>
  ToCloud9 runs a World of Warcraft realm as a set of Go services around one or more game servers.
  Players connect to a gateway, which talks to the services by gRPC; the services share state through
  redis and MySQL and tell each other what happened by NATS events. This library models the services
  whose own logic decides whether the cluster is consistent, and proves what that logic promises.

  \<^bold>\<open>The parts and how they interact.\<close>

  \<^item> The guid server (\<^verbatim>\<open>apps/guidserver\<close>) hands out ranges of unused GUIDs to game servers. It takes
    ranges from counters in redis and caches them. A game server walks through its ranges with the
    provider in \<^verbatim>\<open>game-server/libsidecar/guids\<close>.
  \<^item> The servers registry (\<^verbatim>\<open>apps/servers-registry\<close>) knows the game servers, distributes the maps of the
    world among them, puts copies of a map on several servers (layers) and keeps the members of a group
    on one layer.
  \<^item> The matchmaking server (\<^verbatim>\<open>apps/matchmakingserver\<close>) queues groups of players for battlegrounds and
    invites them to new and running ones.
  \<^item> The group server (\<^verbatim>\<open>apps/groupserver\<close>) keeps parties and raids in memory over MySQL tables.
  \<^item> The chat server (\<^verbatim>\<open>apps/chatserver\<close>) keeps chat channels in memory over MySQL tables; several
    instances repeat each other's joins and leaves.
  \<^item> The auction house (\<^verbatim>\<open>apps/auctionhouse\<close>) keeps the auctions of every realm in memory over the MySQL
    table of the realm, sends items and money by the mail server, and tells other instances by events.
  \<^item> The guild server (\<^verbatim>\<open>apps/guildserver\<close>) keeps guilds, their ranks and members in memory over MySQL
    tables and follows the players who log in and out of the gateways.
  \<^item> The mail server (\<^verbatim>\<open>apps/mailserver\<close>) keeps mails with money and items in MySQL and returns or deletes
    those that expire.
  \<^item> The character server (\<^verbatim>\<open>apps/charserver\<close>) follows who is online, answers who requests, lists the
    characters of an account, and keeps lists of friends.

  \<^bold>\<open>The theories.\<close> Each theory states at its top which files it models. Definitions keep the names of
  the source; a piece of a long function that has a definition of its own is named after what it does.

  \<^item> \<open>Cloud9_Prelude\<close>: the machine integers, cutting elements out of slices, decimal formatting and IEEE
    rounding, with the lemmas all components use; \<open>Go_Strings\<close>: the functions on strings.
  \<^item> \<open>Guid_Diapasons\<close>, \<open>Guid_Storage\<close>, \<open>Guid_Service\<close>, \<open>Guid_Provider\<close>: cached ranges at 64 bits
    (\<^verbatim>\<open>guid-diapasons.go\<close>), the redis counters with optimistic transactions
    (\<^verbatim>\<open>redis-max-guid-storage.go\<close>), the service with its goroutines as a step relation on a cluster of
    servers over one redis (\<^verbatim>\<open>guid.go\<close>), and the provider (\<^verbatim>\<open>guids.go\<close>).
  \<^item> \<open>Game_Server_Repo\<close>, \<open>Map_Balancer\<close>, \<open>Game_Servers\<close>, \<open>Layers\<close>: the redis repository of game servers,
    the bin packing of maps (\<^verbatim>\<open>mapbalancing/binpack\<close>), the registry service
    (\<^verbatim>\<open>service/game-server.go\<close>), and the selection of layers (\<^verbatim>\<open>service/layer.go\<close>,
    \<^verbatim>\<open>repo/layer_redis.go\<close>) with replicas interleaving on redis.
  \<^item> \<open>Battlegrounds\<close>, \<open>Battleground_Queue\<close>, \<open>Battleground_Service\<close>: battlegrounds and their repository,
    the queues with the search for balanced teams, and every handler of \<^verbatim>\<open>battleground_service.go\<close>.
  \<^item> \<open>Group_Cache\<close>, \<open>Group_Service\<close>, \<open>Group_Locks\<close>: the cache and the tables, every handler of
    \<^verbatim>\<open>service/group.go\<close>, and the reference-counted locks by which handlers of one group exclude each other.
  \<^item> \<open>Chat_Channels\<close>, \<open>Chat_Ownership\<close>, \<open>Chat_Manager\<close>: the tables and the methods of a channel
    (\<^verbatim>\<open>repo/channels_mysql.go\<close>, \<^verbatim>\<open>service/channel-manager.go\<close>), their invariant under every order of
    methods, and the manager with its commands and the listener for other instances.
  \<^item> \<open>Auction_House\<close>, \<open>Auction_Ledger\<close>, \<open>Auction_Instances\<close>, \<open>Auction_Listing\<close>: the table, the service with its
    mails and events (\<^verbatim>\<open>repo/auction_mysql.go\<close>, \<^verbatim>\<open>service/auction.go\<close>), the books of a realm, overlapping and
    failing calls, and the pages of a listing.
  \<^item> \<open>Gateway_Events\<close>, \<open>Guild_Cache\<close>, \<open>Guild_Handlers\<close>: the updates of characters, the statements and the cache
    of guilds, whose members are shared by pointers (\<^verbatim>\<open>repo/guilds_mysql.go\<close>,
    \<^verbatim>\<open>service/guilds-cache_inmem.go\<close>), and every handler of \<^verbatim>\<open>service/guilds.go\<close> with its events.
    \<open>Guild_Invariant\<close>, \<open>Guild_Members\<close>, \<open>Guild_Ranks\<close>, \<open>Guild_Server\<close>, \<open>Guild_Guarantees\<close>: the invariant, what
    each operation keeps of it, one call of the server, and the properties of any sequence of calls.
  \<^item> \<open>Mail_Storage\<close>, \<open>Mail_Service\<close>, \<open>Mail_Invariant\<close>, \<open>Mail_Guarantees\<close>: the mail tables
    (\<^verbatim>\<open>repo/mail_mysql.go\<close>), the service (\<^verbatim>\<open>service/mail.go\<close>), sequences of calls, and overlapping ones.
  \<^item> \<open>Char_Online\<close>, \<open>Char_Friends\<close>, \<open>Char_Server\<close>, \<open>Char_Guarantees\<close>: the characters online
    (\<^verbatim>\<open>repo/online-characters_inmem.go\<close>), friends (\<^verbatim>\<open>service/friends.go\<close>, \<^verbatim>\<open>service/friends-cache.go\<close>), the characters to
    log in with and the handlers of events.

  \<^bold>\<open>How state and effects are modelled.\<close> A struct is a record, a Go map a partial function or, where its
  order or its emptiness is computed, an association list. Redis and MySQL are part of the state. Every
  statement or command that can fail takes its failure from a parameter, and the iteration order of Go
  maps, the clock, random choices and the answers of other services are parameters too; a theorem that
  does not constrain them holds for all of them. Errors are values of option or sum types, a panic is a
  value of its own. Code that holds a mutex from start to end is one step; where the code gives the lock
  up in between (requests for GUIDs, selection of layers, group locks) the steps in between are separate
  and interleave freely.

  \<^bold>\<open>What is shown.\<close>

  \<^item> GUIDs: ranges handed out by the whole cluster are disjoint as long as redis answers and no cached
    range is drained; an increment of a counter is atomic; the provider walks its ranges in order.
  \<^item> Registry: a redistribution assigns every map within the capacity of the servers; the servers
    returned for a map are exactly those that may handle it; layered maps get their copies; the members
    of a group share a server; the realm lock is exclusive; the binary search equals a linear one.
  \<^item> Matchmaking: no side of a battleground exceeds its maximum in any reachable state; teams are legal
    and backfilling keeps them balanced; players lose their links when a battleground ends.
  \<^item> Groups: memory and tables agree, nobody is in two groups, only leaders manage, anybody can leave,
    locks exclude each other and the retry loop ends once the player's group stops changing.
  \<^item> Channels: exactly one owner under any failures; the tables hold the members; bans keep players out;
    only managers manage; logging out hands a channel over; rights survive the database.
  \<^item> Auctions: without failures and overlapping calls no money is made or lost, except by the bidder who
    buys out his own bid; an expired auction is settled once; the pages of a listing cover it.
  \<^item> Guilds: the cache says what the tables say under any failures, rosters and the index of members agree,
    ranks change only by members with the right to, and the guild master stays unless he is promoted.
  \<^item> Mails: overlapping calls take the money of a mail once, no item is stranded, cash on delivery reaches the
    sender, and expiry deletes or returns exactly the mails it should.
  \<^item> Characters: the maps of characters online follow the events, lists of friends stay within their limits, a
    login reaches exactly the friends, and equipment is read back as it was written.
  \<^item> Where the code does not do what it means to, a lemma beside the component shows it on a concrete
    run, for example \<open>UseGuids_drain_reissues\<close>, \<open>leaderless_group\<close>, \<open>SetOwner_failure_loses_owner\<close> or
    \<open>double_buyout\<close>.

  \<^bold>\<open>Bounds and fuel.\<close> Integers keep their width: GUIDs and counters are 64 bit words, map ids 32 bit,
  team sizes 8 bit, member flags 8 bit, prices 32 bit; the books of the auction house are proved for prices
  below \<open>2 ^ 30\<close>, and lemmas show what wraps above. \<open>lock_rounds\<close> is a partial function in the option monad, because
  the loop it models need not end: it is proved to return once the group of the player is stable, and to
  run forever when it never is. Retries against redis take the number of attempts as an argument, as the
  code does. All other loops are structural or have a termination proof.

  \<^bold>\<open>Interfaces.\<close> Where components meet, the contract is a locale that is interpreted on the model:
  \<open>max_guid_storage\<close> is what the guid service relies on of its storage, \<open>game_server_repo\<close> what the
  registry relies on of its repository, and \<open>battleground_service\<close> what a queue relies on of the service
  that it calls back.

  \<^bold>\<open>Not modelled.\<close> The gateway's sessions, packets and sockets and the authentication server are
  socket I/O, ciphers and translation of packets. The gRPC wrappers, the start-up code, configuration,
  logging, event payloads and generated code carry data only. Names and texts are ASCII strings. In the
  chat server a channel that is removed from memory while a request still holds a pointer to it is not
  modelled. The statistics of group members, the
  registration of gateways, the packing of object GUIDs and the SQL router of the reverse proxy are the
  next components to add, in this order.
\<close>

end
